(* ===== verification/Prelude.thy ===== *)
theory Prelude
  imports Main "HOL-Library.Word" "HOL-Library.Multiset" "HOL-Library.Char_ord"
    "HOL-Library.List_Lexorder"
begin

text \<open>
  Shared ground of the development: the machine types of the C++ code, its return codes,
  the interface of an ordered \<open>std::map\<close> and of \<open>std::sort\<close>, and the generic list
  lemmas that the component theories use.
\<close>

section \<open>Types and return codes\<close>

type_synonym u8 = "8 word"
type_synonym u16 = "16 word"
type_synonym u32 = "32 word"
type_synonym u64 = "64 word"
type_synonym c_int = "32 word"  \<comment> \<open>C \<open>int\<close>: two's complement, read by \<open>sint\<close>\<close>
type_synonym c_int64 = "64 word"
type_synonym NodeId = string
type_synonym SocketId = u32
type_synonym ChipId = u32
type_synonym PortId = u32
type_synonym NumaId = u32

named_theorems sched_defs \<open>definitions of the scheduler's straight-line helpers\<close>
named_theorems frame_simps \<open>what an update leaves unchanged\<close>

text \<open>
  The return codes of \<open>ubse_error.h\<close> that the modelled code produces. The header defines
  them as \<open>uint32_t\<close> macros with pairwise distinct values; \<open>ubse_code\<close> is that value.
\<close>

datatype UbseResult =
    UBSE_OK
  | UBSE_ERROR
  | UBSE_ERROR_INVAL
  | UBSE_ERROR_CONF_INVALID
  | UBSE_SCHEDULER_ERROR_INVAL
  | UBSE_SCHEDULER_ERROR_NO_NODE_CAN_LEND
  | UBSE_SCHEDULER_ERROR_NODE_RECONCILE
  | UBSE_SCHEDULER_ERROR_SIZE_EXCEED_LEND

definition UBSE_INTERNAL_ERROR_BASE :: u32 where
  "UBSE_INTERNAL_ERROR_BASE = 10000"

fun ubse_code :: "UbseResult \<Rightarrow> u32" where
  "ubse_code UBSE_OK = 0"
| "ubse_code UBSE_ERROR = UBSE_INTERNAL_ERROR_BASE + 0"
| "ubse_code UBSE_ERROR_INVAL = UBSE_INTERNAL_ERROR_BASE + 3"
| "ubse_code UBSE_ERROR_CONF_INVALID = UBSE_INTERNAL_ERROR_BASE + 11"
| "ubse_code UBSE_SCHEDULER_ERROR_INVAL = UBSE_INTERNAL_ERROR_BASE + 800"
| "ubse_code UBSE_SCHEDULER_ERROR_NO_NODE_CAN_LEND = UBSE_INTERNAL_ERROR_BASE + 801"
| "ubse_code UBSE_SCHEDULER_ERROR_NODE_RECONCILE = UBSE_INTERNAL_ERROR_BASE + 802"
| "ubse_code UBSE_SCHEDULER_ERROR_SIZE_EXCEED_LEND = UBSE_INTERNAL_ERROR_BASE + 803"

lemma ubse_code_inj: "ubse_code a = ubse_code b \<longleftrightarrow> a = b"
  by (cases a; cases b) (simp_all add: UBSE_INTERNAL_ERROR_BASE_def)

abbreviation UINT16_MAX :: u16 where "UINT16_MAX \<equiv> - 1"
abbreviation UINT32_MAX :: u32 where "UINT32_MAX \<equiv> - 1"
abbreviation UINT64_MAX :: u64 where "UINT64_MAX \<equiv> - 1"

section \<open>Ordered maps\<close>

text \<open>
  \<open>std::map\<close> iterates in key order, and some of the code depends on it (the first NUMA of
  a socket, the first socket that holds a NUMA id). The model keeps the map as the list of
  its entries in key order. \<open>std::unordered_map\<close> is modelled as a partial function where
  the code only looks keys up, and as a list of entries in an arbitrary iteration order
  where the code loops over it.
\<close>

type_synonym ('k, 'v) omap = "('k \<times> 'v) list"

definition om_ok :: "('k::linorder, 'v) omap \<Rightarrow> bool" where
  "om_ok m \<longleftrightarrow> sorted_wrt (<) (map fst m)"

fun om_put :: "'k::linorder \<Rightarrow> 'v \<Rightarrow> ('k, 'v) omap \<Rightarrow> ('k, 'v) omap" where
  "om_put k v [] = [(k, v)]"
| "om_put k v ((k', v') # m) =
     (if k < k' then (k, v) # (k', v') # m
      else if k = k' then (k, v) # m
      else (k', v') # om_put k v m)"

definition om_erase :: "'k \<Rightarrow> ('k, 'v) omap \<Rightarrow> ('k, 'v) omap" where
  "om_erase k m = filter (\<lambda>(k', v). k' \<noteq> k) m"

definition om_upd :: "'k \<Rightarrow> ('v \<Rightarrow> 'v) \<Rightarrow> ('k, 'v) omap \<Rightarrow> ('k, 'v) omap" where
  "om_upd k f m = map (\<lambda>(k', v). (k', if k' = k then f v else v)) m"

lemma map_of_om_put: "map_of (om_put k v m) = (map_of m)(k \<mapsto> v)" if "om_ok m"
  using that by (induction k v m rule: om_put.induct) (auto simp: om_ok_def fun_eq_iff)

lemma set_keys_om_put: "fst ` set (om_put k v m) = insert k (fst ` set m)"
  by (induction k v m rule: om_put.induct) auto

lemma om_ok_put: "om_ok m \<Longrightarrow> om_ok (om_put k v m)"
proof (induction k v m rule: om_put.induct)
  case (2 k v k' v' m)
  have "\<forall>x \<in> fst ` set (om_put k v m). k' < x" if "k' < k"
    using 2 that unfolding set_keys_om_put by (auto simp: om_ok_def)
  then show ?case
    using 2 by (fastforce simp: om_ok_def)
qed (simp add: om_ok_def)

lemma map_of_om_erase: "map_of (om_erase k m) = (map_of m)(k := None)"
  by (induction m) (auto simp: om_erase_def fun_eq_iff)

lemma om_ok_erase: "om_ok m \<Longrightarrow> om_ok (om_erase k m)"
  by (induction m) (auto simp: om_ok_def om_erase_def)

lemma map_of_om_upd: "map_of (om_upd k f m) = (map_of m)(k := map_option f (map_of m k))"
  by (induction m) (auto simp: om_upd_def fun_eq_iff)

lemma keys_om_upd [simp]: "map fst (om_upd k f m) = map fst m"
  by (induction m) (auto simp: om_upd_def)

lemma om_ok_upd: "om_ok (om_upd k f m) = om_ok m"
  by (simp add: om_ok_def)

lemma om_ok_Nil [simp]: "om_ok []"
  by (simp add: om_ok_def)

lemma om_ok_distinct: "om_ok m \<Longrightarrow> distinct (map fst m)"
  by (induction m) (auto simp: om_ok_def)

text \<open>The laws of the map that its clients rely on.\<close>

locale std_map =
  fixes find_in :: "'m \<Rightarrow> 'k \<Rightarrow> 'v option"
    and put :: "'k \<Rightarrow> 'v \<Rightarrow> 'm \<Rightarrow> 'm"
    and erase :: "'k \<Rightarrow> 'm \<Rightarrow> 'm"
    and upd :: "'k \<Rightarrow> ('v \<Rightarrow> 'v) \<Rightarrow> 'm \<Rightarrow> 'm"
    and none :: 'm
    and inv_map :: "'m \<Rightarrow> bool"
  assumes find_none: "find_in none = Map.empty"
    and find_put: "inv_map m \<Longrightarrow> find_in (put k v m) = (find_in m)(k \<mapsto> v)"
    and find_erase: "inv_map m \<Longrightarrow> find_in (erase k m) = (find_in m)(k := None)"
    and find_upd: "inv_map m \<Longrightarrow> find_in (upd k f m) = (find_in m)(k := map_option f (find_in m k))"
    and inv_none: "inv_map none"
    and inv_put: "inv_map m \<Longrightarrow> inv_map (put k v m)"
    and inv_erase: "inv_map m \<Longrightarrow> inv_map (erase k m)"
    and inv_upd: "inv_map m \<Longrightarrow> inv_map (upd k f m)"
begin

lemma find_put_same: "inv_map m \<Longrightarrow> find_in (put k v m) k = Some v"
  by (simp add: find_put)

lemma find_put_other: "inv_map m \<Longrightarrow> k' \<noteq> k \<Longrightarrow> find_in (put k v m) k' = find_in m k'"
  by (simp add: find_put)

lemma find_erase_same: "inv_map m \<Longrightarrow> find_in (erase k m) k = None"
  by (simp add: find_erase)

lemma erase_put: "inv_map m \<Longrightarrow> find_in (erase k (put k v m)) = (find_in m)(k := None)"
  by (simp add: find_erase find_put inv_put)

lemma find_upd_other: "inv_map m \<Longrightarrow> k' \<noteq> k \<Longrightarrow> find_in (upd k f m) k' = find_in m k'"
  by (simp add: find_upd)

end

interpretation om: std_map map_of om_put om_erase om_upd "[]" om_ok
  by unfold_locales
    (simp_all add: map_of_om_put map_of_om_erase map_of_om_upd om_ok_put om_ok_erase om_ok_upd)

text \<open>The values of a map, with the one at a key set apart: sums over a map change at that key only.\<close>

definition om_sum :: "('v \<Rightarrow> nat) \<Rightarrow> ('k, 'v) omap \<Rightarrow> nat" where
  "om_sum f m = (\<Sum>(k, v) \<leftarrow> m. f v)"

lemma om_sum_Nil [simp]: "om_sum f [] = 0"
  and om_sum_Cons [simp]: "om_sum f ((k, v) # m) = f v + om_sum f m"
  by (simp_all add: om_sum_def)

lemma om_sum_absent: "k \<notin> fst ` set m \<Longrightarrow> om_sum f (om_erase k m) = om_sum f m"
  by (induction m) (auto simp: om_erase_def)

lemma om_sum_put:
  "om_ok m \<Longrightarrow> om_sum f (om_put k v m) + (case map_of m k of None \<Rightarrow> 0 | Some v0 \<Rightarrow> f v0) =
     om_sum f m + f v"
proof (induction k v m rule: om_put.induct)
  case (2 k v k' v' m)
  have "map_of m k = None" if "k < k'"
    using 2(2) that by (auto simp: om_ok_def map_of_eq_None_iff)
  then show ?case
    using 2 by (auto simp: om_ok_def split: option.splits)
qed simp

lemma om_sum_erase:
  "distinct (map fst m) \<Longrightarrow>
     om_sum f (om_erase k m) + (case map_of m k of None \<Rightarrow> 0 | Some v0 \<Rightarrow> f v0) = om_sum f m"
proof (induction m)
  case (Cons a m)
  obtain k' v' where [simp]: "a = (k', v')" by force
  show ?case
  proof (cases "k' = k")
    case True
    then show ?thesis
      using Cons.prems om_sum_absent [of k m f] by (simp add: om_erase_def)
  next
    case False
    with Cons show ?thesis
      by (simp add: om_erase_def)
  qed
qed (simp add: om_erase_def)

section \<open>Sorting with a comparator\<close>

text \<open>
  \<open>std::sort\<close> takes a strict weak order and returns some permutation of its input that the
  order does not contradict. It is not stable, so which permutation is not determined when
  the comparator has ties. Code that sorts objects with ties takes the sort as an argument,
  and its theorems hold for every sort that obeys the two laws of \<open>std_sort\<close>.
\<close>

definition strict_weak :: "('a \<Rightarrow> 'a \<Rightarrow> bool) \<Rightarrow> bool" where
  "strict_weak lt \<longleftrightarrow>
     (\<forall>a. \<not> lt a a) \<and> (\<forall>a b c. lt a b \<longrightarrow> lt b c \<longrightarrow> lt a c) \<and>
     (\<forall>a b c. \<not> lt a b \<longrightarrow> \<not> lt b c \<longrightarrow> \<not> lt a c)"

lemma strict_weak_irrefl: "strict_weak lt \<Longrightarrow> \<not> lt a a"
  by (simp add: strict_weak_def)

lemma strict_weak_trans: "strict_weak lt \<Longrightarrow> lt a b \<Longrightarrow> lt b c \<Longrightarrow> lt a c"
  unfolding strict_weak_def by blast

lemma strict_weak_neg_trans: "strict_weak lt \<Longrightarrow> \<not> lt a b \<Longrightarrow> \<not> lt b c \<Longrightarrow> \<not> lt a c"
  unfolding strict_weak_def by blast

lemma strict_weak_asym: "strict_weak lt \<Longrightarrow> lt a b \<Longrightarrow> \<not> lt b a"
  using strict_weak_irrefl strict_weak_trans by metis

lemma strict_weak_key: "strict_weak (\<lambda>a b. (f a :: 'b::linorder) < f b)"
  by (auto simp: strict_weak_def)

lemma strict_weak_key_desc: "strict_weak (\<lambda>a b. (f a :: 'b::linorder) > f b)"
  by (auto simp: strict_weak_def)

lemma strict_weak_lex_desc:
  "strict_weak (\<lambda>a b. if (f a :: 'b::linorder) \<noteq> f b then f a < f b else (g a :: 'c::linorder) > g b)"
  unfolding strict_weak_def by (auto split: if_splits)

locale std_sort =
  fixes srt :: "('a \<Rightarrow> 'a \<Rightarrow> bool) \<Rightarrow> 'a list \<Rightarrow> 'a list"
  assumes srt_perm: "strict_weak lt \<Longrightarrow> mset (srt lt xs) = mset xs"
    and srt_ordered: "strict_weak lt \<Longrightarrow> sorted_wrt (\<lambda>a b. \<not> lt b a) (srt lt xs)"
begin

lemma set_srt: "strict_weak lt \<Longrightarrow> set (srt lt xs) = set xs"
  by (metis srt_perm set_mset_mset)

lemma length_srt: "strict_weak lt \<Longrightarrow> length (srt lt xs) = length xs"
  by (metis srt_perm size_mset)

lemma srt_Nil: "strict_weak lt \<Longrightarrow> srt lt xs = [] \<longleftrightarrow> xs = []"
  by (metis length_srt length_0_conv)

lemma hd_least:
  assumes lt: "strict_weak lt" and x: "x \<in> set xs"
  shows "\<not> lt x (hd (srt lt xs))"
proof -
  from x have "x \<in> set (srt lt xs)" by (simp add: set_srt [OF lt])
  then obtain y ys where eq: "srt lt xs = y # ys" and "x = y \<or> x \<in> set ys"
    by (cases "srt lt xs") auto
  then show ?thesis
    using srt_ordered [OF lt, of xs] strict_weak_irrefl [OF lt, of y] by auto
qed

lemma sum_list_srt: "strict_weak lt \<Longrightarrow> sum_list (map f (srt lt xs)) = sum_list (map (f :: 'a \<Rightarrow> nat) xs)"
  by (metis srt_perm mset_map sum_mset_sum_list)

end

fun ins_by :: "('a \<Rightarrow> 'a \<Rightarrow> bool) \<Rightarrow> 'a \<Rightarrow> 'a list \<Rightarrow> 'a list" where
  "ins_by lt x [] = [x]"
| "ins_by lt x (y # ys) = (if lt y x then y # ins_by lt x ys else x # y # ys)"

definition isort_by :: "('a \<Rightarrow> 'a \<Rightarrow> bool) \<Rightarrow> 'a list \<Rightarrow> 'a list" where
  "isort_by lt xs = foldr (ins_by lt) xs []"

lemma mset_ins_by: "mset (ins_by lt x ys) = add_mset x (mset ys)"
  by (induction ys) auto

lemma set_ins_by: "set (ins_by lt x ys) = insert x (set ys)"
  by (metis mset_ins_by set_mset_add_mset_insert set_mset_mset)

lemma sorted_ins_by:
  assumes "strict_weak lt" and "sorted_wrt (\<lambda>a b. \<not> lt b a) ys"
  shows "sorted_wrt (\<lambda>a b. \<not> lt b a) (ins_by lt x ys)"
  using assms(2)
proof (induction ys)
  case (Cons y ys)
  have trans: "\<not> lt z x" if "\<not> lt y x" and "\<not> lt z y" for z
    using strict_weak_neg_trans [OF assms(1)] that by blast
  show ?case
  proof (cases "lt y x")
    case True
    with Cons strict_weak_asym [OF assms(1) True] show ?thesis by (auto simp: set_ins_by)
  next
    case False
    with Cons trans show ?thesis by auto
  qed
qed simp

lemma mset_isort_by: "mset (isort_by lt xs) = mset xs"
  by (induction xs) (auto simp: isort_by_def mset_ins_by)

lemma sorted_isort_by: "strict_weak lt \<Longrightarrow> sorted_wrt (\<lambda>a b. \<not> lt b a) (isort_by lt xs)"
  by (induction xs) (auto simp: isort_by_def sorted_ins_by)

interpretation isort: std_sort isort_by
  by unfold_locales (auto simp: mset_isort_by sorted_isort_by)

section \<open>Lists\<close>

lemma distinct_map_of_iff:
  "distinct (map fst m) \<Longrightarrow> map_of m k = Some v \<longleftrightarrow> (k, v) \<in> set m"
  by auto

lemma subseq_len_filter: "length (filter P xs) \<le> length xs"
  by (rule length_filter_le)

lemma sum_list_pos_member: "x \<in> set xs \<Longrightarrow> f x \<le> sum_list (map (f :: 'a \<Rightarrow> nat) xs)"
  by (induction xs) auto

lemma fold_invariant_simple:
  assumes "P s" and "\<And>x s. x \<in> set xs \<Longrightarrow> P s \<Longrightarrow> P (f x s)"
  shows "P (fold f xs s)"
  using assms by (induction xs arbitrary: s) auto

end
