(* ===== verification/MathUtil.thy ===== *)
theory MathUtil
  imports Prelude
begin

unbundle bit_operations_syntax

text \<open>
  The checked arithmetic of \<open>framework/misc/ubse_math_util.h\<close>. Each function returns the
  C++ return value and the value left in the \<open>result\<close> reference: the compiler builtins
  store the wrapped result also when they report an overflow.
\<close>

section \<open>Checked operations\<close>

definition SafeAdd :: "'a::len word \<Rightarrow> 'a word \<Rightarrow> bool \<times> 'a word" where
  "SafeAdd a b = (unat a + unat b < 2 ^ LENGTH('a), a + b)"

definition SafeSub :: "'a::len word \<Rightarrow> 'a word \<Rightarrow> bool \<times> 'a word" where
  "SafeSub a b = (unat b \<le> unat a, a - b)"

definition mul_ok :: "u64 \<Rightarrow> u64 \<Rightarrow> bool \<times> u64" where
  \<comment> \<open>negation of \<open>__builtin_mul_overflow\<close>\<close>
  "mul_ok a b = (unat a * unat b < 2 ^ 64, a * b)"

definition BYTES_PER_KB :: nat where "BYTES_PER_KB = 10"
definition BYTES_PER_MB :: nat where "BYTES_PER_MB = 20"
definition BYTES_PER_GB :: nat where "BYTES_PER_GB = 30"

definition SizeByte2Mb :: "u64 \<Rightarrow> u64" where
  "SizeByte2Mb sz = drop_bit BYTES_PER_MB sz"

definition SizeMb2Byte :: "u64 \<Rightarrow> bool \<times> u64" where
  "SizeMb2Byte sz = mul_ok sz (push_bit BYTES_PER_MB 1)"

definition SizeKb2Byte :: "u64 \<Rightarrow> bool \<times> u64" where
  "SizeKb2Byte sz = mul_ok sz (push_bit BYTES_PER_KB 1)"

definition SizeGb2Byte :: "u64 \<Rightarrow> bool \<times> u64" where
  "SizeGb2Byte sz = mul_ok sz (push_bit BYTES_PER_GB 1)"

text \<open>
  The two idioms built on them all over the scheduler: add (or subtract) and keep the old
  value when the operation would overflow.
\<close>

definition add_keep :: "'a::len word \<Rightarrow> 'a word \<Rightarrow> 'a word" where
  "add_keep x v = (case SafeAdd x v of (ok, r) \<Rightarrow> if ok then r else x)"

definition sub_keep :: "'a::len word \<Rightarrow> 'a word \<Rightarrow> 'a word" where
  "sub_keep x v = (case SafeSub x v of (ok, r) \<Rightarrow> if ok then r else x)"

section \<open>Their meaning on the numbers the words stand for\<close>

lemma unat_add_fits: "unat a + unat b < 2 ^ LENGTH('a) \<Longrightarrow> unat (a + b) = unat a + unat b"
  for a b :: "'a::len word"
  by (metis unat_word_ariths(1) mod_less)

lemma SafeAdd_ok: "fst (SafeAdd a b) \<longleftrightarrow> unat a + unat b < 2 ^ LENGTH('a)"
  for a b :: "'a::len word"
  by (simp add: SafeAdd_def)

lemma SafeAdd_val: "SafeAdd a b = (True, r) \<Longrightarrow> unat r = unat a + unat b"
  by (auto simp: SafeAdd_def unat_add_fits)

lemma SafeAdd_True_iff: "SafeAdd a b = (True, r) \<longleftrightarrow> unat a + unat b < 2 ^ LENGTH('a) \<and> r = a + b"
  for a b :: "'a::len word"
  by (auto simp: SafeAdd_def)

lemma SafeSub_val: "SafeSub a b = (True, r) \<Longrightarrow> unat r = unat a - unat b \<and> unat b \<le> unat a"
  by (auto simp: SafeSub_def unat_sub word_le_nat_alt)

lemma unat_add_keep:
  "unat (add_keep x v) = (if unat x + unat v < 2 ^ LENGTH('a) then unat x + unat v else unat x)"
  for x v :: "'a::len word"
  by (simp add: add_keep_def SafeAdd_def unat_add_fits)

lemma unat_add_keep_fits:
  "unat x + unat v < 2 ^ LENGTH('a) \<Longrightarrow> unat (add_keep x v) = unat x + unat v"
  for x v :: "'a::len word"
  by (simp add: unat_add_keep)

lemma unat_sub_keep:
  "unat (sub_keep x v) = (if unat v \<le> unat x then unat x - unat v else unat x)"
  for x v :: "'a::len word"
  by (simp add: sub_keep_def SafeSub_def unat_sub word_le_nat_alt)

lemma add_keep_ge: "x \<le> add_keep x v"
  for x v :: "'a::len word"
  by (simp add: word_le_nat_alt unat_add_keep)

lemma sub_keep_le: "sub_keep x v \<le> x"
  for x v :: "'a::len word"
  by (simp add: word_le_nat_alt unat_sub_keep)

lemma sub_add_keep:
  "unat x + unat v < 2 ^ LENGTH('a) \<Longrightarrow> sub_keep (add_keep x v) v = x"
  for x v :: "'a::len word"
  by (simp add: add_keep_def sub_keep_def SafeAdd_def SafeSub_def unat_add_fits)

lemma unat_mul_fits: "unat a * unat b < 2 ^ 64 \<Longrightarrow> unat (a * b) = unat a * unat b"
  for a b :: u64
  using unat_word_ariths(2) [of a b] by simp

lemma Size2Byte_mul:
  "SizeKb2Byte s = mul_ok s 0x400"
  "SizeMb2Byte s = mul_ok s 0x100000"
  "SizeGb2Byte s = mul_ok s 0x40000000"
  by (simp_all add: SizeKb2Byte_def SizeMb2Byte_def SizeGb2Byte_def
        BYTES_PER_KB_def BYTES_PER_MB_def BYTES_PER_GB_def)

lemma SizeMb2Byte_val: "SizeMb2Byte s = (True, r) \<Longrightarrow> unat r = unat s * 2 ^ 20"
  using unat_mul_fits [of s "0x100000"] by (auto simp: Size2Byte_mul mul_ok_def)

lemma SizeMb2Byte_ok_iff: "fst (SizeMb2Byte s) \<longleftrightarrow> unat s < 2 ^ 44"
  by (simp add: Size2Byte_mul mul_ok_def)

lemma unat_u32_less: "unat (x :: u32) < 2 ^ 32"
  using unsigned_less [of x] by simp

lemma unat_u64_less: "unat (x :: u64) < 2 ^ 64"
  using unsigned_less [of x] by simp

lemma unat_ucast_u32_u64: "unat (ucast (x :: u32) :: u64) = unat x"
  using unat_u32_less [of x] by (simp add: unsigned_ucast_eq take_bit_nat_eq_self)

lemma SizeMb2Byte_u32: "SizeMb2Byte (ucast (x :: u32)) = (True, ucast x * 0x100000)"
  using unat_u32_less [of x] by (simp add: Size2Byte_mul mul_ok_def unat_ucast_u32_u64)

lemma unat_mb_of_u32: "unat (ucast (x :: u32) * 0x100000 :: u64) = unat x * 2 ^ 20"
  using SizeMb2Byte_val [OF SizeMb2Byte_u32] by (simp add: unat_ucast_u32_u64)

lemma SizeByte2Mb_Mb2Byte: "SizeMb2Byte s = (True, r) \<Longrightarrow> SizeByte2Mb r = s"
proof -
  assume *: "SizeMb2Byte s = (True, r)"
  then have "unat r = unat s * 2 ^ 20" by (rule SizeMb2Byte_val)
  then have "unat (SizeByte2Mb r) = unat s"
    by (simp add: SizeByte2Mb_def BYTES_PER_MB_def drop_bit_eq_div unat_div)
  then show ?thesis by (simp add: word_unat_eq_iff)
qed

section \<open>Rounding down and up to whole blocks\<close>

lemma unat_round_down: "unat (a div b * b) = unat a div unat b * unat b"
  for a b :: u64
proof -
  have "unat a div unat b * unat b \<le> unat a" by (simp add: div_times_less_eq_dividend)
  also have "\<dots> < 2 ^ 64" by (rule unat_u64_less)
  finally show ?thesis
    using unat_mul_fits [of "a div b" b] by (simp add: unat_div)
qed

lemma round_down_le: "a div b * b \<le> a"
  for a b :: u64
  by (simp add: word_le_nat_alt unat_round_down div_times_less_eq_dividend)

lemma dvd_round_down: "unat b dvd unat (a div b * b)"
  for a b :: u64
  by (simp add: unat_round_down)

section \<open>Running sums that skip what would overflow\<close>

lemma add_keep_0_iff [simp]: "add_keep x v = 0 \<longleftrightarrow> x = 0 \<and> v = 0"
  for x v :: "'a::len word"
proof -
  have "unat (add_keep x v) = 0 \<longleftrightarrow> unat x = 0 \<and> unat v = 0"
    using unsigned_less [of v] by (auto simp: unat_add_keep)
  then show ?thesis by (simp add: unsigned_eq_0_iff)
qed

lemma foldl_add_keep_0_iff:
  "foldl (\<lambda>t x. add_keep t (f x)) a xs = 0 \<longleftrightarrow> a = 0 \<and> (\<forall>x \<in> set xs. f x = 0)"
  for f :: "'b \<Rightarrow> 'a::len word"
  by (induction xs arbitrary: a) auto

lemma foldl_add_keep_le:
  "unat (foldl (\<lambda>t x. add_keep t (f x)) a xs) \<le> unat a + (\<Sum>x \<leftarrow> xs. unat (f x))"
  for f :: "'b \<Rightarrow> 'a::len word"
proof (induction xs arbitrary: a)
  case (Cons x xs)
  have "unat (foldl (\<lambda>t x. add_keep t (f x)) a (x # xs)) \<le>
      unat (add_keep a (f x)) + (\<Sum>x \<leftarrow> xs. unat (f x))"
    using Cons.IH [of "add_keep a (f x)"] by simp
  also have "unat (add_keep a (f x)) \<le> unat a + unat (f x)"
    by (simp add: unat_add_keep)
  finally show ?case by simp
qed simp

lemma foldl_add_keep_exact:
  "unat a + (\<Sum>x \<leftarrow> xs. unat (f x)) < 2 ^ LENGTH('a) \<Longrightarrow>
     unat (foldl (\<lambda>t x. add_keep t (f x)) a xs) = unat a + (\<Sum>x \<leftarrow> xs. unat (f x))"
  for f :: "'b \<Rightarrow> 'a::len word"
proof (induction xs arbitrary: a)
  case (Cons x xs)
  then have "unat (add_keep a (f x)) = unat a + unat (f x)"
    by (intro unat_add_keep_fits) simp
  with Cons show ?case by simp
qed simp

lemma foldl_sub_keep_exact:
  "(\<Sum>x \<leftarrow> xs. unat (f x)) \<le> unat a \<Longrightarrow>
     unat (foldl (\<lambda>t x. sub_keep t (f x)) a xs) = unat a - (\<Sum>x \<leftarrow> xs. unat (f x))"
  for f :: "'b \<Rightarrow> 'a::len word"
proof (induction xs arbitrary: a)
  case (Cons x xs)
  then have "unat (sub_keep a (f x)) = unat a - unat (f x)"
    by (simp add: unat_sub_keep)
  with Cons show ?case by simp
qed simp

end
