(* ===== verification/StrUtil.thy ===== *)
theory StrUtil
  imports Prelude "HOL-Library.Sublist"
begin

text \<open>
  The string helpers of \<open>framework/misc/ubse_str_util.cpp\<close>: splitting, host-name checking,
  number parsing (with the C library's \<open>strtoul\<close> family, which the code calls), trimming,
  shell quoting and hexadecimal digits. A \<open>std::string\<close> is the list of its bytes.
\<close>

section \<open>Searching and splitting\<close>

definition substr :: "string \<Rightarrow> nat \<Rightarrow> nat \<Rightarrow> string" where
  "substr s pos n = take n (drop pos s)"

function str_find :: "string \<Rightarrow> string \<Rightarrow> nat \<Rightarrow> nat option" where
  \<comment> \<open>\<open>src.find(sep, pos)\<close>; \<open>None\<close> is \<open>npos\<close>\<close>
  "str_find src sep pos =
     (if length src < pos + length sep then None
      else if take (length sep) (drop pos src) = sep then Some pos
      else str_find src sep (Suc pos))"
  by pat_completeness auto
termination
  by (relation "measure (\<lambda>(src, sep, pos). Suc (length src) - pos)") auto

declare str_find.simps [simp del]

definition find_first_of :: "string \<Rightarrow> char list \<Rightarrow> nat \<Rightarrow> nat option" where
  "find_first_of s cs pos =
     (let n = length (takeWhile (\<lambda>c. c \<notin> set cs) (drop pos s))
      in if pos + n < length s then Some (pos + n) else None)"

lemma str_find_SomeD:
  assumes "str_find src sep pos = Some i"
  shows "pos \<le> i" and "i + length sep \<le> length src" and "take (length sep) (drop i src) = sep"
    and "\<forall>j. pos \<le> j \<longrightarrow> j < i \<longrightarrow> take (length sep) (drop j src) \<noteq> sep"
proof -
  have "pos \<le> i \<and> i + length sep \<le> length src \<and> take (length sep) (drop i src) = sep \<and>
      (\<forall>j. pos \<le> j \<longrightarrow> j < i \<longrightarrow> take (length sep) (drop j src) \<noteq> sep)"
    using assms
  proof (induction src sep pos rule: str_find.induct)
    case (1 src sep pos)
    show ?case
    proof (cases "take (length sep) (drop pos src) = sep")
      case True
      with 1(2) show ?thesis
        by (subst (asm) str_find.simps) (auto split: if_splits)
    next
      case False
      with 1(2) have len: "\<not> length src < pos + length sep" and rec: "str_find src sep (Suc pos) = Some i"
        by (auto simp: str_find.simps [of src sep pos] split: if_splits)
      from 1(1) [OF len False rec] False show ?thesis
        by (metis Suc_leD Suc_leI le_neq_implies_less)
    qed
  qed
  then show "pos \<le> i" and "i + length sep \<le> length src" and "take (length sep) (drop i src) = sep"
    and "\<forall>j. pos \<le> j \<longrightarrow> j < i \<longrightarrow> take (length sep) (drop j src) \<noteq> sep"
    by blast+
qed

lemma str_find_NoneD:
  "str_find src sep pos = None \<Longrightarrow> pos \<le> j \<Longrightarrow> j + length sep \<le> length src \<Longrightarrow>
     take (length sep) (drop j src) \<noteq> sep"
proof (induction src sep pos rule: str_find.induct)
  case (1 src sep pos)
  then have len: "\<not> length src < pos + length sep" by simp
  with 1(2) have neq: "take (length sep) (drop pos src) \<noteq> sep"
    and rec: "str_find src sep (Suc pos) = None"
    by (auto simp: str_find.simps [of src sep pos] split: if_splits)
  show ?case
    using 1(1) [OF len neq rec] 1(3,4) neq by (cases "j = pos") auto
qed

lemma str_find_empty_sep: "pos \<le> length src \<Longrightarrow> str_find src [] pos = Some pos"
  by (subst str_find.simps) simp

function split_from :: "string \<Rightarrow> string \<Rightarrow> nat \<Rightarrow> string list" where
  \<comment> \<open>the loop of \<open>Split\<close> from position \<open>pos1\<close>, and the piece after the last separator\<close>
  "split_from src sep pos1 =
     (if sep = [] then []
      else case str_find src sep pos1 of
        Some pos2 \<Rightarrow> substr src pos1 (pos2 - pos1) # split_from src sep (pos2 + length sep)
      | None \<Rightarrow> if pos1 \<noteq> length src then [drop pos1 src] else [])"
  by pat_completeness auto
termination
proof (relation "measure (\<lambda>(src, sep, pos). Suc (length src) - pos)", goal_cases)
  case (2 src sep pos1 pos2)
  then show ?case
    using str_find_SomeD(1,2) [of src sep pos1 pos2] by (cases sep) auto
qed simp

declare split_from.simps [simp del]

definition Split :: "string \<Rightarrow> string \<Rightarrow> string list \<Rightarrow> string list" where
  "Split src sep out = (if sep = [] then out else out @ split_from src sep 0)"

definition Split_set :: "string \<Rightarrow> string \<Rightarrow> string set \<Rightarrow> string set" where
  "Split_set src sep out = (if sep = [] then out else out \<union> set (split_from src sep 0))"

text \<open>\<open>StrSplit\<close> has the same loop and no guard for an empty separator.\<close>

partial_function (option) strsplit_loop ::
  "string \<Rightarrow> string \<Rightarrow> nat \<Rightarrow> string list \<Rightarrow> string list option" where
  "strsplit_loop src sep startPos out =
     (case str_find src sep startPos of
        Some endPos \<Rightarrow> strsplit_loop src sep (endPos + length sep)
          (out @ [substr src startPos (endPos - startPos)])
      | None \<Rightarrow> Some (if startPos \<noteq> length src then out @ [drop startPos src] else out))"

definition StrSplit :: "string \<Rightarrow> string \<Rightarrow> string list \<Rightarrow> string list option" where
  "StrSplit src sep out = strsplit_loop src sep 0 out"

lemma strsplit_loop_eq:
  "sep \<noteq> [] \<Longrightarrow> strsplit_loop src sep pos out = Some (out @ split_from src sep pos)"
proof (induction src sep pos arbitrary: out rule: split_from.induct)
  case (1 src sep pos1)
  show ?case
  proof (cases "str_find src sep pos1")
    case None
    with 1(2) show ?thesis
      by (simp add: strsplit_loop.simps [of src sep pos1] split_from.simps [of src sep pos1])
  next
    case (Some pos2)
    with 1 show ?thesis
      by (simp add: strsplit_loop.simps [of src sep pos1] split_from.simps [of src sep pos1])
  qed
qed

lemma strsplit_loop_empty_sep:
  assumes "pos \<le> length src"
  shows "strsplit_loop src [] pos out = None"
proof (rule ccontr)
  assume "strsplit_loop src [] pos out \<noteq> None"
  then obtain r where ret: "strsplit_loop src [] pos out = Some r" by blast
  have "sep = [] \<longrightarrow> \<not> pos \<le> length s" if "strsplit_loop s sep pos out = Some r" for s sep pos out r
  proof (rule strsplit_loop.raw_induct [where P = "\<lambda>s sep pos out r. sep = [] \<longrightarrow> \<not> pos \<le> length s",
        OF _ that])
    fix f s sep pos out r
    assume IH: "\<And>s sep pos out r. f s sep pos out = Some r \<Longrightarrow> sep = [] \<longrightarrow> \<not> pos \<le> length s"
      and eq: "(case str_find s sep pos of
          None \<Rightarrow> Some (if pos \<noteq> length s then out @ [drop pos s] else out)
        | Some e \<Rightarrow> f s sep (e + length sep) (out @ [substr s pos (e - pos)])) = Some r"
    show "sep = [] \<longrightarrow> \<not> pos \<le> length s"
    proof (intro impI notI)
      assume "sep = []" and "pos \<le> length s"
      with eq have "f s [] pos (out @ [substr s pos 0]) = Some r"
        by (simp add: str_find_empty_sep)
      with IH \<open>pos \<le> length s\<close> show False by blast
    qed
  qed
  from this [OF ret] assms show False by simp
qed

subsection \<open>What the pieces are\<close>

fun join :: "string \<Rightarrow> string list \<Rightarrow> string" where
  "join sep [] = []"
| "join sep [p] = p"
| "join sep (p # ps) = p @ sep @ join sep ps"

definition terminated :: "string \<Rightarrow> string list \<Rightarrow> string" where
  "terminated sep ps = concat (map (\<lambda>p. p @ sep) ps)"

lemma drop_at_find:
  assumes "str_find src sep pos = Some i"
  shows "drop pos src = substr src pos (i - pos) @ sep @ drop (i + length sep) src"
proof -
  have "drop pos src = take (i - pos) (drop pos src) @ drop i src"
    using str_find_SomeD(1) [OF assms] append_take_drop_id [of "i - pos" "drop pos src"] by simp
  also have "drop i src = sep @ drop (i + length sep) src"
    using str_find_SomeD(3) [OF assms]
    by (metis add.commute append_take_drop_id drop_drop)
  finally show ?thesis by (simp add: substr_def)
qed

lemma split_from_join:
  "sep \<noteq> [] \<Longrightarrow> pos \<le> length src \<Longrightarrow>
     drop pos src = join sep (split_from src sep pos) \<or>
     drop pos src = terminated sep (split_from src sep pos)"
proof (induction src sep pos rule: split_from.induct)
  case (1 src sep pos)
  show ?case
  proof (cases "str_find src sep pos")
    case None
    with 1(2,3) show ?thesis by (simp add: split_from.simps [of src sep pos])
  next
    case (Some i)
    let ?rest = "split_from src sep (i + length sep)"
    have eq: "split_from src sep pos = substr src pos (i - pos) # ?rest"
      using 1(2) Some by (simp add: split_from.simps [of src sep pos])
    have le: "i + length sep \<le> length src" using str_find_SomeD(2) [OF Some] .
    from 1(1) [OF 1(2) Some 1(2) le] show ?thesis
      unfolding eq drop_at_find [OF Some]
      by (cases ?rest) (auto simp: terminated_def)
  qed
qed

lemma str_find_absent:
  assumes "\<And>j. j + length sep \<le> length p \<Longrightarrow> take (length sep) (drop j p) \<noteq> sep"
  shows "str_find p sep k = None"
proof (cases "str_find p sep k")
  case (Some i)
  from str_find_SomeD(2,3) [OF Some] assms [of i] show ?thesis by blast
qed

lemma split_from_pieces:
  "sep \<noteq> [] \<Longrightarrow> pos \<le> length src \<Longrightarrow> p \<in> set (split_from src sep pos) \<Longrightarrow> str_find p sep 0 = None"
proof (induction src sep pos rule: split_from.induct)
  case (1 src sep pos)
  show ?case
  proof (cases "str_find src sep pos")
    case None
    with 1(2,4) have p: "p = drop pos src"
      by (auto simp: split_from.simps [of src sep pos] split: if_splits)
    show ?thesis
      unfolding p using str_find_NoneD [OF None] 1(3)
      by (intro str_find_absent) (auto simp: add.commute)
  next
    case (Some i)
    have le: "i + length sep \<le> length src" and pi: "pos \<le> i"
      using str_find_SomeD(1,2) [OF Some] by auto
    from 1(2,4) Some consider "p = substr src pos (i - pos)" | "p \<in> set (split_from src sep (i + length sep))"
      by (auto simp: split_from.simps [of src sep pos])
    then show ?thesis
    proof cases
      case 1
      have "take (length sep) (drop j p) \<noteq> sep" if "j + length sep \<le> length p" for j
      proof -
        have "length p \<le> i - pos" by (simp add: 1 substr_def)
        moreover have "length sep \<le> i - (j + pos)"
          using that \<open>length p \<le> i - pos\<close> by linarith
        ultimately have "take (length sep) (drop j p) = take (length sep) (drop (pos + j) src)"
          by (simp add: 1 substr_def drop_take add.commute min_absorb1)
        moreover have "pos + j < i"
          using that \<open>length p \<le> i - pos\<close> \<open>sep \<noteq> []\<close> by (cases sep) auto
        ultimately show ?thesis using str_find_SomeD(4) [OF Some] by simp
      qed
      then show ?thesis by (rule str_find_absent)
    next
      case 2
      from 1(1) [OF 1(2) Some 1(2) le 2] show ?thesis .
    qed
  qed
qed

text \<open>With a one-byte separator (all callers in the scheduler use one) splitting inverts joining.\<close>

lemma str_find_char:
  "c \<notin> set p \<Longrightarrow> str_find (pre @ p @ c # q) [c] (length pre) = Some (length pre + length p)"
proof (induction p arbitrary: pre)
  case Nil
  show ?case by (subst str_find.simps) simp
next
  case (Cons a p)
  from Cons.IH [of "pre @ [a]"] Cons.prems show ?case by (subst str_find.simps) auto
qed

lemma str_find_char_None: "c \<notin> set p \<Longrightarrow> str_find (pre @ p) [c] (length pre) = None"
proof (induction p arbitrary: pre)
  case Nil
  show ?case by (subst str_find.simps) simp
next
  case (Cons a p)
  from Cons.IH [of "pre @ [a]"] Cons.prems show ?case by (subst str_find.simps) auto
qed

lemma split_from_join_char:
  "\<forall>p \<in> set ps. c \<notin> set p \<Longrightarrow> ps = [] \<or> last ps \<noteq> [] \<Longrightarrow>
     split_from (pre @ join [c] ps) [c] (length pre) = ps"
proof (induction "[c]" ps arbitrary: pre rule: join.induct)
  case 1
  show ?case
    using str_find_char_None [of c "[]" pre] by (subst split_from.simps) simp
next
  case (2 p)
  then show ?case
    using str_find_char_None [of c p pre] by (subst split_from.simps) simp
next
  case (3 p p' ps)
  let ?q = "join [c] (p' # ps)"
  from 3(2) have find: "str_find (pre @ p @ c # ?q) [c] (length pre) = Some (length pre + length p)"
    by (intro str_find_char) simp
  have "split_from ((pre @ p @ [c]) @ ?q) [c] (length (pre @ p @ [c])) = p' # ps"
    using 3 by (intro 3(1)) auto
  then show ?case
    using find by (subst split_from.simps) (simp add: substr_def)
qed

end
