(* ===== verification/ParseUtil.thy ===== *)
theory ParseUtil
  imports StrUtil
begin

text \<open>
  The second half of \<open>ubse_str_util.cpp\<close>: host names, the \<open>Convert\<close> and \<open>StrTo\<close> families
  over the C library's integer parser, trimming, shell quoting and hexadecimal digits.
\<close>

section \<open>Characters of the C locale\<close>

definition c_isdigit :: "char \<Rightarrow> bool" where "c_isdigit c \<longleftrightarrow> CHR ''0'' \<le> c \<and> c \<le> CHR ''9''"
definition c_islower :: "char \<Rightarrow> bool" where "c_islower c \<longleftrightarrow> CHR ''a'' \<le> c \<and> c \<le> CHR ''z''"
definition c_isupper :: "char \<Rightarrow> bool" where "c_isupper c \<longleftrightarrow> CHR ''A'' \<le> c \<and> c \<le> CHR ''Z''"
definition c_isspace :: "char \<Rightarrow> bool" where
  "c_isspace c \<longleftrightarrow> c \<in> {CHR '' '', CHR 0x09, CHR 0x0A, CHR 0x0B, CHR 0x0C, CHR 0x0D}"

definition c_str :: "string \<Rightarrow> string" where
  \<comment> \<open>\<open>c_str()\<close> read by a C function: up to the first NUL\<close>
  "c_str s = takeWhile (\<lambda>c. c \<noteq> CHR 0x00) s"

section \<open>Host names\<close>

definition UBSE_HOSTNAME_LABEL_MAX_LEN :: nat where "UBSE_HOSTNAME_LABEL_MAX_LEN = 63"
definition UBSE_REPORTED_HOSTNAME_MAX_LEN :: nat where "UBSE_REPORTED_HOSTNAME_MAX_LEN = 64"

definition valid_label_char :: "char \<Rightarrow> bool" where
  "valid_label_char c \<longleftrightarrow> \<not> (\<not> c_isdigit c \<and> \<not> c_islower c \<and> \<not> c_isupper c \<and> c \<noteq> CHR ''-'')"

fun valid_labels :: "string list \<Rightarrow> bool" where
  \<comment> \<open>the loop over the labels, with its early returns\<close>
  "valid_labels [] = True"
| "valid_labels (label # labels) =
     (if label = [] \<or> UBSE_HOSTNAME_LABEL_MAX_LEN < length label then False
      else if hd label = CHR ''-'' \<or> last label = CHR ''-'' then False
      else if \<not> list_all valid_label_char label then False
      else valid_labels labels)"

definition IsValidHostName :: "string \<Rightarrow> bool" where
  "IsValidHostName hostName =
     (if hostName = [] \<or> UBSE_REPORTED_HOSTNAME_MAX_LEN < length hostName then False
      else if last hostName = CHR ''.'' then False
      else valid_labels (Split hostName ''.'' []))"

lemma valid_labels_iff:
  "valid_labels ls \<longleftrightarrow>
     (\<forall>l \<in> set ls. l \<noteq> [] \<and> length l \<le> 63 \<and> hd l \<noteq> CHR ''-'' \<and> last l \<noteq> CHR ''-'' \<and>
        (\<forall>c \<in> set l. valid_label_char c))"
  by (induction ls) (auto simp: UBSE_HOSTNAME_LABEL_MAX_LEN_def list_all_iff)

lemma set_join: "set (join sep ps) \<subseteq> set sep \<union> \<Union> (set ` set ps)"
  by (induction sep ps rule: join.induct) auto

section \<open>The C library's integer parser\<close>

definition digit_val :: "char \<Rightarrow> nat option" where
  "digit_val c =
     (if c_isdigit c then Some (of_char c - 48)
      else if c_islower c then Some (of_char c - 87)
      else if c_isupper c then Some (of_char c - 55)
      else None)"

definition is_digit_of :: "nat \<Rightarrow> char \<Rightarrow> bool" where
  "is_digit_of base c = (case digit_val c of Some d \<Rightarrow> d < base | None \<Rightarrow> False)"

definition digits_val :: "nat \<Rightarrow> string \<Rightarrow> nat" where
  "digits_val base ds = foldl (\<lambda>a c. a * base + (case digit_val c of Some d \<Rightarrow> d | None \<Rightarrow> 0)) 0 ds"

definition strip_sign :: "string \<Rightarrow> bool \<times> string" where
  "strip_sign s = (case s of
      [] \<Rightarrow> (False, [])
    | c # cs \<Rightarrow> if c = CHR ''-'' then (True, cs) else if c = CHR ''+'' then (False, cs) else (False, s))"

definition has_hex_prefix :: "string \<Rightarrow> bool" where
  "has_hex_prefix s = (case s of
      z # x # h # _ \<Rightarrow> z = CHR ''0'' \<and> (x = CHR ''x'' \<or> x = CHR ''X'') \<and> is_digit_of 16 h
    | _ \<Rightarrow> False)"

definition strip_prefix :: "nat \<Rightarrow> string \<Rightarrow> nat \<times> string" where
  "strip_prefix base s =
     (if (base = 16 \<or> base = 0) \<and> has_hex_prefix s then (16, drop 2 s)
      else if base = 0 then (if s \<noteq> [] \<and> hd s = CHR ''0'' then 8 else 10, s)
      else (base, s))"

definition scan_int :: "nat \<Rightarrow> string \<Rightarrow> (bool \<times> nat \<times> string) option" where
  \<comment> \<open>sign, magnitude and unparsed rest; \<open>None\<close> when there is no digit. Bases 0 and 2 to 36.\<close>
  "scan_int base str =
     (case strip_sign (dropWhile c_isspace (c_str str)) of (neg, s) \<Rightarrow>
      case strip_prefix base s of (b, t) \<Rightarrow>
        let ds = takeWhile (is_digit_of b) t
        in if ds = [] then None else Some (neg, digits_val b ds, dropWhile (is_digit_of b) t))"

datatype exn = invalid_argument | out_of_range

definition stoull :: "nat \<Rightarrow> string \<Rightarrow> exn + u64" where
  \<comment> \<open>\<open>std::stoul\<close> and \<open>std::stoull\<close> (both 64 bits here): a minus sign negates modulo \<open>2 ^ 64\<close>\<close>
  "stoull base str = (case scan_int base str of
      None \<Rightarrow> Inl invalid_argument
    | Some (neg, v, rest) \<Rightarrow>
        if 2 ^ 64 \<le> v then Inl out_of_range
        else Inr (if neg then - of_nat v else of_nat v))"

definition stol :: "string \<Rightarrow> exn + int" where
  "stol str = (case scan_int 10 str of
      None \<Rightarrow> Inl invalid_argument
    | Some (neg, v, rest) \<Rightarrow>
        let i = (if neg then - int v else int v)
        in if i < - (2 ^ 63) \<or> 2 ^ 63 \<le> i then Inl out_of_range else Inr i)"

definition stoi :: "string \<Rightarrow> exn + int" where
  "stoi str = (case stol str of
      Inl e \<Rightarrow> Inl e
    | Inr i \<Rightarrow> if i < - (2 ^ 31) \<or> 2 ^ 31 \<le> i then Inl out_of_range else Inr i)"

section \<open>The conversions of the code\<close>

definition ConvertStrToInt :: "string \<Rightarrow> c_int \<Rightarrow> UbseResult \<times> c_int" where
  "ConvertStrToInt str outValue = (case stoi str of
      Inr i \<Rightarrow> (UBSE_OK, of_int i)
    | Inl _ \<Rightarrow> (UBSE_ERROR, outValue))"

definition ConvertStrToLong :: "string \<Rightarrow> c_int64 \<Rightarrow> UbseResult \<times> c_int64" where
  "ConvertStrToLong str outValue = (case stol str of
      Inr i \<Rightarrow> (UBSE_OK, of_int i)
    | Inl _ \<Rightarrow> (UBSE_ERROR, outValue))"

definition ConvertStrToUint16 :: "string \<Rightarrow> u16 \<Rightarrow> nat \<Rightarrow> UbseResult \<times> u16" where
  "ConvertStrToUint16 str outValue base = (case stoull base str of
      Inr v \<Rightarrow> if 65535 < v then (UBSE_ERROR, outValue) else (UBSE_OK, ucast v)
    | Inl _ \<Rightarrow> (UBSE_ERROR, outValue))"

definition ConvertStrToUint32 :: "string \<Rightarrow> u32 \<Rightarrow> nat \<Rightarrow> UbseResult \<times> u32" where
  "ConvertStrToUint32 str outValue base = (case stoull base str of
      Inr v \<Rightarrow> if 4294967295 < v then (UBSE_ERROR, outValue) else (UBSE_OK, ucast v)
    | Inl _ \<Rightarrow> (UBSE_ERROR, outValue))"

definition ConvertStrToUint64 :: "string \<Rightarrow> u64 \<Rightarrow> UbseResult \<times> u64" where
  "ConvertStrToUint64 str outValue = (case stoull 10 str of
      Inr v \<Rightarrow> if UINT64_MAX < v then (UBSE_ERROR, outValue) else (UBSE_OK, v)
    | Inl invalid_argument \<Rightarrow> (UBSE_ERROR, outValue)
    | Inl out_of_range \<Rightarrow> (UBSE_ERROR, outValue))"

definition strtoull10 :: "string \<Rightarrow> u64 \<times> string \<times> bool" where
  \<comment> \<open>\<open>strtoull(src.c_str(), &remain, 10)\<close>: value, what \<open>remain\<close> points at, \<open>errno == ERANGE\<close>\<close>
  "strtoull10 src = (case scan_int 10 src of
      None \<Rightarrow> (0, c_str src, False)
    | Some (neg, v, rest) \<Rightarrow>
        if 2 ^ 64 \<le> v then (UINT64_MAX, rest, True)
        else (if neg then - of_nat v else of_nat v, rest, False))"

definition StrToULong :: "string \<Rightarrow> bool \<times> u64" where
  "StrToULong src = (case strtoull10 src of (v, remain, erange) \<Rightarrow>
     if (v = 0 \<and> src \<noteq> ''0'') \<or> 0 < length remain \<or> erange then (False, v) else (True, v))"

definition StrToUint :: "string \<Rightarrow> u32 \<Rightarrow> bool \<times> u32" where
  "StrToUint src val = (case strtoull10 src of (parsed, remain, erange) \<Rightarrow>
     if (parsed = 0 \<and> src \<noteq> ''0'') \<or> 0 < length remain \<or> erange \<or> 4294967295 < parsed
     then (False, val) else (True, ucast parsed))"

subsection \<open>Messages of the sentry service\<close>

definition ExtractValue :: "string \<Rightarrow> string \<Rightarrow> string" where
  "ExtractValue input key = (case str_find input (key @ '':'') 0 of
      None \<Rightarrow> []
    | Some keyPos \<Rightarrow>
        let keyPos' = keyPos + length key + 1
        in case find_first_of input '',}'' keyPos' of
             Some endPos \<Rightarrow> substr input keyPos' (endPos - keyPos')
           | None \<Rightarrow> drop keyPos' input)"

definition VALUE_COUNT :: nat where "VALUE_COUNT = 2"

definition SplitSysSentryMsg :: "string \<Rightarrow> u64 \<times> string \<times> string \<Rightarrow> UbseResult \<times> u64 \<times> string \<times> string" where
  \<comment> \<open>the three reference parameters \<open>msgId\<close>, \<open>cna\<close>, \<open>eid\<close> go in and come out\<close>
  "SplitSysSentryMsg faultInfo refs = (case refs of (msgId, cna, eid) \<Rightarrow>
     let strVec = Split faultInfo ''_'' []
     in if length strVec < VALUE_COUNT then (UBSE_ERROR, msgId, cna, eid)
        else case ConvertStrToUint64 (strVec ! 0) msgId of (ret, msgId') \<Rightarrow>
          if ret \<noteq> UBSE_OK then (UBSE_ERROR, msgId', cna, eid)
          else (UBSE_OK, msgId', ExtractValue (strVec ! 1) ''cna'', ExtractValue (strVec ! 1) ''eid''))"

section \<open>Trimming, quoting, hexadecimal\<close>

definition Trim :: "string \<Rightarrow> string" where
  "Trim str = rev (dropWhile c_isspace (rev (dropWhile c_isspace str)))"

definition RemoveDashes :: "string \<Rightarrow> string" where
  "RemoveDashes str = foldl (\<lambda>ret c. if c \<noteq> CHR ''-'' then ret @ [c] else ret) [] str"

definition quote_char :: char where "quote_char = CHR 0x27"

definition ShellEscape :: "string \<Rightarrow> string" where
  "ShellEscape str =
     (if str = [] then [quote_char, quote_char]
      else [quote_char] @
        concat (map (\<lambda>c. if c = quote_char then [quote_char, CHR 0x5C, quote_char, quote_char] else [c]) str) @
        [quote_char])"

definition HexCharToInt :: "char \<Rightarrow> int" where
  "HexCharToInt c =
     (if CHR ''0'' \<le> c \<and> c \<le> CHR ''9'' then of_char c - of_char (CHR ''0'')
      else if CHR ''A'' \<le> c \<and> c \<le> CHR ''F'' then of_char c - of_char (CHR ''A'') + 10
      else if CHR ''a'' \<le> c \<and> c \<le> CHR ''f'' then of_char c - of_char (CHR ''a'') + 10
      else - 1)"

definition HexPairToByte :: "char \<Rightarrow> char \<Rightarrow> u8 \<Rightarrow> bool \<times> u8" where
  "HexPairToByte high low result =
     (let highVal = HexCharToInt high; lowVal = HexCharToInt low
      in if highVal < 0 \<or> lowVal < 0 then (False, result)
         else (True, word_of_int (or (push_bit 4 highVal) lowVal)))"

definition GenerateRandomStr :: "(nat \<Rightarrow> nat) \<Rightarrow> (nat \<Rightarrow> string) \<Rightarrow> u32 \<Rightarrow> string" where
  \<comment> \<open>\<open>draw i\<close> is the i-th value of the generator, \<open>show\<close> is \<open>std::to_string\<close>\<close>
  "GenerateRandomStr draw to_str sz = concat (map (\<lambda>i. to_str (draw i)) [0 ..< unat sz])"

section \<open>Decimal numerals\<close>

definition digit_char :: "nat \<Rightarrow> char" where "digit_char d = char_of (48 + d)"

fun to_string :: "nat \<Rightarrow> string" where
  \<comment> \<open>\<open>std::to_string\<close> of an unsigned number\<close>
  "to_string n = (if n < 10 then [digit_char n] else to_string (n div 10) @ [digit_char (n mod 10)])"

declare to_string.simps [simp del]

lemma of_char_digit: "d < 10 \<Longrightarrow> (of_char (digit_char d) :: nat) = 48 + d"
  by (simp add: digit_char_def)

lemma isdigit_digit_char: "d < 10 \<Longrightarrow> c_isdigit (digit_char d)"
  by (simp add: c_isdigit_def less_eq_char_def of_char_digit)

lemma digit_val_digit_char: "d < 10 \<Longrightarrow> digit_val (digit_char d) = Some d"
  by (simp add: digit_val_def isdigit_digit_char of_char_digit)

lemma is_digit_of_10: "is_digit_of 10 c \<longleftrightarrow> c_isdigit c"
proof (cases "c_isdigit c")
  case True
  then have "(of_char c :: nat) < 58" by (simp add: c_isdigit_def less_eq_char_def)
  with True show ?thesis by (simp add: is_digit_of_def digit_val_def)
next
  case False
  then show ?thesis
    by (auto simp: is_digit_of_def digit_val_def c_isdigit_def c_islower_def c_isupper_def
        less_eq_char_def)
qed

lemma to_string_digits: "\<forall>c \<in> set (to_string n). c_isdigit c"
proof (induction n rule: to_string.induct)
  case (1 n)
  then show ?case
    by (subst to_string.simps) (auto simp: isdigit_digit_char)
qed

lemma to_string_not_Nil: "to_string n \<noteq> []"
  by (subst to_string.simps) simp

lemma digits_val_snoc:
  "digits_val b (ds @ [c]) = digits_val b ds * b + (case digit_val c of Some d \<Rightarrow> d | None \<Rightarrow> 0)"
  by (simp add: digits_val_def)

lemma digits_val_to_string: "digits_val 10 (to_string n) = n"
proof (induction n rule: to_string.induct)
  case (1 n)
  show ?case
  proof (cases "n < 10")
    case True
    then show ?thesis
      by (subst to_string.simps) (simp add: digits_val_def digit_val_digit_char)
  next
    case False
    then show ?thesis
      using 1 by (subst to_string.simps) (simp add: digits_val_snoc digit_val_digit_char)
  qed
qed

lemma digit_not_special:
  assumes "c_isdigit c"
  shows "\<not> c_isspace c" "c \<noteq> CHR ''-''" "c \<noteq> CHR ''+''" "c \<noteq> CHR 0x00"
  using assms by (auto simp: c_isdigit_def c_isspace_def less_eq_char_def)

lemma scan_int_digits:
  assumes "\<forall>c \<in> set ds. c_isdigit c" and "ds \<noteq> []"
  shows "scan_int 10 ds = Some (False, digits_val 10 ds, [])"
proof -
  have c: "c_str ds = ds"
    using assms(1) by (auto simp: c_str_def takeWhile_eq_all_conv dest: digit_not_special)
  obtain d ds' where ds: "ds = d # ds'" and d: "c_isdigit d"
    using assms by (cases ds) auto
  have "strip_sign (dropWhile c_isspace (c_str ds)) = (False, ds)"
    using digit_not_special [OF d] by (simp add: c) (simp add: ds strip_sign_def)
  moreover have "takeWhile (is_digit_of 10) ds = ds" "dropWhile (is_digit_of 10) ds = []"
    using assms(1) by (auto simp: is_digit_of_10)
  ultimately show ?thesis
    using assms(2) by (simp add: scan_int_def strip_prefix_def Let_def del: takeWhile_eq_all_conv dropWhile_eq_Nil_conv)
qed

lemma scan_int_to_string: "scan_int 10 (to_string n) = Some (False, n, [])"
  using scan_int_digits [OF to_string_digits to_string_not_Nil] by (simp add: digits_val_to_string)

lemma stoull_to_string: "n < 2 ^ 64 \<Longrightarrow> stoull 10 (to_string n) = Inr (of_nat n)"
  by (simp add: stoull_def scan_int_to_string)

section \<open>What the shell makes of a quoted argument\<close>

text \<open>
  The POSIX rules for a word that is built from single quotes and backslashes only: between
  single quotes every byte stands for itself; outside, a backslash escapes the next byte (a
  newline after it is removed). \<open>None\<close>: the word has a byte outside quotes, which the shell
  would interpret or end the word at, or its quotes do not close.
\<close>

fun sh_word :: "bool \<Rightarrow> string \<Rightarrow> string option" where
  "sh_word False [] = Some []"
| "sh_word True [] = None"
| "sh_word True (c # cs) =
     (if c = quote_char then sh_word False cs else map_option ((#) c) (sh_word True cs))"
| "sh_word False [c] = (if c = quote_char then sh_word True [] else None)"
| "sh_word False (c # d # cs) =
     (if c = quote_char then sh_word True (d # cs)
      else if c = CHR 0x5C then
        (if d = CHR 0x0A then sh_word False cs else map_option ((#) d) (sh_word False cs))
      else None)"

lemma sh_word_open: "sh_word False (quote_char # cs) = sh_word True cs"
  by (cases cs) simp_all

lemma sh_word_quoted:
  "sh_word True (concat (map (\<lambda>c. if c = quote_char then [quote_char, CHR 0x5C, quote_char, quote_char] else [c]) s)
      @ [quote_char]) = Some s"
proof (induction s)
  case (Cons c s)
  show ?case
  proof (cases "c = quote_char")
    case True
    have "sh_word False (CHR 0x5C # quote_char # quote_char # r) = map_option ((#) quote_char) (sh_word True r)"
      for r by (simp add: sh_word_open) (simp add: quote_char_def)
    then show ?thesis using Cons True by simp
  next
    case False
    then show ?thesis using Cons by simp
  qed
qed simp

lemma sh_word_ShellEscape: "sh_word False (ShellEscape s) = Some s"
  using sh_word_quoted [of s] by (auto simp: ShellEscape_def sh_word_open)

section \<open>Trimming\<close>

lemma Trim_substring: "\<exists>a b. s = a @ Trim s @ b"
proof -
  let ?t = "dropWhile c_isspace s"
  have "s = takeWhile c_isspace s @ ?t" by simp
  moreover have "?t = rev (dropWhile c_isspace (rev ?t)) @ rev (takeWhile c_isspace (rev ?t))"
    by (metis rev_append rev_rev_ident takeWhile_dropWhile_id)
  ultimately show ?thesis unfolding Trim_def by metis
qed

lemma Trim_last: "Trim s \<noteq> [] \<Longrightarrow> \<not> c_isspace (last (Trim s))"
  unfolding Trim_def by (simp add: last_rev hd_dropWhile)

lemma Trim_hd: "Trim s \<noteq> [] \<Longrightarrow> \<not> c_isspace (hd (Trim s))"
proof -
  let ?t = "dropWhile c_isspace s"
  assume ne: "Trim s \<noteq> []"
  then have t: "?t \<noteq> []" unfolding Trim_def by (metis dropWhile.simps(1) rev.simps(1))
  have "?t = Trim s @ rev (takeWhile c_isspace (rev ?t))"
    unfolding Trim_def by (metis rev_append rev_rev_ident takeWhile_dropWhile_id)
  with ne have "hd (Trim s) = hd ?t" by (metis hd_append2)
  with t show ?thesis by (simp add: hd_dropWhile)
qed

lemma Trim_id: "s = [] \<or> (\<not> c_isspace (hd s) \<and> \<not> c_isspace (last s)) \<Longrightarrow> Trim s = s"
proof (cases "s = []")
  case False
  assume "s = [] \<or> (\<not> c_isspace (hd s) \<and> \<not> c_isspace (last s))"
  with False have h: "\<not> c_isspace (hd s)" "\<not> c_isspace (hd (rev s))" by (auto simp: hd_rev)
  have "dropWhile c_isspace s = s" using False h(1) by (cases s) auto
  moreover have "dropWhile c_isspace (rev s) = rev s"
    using h(2) by (cases "rev s") (auto simp only: dropWhile.simps list.sel if_False)
  ultimately show ?thesis by (simp add: Trim_def)
qed (simp add: Trim_def)

section \<open>Hexadecimal digits\<close>

definition hex_digit :: "nat \<Rightarrow> char" where
  "hex_digit d = (if d < 10 then char_of (48 + d) else char_of (87 + d))"

lemma HexCharToInt_hex_digit: "d < 16 \<Longrightarrow> HexCharToInt (hex_digit d) = int d"
proof -
  assume "d < 16"
  then have "d \<in> set [0 ..< 16]" by simp
  moreover have "\<forall>d \<in> set [0 ..< 16]. HexCharToInt (hex_digit d) = int d" by code_simp
  ultimately show ?thesis by blast
qed

lemma nibbles_or: "h < 16 \<Longrightarrow> l < 16 \<Longrightarrow> or (push_bit 4 (int h)) (int l) = int (16 * h + l)"
proof -
  assume "h < 16" "l < 16"
  then have "h \<in> set [0 ..< 16]" "l \<in> set [0 ..< 16]" by simp_all
  moreover have "\<forall>h \<in> set [0 ..< 16]. \<forall>l \<in> set [0 ..< 16]. or (push_bit 4 (int h)) (int l) = int (16 * h + l)"
    by code_simp
  ultimately show ?thesis by blast
qed

lemma valid_host_chars:
  assumes "IsValidHostName h"
  shows "\<forall>c \<in> set h. c_isdigit c \<or> c_islower c \<or> c_isupper c \<or> c = CHR ''-'' \<or> c = CHR ''.''"
proof -
  let ?ls = "Split h ''.'' []"
  have ok: "valid_labels ?ls"
    using assms by (auto simp: IsValidHostName_def split: if_splits)
  have "set (terminated ''.'' ?ls) \<subseteq> {CHR ''.''} \<union> \<Union> (set ` set ?ls)"
    by (auto simp: terminated_def)
  then have "set h \<subseteq> {CHR ''.''} \<union> \<Union> (set ` set ?ls)"
    using split_from_join [of "''.''" 0 h] set_join [of "''.''" ?ls]
    by (simp add: Split_def) (metis insert_is_Un)
  then show ?thesis
    using ok by (fastforce simp: valid_labels_iff valid_label_char_def)
qed

lemma valid_host_no_separators:
  assumes "IsValidHostName h"
  shows "CHR '','' \<notin> set h" and "CHR '';'' \<notin> set h" and "h \<noteq> []"
proof -
  have "\<not> (c_isdigit c \<or> c_islower c \<or> c_isupper c \<or> c = CHR ''-'' \<or> c = CHR ''.'')"
    if "c \<in> {CHR '','', CHR '';''}" for c
    using that by (auto simp: c_isdigit_def c_islower_def c_isupper_def less_eq_char_def)
  with valid_host_chars [OF assms] show "CHR '','' \<notin> set h" "CHR '';'' \<notin> set h" by blast+
  show "h \<noteq> []" using assms by (auto simp: IsValidHostName_def)
qed

lemma Split_config_list:
  assumes "\<forall>h \<in> set hs. IsValidHostName h" and "hs \<noteq> []"
  shows "Split (join '','' hs) '','' [] = hs"
  using split_from_join_char [of hs "CHR '',''" "[]"] valid_host_no_separators(1,3) assms
  by (simp add: Split_def)

section \<open>Properties\<close>

text \<open>
  Splitting at a one-byte separator inverts joining: when no field contains the separator
  and the last field is not empty, \<open>Split\<close> returns exactly the fields.
\<close>

theorem Split_join:
  assumes "\<forall>p \<in> set ps. c \<notin> set p" and "ps = [] \<or> last ps \<noteq> []"
  shows "Split (join [c] ps) [c] out = out @ ps"
  using split_from_join_char [OF assms, of "[]"] by (simp add: Split_def)

theorem Split_join_witness: "Split ''a,,bc'' '','' [''x''] = [''x'', ''a'', [], ''bc'']"
  using Split_join [of "[''a'', [], ''bc'']" "CHR '',''" "[''x'']"] by simp

text \<open>
  For any non-empty separator, the pieces of \<open>Split\<close> contain no separator, and the source
  is the pieces joined by it, up to one trailing separator (whose empty piece is dropped).
\<close>

theorem Split_pieces:
  assumes "sep \<noteq> []"
  shows "(\<forall>p \<in> set (Split src sep []). str_find p sep 0 = None) \<and>
    (src = join sep (Split src sep []) \<or> src = terminated sep (Split src sep []))"
  using split_from_pieces [OF assms, of 0 src] split_from_join [OF assms, of 0 src] assms
  by (auto simp: Split_def)

theorem Split_pieces_witness:
  "Split ''a;;b;;'' '';;'' [] = [''a'', ''b''] \<and> str_find ''b'' '';;'' 0 = None"
proof -
  have "Split ''a;;b;;'' '';;'' [] = [''a'', ''b'']" by code_simp
  with Split_pieces [of "'';;''" "''a;;b;;''"] show ?thesis by simp
qed

text \<open>
  C40 \<open>StrSplit\<close> never returns on an empty separator: unlike \<open>Split\<close> it has no guard, the
  search succeeds at the same position for ever. On any other separator it agrees with \<open>Split\<close>.
\<close>

theorem StrSplit_termination:
  "StrSplit src sep out = (if sep = [] then None else Some (Split src sep out))"
  by (simp add: StrSplit_def Split_def strsplit_loop_eq strsplit_loop_empty_sep)

text \<open>
  A name that passes \<open>IsValidHostName\<close> is 1 to 64 bytes of letters, digits, dashes and
  dots only, does not end in a dot, and none of its dot-separated labels is empty, longer than
  63 bytes or bounded by a dash.
\<close>

theorem IsValidHostName_sound:
  assumes "IsValidHostName h"
  shows "h \<noteq> [] \<and> length h \<le> 64 \<and> last h \<noteq> CHR ''.'' \<and>
    (\<forall>c \<in> set h. c_isdigit c \<or> c_islower c \<or> c_isupper c \<or> c = CHR ''-'' \<or> c = CHR ''.'') \<and>
    (\<forall>l \<in> set (Split h ''.'' []). l \<noteq> [] \<and> length l \<le> 63 \<and> hd l \<noteq> CHR ''-'' \<and> last l \<noteq> CHR ''-'')"
  using assms valid_host_chars [OF assms]
  by (auto simp: IsValidHostName_def UBSE_REPORTED_HOSTNAME_MAX_LEN_def valid_labels_iff split: if_splits)

theorem IsValidHostName_sound_witness:
  "IsValidHostName ''node-1.rack'' \<and> last ''node-1.rack'' \<noteq> CHR ''.''"
proof -
  have "IsValidHostName ''node-1.rack''" by code_simp
  with IsValidHostName_sound [OF this] show ?thesis by blast
qed

text \<open>
  The decimal numeral of a 32-bit number converts back to it, and that of a larger number
  is rejected with the output left unchanged.
\<close>

theorem ConvertStrToUint32_roundtrip:
  "ConvertStrToUint32 (to_string n) out 10 =
     (if n < 2 ^ 32 then (UBSE_OK, of_nat n) else (UBSE_ERROR, out))"
proof (cases "n < 2 ^ 64")
  case True
  have "4294967295 < (of_nat n :: u64) \<longleftrightarrow> 2 ^ 32 \<le> n"
    using True by (auto simp: word_less_nat_alt unat_of_nat)
  moreover have "ucast (of_nat n :: u64) = (of_nat n :: u32)"
    using True by (simp add: unsigned_of_nat take_bit_nat_eq_self)
  ultimately show ?thesis
    using True by (auto simp: ConvertStrToUint32_def stoull_to_string not_le)
next
  case False
  then show ?thesis
    by (simp add: ConvertStrToUint32_def stoull_def scan_int_to_string)
qed

text \<open>
  \<open>ShellEscape\<close> is injection-safe: whatever bytes the argument has, the shell reads the
  quoted text back as the single word that equals the argument.
\<close>

theorem ShellEscape_word: "sh_word False (ShellEscape s) = Some s"
  by (rule sh_word_ShellEscape)

text \<open>
  \<open>Trim\<close> returns a contiguous part of its input that neither starts nor ends with white
  space, and trimming again changes nothing.
\<close>

theorem Trim_spec:
  "(\<exists>a b. s = a @ Trim s @ b) \<and> (Trim s = [] \<or> (\<not> c_isspace (hd (Trim s)) \<and> \<not> c_isspace (last (Trim s)))) \<and>
    Trim (Trim s) = Trim s"
  using Trim_substring Trim_hd Trim_last Trim_id by blast

text \<open>
  Every byte written as two hexadecimal digits is read back by \<open>HexPairToByte\<close>.
\<close>

theorem HexPairToByte_roundtrip:
  "HexPairToByte (hex_digit (unat (b :: u8) div 16)) (hex_digit (unat b mod 16)) r = (True, b)"
proof -
  have b: "unat b < 256" using unsigned_less [of b] by simp
  then have "unat b div 16 < 16" by simp
  then show ?thesis
    by (simp add: HexPairToByte_def HexCharToInt_hex_digit nibbles_or flip: of_nat_mult of_nat_add)
qed

end
