(* ===== verification/FloatModel.thy ===== *)
theory FloatModel
  imports Prelude Complex_Main "HOL-Library.Log_Nat"
begin

text \<open>
  Floating point. The scores of the scheduler are C++ \<open>double\<close> values and the memory
  statistics go through \<open>long double\<close>. A finite floating-point number is a rational; an
  IEEE operation returns its exact result rounded to nearest, ties to even. \<open>fl p\<close> is that
  rounding to \<open>p\<close> significant bits (24 for \<open>float\<close>, 53 for \<open>double\<close>), without a bound on
  the exponent: the values the scheduler computes lie between \<open>2 ^ - 70\<close> and \<open>2 ^ 75\<close> and
  never overflow or become subnormal.
\<close>

section \<open>Rounding to an integer, ties to even\<close>

definition rne :: "rat \<Rightarrow> int" where
  "rne q = (let f = \<lfloor>q\<rfloor>; d = q - of_int f in
     if d < 1 / 2 then f else if 1 / 2 < d then f + 1 else if even f then f else f + 1)"

lemma rne_of_int [simp]: "rne (of_int n) = n"
  by (simp add: rne_def)

lemma rne_bounds: "\<lfloor>q\<rfloor> \<le> rne q" "rne q \<le> \<lfloor>q\<rfloor> + 1"
  by (simp_all add: rne_def Let_def)

lemma rne_mono: "q \<le> r \<Longrightarrow> rne q \<le> rne r"
proof -
  assume le: "q \<le> r"
  then have fl: "\<lfloor>q\<rfloor> \<le> \<lfloor>r\<rfloor>" by (rule floor_mono)
  show ?thesis
  proof (cases "\<lfloor>q\<rfloor> = \<lfloor>r\<rfloor>")
    case True
    with le show ?thesis by (auto simp: rne_def Let_def)
  next
    case False
    with fl have "\<lfloor>q\<rfloor> + 1 \<le> \<lfloor>r\<rfloor>" by simp
    then show ?thesis using rne_bounds [of q] rne_bounds [of r] by linarith
  qed
qed

lemma rne_le_of_int: "q \<le> of_int n \<Longrightarrow> rne q \<le> n"
  using rne_mono [of q "of_int n"] by simp

lemma of_int_le_rne: "of_int n \<le> q \<Longrightarrow> n \<le> rne q"
  using rne_mono [of "of_int n" q] by simp

section \<open>The binary exponent of a positive rational\<close>

definition ilog2 :: "rat \<Rightarrow> int" where
  "ilog2 q = (case quotient_of q of (n, d) \<Rightarrow>
     let k = bitlen n - bitlen d in if 2 powi k \<le> q then k else k - 1)"

lemma powi_bitlen:
  assumes "0 < n"
  shows "(2 :: rat) powi (bitlen n - 1) \<le> of_int n" and "of_int n < (2 :: rat) powi bitlen n"
proof -
  have b: "2 ^ nat (bitlen n - 1) \<le> n" "n < 2 ^ nat (bitlen n)"
    using bitlen_bounds [OF assms] by auto
  have "0 < bitlen n" using assms by (auto simp: bitlen_def floorlog_eq_zero_iff intro!: gr0I)
  then have "(2 :: rat) powi (bitlen n - 1) = of_int (2 ^ nat (bitlen n - 1))"
    and "(2 :: rat) powi bitlen n = of_int (2 ^ nat (bitlen n))"
    by (simp_all add: power_int_def)
  then show "(2 :: rat) powi (bitlen n - 1) \<le> of_int n" and "of_int n < (2 :: rat) powi bitlen n"
    using b by (metis of_int_le_iff, metis of_int_less_iff)
qed

lemma ilog2_bounds:
  assumes "0 < q"
  shows "2 powi ilog2 q \<le> q" and "q < 2 powi (ilog2 q + 1)"
proof -
  obtain n d where nd: "quotient_of q = (n, d)" by (cases "quotient_of q")
  have d: "0 < d" using quotient_of_denom_pos [OF nd] .
  have q: "q = of_int n / of_int d" using quotient_of_div [OF nd] .
  with assms d have n: "0 < n" by (simp add: zero_less_divide_iff)
  define k where "k = bitlen n - bitlen d"
  have up: "q < 2 powi (k + 1)"
  proof -
    have "of_int n < (2 :: rat) powi bitlen n" by (rule powi_bitlen(2) [OF n])
    also have "\<dots> = 2 powi (k + 1) * 2 powi (bitlen d - 1)"
      by (simp add: k_def flip: power_int_add)
    also have "\<dots> \<le> 2 powi (k + 1) * of_int d"
      using powi_bitlen(1) [OF d] by (intro mult_left_mono) auto
    finally show ?thesis using d by (simp add: q pos_divide_less_eq)
  qed
  have lo: "2 powi (k - 1) \<le> q"
  proof -
    have "2 powi (k - 1) * of_int d \<le> 2 powi (k - 1) * (2 :: rat) powi bitlen d"
      using powi_bitlen(2) [OF d] by (intro mult_left_mono) auto
    also have "\<dots> = 2 powi (bitlen n - 1)"
      by (simp add: k_def flip: power_int_add)
    also have "\<dots> \<le> of_int n" by (rule powi_bitlen(1) [OF n])
    finally show ?thesis using d by (simp add: q pos_le_divide_eq)
  qed
  have eq: "ilog2 q = (if 2 powi k \<le> q then k else k - 1)"
    by (simp add: ilog2_def nd k_def Let_def)
  show "2 powi ilog2 q \<le> q" and "q < 2 powi (ilog2 q + 1)"
    using up lo by (auto simp: eq)
qed

lemma powi2_less_iff: "(2 :: rat) powi a < 2 powi b \<longleftrightarrow> a < b"
  by (meson linorder_not_le one_le_numeral one_less_numeral_iff power_int_increasing
      power_int_strict_increasing semiring_norm(76))

lemma powi2_le_iff: "(2 :: rat) powi a \<le> 2 powi b \<longleftrightarrow> a \<le> b"
  using powi2_less_iff [of b a] by linarith

lemma ilog2_unique: "2 powi e \<le> q \<Longrightarrow> q < 2 powi (e + 1) \<Longrightarrow> ilog2 q = e"
proof -
  assume lo: "2 powi e \<le> q" and up: "q < 2 powi (e + 1)"
  have pos: "0 < q" using lo by (rule less_le_trans [rotated]) simp
  have "(2 :: rat) powi e < 2 powi (ilog2 q + 1)" "(2 :: rat) powi ilog2 q < 2 powi (e + 1)"
    using lo up ilog2_bounds [OF pos] by linarith+
  then show ?thesis unfolding powi2_less_iff by linarith
qed

lemma ilog2_mono: "0 < q \<Longrightarrow> q \<le> r \<Longrightarrow> ilog2 q \<le> ilog2 r"
proof -
  assume "0 < q" "q \<le> r"
  then have "(2 :: rat) powi ilog2 q < 2 powi (ilog2 r + 1)"
    using ilog2_bounds [of q] ilog2_bounds [of r] by linarith
  then show ?thesis unfolding powi2_less_iff by linarith
qed

section \<open>Rounding to \<open>p\<close> bits\<close>

definition ulp :: "nat \<Rightarrow> rat \<Rightarrow> rat" where
  "ulp p q = 2 powi (ilog2 q - int p + 1)"

definition flpos :: "nat \<Rightarrow> rat \<Rightarrow> rat" where
  "flpos p q = of_int (rne (q / ulp p q)) * ulp p q"

definition fl :: "nat \<Rightarrow> rat \<Rightarrow> rat" where
  "fl p q = (if q = 0 then 0 else if 0 < q then flpos p q else - flpos p (- q))"

lemma ulp_pos: "0 < ulp p q"
  by (simp add: ulp_def)

lemma flpos_bounds:
  assumes "0 < q" and "0 < p"
  shows "2 powi ilog2 q \<le> flpos p q" and "flpos p q \<le> 2 powi (ilog2 q + 1)"
proof -
  let ?u = "ulp p q"
  have lo: "2 powi ilog2 q = of_int (2 ^ (p - 1)) * ?u" and up: "2 powi (ilog2 q + 1) = of_int (2 ^ p) * ?u"
    using assms(2) by (simp_all add: ulp_def flip: power_int_of_nat power_int_add)
  have "of_int (2 ^ (p - 1)) \<le> q / ?u" "q / ?u \<le> of_int (2 ^ p)"
    using ilog2_bounds [OF assms(1)] ulp_pos [of p q] lo up
    by (simp_all add: pos_le_divide_eq pos_divide_le_eq)
  then have "2 ^ (p - 1) \<le> rne (q / ?u)" "rne (q / ?u) \<le> 2 ^ p"
    by (auto intro: of_int_le_rne rne_le_of_int)
  then have "of_int (2 ^ (p - 1)) * ?u \<le> of_int (rne (q / ?u)) * ?u"
    and "of_int (rne (q / ?u)) * ?u \<le> of_int (2 ^ p) * ?u"
    using ulp_pos [of p q] by (meson mult_right_mono of_int_le_iff less_imp_le)+
  then show "2 powi ilog2 q \<le> flpos p q" and "flpos p q \<le> 2 powi (ilog2 q + 1)"
    unfolding lo up flpos_def .
qed

lemma flpos_mono:
  assumes "0 < q" and "q \<le> r" and "0 < p"
  shows "flpos p q \<le> flpos p r"
proof (cases "ilog2 q = ilog2 r")
  case True
  then have u: "ulp p q = ulp p r" by (simp add: ulp_def)
  have "rne (q / ulp p q) \<le> rne (r / ulp p q)"
    using assms(2) ulp_pos [of p q] by (intro rne_mono divide_right_mono) auto
  then show ?thesis
    using ulp_pos [of p q] unfolding flpos_def u [symmetric]
    by (meson mult_right_mono of_int_le_iff less_imp_le)
next
  case False
  with ilog2_mono [OF assms(1,2)] have "ilog2 q + 1 \<le> ilog2 r" by simp
  then have "(2 :: rat) powi (ilog2 q + 1) \<le> 2 powi ilog2 r" by (simp only: powi2_le_iff)
  then show ?thesis
    using flpos_bounds [OF assms(1,3)] flpos_bounds [of r p] assms by linarith
qed

lemma flpos_positive: "0 < q \<Longrightarrow> 0 < p \<Longrightarrow> 0 < flpos p q"
  using flpos_bounds(1) [of q p] by (rule less_le_trans [rotated]) auto

lemma fl_0 [simp]: "fl p 0 = 0"
  by (simp add: fl_def)

lemma fl_uminus: "fl p (- q) = - fl p q"
  by (auto simp: fl_def)

lemma fl_mono: "0 < p \<Longrightarrow> q \<le> r \<Longrightarrow> fl p q \<le> fl p r"
  using flpos_mono [of q r p] flpos_mono [of "- r" "- q" p] flpos_positive [of r p]
    flpos_positive [of "- q" p]
  by (auto simp: fl_def)

lemma flpos_exact:
  assumes q: "q = of_int m * 2 powi k" and m: "0 < m" "m \<le> 2 ^ p" and p: "0 < p"
  shows "flpos p q = q"
proof -
  have pos: "0 < q" using m by (simp add: q)
  let ?e = "ilog2 q"
  have "\<exists>n. q / ulp p q = of_int n"
  proof (cases "?e - int p + 1 \<le> k")
    case True
    then have "q / ulp p q = of_int m * 2 powi (k - (?e - int p + 1))"
      by (simp add: q ulp_def power_int_diff)
    also have "\<dots> = of_int (m * 2 ^ nat (k - (?e - int p + 1)))"
      using True by (simp add: power_int_def)
    finally show ?thesis by blast
  next
    case False
    then have "int p \<le> ?e - k" by simp
    then have "(2 :: rat) ^ p \<le> 2 powi (?e - k)"
      by (metis power_int_of_nat powi2_le_iff)
    also have "\<dots> \<le> of_int m"
      using ilog2_bounds(1) [OF pos] by (simp add: q power_int_diff pos_divide_le_eq)
    finally have "(of_int (2 ^ p) :: rat) \<le> of_int m" by simp
    then have "m = 2 ^ p" using m(2) by linarith
    then have qe: "q = 2 powi (int p + k)" by (simp add: q power_int_add)
    then have "?e = int p + k" by (intro ilog2_unique) (simp_all add: powi2_less_iff)
    then have "q / ulp p q = 2 powi (int p - 1)"
      by (simp add: qe ulp_def flip: power_int_diff)
    also have "\<dots> = of_int (2 ^ (p - 1))"
      using p by (simp add: power_int_def nat_diff_distrib)
    finally show ?thesis by blast
  qed
  then obtain n where n: "q / ulp p q = of_int n" by blast
  then have "of_int (rne (q / ulp p q)) = q / ulp p q" by simp
  then show ?thesis
    using ulp_pos [of p q] by (simp add: flpos_def)
qed

lemma fl_exact_int: "0 < p \<Longrightarrow> \<bar>m\<bar> \<le> 2 ^ p \<Longrightarrow> fl p (of_int m) = of_int m"
  using flpos_exact [of "of_int m" m 0 p] flpos_exact [of "- of_int m" "- m" 0 p]
  by (auto simp: fl_def)

lemma fl_exact_nat: "0 < p \<Longrightarrow> n \<le> 2 ^ p \<Longrightarrow> fl p (of_nat n) = of_nat n"
  using fl_exact_int [of p "int n"] by simp

lemma fl_1 [simp]: "0 < p \<Longrightarrow> fl p 1 = 1"
  using fl_exact_nat [of p 1] by simp

lemma fl_nonneg: "0 < p \<Longrightarrow> 0 \<le> q \<Longrightarrow> 0 \<le> fl p q"
  using fl_mono [of p 0 q] by simp

section \<open>What clients use of a rounding\<close>

locale rounding =
  fixes rnd :: "rat \<Rightarrow> rat"
  assumes rnd_mono: "q \<le> r \<Longrightarrow> rnd q \<le> rnd r"
    and rnd_nat: "n \<le> 2 ^ 24 \<Longrightarrow> rnd (of_nat n) = of_nat n"
begin

lemma rnd_0: "rnd 0 = 0"
  using rnd_nat [of 0] by simp

lemma rnd_1: "rnd 1 = 1"
  using rnd_nat [of 1] by simp

lemma rnd_nonneg: "0 \<le> q \<Longrightarrow> 0 \<le> rnd q"
  using rnd_mono [of 0 q] by (simp add: rnd_0)

lemma rnd_le_nat: "q \<le> of_nat n \<Longrightarrow> n \<le> 2 ^ 24 \<Longrightarrow> rnd q \<le> of_nat n"
  using rnd_mono [of q "of_nat n"] rnd_nat by simp

lemma rnd_le_1: "q \<le> 1 \<Longrightarrow> rnd q \<le> 1"
  using rnd_le_nat [of q 1] by simp

lemma rnd_quotient_unit: "0 \<le> a \<Longrightarrow> a \<le> b \<Longrightarrow> 0 \<le> rnd (a / b) \<and> rnd (a / b) \<le> 1"
  by (intro conjI rnd_nonneg rnd_le_1) (auto simp: divide_le_eq_1)

lemma rnd_scaled: "0 \<le> w \<Longrightarrow> 0 \<le> x \<Longrightarrow> x \<le> y \<Longrightarrow> rnd (w * x) \<le> rnd (w * y)"
  by (intro rnd_mono mult_left_mono)

end

abbreviation dbl :: "rat \<Rightarrow> rat" where "dbl \<equiv> fl 53"   \<comment> \<open>round to \<open>double\<close>\<close>
abbreviation flt :: "rat \<Rightarrow> rat" where "flt \<equiv> fl 24"   \<comment> \<open>round to \<open>float\<close>\<close>

interpretation double: rounding dbl
  by unfold_locales (auto intro: fl_mono fl_exact_nat)

interpretation single: rounding flt
  by unfold_locales (auto intro: fl_mono fl_exact_nat)

lemma dbl_tenth: "dbl (1 / 10) = 3602879701896397 / 36028797018963968"
  by code_simp

end
