(* ===== verification/MemTypes.thy ===== *)
theory MemTypes
  imports MathUtil ParseUtil FloatModel
begin

text \<open>
  The data the memory scheduler works on: the borrow requests, memory objects and algorithm
  results of \<open>ubse_mmi_def.h\<close>, the node reports of \<open>ubse_node_controller.h\<close>, and the
  scheduler's own candidate lists of \<open>ubse_mem_types.h\<close>. A record has the fields of its
  struct that the modelled code reads or writes; the other fields (owners, signatures,
  identifiers that are only passed through) do not influence any modelled operation.
\<close>

section \<open>Memory objects\<close>

datatype UbseMemState =
    UBSE_MEM_STATE_INIT
  | UBSE_MEM_STATE_SUCCEEDED
  | UBSE_MEM_STATE_FAILED
  | UBSE_MEM_STATE_DESTROYING
  | UBSE_MEM_SCHEDULING
  | UBSE_MEM_EXPORT_RUNNING
  | UBSE_MEM_EXPORT_SUCCESS
  | UBSE_MEM_EXPORT_DESTROYING
  | UBSE_MEM_EXPORT_DESTROYED
  | UBSE_MEM_EXPORT_DESTROYING_WAIT
  | UBSE_MEM_IMPORT_RUNNING
  | UBSE_MEM_IMPORT_SUCCESS
  | UBSE_MEM_IMPORT_DESTROYING
  | UBSE_MEM_IMPORT_DESTROYING_WAIT
  | UBSE_MEM_IMPORT_DESTROYED
  | UBSE_MEM_IMPORT_ABNORMAL

record UbseMemDebtNumaInfo =
  dn_nodeId :: NodeId
  dn_socketId :: c_int
  dn_numaId :: c_int64
  dn_size :: u64
  dn_portId :: u32
  dn_chipId :: u32

record UbseMemAlgoResult =
  ar_exportNumaInfos :: "UbseMemDebtNumaInfo list"
  ar_importNumaInfos :: "UbseMemDebtNumaInfo list"
  ar_blockSize :: u32
  ar_attachSocketId :: u32

definition algo_result_init :: UbseMemAlgoResult where
  "algo_result_init = \<lparr>ar_exportNumaInfos = [], ar_importNumaInfos = [], ar_blockSize = 128,
     ar_attachSocketId = 0\<rparr>"

record UbseMemLenderLinkInfo =
  ll_lenderNode :: NodeId
  ll_lenderSocketId :: c_int
  ll_lenderPort :: c_int

record UbseMemLenderInfo =
  li_lender_size :: u64
  li_nodeId :: NodeId
  li_socketId :: u32
  li_numaId :: u32
  li_portId :: u32

definition lender_info_init :: UbseMemLenderInfo where
  \<comment> \<open>\<open>UbseMemLenderInfo info{}\<close>\<close>
  "lender_info_init = \<lparr>li_lender_size = 0, li_nodeId = [], li_socketId = UINT32_MAX,
     li_numaId = UINT32_MAX, li_portId = UINT32_MAX\<rparr>"

record MmiNodeInfo =
  mn_index :: u32
  mn_nodeId :: NodeId
  mn_hostName :: string

record UbseShmRegionDesc =
  rg_nodeNum :: u32
  rg_nodelist :: "MmiNodeInfo list"

record UbseNumaLoc =
  nl_nodeId :: NodeId
  nl_numaId :: u32

record UbseMemAddrInfo =
  ai_addr :: u64
  ai_size :: u64

record UbseMemShmAffinitySocketInfo =
  af_affinitySocketId :: u32
  af_enableCreateWithAffinity :: bool

section \<open>Borrow requests\<close>

record UbseMemFdBorrowReq =
  fd_name :: string
  fd_requestNodeId :: NodeId
  fd_importNodeId :: NodeId
  fd_size :: u64
  fd_lenderLocs :: "UbseNumaLoc list"
  fd_lenderSizes :: "u64 list"
  fd_candidateNodeList :: "NodeId list"

record UbseMemNumaBorrowReq = UbseMemFdBorrowReq +
  nb_srcSocket :: c_int
  nb_highWatermark :: u64
  nb_samePlanePrefer :: bool
  nb_linkInfo :: UbseMemLenderLinkInfo

record UbseMemShareBorrowReq =
  sb_name :: string
  sb_requestNodeId :: NodeId
  sb_size :: u64
  sb_shmRegion :: UbseShmRegionDesc
  sb_providerList :: "NodeId list"
  sb_withAffinity :: UbseMemShmAffinitySocketInfo
  sb_lenderInfo :: UbseMemLenderInfo

record UbseMemAddrBorrowReq =
  ab_name :: string
  ab_requestNodeId :: NodeId
  ab_importNodeId :: NodeId
  ab_exportNodeId :: NodeId
  ab_dstSocket :: c_int
  ab_dstNuma :: c_int
  ab_exportAddrList :: "UbseMemAddrInfo list"

section \<open>Node reports\<close>

datatype PortStatus = UP | DOWN

datatype UbseNodeClusterState =
    UBSE_NODE_INIT
  | UBSE_NODE_SMOOTHING
  | UBSE_NODE_WORKING
  | UBSE_NODE_UNKNOWN
  | UBSE_NODE_FAULT
  | UBSE_NODE_PRE_BMC

datatype UbseAllocator = HUGETLB_PMD | HUGETLB_PUD | BUDDY_HIGHMEM

record UbsePortInfo =
  pt_portId :: string
  pt_portStatus :: PortStatus
  pt_remoteSlotId :: string
  pt_remoteChipId :: string

record UbseCpuInfo =
  cp_slotId :: u32
  cp_socketId :: u32
  cp_chipId :: string
  cp_portInfos :: "(string \<times> UbsePortInfo) list"  \<comment> \<open>an \<open>unordered_map\<close>, in iteration order\<close>

record UbseNumaInfo =
  un_nodeId :: NodeId
  un_numaId :: u32
  un_socketId :: u32
  un_size :: u64
  un_freeSize :: u64
  un_nr_hugepages_2M :: u32
  un_free_hugepages_2M :: u32
  un_nr_hugepages_512M :: u32
  un_free_hugepages_512M :: u32
  un_nr_hugepages_1G :: u32
  un_free_hugepages_1G :: u32
  un_mempool_available_cleared :: u64
  un_mempool_available_uncleared :: u64

record UbseNodeInfo =
  uo_nodeId :: NodeId
  uo_hostName :: string
  uo_numaInfos :: "UbseNumaInfo list"  \<comment> \<open>the mapped values of the \<open>unordered_map\<close>\<close>
  uo_cpuInfos :: "UbseCpuInfo list"
  uo_clusterState :: UbseNodeClusterState
  uo_isLender :: bool
  uo_allocator :: UbseAllocator
  uo_pmdMapping :: u32
  uo_blockSize :: u32
  uo_nodeMaxLendGb :: u32
  uo_exportTotalTimes :: u32

section \<open>The scheduler's types\<close>

datatype SchedulerMode = FreePriority | ReliabilityPriority | PerformancePriority

definition ONE_M :: u64 where "ONE_M = 1024 * 1024"
definition MAX_PERCENT :: u64 where "MAX_PERCENT = 100"

record SocketInfo =
  si_socketId :: SocketId
  si_numaInfos :: "NumaId list"

record NodeInfo =
  nd_nodeId :: NodeId
  nd_socketInfos :: "SocketInfo list"

datatype BorrowedType = FD | NUMA | ADDR | SHM

datatype AccountState =
    IMPORT_EXPORT_EXIST
  | ONLY_EXPORT_EXIST
  | ONLY_IMPORT_EXIST
  | BOTH_NOT_EXIST

text \<open>
  \<open>SchedulerAccountID\<close> is the key of the account maps, ordered by its \<open>operator<\<close>: request
  name, then node, then the number of the borrow type.
\<close>

datatype SchedulerAccountID =
  SchedulerAccountID (id_requestName: string) (id_nodeId: NodeId) (id_type: BorrowedType)

fun type_num :: "BorrowedType \<Rightarrow> nat" where
  "type_num FD = 0"
| "type_num NUMA = 1"
| "type_num ADDR = 2"
| "type_num SHM = 3"

lemma type_num_inj: "type_num a = type_num b \<longleftrightarrow> a = b"
  by (cases a; cases b) simp_all

definition account_id_less :: "SchedulerAccountID \<Rightarrow> SchedulerAccountID \<Rightarrow> bool" where
  "account_id_less a b =
     (if id_requestName a \<noteq> id_requestName b then id_requestName a < id_requestName b
      else if id_nodeId a \<noteq> id_nodeId b then id_nodeId a < id_nodeId b
      else type_num (id_type a) < type_num (id_type b))"

lemma account_id_eq_iff:
  "a = b \<longleftrightarrow> id_requestName a = id_requestName b \<and> id_nodeId a = id_nodeId b \<and>
     type_num (id_type a) = type_num (id_type b)"
  by (cases a; cases b) (simp add: type_num_inj)

instantiation SchedulerAccountID :: linorder
begin

definition less_SchedulerAccountID :: "SchedulerAccountID \<Rightarrow> SchedulerAccountID \<Rightarrow> bool" where
  "less_SchedulerAccountID a b = account_id_less a b"

definition less_eq_SchedulerAccountID :: "SchedulerAccountID \<Rightarrow> SchedulerAccountID \<Rightarrow> bool" where
  "less_eq_SchedulerAccountID a b = (a = b \<or> account_id_less a b)"

instance
proof
  fix x y z :: SchedulerAccountID
  show "(x < y) = (x \<le> y \<and> \<not> y \<le> x)"
    by (auto simp: less_SchedulerAccountID_def less_eq_SchedulerAccountID_def account_id_less_def
        account_id_eq_iff split: if_splits)
  show "x \<le> x"
    by (simp add: less_eq_SchedulerAccountID_def)
  show "x \<le> z" if "x \<le> y" and "y \<le> z"
    using that unfolding less_eq_SchedulerAccountID_def account_id_less_def account_id_eq_iff
    by (auto split: if_splits)
  show "x = y" if "x \<le> y" and "y \<le> x"
    using that unfolding less_eq_SchedulerAccountID_def account_id_less_def account_id_eq_iff
    by (auto split: if_splits)
  show "x \<le> y \<or> y \<le> x"
    unfolding less_eq_SchedulerAccountID_def account_id_less_def account_id_eq_iff
    by (auto split: if_splits)
qed

end

end
