(* ===== verification/SchedulerCache.thy ===== *)
theory SchedulerCache
  imports MemTypes
begin

text \<open>
  The scheduler's cache of the cluster (\<open>scheduler_cache/\<close>): a node owns sockets, a socket
  owns NUMA nodes, each in an ordered map. A NUMA node carries the collected memory
  statistics and the amounts the ledger has booked on it as borrowed, lent and shared; a
  socket carries the number of blocks it has lent and its links.
\<close>

section \<open>NUMA nodes\<close>

record numa_info =
  nu_numaId :: NumaId
  memTotal :: u64
  memUsed :: u64
  memFree :: u64
  memBorrow :: u64
  memLent :: u64
  memShared :: u64

definition SchedulerNumaInfo_new :: "NumaId \<Rightarrow> numa_info" where
  "SchedulerNumaInfo_new i = \<lparr>nu_numaId = i, memTotal = 0, memUsed = 0, memFree = 0,
     memBorrow = 0, memLent = 0, memShared = 0\<rparr>"

definition NumaInit :: "UbseNumaInfo \<Rightarrow> numa_info \<Rightarrow> numa_info" where
  "NumaInit u n = n\<lparr>nu_numaId := un_numaId u\<rparr>"

definition UpdateNumaMemorySize :: "u64 \<Rightarrow> u64 \<Rightarrow> u64 \<Rightarrow> numa_info \<Rightarrow> numa_info" where
  "UpdateNumaMemorySize tot us fr n = n\<lparr>memTotal := tot, memUsed := us, memFree := fr\<rparr>"

definition NumaGetAvailableLendSize :: "u64 \<Rightarrow> numa_info \<Rightarrow> u64" where
  "NumaGetAvailableLendSize waterLine n =
     (let limit = memTotal n * waterLine div MAX_PERCENT;
          fr = (if memUsed n > limit then 0 else limit - memUsed n);
          reserve = (if memLent n + memShared n > limit then 0 else limit - (memLent n + memShared n))
      in min fr reserve)"

definition AddNumaBorrowSize :: "u64 \<Rightarrow> numa_info \<Rightarrow> numa_info" where
  "AddNumaBorrowSize v n = n\<lparr>memBorrow := add_keep (memBorrow n) v\<rparr>"

definition SubNumaBorrowSize :: "u64 \<Rightarrow> numa_info \<Rightarrow> numa_info" where
  "SubNumaBorrowSize v n = n\<lparr>memBorrow := sub_keep (memBorrow n) v\<rparr>"

definition AddNumaLentSize :: "u64 \<Rightarrow> numa_info \<Rightarrow> numa_info" where
  "AddNumaLentSize v n = n\<lparr>memLent := add_keep (memLent n) v\<rparr>"

definition SubNumaLentSize :: "u64 \<Rightarrow> numa_info \<Rightarrow> numa_info" where
  "SubNumaLentSize v n = n\<lparr>memLent := sub_keep (memLent n) v\<rparr>"

definition AddNumaShareSize :: "u64 \<Rightarrow> numa_info \<Rightarrow> numa_info" where
  "AddNumaShareSize v n = n\<lparr>memShared := add_keep (memShared n) v\<rparr>"

definition SubNumaShareSize :: "u64 \<Rightarrow> numa_info \<Rightarrow> numa_info" where
  "SubNumaShareSize v n = n\<lparr>memShared := sub_keep (memShared n) v\<rparr>"

lemmas numa_op_defs = AddNumaBorrowSize_def SubNumaBorrowSize_def AddNumaLentSize_def
  SubNumaLentSize_def AddNumaShareSize_def SubNumaShareSize_def

section \<open>Sockets\<close>

record RawPortInfo =
  rp_portId :: PortId
  rp_remoteSlotId :: string
  rp_remoteChipId :: ChipId

record socket_info =
  sk_socketId :: SocketId
  sk_chipId :: ChipId
  sk_numas :: "(NumaId, numa_info) omap"
  sk_maxLentSize :: u64
  sk_lentCount :: u64
  sk_maxExportTimes :: u32
  sk_ports :: "PortId set"
  sk_rawPorts :: "RawPortInfo list"

definition SchedulerSocketInfo_new :: "SocketId \<Rightarrow> socket_info" where
  "SchedulerSocketInfo_new i = \<lparr>sk_socketId = i, sk_chipId = 0, sk_numas = [], sk_maxLentSize = 0,
     sk_lentCount = 0, sk_maxExportTimes = 0, sk_ports = {}, sk_rawPorts = []\<rparr>"

definition SocketInit :: "UbseNumaInfo \<Rightarrow> socket_info \<Rightarrow> socket_info" where
  "SocketInit u s =
     (let i = un_numaId u;
          numa = (case map_of (sk_numas s) i of Some n \<Rightarrow> n | None \<Rightarrow> SchedulerNumaInfo_new i)
      in s\<lparr>sk_numas := om_put i (NumaInit u numa) (sk_numas s)\<rparr>)"

definition SocketGetNumaInfo :: "NumaId \<Rightarrow> socket_info \<Rightarrow> numa_info option" where
  "SocketGetNumaInfo i s = map_of (sk_numas s) i"

definition GetSocketInfoView :: "socket_info \<Rightarrow> SocketInfo" where
  \<comment> \<open>\<open>SchedulerSocketInfo::GetSocketInfo\<close>\<close>
  "GetSocketInfoView s =
     \<lparr>si_socketId = sk_socketId s, si_numaInfos = map (\<lambda>(k, n). nu_numaId n) (sk_numas s)\<rparr>"

fun update_ports :: "(string \<times> UbsePortInfo) list \<Rightarrow> socket_info \<Rightarrow> socket_info" where
  "update_ports [] s = s"
| "update_ports ((k, p) # ps) s =
     (if pt_portStatus p \<noteq> UP then update_ports ps s
      else case ConvertStrToUint32 (pt_portId p) 0 10 of (ret, portId) \<Rightarrow>
        if ret \<noteq> UBSE_OK then update_ports ps s
        else
          let s1 = s\<lparr>sk_ports := insert portId (sk_ports s)\<rparr>
          in if pt_remoteSlotId p = [] \<or> pt_remoteSlotId p = ''-'' then update_ports ps s1
             else case ConvertStrToUint32 (pt_remoteChipId p) 0 10 of (ret2, peerChipId) \<Rightarrow>
               if ret2 \<noteq> UBSE_OK then update_ports ps s1
               else update_ports ps (s1\<lparr>sk_rawPorts := sk_rawPorts s1 @
                 [\<lparr>rp_portId = portId, rp_remoteSlotId = pt_remoteSlotId p, rp_remoteChipId = peerChipId\<rparr>]\<rparr>))"

definition UpdateLinkInfo :: "UbseCpuInfo \<Rightarrow> socket_info \<Rightarrow> socket_info" where
  "UpdateLinkInfo cpu s =
     (if cp_socketId cpu \<noteq> sk_socketId s then s
      else update_ports (cp_portInfos cpu) (s\<lparr>sk_ports := {}, sk_rawPorts := []\<rparr>))"

type_synonym chip_map = "NodeId \<Rightarrow> (ChipId \<Rightarrow> SocketId option) option"

definition ResolveRawPorts :: "chip_map \<Rightarrow> socket_info \<Rightarrow> (NodeId \<times> SocketId) set" where
  "ResolveRawPorts socketToChip s =
     fold (\<lambda>raw resolved. case socketToChip (rp_remoteSlotId raw) of
         None \<Rightarrow> resolved
       | Some chips \<Rightarrow> (case chips (rp_remoteChipId raw) of
           None \<Rightarrow> resolved
         | Some sock \<Rightarrow> insert (rp_remoteSlotId raw, sock) resolved)) (sk_rawPorts s) {}"

definition SetChipId :: "ChipId \<Rightarrow> socket_info \<Rightarrow> socket_info" where
  "SetChipId c s = s\<lparr>sk_chipId := c\<rparr>"

definition SetMaxExportTimes :: "u32 \<Rightarrow> socket_info \<Rightarrow> socket_info" where
  "SetMaxExportTimes m s = s\<lparr>sk_maxExportTimes := m\<rparr>"

definition SetMaxLentSize :: "u64 \<Rightarrow> socket_info \<Rightarrow> socket_info" where
  "SetMaxLentSize m s = s\<lparr>sk_maxLentSize := m\<rparr>"

definition SocketGetLentSize :: "socket_info \<Rightarrow> u64" where
  "SocketGetLentSize s =
     foldl (\<lambda>tot (k, n). add_keep (add_keep tot (memLent n)) (memShared n)) 0 (sk_numas s)"

definition SocketGetFreeSize :: "socket_info \<Rightarrow> u64" where
  "SocketGetFreeSize s = foldl (\<lambda>tot (k, n). add_keep tot (memFree n)) 0 (sk_numas s)"

definition GetTotalMemoryUsedSize :: "socket_info \<Rightarrow> u64" where
  "GetTotalMemoryUsedSize s = foldl (\<lambda>tot (k, n). add_keep tot (memUsed n)) 0 (sk_numas s)"

definition GetTotalMemorySize :: "socket_info \<Rightarrow> u64" where
  "GetTotalMemorySize s = foldl (\<lambda>tot (k, n). add_keep tot (memTotal n)) 0 (sk_numas s)"

definition AddLentCount :: "u64 \<Rightarrow> socket_info \<Rightarrow> socket_info" where
  "AddLentCount c s = s\<lparr>sk_lentCount := add_keep (sk_lentCount s) c\<rparr>"

definition SubLentCount :: "u64 \<Rightarrow> socket_info \<Rightarrow> socket_info" where
  "SubLentCount c s = s\<lparr>sk_lentCount := sub_keep (sk_lentCount s) c\<rparr>"

definition SocketGetAvailableLendSize :: "u64 \<Rightarrow> u64 \<Rightarrow> socket_info \<Rightarrow> u64" where
  "SocketGetAvailableLendSize waterLine blockSizeByte s =
     (if blockSizeByte = 0 then 0
      else foldl (\<lambda>tot (k, n).
          add_keep tot (NumaGetAvailableLendSize waterLine n div blockSizeByte * blockSizeByte))
        0 (sk_numas s))"

section \<open>Nodes\<close>

record node_info =
  no_nodeId :: NodeId
  no_hostName :: string
  no_allocator :: UbseAllocator
  no_pmdMapping :: u32
  no_blockSize :: u32
  no_nodeMaxLendGb :: u32
  no_isLender :: bool
  no_clusterState :: UbseNodeClusterState
  no_sockets :: "(SocketId, socket_info) omap"

definition add_numa_report :: "u32 \<Rightarrow> UbseNumaInfo \<Rightarrow> (SocketId, socket_info) omap \<Rightarrow> (SocketId, socket_info) omap" where
  "add_numa_report maxTimes u m =
     (let i = un_socketId u;
          sock = (case map_of m i of Some s \<Rightarrow> s | None \<Rightarrow> SchedulerSocketInfo_new i)
      in om_put i (SetMaxExportTimes maxTimes (SocketInit u sock)) m)"

definition add_cpu_report :: "UbseCpuInfo \<Rightarrow> (SocketId, socket_info) omap \<Rightarrow> (SocketId, socket_info) omap" where
  "add_cpu_report cpu m = (case map_of m (cp_socketId cpu) of
      None \<Rightarrow> m
    | Some s \<Rightarrow> (case ConvertStrToUint32 (cp_chipId cpu) 0 10 of (ret, chipId) \<Rightarrow>
        if ret = UBSE_OK then om_upd (cp_socketId cpu) (SetChipId chipId) m else m))"

definition SchedulerNodeInfo_new :: "UbseNodeInfo \<Rightarrow> node_info" where
  "SchedulerNodeInfo_new u =
     \<lparr>no_nodeId = uo_nodeId u, no_hostName = uo_hostName u, no_allocator = uo_allocator u,
      no_pmdMapping = uo_pmdMapping u, no_blockSize = uo_blockSize u,
      no_nodeMaxLendGb = uo_nodeMaxLendGb u, no_isLender = uo_isLender u,
      no_clusterState = UBSE_NODE_INIT,
      no_sockets = fold add_cpu_report (uo_cpuInfos u)
        (fold (add_numa_report (uo_exportTotalTimes u)) (uo_numaInfos u) [])\<rparr>"

definition NodeGetSocketInfo :: "SocketId \<Rightarrow> node_info \<Rightarrow> socket_info option" where
  "NodeGetSocketInfo i n = map_of (no_sockets n) i"

definition NodeGetNumaInfo :: "SocketId \<Rightarrow> NumaId \<Rightarrow> node_info \<Rightarrow> numa_info option" where
  "NodeGetNumaInfo i j n = (case map_of (no_sockets n) i of
      None \<Rightarrow> None
    | Some s \<Rightarrow> SocketGetNumaInfo j s)"

definition GetNodeInfoView :: "node_info \<Rightarrow> NodeInfo" where
  \<comment> \<open>\<open>SchedulerNodeInfo::GetNodeInfo\<close>\<close>
  "GetNodeInfoView n =
     \<lparr>nd_nodeId = no_nodeId n, nd_socketInfos = map (\<lambda>(k, s). GetSocketInfoView s) (no_sockets n)\<rparr>"

definition NodeGetBorrowSize :: "node_info \<Rightarrow> u64" where
  "NodeGetBorrowSize n =
     foldl (\<lambda>tot (k, s). foldl (\<lambda>t (j, u). add_keep t (memBorrow u)) tot (sk_numas s)) 0 (no_sockets n)"

definition NodeGetLentSize :: "node_info \<Rightarrow> u64" where
  "NodeGetLentSize n = foldl (\<lambda>tot (k, s). add_keep tot (SocketGetLentSize s)) 0 (no_sockets n)"

definition GetLentSizeExcludingShared :: "node_info \<Rightarrow> u64" where
  "GetLentSizeExcludingShared n =
     foldl (\<lambda>tot (k, s). foldl (\<lambda>t (j, u). add_keep t (memLent u)) tot (sk_numas s)) 0 (no_sockets n)"

definition UpdateNodeClusterState :: "UbseNodeClusterState \<Rightarrow> node_info \<Rightarrow> node_info" where
  "UpdateNodeClusterState c n = n\<lparr>no_clusterState := c\<rparr>"

definition UpdateHostName :: "string \<Rightarrow> node_info \<Rightarrow> node_info" where
  "UpdateHostName h n = n\<lparr>no_hostName := h\<rparr>"

definition UpdateIsLender :: "bool \<Rightarrow> node_info \<Rightarrow> node_info" where
  "UpdateIsLender b n = n\<lparr>no_isLender := b\<rparr>"

section \<open>Well-formed caches\<close>

text \<open>The maps are ordered, and every object is filed under its own identifier.\<close>

definition socket_ok :: "socket_info \<Rightarrow> bool" where
  "socket_ok s \<longleftrightarrow> om_ok (sk_numas s) \<and> (\<forall>(k, n) \<in> set (sk_numas s). nu_numaId n = k)"

definition node_ok :: "node_info \<Rightarrow> bool" where
  "node_ok n \<longleftrightarrow> om_ok (no_sockets n) \<and>
     (\<forall>(k, s) \<in> set (no_sockets n). sk_socketId s = k \<and> socket_ok s)"

lemma om_ok_in_iff: "om_ok m \<Longrightarrow> (k, v) \<in> set m \<longleftrightarrow> map_of m k = Some v"
  by (simp add: distinct_map_of_iff om_ok_distinct)

lemma all_values_put:
  "om_ok m \<Longrightarrow> \<forall>(k, v) \<in> set m. P k v \<Longrightarrow> P k v \<Longrightarrow> \<forall>(k, v) \<in> set (om_put k v m). P k v"
  using om_ok_put [of m k v] by (fastforce simp: om_ok_in_iff om.find_put split: if_splits)

lemma all_values_upd:
  "\<forall>(k, v) \<in> set m. P k v \<Longrightarrow> (\<And>v. P k v \<Longrightarrow> P k (f v)) \<Longrightarrow>
     \<forall>(k, v) \<in> set (om_upd k f m). P k v"
  unfolding om_upd_def by fastforce

lemma map_of_value: "map_of m k = Some v \<Longrightarrow> \<forall>(k, v) \<in> set m. P k v \<Longrightarrow> P k v"
  by (auto dest: map_of_SomeD)

lemma socket_ok_new: "socket_ok (SchedulerSocketInfo_new i)"
  by (simp add: socket_ok_def SchedulerSocketInfo_new_def)

lemma socket_ok_init: "socket_ok s \<Longrightarrow> socket_ok (SocketInit u s)"
  unfolding socket_ok_def SocketInit_def Let_def
  by (simp add: om_ok_put, intro all_values_put) (auto simp: NumaInit_def)

lemma SocketInit_socketId [simp]: "sk_socketId (SocketInit u s) = sk_socketId s"
  by (simp add: SocketInit_def Let_def)

lemma SetMaxExportTimes_simps [simp]:
  "sk_socketId (SetMaxExportTimes t s) = sk_socketId s"
  "sk_numas (SetMaxExportTimes t s) = sk_numas s"
  by (simp_all add: SetMaxExportTimes_def)

lemma socket_ok_numas: "sk_numas s = sk_numas t \<Longrightarrow> socket_ok s = socket_ok t"
  by (simp add: socket_ok_def)

definition sockets_ok :: "(SocketId, socket_info) omap \<Rightarrow> bool" where
  "sockets_ok m \<longleftrightarrow> om_ok m \<and> (\<forall>(k, s) \<in> set m. sk_socketId s = k \<and> socket_ok s)"

lemma node_ok_sockets: "node_ok n \<longleftrightarrow> sockets_ok (no_sockets n)"
  by (simp add: node_ok_def sockets_ok_def)

lemma sockets_ok_find: "sockets_ok m \<Longrightarrow> map_of m k = Some s \<Longrightarrow> sk_socketId s = k \<and> socket_ok s"
  unfolding sockets_ok_def by (rule map_of_value) auto

lemma sockets_ok_put:
  "sockets_ok m \<Longrightarrow> sk_socketId s = k \<Longrightarrow> socket_ok s \<Longrightarrow> sockets_ok (om_put k s m)"
  unfolding sockets_ok_def by (intro conjI om_ok_put all_values_put) auto

lemma sockets_ok_add_numa: "sockets_ok m \<Longrightarrow> sockets_ok (add_numa_report t u m)"
proof -
  assume ok: "sockets_ok m"
  define sock where "sock = (case map_of m (un_socketId u) of Some s \<Rightarrow> s | None \<Rightarrow> SchedulerSocketInfo_new (un_socketId u))"
  have "sk_socketId sock = un_socketId u \<and> socket_ok sock"
    using sockets_ok_find [OF ok] socket_ok_new [of "un_socketId u"]
    by (auto simp: sock_def SchedulerSocketInfo_new_def split: option.split)
  then show ?thesis
    unfolding add_numa_report_def Let_def sock_def [symmetric]
    by (intro sockets_ok_put ok)
      (simp_all add: socket_ok_numas [OF SetMaxExportTimes_simps(2)] socket_ok_init)
qed

lemma sockets_ok_upd:
  "sockets_ok m \<Longrightarrow> (\<And>s. socket_ok s \<Longrightarrow> socket_ok (f s) \<and> sk_socketId (f s) = sk_socketId s) \<Longrightarrow>
     sockets_ok (om_upd k f m)"
  unfolding sockets_ok_def by (intro conjI all_values_upd) (auto simp: om_ok_upd)

lemma SetChipId_simps [simp]:
  "sk_socketId (SetChipId c s) = sk_socketId s"
  "sk_numas (SetChipId c s) = sk_numas s"
  by (simp_all add: SetChipId_def)

lemma sockets_ok_add_cpu: "sockets_ok m \<Longrightarrow> sockets_ok (add_cpu_report c m)"
  unfolding add_cpu_report_def
  by (auto intro!: sockets_ok_upd simp: socket_ok_numas [OF SetChipId_simps(2)] split: option.splits prod.splits)

lemma sockets_ok_Nil: "sockets_ok []"
  by (simp add: sockets_ok_def)

lemma node_ok_new: "node_ok (SchedulerNodeInfo_new u)"
proof -
  have "sockets_ok (fold (add_numa_report t) us [])" for t us
    by (rule fold_invariant_simple) (simp_all add: sockets_ok_Nil sockets_ok_add_numa)
  then have "sockets_ok (fold add_cpu_report cs (fold (add_numa_report t) us []))" for cs t us
    by (rule fold_invariant_simple) (rule sockets_ok_add_cpu)
  then show ?thesis
    by (simp add: node_ok_sockets SchedulerNodeInfo_new_def)
qed

subsection \<open>A new node knows exactly the reported NUMA nodes\<close>

definition cell :: "(SocketId, socket_info) omap \<Rightarrow> SocketId \<Rightarrow> NumaId \<Rightarrow> numa_info option" where
  "cell m i j = (case map_of m i of None \<Rightarrow> None | Some s \<Rightarrow> map_of (sk_numas s) j)"

lemma NodeGetNumaInfo_cell: "NodeGetNumaInfo i j n = cell (no_sockets n) i j"
  by (simp add: NodeGetNumaInfo_def cell_def SocketGetNumaInfo_def split: option.split)

lemma cell_add_numa:
  assumes "sockets_ok m" and "\<And>i j n. cell m i j = Some n \<Longrightarrow> n = SchedulerNumaInfo_new j"
  shows "cell (add_numa_report t u m) i j =
     (if i = un_socketId u \<and> j = un_numaId u then Some (SchedulerNumaInfo_new j) else cell m i j)"
proof (cases "map_of m (un_socketId u)")
  case None
  with assms(1) show ?thesis
    by (auto simp: cell_def add_numa_report_def Let_def om.find_put sockets_ok_def SocketInit_def NumaInit_def
        SchedulerSocketInfo_new_def SchedulerNumaInfo_new_def)
next
  case (Some s)
  then have ok: "om_ok (sk_numas s)"
    using sockets_ok_find [OF assms(1) Some] by (simp add: socket_ok_def)
  show ?thesis
  proof (cases "map_of (sk_numas s) (un_numaId u)")
    case None
    with Some ok assms(1) show ?thesis
      by (auto simp: cell_def add_numa_report_def Let_def om.find_put sockets_ok_def SocketInit_def NumaInit_def
          SchedulerNumaInfo_new_def)
  next
    case n: (Some n)
    with Some have "n = SchedulerNumaInfo_new (un_numaId u)"
      by (intro assms(2) [of "un_socketId u"]) (simp add: cell_def)
    with Some n ok assms(1) show ?thesis
      by (auto simp: cell_def add_numa_report_def Let_def om.find_put sockets_ok_def SocketInit_def NumaInit_def
          SchedulerNumaInfo_new_def)
  qed
qed

lemma cell_add_cpu: "sockets_ok m \<Longrightarrow> cell (add_cpu_report c m) i j = cell m i j"
  by (auto simp: cell_def add_cpu_report_def om.find_upd sockets_ok_def SetChipId_def
      split: option.splits prod.splits)

lemma cell_numa_reports:
  "sockets_ok (fold (add_numa_report t) us []) \<and>
   (\<forall>i j. cell (fold (add_numa_report t) us []) i j =
      (if \<exists>u \<in> set us. i = un_socketId u \<and> j = un_numaId u then Some (SchedulerNumaInfo_new j) else None))"
proof (induction us rule: rev_induct)
  case Nil
  show ?case by (simp add: sockets_ok_def cell_def)
next
  case (snoc u us)
  let ?m = "fold (add_numa_report t) us []"
  from snoc have ok: "sockets_ok ?m" and cells: "\<And>i j. cell ?m i j =
      (if \<exists>u \<in> set us. i = un_socketId u \<and> j = un_numaId u then Some (SchedulerNumaInfo_new j) else None)"
    by auto
  have "\<And>i j n. cell ?m i j = Some n \<Longrightarrow> n = SchedulerNumaInfo_new j"
    unfolding cells by (simp split: if_splits)
  from cell_add_numa [OF ok this] show ?case
    by (simp add: sockets_ok_add_numa ok cells)
qed

lemma cell_cpu_reports: "sockets_ok m \<Longrightarrow> cell (fold add_cpu_report cs m) i j = cell m i j"
  by (induction cs arbitrary: m) (auto simp: cell_add_cpu sockets_ok_add_cpu)

section \<open>What is available on a NUMA node\<close>

definition lend_limit :: "u64 \<Rightarrow> numa_info \<Rightarrow> u64" where
  "lend_limit waterLine n = memTotal n * waterLine div MAX_PERCENT"

lemma unat_min_word: "unat (min a b) = min (unat a) (unat b)" for a b :: "'a::len word"
  by (auto simp: min_def word_le_nat_alt)

lemma avail_used:
  "unat (memUsed n) + unat (NumaGetAvailableLendSize w n) \<le> max (unat (memUsed n)) (unat (lend_limit w n))"
  by (auto simp: NumaGetAvailableLendSize_def lend_limit_def [symmetric] Let_def unat_min_word unat_sub
      word_less_nat_alt word_le_nat_alt not_less)

lemma avail_reserve:
  "unat (memLent n + memShared n) + unat (NumaGetAvailableLendSize w n) \<le>
     max (unat (memLent n + memShared n)) (unat (lend_limit w n))"
  by (auto simp: NumaGetAvailableLendSize_def lend_limit_def [symmetric] Let_def unat_min_word unat_sub
      word_less_nat_alt word_le_nat_alt not_less)

lemma lend_limit_total:
  assumes "unat (memTotal n) * unat w < 2 ^ 64" and "w \<le> MAX_PERCENT"
  shows "lend_limit w n \<le> memTotal n"
proof -
  have "unat (lend_limit w n) = unat (memTotal n) * unat w div 100"
    using unat_mul_fits [OF assms(1)] by (simp add: lend_limit_def MAX_PERCENT_def unat_div)
  also have "\<dots> \<le> unat (memTotal n) * 100 div 100"
    using assms(2) by (intro div_le_mono mult_le_mono2) (simp add: MAX_PERCENT_def word_le_nat_alt)
  finally show ?thesis by (simp add: word_le_nat_alt)
qed

lemma SocketGetAvailableLendSize_le:
  assumes "b \<noteq> 0"
  shows "unat (SocketGetAvailableLendSize w b s) \<le>
     (\<Sum>(k, n) \<leftarrow> sk_numas s. unat (NumaGetAvailableLendSize w n div b * b))"
  using foldl_add_keep_le [of "\<lambda>(k, n). NumaGetAvailableLendSize w n div b * b" 0 "sk_numas s"] assms
  by (simp add: SocketGetAvailableLendSize_def case_prod_beta')

section \<open>Sizes of a node are zero exactly when nothing is booked\<close>

lemma NodeGetBorrowSize_0_iff:
  "NodeGetBorrowSize n = 0 \<longleftrightarrow> (\<forall>(i, s) \<in> set (no_sockets n). \<forall>(j, u) \<in> set (sk_numas s). memBorrow u = 0)"
proof -
  have "foldl (\<lambda>tot (k, s). foldl (\<lambda>t (j, u). add_keep t (memBorrow u)) tot (sk_numas s)) a ss = 0 \<longleftrightarrow>
      a = 0 \<and> (\<forall>(i, s) \<in> set ss. \<forall>(j, u) \<in> set (sk_numas s). memBorrow u = 0)" for a and ss :: "(SocketId, socket_info) omap"
    by (induction ss arbitrary: a) (auto simp: case_prod_beta' foldl_add_keep_0_iff)
  then show ?thesis by (simp add: NodeGetBorrowSize_def)
qed

lemma GetLentSizeExcludingShared_0_iff:
  "GetLentSizeExcludingShared n = 0 \<longleftrightarrow> (\<forall>(i, s) \<in> set (no_sockets n). \<forall>(j, u) \<in> set (sk_numas s). memLent u = 0)"
proof -
  have "foldl (\<lambda>tot (k, s). foldl (\<lambda>t (j, u). add_keep t (memLent u)) tot (sk_numas s)) a ss = 0 \<longleftrightarrow>
      a = 0 \<and> (\<forall>(i, s) \<in> set ss. \<forall>(j, u) \<in> set (sk_numas s). memLent u = 0)" for a and ss :: "(SocketId, socket_info) omap"
    by (induction ss arbitrary: a) (auto simp: case_prod_beta' foldl_add_keep_0_iff)
  then show ?thesis by (simp add: GetLentSizeExcludingShared_def)
qed

section \<open>Properties\<close>

text \<open>
  A node built from a report is well formed and has a NUMA node at (socket, NUMA) exactly
  when the report names it, with nothing counted or booked on it yet, whatever chip
  identifiers the CPU reports carry.
\<close>

theorem SchedulerNodeInfo_new_cells:
  "node_ok (SchedulerNodeInfo_new u) \<and> no_nodeId (SchedulerNodeInfo_new u) = uo_nodeId u \<and>
   NodeGetNumaInfo i j (SchedulerNodeInfo_new u) =
     (if \<exists>r \<in> set (uo_numaInfos u). un_socketId r = i \<and> un_numaId r = j
      then Some (SchedulerNumaInfo_new j) else None)"
  using node_ok_new [of u] cell_numa_reports [of "uo_exportTotalTimes u" "uo_numaInfos u"]
  by (auto simp: SchedulerNodeInfo_new_def NodeGetNumaInfo_cell cell_cpu_reports)

text \<open>
  A NUMA node never offers more than its share under the water line: with the water line
  at most 100 percent and a total whose product with it fits 64 bits, what is used plus what
  is offered, and what is lent and shared plus what is offered, stay within the limit
  (unless they are already past it, and then nothing is offered), and the limit is within
  the total.
\<close>

theorem NumaGetAvailableLendSize_bounds:
  assumes "unat (memTotal n) * unat w < 2 ^ 64" and "w \<le> 100"
  shows "NumaGetAvailableLendSize w n = 0 \<or>
    (unat (memUsed n) + unat (NumaGetAvailableLendSize w n) \<le> unat (memTotal n) * unat w div 100 \<and>
     unat (memLent n + memShared n) + unat (NumaGetAvailableLendSize w n) \<le> unat (memTotal n) * unat w div 100 \<and>
     unat (memTotal n) * unat w div 100 \<le> unat (memTotal n))"
proof -
  have l: "unat (lend_limit w n) = unat (memTotal n) * unat w div 100" "lend_limit w n \<le> memTotal n"
    using lend_limit_total [OF assms(1)] assms(2) unat_mul_fits [OF assms(1)]
    by (simp_all add: lend_limit_def MAX_PERCENT_def unat_div)
  have "NumaGetAvailableLendSize w n = 0" if "lend_limit w n < memUsed n \<or> lend_limit w n < memLent n + memShared n"
    using that by (auto simp: NumaGetAvailableLendSize_def lend_limit_def [symmetric] Let_def)
  moreover have "max (unat x) (unat (lend_limit w n)) = unat (lend_limit w n)" if "\<not> lend_limit w n < x" for x
    using that by (simp add: word_less_nat_alt)
  ultimately show ?thesis
    using avail_used [of n w] avail_reserve [of n w] l(2) unfolding l(1) [symmetric]
    by (metis word_le_nat_alt)
qed

theorem NumaGetAvailableLendSize_bounds_witness:
  "\<exists>n. unat (memTotal n) = 1000 \<and> unat (memUsed n) = 300 \<and> NumaGetAvailableLendSize 80 n = 450 \<and>
     unat (memLent n + memShared n) + 450 \<le> unat (memTotal n) * 80 div 100"
proof -
  define n where "n = \<lparr>nu_numaId = 0, memTotal = 1000, memUsed = 300, memFree = 700, memBorrow = 0,
    memLent = 250, memShared = 100\<rparr>"
  have a: "NumaGetAvailableLendSize 80 n = 450"
    by (simp add: n_def NumaGetAvailableLendSize_def MAX_PERCENT_def Let_def)
  have "NumaGetAvailableLendSize 80 n = 0 \<or>
    (unat (memUsed n) + unat (NumaGetAvailableLendSize 80 n) \<le> unat (memTotal n) * unat (80 :: u64) div 100 \<and>
     unat (memLent n + memShared n) + unat (NumaGetAvailableLendSize 80 n) \<le> unat (memTotal n) * unat (80 :: u64) div 100 \<and>
     unat (memTotal n) * unat (80 :: u64) div 100 \<le> unat (memTotal n))"
    by (rule NumaGetAvailableLendSize_bounds) (simp_all add: n_def)
  then have "unat (memLent n + memShared n) + 450 \<le> unat (memTotal n) * 80 div 100"
    unfolding a by simp
  with a show ?thesis by (intro exI [of _ n]) (simp add: n_def)
qed

end
