(* ===== verification/NodeManager.thy ===== *)
theory NodeManager
  imports SchedulerCache
begin

text \<open>
  \<open>SchedulerNodeManager\<close>: the scheduler's view of the cluster, its configuration, the
  collection of memory statistics and links, and the look-ups that the filters use. The
  configuration module and the node controller are outside: what they return is an
  argument.
\<close>

section \<open>What the manager reads from other modules\<close>

record conf_module =
  GetConf_string :: "string \<Rightarrow> string \<Rightarrow> string option"  \<comment> \<open>\<open>None\<close>: not \<open>UBSE_OK\<close>\<close>
  GetConf_bool :: "string \<Rightarrow> string \<Rightarrow> bool option"
  GetConf_u32 :: "string \<Rightarrow> string \<Rightarrow> u32 option"

type_synonym conf = "conf_module option"  \<comment> \<open>\<open>None\<close>: the module is not there\<close>

text \<open>
  Floating point follows the platform: \<open>ld_prec\<close> is the precision of \<open>long double\<close> (64 on
  x86-64, 113 on AArch64), and \<open>ub_u64\<close> is what a conversion to \<open>uint64_t\<close> gives for a
  value that does not fit, which C++ leaves undefined.
\<close>

record platform =
  ld_prec :: nat
  ub_u64 :: "rat \<Rightarrow> u64"

definition ld :: "platform \<Rightarrow> rat \<Rightarrow> rat" where
  "ld pf q = fl (ld_prec pf) q"

definition to_u64 :: "platform \<Rightarrow> rat \<Rightarrow> u64" where
  "to_u64 pf q = (if - 1 < q \<and> q < 2 ^ 64 then of_int (if q < 0 then 0 else \<lfloor>q\<rfloor>) else ub_u64 pf q)"

definition platform_x86 :: platform where
  "platform_x86 = \<lparr>ld_prec = 64, ub_u64 = (\<lambda>_. 0x8000000000000000)\<rparr>"

section \<open>State\<close>

record node_manager =
  nm_nodeMap :: "NodeId \<Rightarrow> node_info option"
  nm_nodeInfos :: "NodeInfo list"
  nm_staticNodes :: "NodeId set"
  nm_providerNodes :: "NodeId set"
  nm_groupNodes :: "NodeId set list"
  nm_chipToSocket :: "NodeId \<Rightarrow> (u32 \<Rightarrow> u32 option) option"
  nm_socketToChip :: "NodeId \<Rightarrow> (u32 \<Rightarrow> u32 option) option"
  nm_isPageSize64K :: bool
  nm_schedulerMode :: SchedulerMode
  nm_bandwidthTolerance :: u32
  nm_radiusBorrow :: u16
  nm_radiusLender :: u16

definition SchedulerNodeManager_new :: node_manager where
  "SchedulerNodeManager_new = \<lparr>nm_nodeMap = Map.empty, nm_nodeInfos = [], nm_staticNodes = {},
     nm_providerNodes = {}, nm_groupNodes = [], nm_chipToSocket = Map.empty,
     nm_socketToChip = Map.empty, nm_isPageSize64K = False, nm_schedulerMode = FreePriority,
     nm_bandwidthTolerance = 0, nm_radiusBorrow = UINT16_MAX, nm_radiusLender = UINT16_MAX\<rparr>"

definition NodeManagerClear :: "node_manager \<Rightarrow> node_manager" where
  "NodeManagerClear nm = nm\<lparr>nm_nodeMap := Map.empty, nm_nodeInfos := [], nm_providerNodes := {},
     nm_groupNodes := [], nm_chipToSocket := Map.empty, nm_socketToChip := Map.empty,
     nm_staticNodes := {}\<rparr>"

section \<open>Look-ups\<close>

definition GetNodeInfo :: "node_manager \<Rightarrow> NodeId \<Rightarrow> node_info option" where
  "GetNodeInfo nm i = nm_nodeMap nm i"

definition GetSocketInfo :: "node_manager \<Rightarrow> NodeId \<Rightarrow> SocketId \<Rightarrow> socket_info option" where
  "GetSocketInfo nm i sid = (case GetNodeInfo nm i of None \<Rightarrow> None | Some n \<Rightarrow> NodeGetSocketInfo sid n)"

fun find_numa :: "NumaId \<Rightarrow> (SocketId, socket_info) omap \<Rightarrow> (SocketId \<times> numa_info) option" where
  \<comment> \<open>the loop over the sockets, returning at the first that holds the NUMA id\<close>
  "find_numa j [] = None"
| "find_numa j ((sid, s) # ss) = (case SocketGetNumaInfo j s of
      Some u \<Rightarrow> Some (sid, u)
    | None \<Rightarrow> find_numa j ss)"

definition GetNumaInfo :: "node_manager \<Rightarrow> NodeId \<Rightarrow> NumaId \<Rightarrow> numa_info option" where
  "GetNumaInfo nm i j = (case GetNodeInfo nm i of
      None \<Rightarrow> None
    | Some n \<Rightarrow> map_option snd (find_numa j (no_sockets n)))"

definition GetSocketIdByNumaId :: "node_manager \<Rightarrow> NodeId \<Rightarrow> NumaId \<Rightarrow> SocketId" where
  "GetSocketIdByNumaId nm i j = (case GetNodeInfo nm i of
      None \<Rightarrow> UINT32_MAX
    | Some n \<Rightarrow> (case find_numa j (no_sockets n) of
        None \<Rightarrow> UINT32_MAX
      | Some (sid, u) \<Rightarrow> sid))"

definition GetReachablePeers :: "node_manager \<Rightarrow> NodeId \<Rightarrow> (NodeId \<times> SocketId) set" where
  "GetReachablePeers nm i = (case GetNodeInfo nm i of
      None \<Rightarrow> {}
    | Some n \<Rightarrow> fold (\<lambda>(k, s) result. result \<union> ResolveRawPorts (nm_socketToChip nm) s) (no_sockets n) {})"

definition GetReachablePeersOfSocket :: "node_manager \<Rightarrow> NodeId \<Rightarrow> SocketId \<Rightarrow> (NodeId \<times> SocketId) set" where
  "GetReachablePeersOfSocket nm i sid = (case GetSocketInfo nm i sid of
      None \<Rightarrow> {}
    | Some s \<Rightarrow> ResolveRawPorts (nm_socketToChip nm) s)"

fun GetGroupNodes_in :: "NodeId set list \<Rightarrow> NodeId \<Rightarrow> NodeId set" where
  "GetGroupNodes_in [] i = {}"
| "GetGroupNodes_in (g # gs) i = (if i \<in> g then g else GetGroupNodes_in gs i)"

definition GetGroupNodes :: "node_manager \<Rightarrow> NodeId \<Rightarrow> NodeId set" where
  "GetGroupNodes nm i = GetGroupNodes_in (nm_groupNodes nm) i"

definition IsFullyConnected :: "node_manager \<Rightarrow> bool" where
  "IsFullyConnected nm = True"

definition GetLenderBalance :: "node_manager \<Rightarrow> bool" where
  "GetLenderBalance nm \<longleftrightarrow> nm_schedulerMode nm = ReliabilityPriority"

section \<open>Updates through the pointers the look-ups return\<close>

definition put_node :: "NodeId \<Rightarrow> node_info \<Rightarrow> node_manager \<Rightarrow> node_manager" where
  "put_node i n nm = nm\<lparr>nm_nodeMap := (nm_nodeMap nm)(i \<mapsto> n)\<rparr>"

definition upd_socket :: "NodeId \<Rightarrow> SocketId \<Rightarrow> (socket_info \<Rightarrow> socket_info) \<Rightarrow> node_manager \<Rightarrow> node_manager" where
  "upd_socket i sid f nm = (case GetNodeInfo nm i of
      None \<Rightarrow> nm
    | Some n \<Rightarrow> put_node i (n\<lparr>no_sockets := om_upd sid f (no_sockets n)\<rparr>) nm)"

definition upd_numa_of :: "NumaId \<Rightarrow> (numa_info \<Rightarrow> numa_info) \<Rightarrow> socket_info \<Rightarrow> socket_info" where
  "upd_numa_of j f s = s\<lparr>sk_numas := om_upd j f (sk_numas s)\<rparr>"

definition upd_numa :: "NodeId \<Rightarrow> NumaId \<Rightarrow> (numa_info \<Rightarrow> numa_info) \<Rightarrow> node_manager \<Rightarrow> node_manager" where
  "upd_numa i j f nm = (case GetNodeInfo nm i of
      None \<Rightarrow> nm
    | Some n \<Rightarrow> (case find_numa j (no_sockets n) of
        None \<Rightarrow> nm
      | Some (sid, u) \<Rightarrow> upd_socket i sid (upd_numa_of j f) nm))"

section \<open>Configuration\<close>

definition CONF_MEM_SECTION :: string where "CONF_MEM_SECTION = ''ubse.memory''"
definition DEFAULT_RADIUS :: u16 where "DEFAULT_RADIUS = 65535"
definition NO_2 :: u32 where "NO_2 = 2"

definition loadRadius :: "conf_module \<Rightarrow> string \<Rightarrow> u16" where
  "loadRadius c key = (case GetConf_string c CONF_MEM_SECTION key of
      None \<Rightarrow> DEFAULT_RADIUS
    | Some radiusStr \<Rightarrow>
        if radiusStr = [] then DEFAULT_RADIUS
        else case ConvertStrToUint16 radiusStr 0 10 of (ret, val) \<Rightarrow>
          if ret \<noteq> UBSE_OK then DEFAULT_RADIUS else val)"

definition InitRadiusConfig :: "conf \<Rightarrow> node_manager \<Rightarrow> node_manager" where
  "InitRadiusConfig c nm = (case c of
      None \<Rightarrow> nm
    | Some m \<Rightarrow> nm\<lparr>nm_radiusBorrow := loadRadius m ''radius.borrow'',
                   nm_radiusLender := loadRadius m ''radius.lender''\<rparr>)"

definition InitSchedulerMode :: "conf \<Rightarrow> node_manager \<Rightarrow> node_manager" where
  "InitSchedulerMode c nm = (case c of
      None \<Rightarrow> nm\<lparr>nm_schedulerMode := FreePriority\<rparr>
    | Some m \<Rightarrow>
        (let modeStr = GetConf_string m CONF_MEM_SECTION ''scheduler.mode''
         in if modeStr = None \<or> modeStr = Some [] then
              (case GetConf_bool m CONF_MEM_SECTION ''lender.balance'' of
                Some lenderBalance \<Rightarrow>
                  nm\<lparr>nm_schedulerMode := (if lenderBalance then ReliabilityPriority else FreePriority)\<rparr>
              | None \<Rightarrow> nm\<lparr>nm_schedulerMode := FreePriority\<rparr>)
            else if modeStr = Some ''reliability-priority'' then nm\<lparr>nm_schedulerMode := ReliabilityPriority\<rparr>
            else if modeStr = Some ''performance-priority'' then nm\<lparr>nm_schedulerMode := PerformancePriority\<rparr>
            else nm\<lparr>nm_schedulerMode := FreePriority\<rparr>))"

definition InitBandwidthTolerance :: "conf \<Rightarrow> u32 \<Rightarrow> node_manager \<Rightarrow> node_manager" where
  "InitBandwidthTolerance c blockSize nm = (case c of
      None \<Rightarrow> nm\<lparr>nm_bandwidthTolerance := NO_2 * blockSize\<rparr>
    | Some m \<Rightarrow> (case GetConf_u32 m CONF_MEM_SECTION ''bandwidth.tolerance'' of
        None \<Rightarrow> nm\<lparr>nm_bandwidthTolerance := NO_2 * blockSize\<rparr>
      | Some tolerance \<Rightarrow>
          if tolerance < blockSize then nm\<lparr>nm_bandwidthTolerance := NO_2 * blockSize\<rparr>
          else nm\<lparr>nm_bandwidthTolerance := tolerance\<rparr>))"

definition InitPageSize :: "conf \<Rightarrow> node_manager \<Rightarrow> node_manager" where
  "InitPageSize c nm = (case c of
      None \<Rightarrow> nm
    | Some m \<Rightarrow> (case GetConf_string m ''os'' ''page_size'' of
        None \<Rightarrow> nm
      | Some osPageSize \<Rightarrow> nm\<lparr>nm_isPageSize64K := (osPageSize = ''65536'')\<rparr>))"

definition UpdateProviderNodeList :: "conf \<Rightarrow> NodeId \<Rightarrow> string \<Rightarrow> node_manager \<Rightarrow> node_manager" where
  "UpdateProviderNodeList c nodeId hostName nm = (case c of
      None \<Rightarrow> nm
    | Some m \<Rightarrow> (case GetConf_string m CONF_MEM_SECTION ''provider'' of
        None \<Rightarrow> nm\<lparr>nm_providerNodes := insert nodeId (nm_providerNodes nm)\<rparr>
      | Some providerConf \<Rightarrow>
          (let hosts = filter IsValidHostName (Split providerConf '','' [])
           in if hosts = [] then nm\<lparr>nm_providerNodes := insert nodeId (nm_providerNodes nm)\<rparr>
              else if hostName \<in> set hosts then nm\<lparr>nm_providerNodes := insert nodeId (nm_providerNodes nm)\<rparr>
              else nm)))"

definition group_lists :: "string \<Rightarrow> string list list" where
  \<comment> \<open>the check of the configured groups: invalid names and then empty groups are dropped\<close>
  "group_lists groupListConf =
     filter (\<lambda>groups. groups \<noteq> [])
       (map (\<lambda>groupConf. filter IsValidHostName (Split groupConf '','' [])) (Split groupListConf '';'' []))"

definition resize_to :: "nat \<Rightarrow> 'a set list \<Rightarrow> 'a set list" where
  "resize_to n xs = xs @ replicate (n - length xs) {}"

fun group_insert :: "nat \<Rightarrow> string list list \<Rightarrow> NodeId \<Rightarrow> string \<Rightarrow> NodeId set list \<Rightarrow> NodeId set list" where
  "group_insert i [] nodeId hostName gs = gs"
| "group_insert i (hosts # rest) nodeId hostName gs =
     (if hostName \<in> set hosts then
        let gs' = (if i \<ge> length gs then resize_to (i + 1) gs else gs)
        in group_insert (i + 1) rest nodeId hostName (gs'[i := insert nodeId (gs' ! i)])
      else group_insert (i + 1) rest nodeId hostName gs)"

definition default_group :: "NodeId \<Rightarrow> NodeId set list \<Rightarrow> NodeId set list" where
  "default_group nodeId gs = (let gs' = (if gs = [] then resize_to 1 gs else gs) in gs'[0 := insert nodeId (gs' ! 0)])"

definition UpdateGroupNodeList :: "conf \<Rightarrow> NodeId \<Rightarrow> string \<Rightarrow> node_manager \<Rightarrow> node_manager" where
  "UpdateGroupNodeList c nodeId hostName nm = (case c of
      None \<Rightarrow> nm
    | Some m \<Rightarrow> (case GetConf_string m CONF_MEM_SECTION ''group'' of
        None \<Rightarrow> nm\<lparr>nm_groupNodes := default_group nodeId (nm_groupNodes nm)\<rparr>
      | Some groupListConf \<Rightarrow>
          (let groupListVec = group_lists groupListConf
           in if groupListVec = [] then nm\<lparr>nm_groupNodes := default_group nodeId (nm_groupNodes nm)\<rparr>
              else nm\<lparr>nm_groupNodes := group_insert 0 groupListVec nodeId hostName (nm_groupNodes nm)\<rparr>)))"

section \<open>Memory statistics\<close>

text \<open>
  A handler takes the memory already counted as (total, used, free) and adds the pages or
  the memory of the allocator, scaled by the mapping ratio.
\<close>

definition scaled :: "platform \<Rightarrow> rat \<Rightarrow> u64 \<Rightarrow> u64" where
  \<comment> \<open>\<open>static_cast<uint64_t>(bytes * ratio)\<close> in \<open>long double\<close>\<close>
  "scaled pf ratio bytes = to_u64 pf (ld pf (ld pf (of_nat (unat bytes)) * ratio))"

definition add_scaled :: "platform \<Rightarrow> rat \<Rightarrow> u64 \<Rightarrow> u64 \<Rightarrow> u64 \<times> u64 \<times> u64 \<Rightarrow> u64 \<times> u64 \<times> u64" where
  \<comment> \<open>the common tail of the handlers: the two checked additions, the clamp and the difference\<close>
  "add_scaled pf ratio totalBytes freeBytes m = (case m of (tot, us, fr) \<Rightarrow>
     let tot1 = add_keep tot (scaled pf ratio totalBytes);
         fr1 = add_keep fr (scaled pf ratio freeBytes);
         fr2 = (if tot1 < fr1 then tot1 else fr1)
     in (tot1, tot1 - fr2, fr2))"

definition HandleHugeTlbPud :: "platform \<Rightarrow> UbseNumaInfo \<Rightarrow> rat \<Rightarrow> u64 \<times> u64 \<times> u64 \<Rightarrow> u64 \<times> u64 \<times> u64" where
  "HandleHugeTlbPud pf u ratio m =
     (let total1G = snd (SizeGb2Byte (ucast (un_nr_hugepages_1G u)));
          free1G = snd (SizeGb2Byte (ucast (un_free_hugepages_1G u)))
      in add_scaled pf ratio total1G free1G m)"

definition HandleHugeTlbPmd :: "platform \<Rightarrow> UbseNumaInfo \<Rightarrow> rat \<Rightarrow> bool \<Rightarrow> u64 \<times> u64 \<times> u64 \<Rightarrow> u64 \<times> u64 \<times> u64" where
  "HandleHugeTlbPmd pf u ratio use512M m =
     (if use512M then
        let total512M = snd (SizeMb2Byte (ucast (un_nr_hugepages_512M u)));
            free512M = snd (SizeMb2Byte (ucast (un_free_hugepages_512M u)))
        in add_scaled pf ratio (total512M * 512) (free512M * 512) m
      else
        let total2M = snd (SizeMb2Byte (ucast (un_nr_hugepages_2M u)));
            free2M = snd (SizeMb2Byte (ucast (un_free_hugepages_2M u)))
        in add_scaled pf ratio (total2M * 2) (free2M * 2) m)"

definition HandleDefault :: "platform \<Rightarrow> UbseNumaInfo \<Rightarrow> rat \<Rightarrow> u64 \<times> u64 \<times> u64 \<Rightarrow> u64 \<times> u64 \<times> u64" where
  "HandleDefault pf u ratio m =
     (let totalSize = snd (SizeKb2Byte (un_size u));
          freeSize = snd (SizeKb2Byte (un_freeSize u))
      in add_scaled pf ratio totalSize freeSize m)"

definition mapping_ratio :: "platform \<Rightarrow> u32 \<Rightarrow> rat" where
  "mapping_ratio pf pmdMapping =
     ld pf (ld pf (of_nat (unat pmdMapping)) / ld pf (of_nat (unat MAX_PERCENT)))"

definition UpdateNumaMemInfo :: "platform \<Rightarrow> bool \<Rightarrow> UbseNumaInfo \<Rightarrow> UbseAllocator \<Rightarrow> u32 \<Rightarrow> numa_info \<Rightarrow> numa_info" where
  "UpdateNumaMemInfo pf isPageSize64K u allocator pmdMapping n =
     (let ratio = mapping_ratio pf pmdMapping;
          pool = (case SafeAdd (un_mempool_available_cleared u) (un_mempool_available_uncleared u) of
            (ok, r) \<Rightarrow> if ok then r else 0);
          m = (case allocator of
              HUGETLB_PUD \<Rightarrow> HandleHugeTlbPud pf u ratio (0, 0, pool)
            | HUGETLB_PMD \<Rightarrow> HandleHugeTlbPmd pf u ratio isPageSize64K (0, 0, pool)
            | BUDDY_HIGHMEM \<Rightarrow> HandleDefault pf u ratio (0, 0, pool))
      in case m of (tot, us, fr) \<Rightarrow> UpdateNumaMemorySize tot us fr n)"

definition upd_node_numa :: "SocketId \<Rightarrow> NumaId \<Rightarrow> (numa_info \<Rightarrow> numa_info) \<Rightarrow> node_info \<Rightarrow> node_info" where
  \<comment> \<open>through the pointer of \<open>SchedulerNodeInfo::GetNumaInfo(socketId, numaId)\<close>; nothing when it is null\<close>
  "upd_node_numa sid j f n = n\<lparr>no_sockets := om_upd sid (upd_numa_of j f) (no_sockets n)\<rparr>"

definition skip_report :: "UbseNodeInfo \<Rightarrow> bool" where
  "skip_report u \<longleftrightarrow> uo_clusterState u = UBSE_NODE_FAULT \<or> uo_clusterState u = UBSE_NODE_UNKNOWN"

definition collect_node_mem :: "platform \<Rightarrow> bool \<Rightarrow> UbseNodeInfo \<Rightarrow> node_info \<Rightarrow> node_info" where
  "collect_node_mem pf p64 u n =
     fold (\<lambda>r. upd_node_numa (un_socketId r) (un_numaId r)
             (UpdateNumaMemInfo pf p64 r (uo_allocator u) (uo_pmdMapping u))) (uo_numaInfos u) n"

fun UpdateAllNumaMemInfo :: "platform \<Rightarrow> (NodeId \<times> UbseNodeInfo) list \<Rightarrow> node_manager \<Rightarrow> UbseResult \<times> node_manager" where
  "UpdateAllNumaMemInfo pf [] nm = (UBSE_OK, nm)"
| "UpdateAllNumaMemInfo pf ((i, u) # rest) nm =
     (if skip_report u then UpdateAllNumaMemInfo pf rest nm
      else case GetNodeInfo nm i of
          None \<Rightarrow> (UBSE_ERROR, nm)
        | Some n \<Rightarrow> UpdateAllNumaMemInfo pf rest (put_node i (collect_node_mem pf (nm_isPageSize64K nm) u n) nm))"

section \<open>Links\<close>

definition UpdateStaticNodeInfo :: "u32 set \<Rightarrow> node_manager \<Rightarrow> node_manager" where
  "UpdateStaticNodeInfo ids nm =
     nm\<lparr>nm_staticNodes := nm_staticNodes nm \<union> (\<lambda>i. to_string (unat i)) ` ids\<rparr>"

definition collect_node_links :: "UbseNodeInfo \<Rightarrow> node_info \<Rightarrow> node_info" where
  "collect_node_links u n =
     fold (\<lambda>cpu n. n\<lparr>no_sockets := om_upd (cp_socketId cpu) (UpdateLinkInfo cpu) (no_sockets n)\<rparr>) (uo_cpuInfos u) n"

fun update_links :: "(NodeId \<times> UbseNodeInfo) list \<Rightarrow> node_manager \<Rightarrow> UbseResult \<times> node_manager" where
  "update_links [] nm = (UBSE_OK, nm)"
| "update_links ((i, u) # rest) nm =
     (if skip_report u then update_links rest nm
      else case GetNodeInfo nm i of
          None \<Rightarrow> (UBSE_ERROR, nm)
        | Some n \<Rightarrow> update_links rest (put_node i (collect_node_links u n) nm))"

definition UpdateAllLinkInfo :: "u32 set \<Rightarrow> (NodeId \<times> UbseNodeInfo) list \<Rightarrow> node_manager \<Rightarrow> UbseResult \<times> node_manager" where
  "UpdateAllLinkInfo deployed nodeMap nm = update_links nodeMap (UpdateStaticNodeInfo deployed nm)"

section \<open>Node reports\<close>

definition InitOneNodeData :: "UbseNodeInfo \<Rightarrow> node_manager \<Rightarrow> node_manager" where
  \<comment> \<open>the constructor cannot throw for any report (allocation failure is not modelled)\<close>
  "InitOneNodeData u nm = put_node (uo_nodeId u) (SchedulerNodeInfo_new u) nm"

definition UpdateNodeInfoCache :: "NodeId \<Rightarrow> node_manager \<Rightarrow> node_manager" where
  "UpdateNodeInfoCache i nm = (case nm_nodeMap nm i of
      None \<Rightarrow> nm
    | Some n \<Rightarrow> nm\<lparr>nm_nodeInfos :=
        filter (\<lambda>cached. nd_nodeId cached \<noteq> i) (nm_nodeInfos nm) @ [GetNodeInfoView n]\<rparr>)"

definition map2_put :: "NodeId \<Rightarrow> u32 \<Rightarrow> u32 \<Rightarrow> (NodeId \<Rightarrow> (u32 \<Rightarrow> u32 option) option) \<Rightarrow> (NodeId \<Rightarrow> (u32 \<Rightarrow> u32 option) option)" where
  \<comment> \<open>\<open>m[i][a] = b\<close>\<close>
  "map2_put i a b m = m(i \<mapsto> ((case m i of None \<Rightarrow> Map.empty | Some r \<Rightarrow> r)(a \<mapsto> b)))"

fun fill_chip_maps :: "UbseCpuInfo list \<Rightarrow> node_manager \<Rightarrow> bool \<times> node_manager" where
  "fill_chip_maps [] nm = (True, nm)"
| "fill_chip_maps (cpu # cpus) nm = (case ConvertStrToUint32 (cp_chipId cpu) 0 10 of (ret, chipId) \<Rightarrow>
     if ret \<noteq> UBSE_OK then (False, nm)
     else
       let slot = to_string (unat (cp_slotId cpu))
       in fill_chip_maps cpus
         (nm\<lparr>nm_chipToSocket := map2_put slot (cp_socketId cpu) chipId (nm_chipToSocket nm),
             nm_socketToChip := map2_put slot chipId (cp_socketId cpu) (nm_socketToChip nm)\<rparr>))"

definition needs_init :: "UbseNodeInfo \<Rightarrow> node_manager \<Rightarrow> bool" where
  "needs_init u nm \<longleftrightarrow> (case nm_nodeMap nm (uo_nodeId u) of
      None \<Rightarrow> True
    | Some n \<Rightarrow> uo_clusterState u = UBSE_NODE_INIT \<or> no_clusterState n = UBSE_NODE_UNKNOWN \<or>
        no_clusterState n = UBSE_NODE_FAULT)"

definition set_node_state :: "UbseNodeInfo \<Rightarrow> node_manager \<Rightarrow> node_manager" where
  "set_node_state u nm = (case nm_nodeMap nm (uo_nodeId u) of
      None \<Rightarrow> nm
    | Some n \<Rightarrow> put_node (uo_nodeId u) (UpdateHostName (uo_hostName u)
        (UpdateNodeClusterState (uo_clusterState u) n)) nm)"

definition UpdateNodeInfo :: "conf \<Rightarrow> u32 set \<Rightarrow> UbseNodeInfo \<Rightarrow> node_manager \<Rightarrow> UbseResult \<times> node_manager" where
  "UpdateNodeInfo c deployed u nm =
     (if uo_nodeId u = [] then (UBSE_ERROR, nm)
      else if needs_init u nm then
        (if uo_clusterState u = UBSE_NODE_FAULT then (UBSE_OK, nm)
         else case fill_chip_maps (uo_cpuInfos u)
                (UpdateNodeInfoCache (uo_nodeId u) (InitOneNodeData u nm)) of (converted, nm1) \<Rightarrow>
           if \<not> converted then (UBSE_ERROR_INVAL, nm1)
           else
             let nm2 = UpdateStaticNodeInfo deployed
                   (UpdateGroupNodeList c (uo_nodeId u) (uo_hostName u)
                     (UpdateProviderNodeList c (uo_nodeId u) (uo_hostName u) nm1));
                 nm3 = (if nm_bandwidthTolerance nm2 = 0 then InitBandwidthTolerance c (uo_blockSize u) nm2 else nm2)
             in (UBSE_OK, set_node_state u nm3))
      else (UBSE_OK, set_node_state u nm))"

section \<open>Reading after an update\<close>

lemma upd_numa_of_simps [simp]:
  "sk_socketId (upd_numa_of j f s) = sk_socketId s" "sk_lentCount (upd_numa_of j f s) = sk_lentCount s"
  "sk_numas (upd_numa_of j f s) = om_upd j f (sk_numas s)"
  by (simp_all add: upd_numa_of_def)

lemma find_numa_upd:
  "find_numa j' (om_upd sid (upd_numa_of j f) ss) =
     map_option (\<lambda>(sid', u). (sid', if sid' = sid \<and> j' = j then f u else u)) (find_numa j' ss)"
  by (induction ss) (auto simp: om_upd_def SocketGetNumaInfo_def map_of_om_upd [unfolded om_upd_def]
      upd_numa_of_def split: option.splits)

lemma find_numa_frame:
  assumes "\<And>s. map_option g (SocketGetNumaInfo j (h s)) = map_option g (SocketGetNumaInfo j s)"
  shows "map_option (\<lambda>(sid, u). (sid, g u)) (find_numa j (om_upd sid h ss)) =
     map_option (\<lambda>(sid, u). (sid, g u)) (find_numa j ss)"
proof (induction ss)
  case (Cons a ss)
  obtain k s where [simp]: "a = (k, s)" by force
  show ?case
    using assms [of s] Cons
    by (cases "SocketGetNumaInfo j s"; cases "SocketGetNumaInfo j (h s)") (auto simp: om_upd_def)
qed (simp add: om_upd_def)

lemma GetNodeInfo_put_node [simp]:
  "GetNodeInfo (put_node i n nm) i' = (if i' = i then Some n else GetNodeInfo nm i')"
  by (simp add: GetNodeInfo_def put_node_def)

lemma GetSocketInfo_upd_socket [frame_simps]:
  "GetSocketInfo (upd_socket i sid f nm) i' sid' =
     (if i' = i \<and> sid' = sid then map_option f (GetSocketInfo nm i sid) else GetSocketInfo nm i' sid')"
  by (auto simp: GetSocketInfo_def upd_socket_def NodeGetSocketInfo_def map_of_om_upd split: option.splits)

lemma GetNumaInfo_upd_numa [frame_simps]:
  "GetNumaInfo (upd_numa i j f nm) i' j' =
     (if i' = i \<and> j' = j then map_option f (GetNumaInfo nm i j) else GetNumaInfo nm i' j')"
  by (auto simp: GetNumaInfo_def upd_numa_def upd_socket_def find_numa_upd option.map_comp comp_def
      case_prod_beta' intro!: option.map_cong0 split: option.splits)

lemma GetNumaInfo_upd_socket:
  assumes "\<And>s. map_option g (SocketGetNumaInfo j (h s)) = map_option g (SocketGetNumaInfo j s)"
  shows "map_option g (GetNumaInfo (upd_socket i sid h nm) i' j) = map_option g (GetNumaInfo nm i' j)"
proof -
  have "map_option g (map_option snd (find_numa j (om_upd sid h ss))) = map_option g (map_option snd (find_numa j ss))" for ss
    using arg_cong [OF find_numa_frame [of g j h sid ss, OF assms], of "map_option snd"]
    by (simp add: option.map_comp comp_def case_prod_beta')
  then show ?thesis
    by (auto simp: GetNumaInfo_def upd_socket_def split: option.splits)
qed

lemma GetSocketInfo_upd_numa:
  assumes "\<And>s. g (upd_numa_of j f s) = g s"
  shows "map_option g (GetSocketInfo (upd_numa i j f nm) i' sid') = map_option g (GetSocketInfo nm i' sid')"
  by (auto simp: upd_numa_def frame_simps option.map_comp comp_def assms split: option.splits)

lemma GetNumaInfo_put_node_other:
  "i' \<noteq> i \<Longrightarrow> GetNumaInfo (put_node i n nm) i' j = GetNumaInfo nm i' j"
  by (simp add: GetNumaInfo_def)

section \<open>The collected statistics\<close>

lemma ld_mono: "0 < ld_prec pf \<Longrightarrow> a \<le> b \<Longrightarrow> ld pf a \<le> ld pf b"
  by (simp add: ld_def fl_mono)

lemma ld_nat: "64 \<le> ld_prec pf \<Longrightarrow> n \<le> 2 ^ 64 \<Longrightarrow> ld pf (of_nat n) = of_nat n"
  unfolding ld_def
  using power_increasing [of 64 "ld_prec pf" "2 :: nat"] by (intro fl_exact_nat) linarith+

lemma to_u64_nat: "n < 2 ^ 64 \<Longrightarrow> to_u64 pf (of_nat n) = of_nat n"
proof -
  assume "n < 2 ^ 64"
  then have "(of_nat n :: rat) < of_nat (2 ^ 64)" by (simp only: of_nat_less_iff)
  moreover have "(- 1 :: rat) < of_nat n"
    by (rule less_le_trans [of _ 0]) simp_all
  ultimately show ?thesis by (simp add: to_u64_def)
qed

lemma to_u64_le:
  assumes "0 \<le> q" and "q \<le> of_nat n" and "n < 2 ^ 64"
  shows "unat (to_u64 pf q) \<le> n"
proof -
  have n: "(of_nat n :: rat) < of_nat (2 ^ 64)" using assms(3) by (simp only: of_nat_less_iff)
  with assms have q64: "q < 2 ^ 64" by simp
  with q64 assms(1) have w: "to_u64 pf q = of_int \<lfloor>q\<rfloor>" by (simp add: to_u64_def)
  have f: "\<lfloor>q\<rfloor> \<le> int n" "0 \<le> \<lfloor>q\<rfloor>"
    using assms floor_mono [of q "of_nat n"] by simp_all
  from w have "unat (to_u64 pf q) = nat (\<lfloor>q\<rfloor> mod 2 ^ 64)"
    by (simp add: unsigned_of_int take_bit_eq_mod)
  also have "\<dots> = nat \<lfloor>q\<rfloor>"
    using f q64 assms(1) by (subst mod_pos_pos_trivial) (simp_all add: floor_less_iff)
  finally show ?thesis using f by linarith
qed

lemma mapping_ratio_100: "64 \<le> ld_prec pf \<Longrightarrow> mapping_ratio pf 100 = 1"
  using ld_nat [of pf 100] ld_nat [of pf 1] by (simp add: mapping_ratio_def MAX_PERCENT_def)

lemma mapping_ratio_bounds:
  assumes "64 \<le> ld_prec pf" and "pmd \<le> 100"
  shows "0 \<le> mapping_ratio pf pmd" and "mapping_ratio pf pmd \<le> 1"
proof -
  have "unat pmd \<le> 100" using assms(2) by (simp add: word_le_nat_alt)
  then have "(of_nat (unat pmd) :: rat) \<le> of_nat 100" by (simp only: of_nat_le_iff)
  then have r: "(of_nat (unat pmd) :: rat) / 100 \<le> 1" by simp
  have eq: "mapping_ratio pf pmd = ld pf (of_nat (unat pmd) / 100)"
    using ld_nat [OF assms(1), of 100] ld_nat [OF assms(1), of "unat pmd"] unat_u32_less [of pmd]
    by (simp add: mapping_ratio_def MAX_PERCENT_def)
  have "0 \<le> (of_nat (unat pmd) :: rat)" by (rule of_nat_0_le_iff)
  with ld_mono [OF _ r, of pf] ld_mono [of pf 0 "of_nat (unat pmd) / 100"] assms(1)
    ld_nat [OF assms(1), of 1] ld_nat [OF assms(1), of 0]
  show "0 \<le> mapping_ratio pf pmd" and "mapping_ratio pf pmd \<le> 1"
    by (simp_all add: eq)
qed

lemma scaled_1: "64 \<le> ld_prec pf \<Longrightarrow> scaled pf 1 b = b"
  using ld_nat [of pf "unat b"] unat_u64_less [of b] to_u64_nat [of "unat b" pf]
  by (simp add: scaled_def)

lemma scaled_le:
  assumes "64 \<le> ld_prec pf" and "0 \<le> r" and "r \<le> 1"
  shows "unat (scaled pf r b) \<le> unat b"
proof -
  let ?x = "of_nat (unat b) :: rat"
  have x: "ld pf ?x = ?x" using ld_nat [OF assms(1), of "unat b"] unat_u64_less [of b] by simp
  have x0: "0 \<le> ?x" by (rule of_nat_0_le_iff)
  then have "?x * r \<le> ?x" by (rule mult_left_le [OF assms(3)])
  then have "ld pf (?x * r) \<le> ?x" using ld_mono [of pf "?x * r" ?x] assms(1) x by simp
  moreover have "0 \<le> ld pf (?x * r)"
    using ld_mono [of pf 0 "?x * r"] mult_nonneg_nonneg [OF x0 assms(2)] assms(1) ld_nat [OF assms(1), of 0] by simp
  ultimately show ?thesis
    unfolding scaled_def x by (intro to_u64_le unat_u64_less)
qed

lemma add_scaled_total: "fst (add_scaled pf r t f (a, b, c)) = add_keep a (scaled pf r t)"
  by (simp add: add_scaled_def Let_def)

lemma add_scaled_balance:
  "add_scaled pf r t f m = (tot, us, fr) \<Longrightarrow> us + fr = tot \<and> fr \<le> tot"
  by (auto simp: add_scaled_def Let_def split: prod.splits)

lemma add_keep_zero: "add_keep 0 v = v"
  by (simp add: add_keep_def SafeAdd_def)

text \<open>The memory an allocator offers, in bytes, read off the report.\<close>

definition raw_bytes :: "bool \<Rightarrow> UbseAllocator \<Rightarrow> UbseNumaInfo \<Rightarrow> nat" where
  "raw_bytes p64 a u = (case a of
      HUGETLB_PUD \<Rightarrow> unat (un_nr_hugepages_1G u) * 2 ^ 30
    | HUGETLB_PMD \<Rightarrow>
        if p64 then unat (un_nr_hugepages_512M u) * 2 ^ 29 else unat (un_nr_hugepages_2M u) * 2 ^ 21
    | BUDDY_HIGHMEM \<Rightarrow> unat (un_size u) * 2 ^ 10)"

definition handler_total :: "bool \<Rightarrow> UbseAllocator \<Rightarrow> UbseNumaInfo \<Rightarrow> u64" where
  "handler_total p64 a u = (case a of
      HUGETLB_PUD \<Rightarrow> snd (SizeGb2Byte (ucast (un_nr_hugepages_1G u)))
    | HUGETLB_PMD \<Rightarrow>
        if p64 then snd (SizeMb2Byte (ucast (un_nr_hugepages_512M u))) * 512
        else snd (SizeMb2Byte (ucast (un_nr_hugepages_2M u))) * 2
    | BUDDY_HIGHMEM \<Rightarrow> snd (SizeKb2Byte (un_size u)))"

lemma unat_mul_u32: "unat (x :: u32) * k < 2 ^ 64 \<Longrightarrow> k < 2 ^ 64 \<Longrightarrow> unat (ucast x * of_nat k :: u64) = unat x * k"
  using unat_mul_fits [of "ucast x" "of_nat k"]
  by (simp add: unat_ucast_u32_u64 unsigned_of_nat take_bit_nat_eq_self)

lemma unat_handler_total:
  assumes "unat (un_size u) < 2 ^ 54"
  shows "unat (handler_total p64 a u) = raw_bytes p64 a u"
proof -
  have a: "unat (un_nr_hugepages_1G u) * 2 ^ 30 < 2 ^ 64" "unat (un_nr_hugepages_512M u) * 2 ^ 29 < 2 ^ 64"
    "unat (un_nr_hugepages_2M u) * 2 ^ 21 < 2 ^ 64"
    using unat_u32_less [of "un_nr_hugepages_1G u"] unat_u32_less [of "un_nr_hugepages_512M u"]
      unat_u32_less [of "un_nr_hugepages_2M u"] by simp_all
  have "unat (un_size u * 0x400) = unat (un_size u) * 2 ^ 10"
    using unat_mul_fits [of "un_size u" "0x400"] assms by simp
  then show ?thesis
    using unat_mul_u32 [OF a(1)] unat_mul_u32 [OF a(2)] unat_mul_u32 [OF a(3)]
    by (simp add: handler_total_def raw_bytes_def Size2Byte_mul mul_ok_def mult.assoc split: UbseAllocator.split)
qed

lemma memTotal_UpdateNumaMemInfo:
  "memTotal (UpdateNumaMemInfo pf p64 u a pmd n) = scaled pf (mapping_ratio pf pmd) (handler_total p64 a u)"
  by (cases a) (simp_all add: UpdateNumaMemInfo_def HandleHugeTlbPud_def HandleHugeTlbPmd_def HandleDefault_def
      handler_total_def Let_def UpdateNumaMemorySize_def add_scaled_def add_keep_zero split: prod.split)

lemma UpdateNumaMemInfo_frame [frame_simps]:
  "nu_numaId (UpdateNumaMemInfo pf p64 u a pmd n) = nu_numaId n"
  "memBorrow (UpdateNumaMemInfo pf p64 u a pmd n) = memBorrow n"
  "memLent (UpdateNumaMemInfo pf p64 u a pmd n) = memLent n"
  "memShared (UpdateNumaMemInfo pf p64 u a pmd n) = memShared n"
  by (simp_all add: UpdateNumaMemInfo_def UpdateNumaMemorySize_def Let_def split: prod.split UbseAllocator.split)

lemma UpdateNumaMemInfo_sum:
  "memUsed (UpdateNumaMemInfo pf p64 u a pmd n) + memFree (UpdateNumaMemInfo pf p64 u a pmd n) =
     memTotal (UpdateNumaMemInfo pf p64 u a pmd n) \<and>
   memFree (UpdateNumaMemInfo pf p64 u a pmd n) \<le> memTotal (UpdateNumaMemInfo pf p64 u a pmd n)"
  by (cases a) (auto simp: UpdateNumaMemInfo_def HandleHugeTlbPud_def HandleHugeTlbPmd_def HandleDefault_def
      Let_def UpdateNumaMemorySize_def dest: add_scaled_balance split: prod.split)

section \<open>The candidate list is the view of the node map\<close>

text \<open>
  \<open>nodeInfos_\<close> lists each known node once, and the entry is what \<open>GetNodeInfo\<close> of the
  node gives now; every node is filed under its own identifier and is well formed.
\<close>

definition cache_ok :: "node_manager \<Rightarrow> bool" where
  "cache_ok nm \<longleftrightarrow> distinct (map nd_nodeId (nm_nodeInfos nm)) \<and>
     (\<forall>v \<in> set (nm_nodeInfos nm). \<exists>n. nm_nodeMap nm (nd_nodeId v) = Some n \<and> v = GetNodeInfoView n) \<and>
     (\<forall>i n. nm_nodeMap nm i = Some n \<longrightarrow> node_ok n \<and> no_nodeId n = i \<and> GetNodeInfoView n \<in> set (nm_nodeInfos nm))"

lemma cache_okD:
  assumes "cache_ok nm" and "nm_nodeMap nm i = Some n"
  shows "node_ok n" and "no_nodeId n = i" and "GetNodeInfoView n \<in> set (nm_nodeInfos nm)"
  using assms by (auto simp: cache_ok_def)

lemma view_nodeId [simp]: "nd_nodeId (GetNodeInfoView n) = no_nodeId n"
  by (simp add: GetNodeInfoView_def)

lemma cache_ok_put_node:
  assumes ok: "cache_ok nm" and n: "nm_nodeMap nm i = Some n"
    and n': "node_ok n'" "no_nodeId n' = no_nodeId n" "GetNodeInfoView n' = GetNodeInfoView n"
  shows "cache_ok (put_node i n' nm)"
proof -
  note c = cache_okD [OF ok n]
  have d: "distinct (map nd_nodeId (nm_nodeInfos nm))" using ok by (simp add: cache_ok_def)
  have "v = GetNodeInfoView n'" if "v \<in> set (nm_nodeInfos nm)" "nd_nodeId v = i" for v
    using d that c(2,3) n'(3) by (metis distinct_map inj_on_def view_nodeId)
  with ok c n' show ?thesis
    by (auto simp: cache_ok_def put_node_def)
qed

lemma cache_ok_same:
  "nm_nodeMap nm' = nm_nodeMap nm \<Longrightarrow> nm_nodeInfos nm' = nm_nodeInfos nm \<Longrightarrow> cache_ok nm' = cache_ok nm"
  by (simp add: cache_ok_def)

lemma cache_ok_init:
  assumes ok: "cache_ok nm" and n: "node_ok n" "no_nodeId n = i"
  shows "cache_ok (UpdateNodeInfoCache i (put_node i n nm))"
  using assms by (auto simp: cache_ok_def UpdateNodeInfoCache_def put_node_def distinct_map inj_on_def)

lemma cache_ok_new: "cache_ok SchedulerNodeManager_new"
  by (simp add: cache_ok_def SchedulerNodeManager_new_def)

lemma cache_ok_clear: "cache_ok (NodeManagerClear nm)"
  by (simp add: cache_ok_def NodeManagerClear_def)

text \<open>An update of sockets and NUMA nodes in place does not move anything.\<close>

definition in_place :: "(socket_info \<Rightarrow> socket_info) \<Rightarrow> bool" where
  "in_place f \<longleftrightarrow> (\<forall>s. socket_ok s \<longrightarrow> socket_ok (f s) \<and> GetSocketInfoView (f s) = GetSocketInfoView s)"

lemma view_socketId [simp]: "si_socketId (GetSocketInfoView s) = sk_socketId s"
  by (simp add: GetSocketInfoView_def)

lemma node_ok_upd:
  assumes "in_place f" and "node_ok n"
  shows "node_ok (n\<lparr>no_sockets := om_upd sid f (no_sockets n)\<rparr>)"
    and "GetNodeInfoView (n\<lparr>no_sockets := om_upd sid f (no_sockets n)\<rparr>) = GetNodeInfoView n"
proof -
  have "sk_socketId (f s) = sk_socketId s" if "socket_ok s" for s
    using assms(1) that unfolding in_place_def by (metis view_socketId)
  with assms show "node_ok (n\<lparr>no_sockets := om_upd sid f (no_sockets n)\<rparr>)"
    unfolding node_ok_sockets by (simp add: sockets_ok_upd in_place_def)
  show "GetNodeInfoView (n\<lparr>no_sockets := om_upd sid f (no_sockets n)\<rparr>) = GetNodeInfoView n"
    using assms by (auto simp: GetNodeInfoView_def om_upd_def in_place_def node_ok_def)
qed

lemma in_place_upd_numa_of: "(\<And>u. nu_numaId (f u) = nu_numaId u) \<Longrightarrow> in_place (upd_numa_of j f)"
  using om_ok_upd [of j f, unfolded om_upd_def]
  by (auto simp: in_place_def socket_ok_def upd_numa_of_def GetSocketInfoView_def om_upd_def)

lemma in_place_numas: "(\<And>s. sk_numas (f s) = sk_numas s \<and> sk_socketId (f s) = sk_socketId s) \<Longrightarrow> in_place f"
  by (simp add: in_place_def socket_ok_def GetSocketInfoView_def)

lemma cache_ok_upd_socket: "in_place f \<Longrightarrow> cache_ok nm \<Longrightarrow> cache_ok (upd_socket i sid f nm)"
proof (cases "nm_nodeMap nm i")
  case (Some n)
  assume f: "in_place f" and ok: "cache_ok nm"
  show ?thesis
    using cache_ok_put_node [OF ok Some node_ok_upd(1) [OF f cache_okD(1) [OF ok Some]] _
        node_ok_upd(2) [OF f cache_okD(1) [OF ok Some]]] Some
    by (simp add: upd_socket_def GetNodeInfo_def)
qed (simp add: upd_socket_def GetNodeInfo_def)

lemma cache_ok_upd_numa: "(\<And>u. nu_numaId (f u) = nu_numaId u) \<Longrightarrow> cache_ok nm \<Longrightarrow> cache_ok (upd_numa i j f nm)"
  by (auto simp: upd_numa_def intro!: cache_ok_upd_socket in_place_upd_numa_of split: option.split)

lemma collect_node_mem_ok:
  assumes "node_ok n"
  shows "node_ok (collect_node_mem pf p64 u n) \<and>
     GetNodeInfoView (collect_node_mem pf p64 u n) = GetNodeInfoView n \<and>
     no_nodeId (collect_node_mem pf p64 u n) = no_nodeId n"
  unfolding collect_node_mem_def
proof (rule fold_invariant_simple [where P = "\<lambda>m. node_ok m \<and> GetNodeInfoView m = GetNodeInfoView n \<and> no_nodeId m = no_nodeId n"])
  fix r m
  assume m: "node_ok m \<and> GetNodeInfoView m = GetNodeInfoView n \<and> no_nodeId m = no_nodeId n"
  note * = node_ok_upd [OF in_place_upd_numa_of conjunct1 [OF m], OF UpdateNumaMemInfo_frame(1)]
  from * m show "node_ok (upd_node_numa (un_socketId r) (un_numaId r) (UpdateNumaMemInfo pf p64 r (uo_allocator u) (uo_pmdMapping u)) m) \<and>
      GetNodeInfoView (upd_node_numa (un_socketId r) (un_numaId r) (UpdateNumaMemInfo pf p64 r (uo_allocator u) (uo_pmdMapping u)) m) = GetNodeInfoView n \<and>
      no_nodeId (upd_node_numa (un_socketId r) (un_numaId r) (UpdateNumaMemInfo pf p64 r (uo_allocator u) (uo_pmdMapping u)) m) = no_nodeId n"
    by (simp add: upd_node_numa_def)
qed (simp add: assms)

lemma update_ports_simps [simp]:
  "sk_numas (update_ports ps s) = sk_numas s" "sk_socketId (update_ports ps s) = sk_socketId s"
  "sk_lentCount (update_ports ps s) = sk_lentCount s" "sk_maxExportTimes (update_ports ps s) = sk_maxExportTimes s"
  by (induction ps s rule: update_ports.induct) (simp_all add: Let_def split: prod.splits)

lemma UpdateLinkInfo_simps [simp]:
  "sk_numas (UpdateLinkInfo cpu s) = sk_numas s" "sk_socketId (UpdateLinkInfo cpu s) = sk_socketId s"
  "sk_lentCount (UpdateLinkInfo cpu s) = sk_lentCount s"
  "sk_maxExportTimes (UpdateLinkInfo cpu s) = sk_maxExportTimes s"
  by (simp_all add: UpdateLinkInfo_def)

lemma collect_node_links_ok:
  assumes "node_ok n"
  shows "node_ok (collect_node_links u n) \<and> GetNodeInfoView (collect_node_links u n) = GetNodeInfoView n \<and>
     no_nodeId (collect_node_links u n) = no_nodeId n"
  unfolding collect_node_links_def
proof (rule fold_invariant_simple [where P = "\<lambda>m. node_ok m \<and> GetNodeInfoView m = GetNodeInfoView n \<and> no_nodeId m = no_nodeId n"])
  fix cpu m
  assume m: "node_ok m \<and> GetNodeInfoView m = GetNodeInfoView n \<and> no_nodeId m = no_nodeId n"
  have "in_place (UpdateLinkInfo cpu)" by (rule in_place_numas) simp
  note * = node_ok_upd [OF this conjunct1 [OF m]]
  with m show "node_ok (m\<lparr>no_sockets := om_upd (cp_socketId cpu) (UpdateLinkInfo cpu) (no_sockets m)\<rparr>) \<and>
      GetNodeInfoView (m\<lparr>no_sockets := om_upd (cp_socketId cpu) (UpdateLinkInfo cpu) (no_sockets m)\<rparr>) = GetNodeInfoView n \<and>
      no_nodeId (m\<lparr>no_sockets := om_upd (cp_socketId cpu) (UpdateLinkInfo cpu) (no_sockets m)\<rparr>) = no_nodeId n"
    by simp
qed (simp add: assms)

lemma cache_ok_UpdateAllNumaMemInfo: "cache_ok nm \<Longrightarrow> cache_ok (snd (UpdateAllNumaMemInfo pf nodeMap nm))"
proof (induction pf nodeMap nm rule: UpdateAllNumaMemInfo.induct)
  case (2 pf i u rest nm)
  have "cache_ok (put_node i (collect_node_mem pf (nm_isPageSize64K nm) u n) nm)" if "nm_nodeMap nm i = Some n" for n
    using cache_ok_put_node [OF 2(3) that] collect_node_mem_ok [OF cache_okD(1) [OF 2(3) that]] by simp
  with 2 show ?case by (auto simp: GetNodeInfo_def split: option.split)
qed simp

lemma cache_ok_update_links: "cache_ok nm \<Longrightarrow> cache_ok (snd (update_links nodeMap nm))"
proof (induction nodeMap nm rule: update_links.induct)
  case (2 i u rest nm)
  have "cache_ok (put_node i (collect_node_links u n) nm)" if "nm_nodeMap nm i = Some n" for n
    using cache_ok_put_node [OF 2(3) that] collect_node_links_ok [OF cache_okD(1) [OF 2(3) that]] by simp
  with 2 show ?case by (auto simp: GetNodeInfo_def split: option.split)
qed simp

lemma cache_ok_UpdateAllLinkInfo: "cache_ok nm \<Longrightarrow> cache_ok (snd (UpdateAllLinkInfo deployed nodeMap nm))"
  unfolding UpdateAllLinkInfo_def
  by (rule cache_ok_update_links) (simp add: UpdateStaticNodeInfo_def cache_ok_def)

lemma fill_chip_maps_frame [frame_simps]:
  "nm_nodeMap (snd (fill_chip_maps cpus nm)) = nm_nodeMap nm"
  "nm_nodeInfos (snd (fill_chip_maps cpus nm)) = nm_nodeInfos nm"
  by (induction cpus nm rule: fill_chip_maps.induct) (auto simp: Let_def split: prod.splits)

lemma conf_update_frame [frame_simps]:
  "nm_nodeMap (UpdateProviderNodeList c i h nm) = nm_nodeMap nm"
  "nm_nodeInfos (UpdateProviderNodeList c i h nm) = nm_nodeInfos nm"
  "nm_nodeMap (UpdateGroupNodeList c i h nm) = nm_nodeMap nm"
  "nm_nodeInfos (UpdateGroupNodeList c i h nm) = nm_nodeInfos nm"
  "nm_nodeMap (UpdateStaticNodeInfo ids nm) = nm_nodeMap nm"
  "nm_nodeInfos (UpdateStaticNodeInfo ids nm) = nm_nodeInfos nm"
  "nm_nodeMap (InitBandwidthTolerance c b nm) = nm_nodeMap nm"
  "nm_nodeInfos (InitBandwidthTolerance c b nm) = nm_nodeInfos nm"
  by (simp_all add: UpdateProviderNodeList_def UpdateGroupNodeList_def UpdateStaticNodeInfo_def
      InitBandwidthTolerance_def Let_def split: option.split)

lemma cache_ok_set_node_state: "cache_ok nm \<Longrightarrow> cache_ok (set_node_state u nm)"
proof (cases "nm_nodeMap nm (uo_nodeId u)")
  case (Some n)
  assume ok: "cache_ok nm"
  show ?thesis
    using cache_ok_put_node [OF ok Some] cache_okD(1) [OF ok Some] Some
    by (simp add: set_node_state_def UpdateHostName_def UpdateNodeClusterState_def node_ok_def GetNodeInfoView_def)
qed (simp add: set_node_state_def)

lemma cache_ok_UpdateNodeInfo: "cache_ok nm \<Longrightarrow> cache_ok (snd (UpdateNodeInfo c deployed u nm))"
proof -
  assume ok: "cache_ok nm"
  define nm0 where "nm0 = UpdateNodeInfoCache (uo_nodeId u) (InitOneNodeData u nm)"
  have "no_nodeId (SchedulerNodeInfo_new u) = uo_nodeId u" by (simp add: SchedulerNodeInfo_new_def)
  then have "cache_ok nm0"
    unfolding nm0_def InitOneNodeData_def by (intro cache_ok_init ok node_ok_new)
  then have f: "cache_ok (snd (fill_chip_maps (uo_cpuInfos u) nm0))"
    using cache_ok_same [OF fill_chip_maps_frame] by simp
  obtain b nm1 where nm1: "fill_chip_maps (uo_cpuInfos u) nm0 = (b, nm1)" by force
  define nm2 where "nm2 = UpdateStaticNodeInfo deployed (UpdateGroupNodeList c (uo_nodeId u) (uo_hostName u)
      (UpdateProviderNodeList c (uo_nodeId u) (uo_hostName u) nm1))"
  have "cache_ok nm2"
    using f nm1 by (simp add: nm2_def cache_ok_same [of nm2 nm1, unfolded nm2_def] frame_simps)
  moreover from this have "cache_ok (InitBandwidthTolerance c (uo_blockSize u) nm2)"
    by (simp add: cache_ok_same [of "InitBandwidthTolerance c (uo_blockSize u) nm2" nm2] frame_simps)
  ultimately show ?thesis
    using ok f nm1
    by (simp add: UpdateNodeInfo_def nm0_def [symmetric] nm2_def [symmetric] Let_def cache_ok_set_node_state)
qed

section \<open>Providers and groups\<close>

definition group_at :: "NodeId set list \<Rightarrow> nat \<Rightarrow> NodeId set" where
  "group_at gs k = (if k < length gs then gs ! k else {})"

lemma group_at_resize: "group_at (resize_to n gs) k = group_at gs k"
  by (auto simp: group_at_def resize_to_def nth_append)

lemma group_at_insert:
  "i < length gs \<Longrightarrow> group_at (gs[i := insert n (gs ! i)]) k = group_at gs k \<union> (if k = i then {n} else {})"
  by (auto simp: group_at_def nth_list_update)

lemma group_at_group_insert:
  "group_at (group_insert i hosts n h gs) k = group_at gs k \<union>
     (if i \<le> k \<and> k - i < length hosts \<and> h \<in> set (hosts ! (k - i)) then {n} else {})"
proof (induction i hosts n h gs rule: group_insert.induct)
  case (2 i g rest n h gs)
  define gs' where "gs' = (if i \<ge> length gs then resize_to (i + 1) gs else gs)"
  have len: "i < length gs'" by (auto simp: gs'_def resize_to_def)
  have at: "group_at gs' k = group_at gs k" by (simp add: gs'_def group_at_resize)
  have cons: "(i \<le> k \<and> k - i < length (g # rest) \<and> h \<in> set ((g # rest) ! (k - i))) \<longleftrightarrow>
      (k = i \<and> h \<in> set g) \<or> (i + 1 \<le> k \<and> k - (i + 1) < length rest \<and> h \<in> set (rest ! (k - (i + 1))))"
  proof (cases "k - i")
    case (Suc d)
    then have "k - (i + 1) = d" and "i < k" by simp_all
    with Suc show ?thesis by auto
  qed auto
  show ?case
  proof (cases "h \<in> set g")
    case True
    then have "group_insert i (g # rest) n h gs = group_insert (i + 1) rest n h (gs'[i := insert n (gs' ! i)])"
      by (simp add: gs'_def Let_def)
    with 2(1) [OF True gs'_def] True show ?thesis
      unfolding cons group_at_insert [OF len] at by auto
  next
    case False
    with 2(2) show ?thesis
      unfolding cons by simp
  qed
qed simp

lemma group_lists_join:
  assumes "\<forall>g \<in> set gs. g \<noteq> [] \<and> (\<forall>h \<in> set g. IsValidHostName h)"
  shows "group_lists (join '';'' (map (join '','') gs)) = gs"
proof -
  have "CHR '';'' \<notin> set (join '','' g)" if "g \<in> set gs" for g
    using set_join [of "'',''" g] assms that valid_host_no_separators(2) by fastforce
  moreover have ne: "join '','' g \<noteq> []" if "g \<in> set gs" for g
    using assms that valid_host_no_separators(3) by (cases g rule: list.exhaust; cases "tl g") auto
  ultimately have split: "Split (join '';'' (map (join '','') gs)) '';'' [] = map (join '','') gs"
    using split_from_join_char [of "map (join '','') gs" "CHR '';''" "[]"]
    by (cases "gs = []") (auto simp: Split_def last_map)
  have "filter IsValidHostName (Split (join '','' g) '','' []) = g" if "g \<in> set gs" for g
    using Split_config_list [of g] assms that by (simp add: filter_id_conv)
  then have "map (\<lambda>groupConf. filter IsValidHostName (Split groupConf '','' [])) (map (join '','') gs) = gs"
    by (simp add: map_idI)
  then show ?thesis
    using assms by (simp add: group_lists_def split filter_id_conv)
qed

lemma providers_configured:
  assumes "GetConf_string m CONF_MEM_SECTION ''provider'' = Some (join '','' hosts)"
    and "hosts \<noteq> []" and "\<forall>h \<in> set hosts. IsValidHostName h"
  shows "nm_providerNodes (fold (\<lambda>(i, h). UpdateProviderNodeList (Some m) i h) nodes nm) =
    nm_providerNodes nm \<union> {i. \<exists>h \<in> set hosts. (i, h) \<in> set nodes}"
proof -
  have "filter IsValidHostName (Split (join '','' hosts) '','' []) = hosts"
    using Split_config_list [OF assms(3,2)] assms(3) by (simp add: filter_id_conv)
  then have "nm_providerNodes (UpdateProviderNodeList (Some m) i h nm) =
      (if h \<in> set hosts then insert i (nm_providerNodes nm) else nm_providerNodes nm)" for i h nm
    using assms(1,2) by (simp add: UpdateProviderNodeList_def Let_def)
  then show ?thesis
    by (induction nodes arbitrary: nm) (auto split: if_splits)
qed

lemma groups_configured:
  assumes "GetConf_string m CONF_MEM_SECTION ''group'' = Some (join '';'' (map (join '','') groups))"
    and "groups \<noteq> []" and "\<forall>g \<in> set groups. g \<noteq> [] \<and> (\<forall>h \<in> set g. IsValidHostName h)"
  shows "group_at (nm_groupNodes (fold (\<lambda>(i, h). UpdateGroupNodeList (Some m) i h) nodes nm)) k =
    group_at (nm_groupNodes nm) k \<union> (if k < length groups then {i. \<exists>h \<in> set (groups ! k). (i, h) \<in> set nodes} else {})"
proof (induction nodes arbitrary: nm)
  case (Cons a nodes)
  obtain i h where [simp]: "a = (i, h)" by force
  have "nm_groupNodes (UpdateGroupNodeList (Some m) i h nm) = group_insert 0 groups i h (nm_groupNodes nm)"
    using assms group_lists_join [OF assms(3)] by (simp add: UpdateGroupNodeList_def Let_def)
  with Cons [of "UpdateGroupNodeList (Some m) i h nm"] show ?case
    by (auto simp: group_at_group_insert)
qed simp

section \<open>Properties\<close>

text \<open>
  The statistics of a collected NUMA node always balance: used plus free is the total,
  and the bookings are untouched. Where \<open>long double\<close> holds a 64-bit integer, a mapping of
  at most 100 percent never counts more than the allocator has, and at 100 percent the total
  is exactly its bytes.
\<close>

theorem UpdateNumaMemInfo_spec:
  fixes p64 :: bool and a :: UbseAllocator and n :: numa_info
  assumes "64 \<le> ld_prec pf" and "unat (un_size u) < 2 ^ 54" and "pmd \<le> 100"
  defines "m \<equiv> UpdateNumaMemInfo pf p64 u a pmd n"
  shows "unat (memUsed m) + unat (memFree m) = unat (memTotal m) \<and>
    memLent m = memLent n \<and> memShared m = memShared n \<and> memBorrow m = memBorrow n \<and>
    unat (memTotal m) \<le> raw_bytes p64 a u \<and> (pmd = 100 \<longrightarrow> unat (memTotal m) = raw_bytes p64 a u)"
proof -
  have sum: "memUsed m + memFree m = memTotal m" and le: "memFree m \<le> memTotal m"
    using UpdateNumaMemInfo_sum [of pf p64 u a pmd n] by (simp_all add: m_def)
  then have "memUsed m = memTotal m - memFree m" by (metis add_diff_cancel)
  then have bal: "unat (memUsed m) + unat (memFree m) = unat (memTotal m)"
    using le by (simp add: unat_sub word_le_nat_alt)
  have t: "memTotal m = scaled pf (mapping_ratio pf pmd) (handler_total p64 a u)"
    by (simp add: m_def memTotal_UpdateNumaMemInfo)
  have "unat (memTotal m) \<le> unat (handler_total p64 a u)"
    unfolding t by (intro scaled_le assms(1) mapping_ratio_bounds [OF assms(1,3)])
  moreover have "pmd = 100 \<Longrightarrow> memTotal m = handler_total p64 a u"
    unfolding t by (simp add: mapping_ratio_100 [OF assms(1)] scaled_1 [OF assms(1)])
  ultimately show ?thesis
    using bal unat_handler_total [OF assms(2), of p64 a] by (simp add: m_def frame_simps)
qed

definition report_1G :: UbseNumaInfo where
  "report_1G = \<lparr>un_nodeId = ''1'', un_numaId = 0, un_socketId = 0, un_size = 0, un_freeSize = 0,
     un_nr_hugepages_2M = 0, un_free_hugepages_2M = 0, un_nr_hugepages_512M = 0, un_free_hugepages_512M = 0,
     un_nr_hugepages_1G = 8, un_free_hugepages_1G = 3, un_mempool_available_cleared = 0,
     un_mempool_available_uncleared = 0\<rparr>"

theorem UpdateNumaMemInfo_spec_witness:
  "unat (memTotal (UpdateNumaMemInfo platform_x86 False report_1G HUGETLB_PUD 100 (SchedulerNumaInfo_new 0))) = 8 * 2 ^ 30"
  using UpdateNumaMemInfo_spec [of platform_x86 report_1G 100 False HUGETLB_PUD "SchedulerNumaInfo_new 0"]
  by (simp add: platform_x86_def report_1G_def raw_bytes_def)

text \<open>
  When the configuration lists valid host names as providers, registering any sequence of
  nodes makes exactly those nodes providers whose host name is on the list.
\<close>

theorem provider_registration:
  assumes "GetConf_string m CONF_MEM_SECTION ''provider'' = Some (join '','' hosts)"
    and "hosts \<noteq> []" and "\<forall>h \<in> set hosts. IsValidHostName h"
  shows "nm_providerNodes (fold (\<lambda>(i, h). UpdateProviderNodeList (Some m) i h) nodes SchedulerNodeManager_new) =
    {i. \<exists>h \<in> set hosts. (i, h) \<in> set nodes}"
  using providers_configured [OF assms] by (simp add: SchedulerNodeManager_new_def)

definition conf_of :: "(string \<times> string) list \<Rightarrow> conf_module" where
  "conf_of kvs = \<lparr>GetConf_string = (\<lambda>s k. if s = CONF_MEM_SECTION then map_of kvs k else None),
     GetConf_bool = (\<lambda>s k. None), GetConf_u32 = (\<lambda>s k. None)\<rparr>"

theorem provider_registration_witness:
  "nm_providerNodes (fold (\<lambda>(i, h). UpdateProviderNodeList (Some (conf_of [(''provider'', ''a1,b2'')])) i h)
     [(''1'', ''a1''), (''2'', ''c3''), (''3'', ''b2'')] SchedulerNodeManager_new) = {''1'', ''3''}"
proof -
  have v: "IsValidHostName ''a1''" "IsValidHostName ''b2''" by code_simp+
  have "nm_providerNodes (fold (\<lambda>(i, h). UpdateProviderNodeList (Some (conf_of [(''provider'', ''a1,b2'')])) i h)
      [(''1'', ''a1''), (''2'', ''c3''), (''3'', ''b2'')] SchedulerNodeManager_new) =
    {i. \<exists>h \<in> set [''a1'', ''b2'']. (i, h) \<in> set [(''1'', ''a1''), (''2'', ''c3''), (''3'', ''b2'')]}"
    by (rule provider_registration) (simp_all add: conf_of_def v)
  also have "\<dots> = {''1'', ''3''}" by auto
  finally show ?thesis .
qed

text \<open>
  When the configuration lists groups of valid host names, registering any sequence of
  nodes puts exactly the nodes of the k-th list of host names into the k-th group.
\<close>

theorem group_registration:
  assumes "GetConf_string m CONF_MEM_SECTION ''group'' = Some (join '';'' (map (join '','') groups))"
    and "groups \<noteq> []" and "\<forall>g \<in> set groups. g \<noteq> [] \<and> (\<forall>h \<in> set g. IsValidHostName h)"
    and "k < length groups"
  shows "group_at (nm_groupNodes (fold (\<lambda>(i, h). UpdateGroupNodeList (Some m) i h) nodes SchedulerNodeManager_new)) k =
    {i. \<exists>h \<in> set (groups ! k). (i, h) \<in> set nodes}"
  using groups_configured [OF assms(1-3), of nodes SchedulerNodeManager_new k] assms(4)
  by (simp add: SchedulerNodeManager_new_def group_at_def)

theorem group_registration_witness:
  "group_at (nm_groupNodes (fold (\<lambda>(i, h). UpdateGroupNodeList (Some (conf_of [(''group'', ''a1;b2,c3'')])) i h)
     [(''1'', ''a1''), (''2'', ''c3''), (''3'', ''b2'')] SchedulerNodeManager_new)) 1 = {''2'', ''3''}"
proof -
  have v: "IsValidHostName ''a1''" "IsValidHostName ''b2''" "IsValidHostName ''c3''" by code_simp+
  have "group_at (nm_groupNodes (fold (\<lambda>(i, h). UpdateGroupNodeList (Some (conf_of [(''group'', ''a1;b2,c3'')])) i h)
      [(''1'', ''a1''), (''2'', ''c3''), (''3'', ''b2'')] SchedulerNodeManager_new)) 1 =
    {i. \<exists>h \<in> set ([[''a1''], [''b2'', ''c3'']] ! 1). (i, h) \<in> set [(''1'', ''a1''), (''2'', ''c3''), (''3'', ''b2'')]}"
    by (rule group_registration) (simp_all add: conf_of_def v)
  also have "\<dots> = {''2'', ''3''}" by auto
  finally show ?thesis .
qed

end
