(* ===== verification/SchedRequest.thy ===== *)
theory SchedRequest
  imports NodeManager
begin

text \<open>
  \<open>SchedulerRequest\<close>: a borrow request turned into a size aligned to the block size, the
  filters and scorers to run, the score weights and a bag of typed parameters.
\<close>

section \<open>State\<close>

text \<open>
  \<open>params_\<close> is a map from names to \<open>std::any\<close>. A value carries its type, and
  \<open>GetParamOpt<T>\<close> yields nothing when the type is another one.
\<close>

datatype any_value =
    any_size u64
  | any_int c_int
  | any_bool bool
  | any_string string
  | any_lenderInfos "UbseMemLenderInfo list"
  | any_linkInfo UbseMemLenderLinkInfo
  | any_region UbseShmRegionDesc

datatype RequestMode = BORROW | SHARE

record ScoreWeights =
  wLatency :: rat
  wRegionBalance :: rat
  wBalance :: rat
  wReliability :: rat
  wDivideNuma :: rat
  wBandwidth :: rat
  wAffinity :: rat

record scheduler_request =
  rq_name :: string
  rq_requestMode :: RequestMode
  rq_requestNodeId :: NodeId
  rq_importNodeId :: NodeId
  rq_requestSize :: u64
  rq_provideNodes :: "NodeId list"
  rq_params :: "string \<Rightarrow> any_value option"
  rq_filterNames :: "string list"
  rq_scoreNames :: "string list"
  rq_weights :: ScoreWeights

definition decimal :: "int \<Rightarrow> rat" where
  \<comment> \<open>the \<open>double\<close> nearest to a literal with two decimals\<close>
  "decimal n = dbl (of_int n / 100)"

definition ForBorrow :: ScoreWeights where
  "ForBorrow = \<lparr>wLatency = decimal 13, wRegionBalance = decimal 13, wBalance = decimal 53,
     wReliability = decimal 13, wDivideNuma = decimal 8, wBandwidth = 0, wAffinity = 0\<rparr>"

definition ForShare :: ScoreWeights where
  "ForShare = \<lparr>wLatency = decimal 12, wRegionBalance = decimal 12, wBalance = decimal 52,
     wReliability = decimal 12, wDivideNuma = decimal 12, wBandwidth = 0, wAffinity = 0\<rparr>"

definition ForLenderBalance :: ScoreWeights where
  "ForLenderBalance = \<lparr>wLatency = decimal 13, wRegionBalance = decimal 13, wBalance = decimal 13,
     wReliability = decimal 53, wDivideNuma = decimal 8, wBandwidth = 0, wAffinity = 0\<rparr>"

definition ForPerformancePriority :: ScoreWeights where
  "ForPerformancePriority = \<lparr>wLatency = decimal 4, wRegionBalance = decimal 4, wBalance = decimal 12,
     wReliability = decimal 25, wDivideNuma = decimal 3, wBandwidth = decimal 52, wAffinity = 0\<rparr>"

definition SchedulerRequest_new :: scheduler_request where
  "SchedulerRequest_new = \<lparr>rq_name = [], rq_requestMode = BORROW, rq_requestNodeId = [], rq_importNodeId = [],
     rq_requestSize = 0, rq_provideNodes = [], rq_params = Map.empty, rq_filterNames = [], rq_scoreNames = [],
     rq_weights = ForBorrow\<rparr>"

section \<open>Parameters\<close>

definition GetParam_size :: "string \<Rightarrow> scheduler_request \<Rightarrow> u64 option" where
  "GetParam_size key r = (case rq_params r key of Some (any_size v) \<Rightarrow> Some v | _ \<Rightarrow> None)"

definition GetParam_int :: "string \<Rightarrow> scheduler_request \<Rightarrow> c_int option" where
  "GetParam_int key r = (case rq_params r key of Some (any_int v) \<Rightarrow> Some v | _ \<Rightarrow> None)"

definition GetParam_bool :: "string \<Rightarrow> scheduler_request \<Rightarrow> bool option" where
  "GetParam_bool key r = (case rq_params r key of Some (any_bool v) \<Rightarrow> Some v | _ \<Rightarrow> None)"

definition GetParam_string :: "string \<Rightarrow> scheduler_request \<Rightarrow> string option" where
  "GetParam_string key r = (case rq_params r key of Some (any_string v) \<Rightarrow> Some v | _ \<Rightarrow> None)"

definition GetParam_lenderInfos :: "string \<Rightarrow> scheduler_request \<Rightarrow> UbseMemLenderInfo list option" where
  "GetParam_lenderInfos key r = (case rq_params r key of Some (any_lenderInfos v) \<Rightarrow> Some v | _ \<Rightarrow> None)"

definition GetParam_linkInfo :: "string \<Rightarrow> scheduler_request \<Rightarrow> UbseMemLenderLinkInfo option" where
  "GetParam_linkInfo key r = (case rq_params r key of Some (any_linkInfo v) \<Rightarrow> Some v | _ \<Rightarrow> None)"

definition GetParam_region :: "string \<Rightarrow> scheduler_request \<Rightarrow> UbseShmRegionDesc option" where
  "GetParam_region key r = (case rq_params r key of Some (any_region v) \<Rightarrow> Some v | _ \<Rightarrow> None)"

lemmas GetParam_defs [sched_defs] = GetParam_size_def GetParam_int_def GetParam_bool_def GetParam_string_def
  GetParam_lenderInfos_def GetParam_linkInfo_def GetParam_region_def

definition SetParam :: "string \<Rightarrow> any_value \<Rightarrow> scheduler_request \<Rightarrow> scheduler_request" where
  "SetParam key v r = r\<lparr>rq_params := (rq_params r)(key \<mapsto> v)\<rparr>"

definition add_filter :: "string \<Rightarrow> scheduler_request \<Rightarrow> scheduler_request" where
  "add_filter f r = r\<lparr>rq_filterNames := rq_filterNames r @ [f]\<rparr>"

section \<open>Building a request\<close>

definition AlignRequestSize :: "u64 \<Rightarrow> u32 \<Rightarrow> u64" where
  "AlignRequestSize sz blockSizeMb =
     (if sz = 0 \<or> blockSizeMb = 0 then sz
      else case SizeMb2Byte (ucast blockSizeMb) of (ok, blockBytes) \<Rightarrow>
        if \<not> ok then sz
        else case SafeAdd sz (blockBytes - 1) of (ok2, aligned) \<Rightarrow>
          if \<not> ok2 then sz else aligned div blockBytes * blockBytes)"

definition GetRequestNodeBlockSize :: "NodeId \<Rightarrow> NodeId \<Rightarrow> node_manager option \<Rightarrow> u32" where
  "GetRequestNodeBlockSize importNodeId requestNodeId info = (case info of
      None \<Rightarrow> 0
    | Some nm \<Rightarrow> (case GetNodeInfo nm (if importNodeId = [] then requestNodeId else importNodeId) of
        None \<Rightarrow> 0
      | Some n \<Rightarrow> no_blockSize n))"

definition base_filters :: "string list" where
  "base_filters = [''ConfigConsistencyFilter'', ''RoleConflictFilter'', ''LenderRoleFilter'', ''GroupFilter'',
     ''ProviderFilter'', ''NodeStateFilter'', ''RadiusBorrowFilter'', ''RadiusLenderFilter'',
     ''LendCountFilter'', ''TopoReachabilityFilter'', ''MaxLentSizeFilter'', ''SharedPoolFilter'',
     ''FreeMemoryFilter'']"

definition lender_infos_of :: "UbseNumaLoc list \<Rightarrow> u64 list \<Rightarrow> UbseMemLenderInfo list" where
  \<comment> \<open>the loop over \<open>lenderLocs\<close>; a location without a size gets 0\<close>
  "lender_infos_of locs sizes = map (\<lambda>i. lender_info_init
     \<lparr>li_nodeId := nl_nodeId (locs ! i), li_numaId := nl_numaId (locs ! i),
      li_lender_size := (if i < length sizes then sizes ! i else 0)\<rparr>) [0 ..< length locs]"

definition BuildFromFdBorrow :: "UbseMemFdBorrowReq \<Rightarrow> node_manager option \<Rightarrow> scheduler_request" where
  "BuildFromFdBorrow req info =
     (let r0 = SchedulerRequest_new\<lparr>rq_name := fd_name req, rq_requestNodeId := fd_requestNodeId req,
            rq_importNodeId := fd_importNodeId req,
            rq_requestSize := AlignRequestSize (fd_size req)
              (GetRequestNodeBlockSize (fd_importNodeId req) (fd_requestNodeId req) info),
            rq_filterNames := base_filters\<rparr>;
          r1 = (if fd_candidateNodeList req = [] then r0
                else add_filter ''RequestedProvidersFilter'' (r0\<lparr>rq_provideNodes := fd_candidateNodeList req\<rparr>));
          r2 = (if fd_lenderLocs req = [] then r1
                else add_filter ''SpecifiedLenderFilter''
                  (SetParam ''lenderInfos'' (any_lenderInfos (lender_infos_of (fd_lenderLocs req) (fd_lenderSizes req))) r1))
      in r2\<lparr>rq_requestMode := BORROW\<rparr>)"

definition BuildFromNumaBorrow :: "UbseMemNumaBorrowReq \<Rightarrow> node_manager option \<Rightarrow> scheduler_request" where
  "BuildFromNumaBorrow req info =
     (let r0 = SchedulerRequest_new\<lparr>rq_name := fd_name req, rq_importNodeId := fd_importNodeId req,
            rq_requestNodeId := fd_requestNodeId req,
            rq_requestSize := AlignRequestSize (fd_size req)
              (GetRequestNodeBlockSize (fd_importNodeId req) (fd_requestNodeId req) info)\<rparr>;
          highWatermark = (if nb_highWatermark req > MAX_PERCENT then MAX_PERCENT else nb_highWatermark req);
          r1 = (SetParam ''highWatermark'' (any_size highWatermark) r0)\<lparr>rq_filterNames := base_filters\<rparr>;
          r2 = (if ll_lenderSocketId (nb_linkInfo req) \<noteq> - 1 then
                  add_filter ''SpecifiedLinkFilter'' (SetParam ''linkInfo'' (any_linkInfo (nb_linkInfo req)) r1)
                else if fd_lenderLocs req \<noteq> [] then
                  add_filter ''SpecifiedLenderFilter''
                    (SetParam ''lenderInfos'' (any_lenderInfos (lender_infos_of (fd_lenderLocs req) (fd_lenderSizes req))) r1)
                else r1);
          r3 = (if fd_candidateNodeList req = [] then r2
                else add_filter ''RequestedProvidersFilter'' (r2\<lparr>rq_provideNodes := fd_candidateNodeList req\<rparr>));
          r4 = (if nb_srcSocket req = - 1 then r3
                else let r = SetParam ''affinitySocketId'' (any_int (nb_srcSocket req)) r3
                     in if nb_samePlanePrefer req then SetParam ''samePlanePrefer'' (any_bool True) r
                        else add_filter ''SocketAffinityFilter'' r)
      in r4\<lparr>rq_requestMode := BORROW\<rparr>)"

fun sum_addr :: "UbseMemAddrInfo list \<Rightarrow> u64 \<Rightarrow> u64" where
  \<comment> \<open>the checked sum, with its \<open>break\<close> on overflow\<close>
  "sum_addr [] acc = acc"
| "sum_addr (a # as) acc = (case SafeAdd acc (ai_size a) of (ok, r) \<Rightarrow>
     if ok then sum_addr as r else UINT64_MAX div 2)"

definition BuildFromAddrBorrow :: "UbseMemAddrBorrowReq \<Rightarrow> scheduler_request" where
  "BuildFromAddrBorrow req =
     (let r0 = SchedulerRequest_new\<lparr>rq_name := ab_name req, rq_requestNodeId := ab_requestNodeId req,
            rq_importNodeId := ab_importNodeId req, rq_requestSize := sum_addr (ab_exportAddrList req) 0,
            rq_filterNames := [''LenderRoleFilter'', ''NodeStateFilter'', ''RoleConflictFilter'']\<rparr>;
          r1 = (if ab_dstSocket req \<noteq> - 1 \<and> ab_dstNuma req \<noteq> - 1 \<and> ab_exportAddrList req \<noteq> [] then
                  add_filter ''SpecifiedLenderFilter'' (SetParam ''lenderInfos'' (any_lenderInfos
                    [lender_info_init\<lparr>li_nodeId := ab_exportNodeId req, li_socketId := ab_dstSocket req,
                       li_numaId := ab_dstNuma req\<rparr>]) r0)
                else r0)
      in SetParam ''isAddr'' (any_bool True) (r1\<lparr>rq_requestMode := BORROW\<rparr>))"

definition BuildFromShareBorrow :: "UbseMemShareBorrowReq \<Rightarrow> node_manager option \<Rightarrow> scheduler_request" where
  "BuildFromShareBorrow req info =
     (let r0 = SetParam ''shmRegion'' (any_region (sb_shmRegion req))
            (SchedulerRequest_new\<lparr>rq_name := sb_name req, rq_requestNodeId := sb_requestNodeId req,
             rq_requestSize := AlignRequestSize (sb_size req) (GetRequestNodeBlockSize [] (sb_requestNodeId req) info),
             rq_provideNodes := sb_providerList req\<rparr>);
          affinity = af_enableCreateWithAffinity (sb_withAffinity req);
          r1 = (if affinity then SetParam ''affinitySocketId'' (any_int (af_affinitySocketId (sb_withAffinity req))) r0
                else r0);
          r2 = r1\<lparr>rq_filterNames := [''ConfigConsistencyFilter'', ''LenderRoleFilter'', ''ProviderFilter'',
                ''NodeStateFilter'', ''RegionFilter'', ''LendCountFilter'', ''TopoReachabilityFilter'',
                ''MaxLentSizeFilter'', ''SharedPoolFilter'', ''FreeMemoryFilter'']\<rparr>;
          r3 = (if sb_providerList req = [] then r2 else add_filter ''RequestedProvidersFilter'' r2);
          r4 = (if affinity then add_filter ''SocketAffinityFilter'' r3 else r3);
          r5 = (if li_lender_size (sb_lenderInfo req) \<noteq> 0 then
                  add_filter ''SpecifiedLenderFilter'' (SetParam ''lenderInfos'' (any_lenderInfos [sb_lenderInfo req]) r4)
                else r4)
      in r5\<lparr>rq_requestMode := SHARE\<rparr>)"

definition AFFINITY_SCORE_WEIGHT :: rat where
  "AFFINITY_SCORE_WEIGHT = dbl (1 / 10)"

definition SetupFromNodeConf :: "scheduler_request \<Rightarrow> node_manager \<Rightarrow> scheduler_request" where
  "SetupFromNodeConf r nm =
     (if rq_requestMode r = SHARE then
        r\<lparr>rq_scoreNames := [''LatencyScore'', ''RegionBalanceScore'', ''BalanceScore'', ''ShareReliabilityScore'',
            ''DivideNumaScore''], rq_weights := ForShare\<rparr>
      else
        let r1 = (case nm_schedulerMode nm of
              FreePriority \<Rightarrow> r\<lparr>rq_scoreNames := [''LatencyScore'', ''RegionBalanceScore'', ''BalanceScore'',
                  ''BorrowReliabilityScore'', ''DivideNumaScore''], rq_weights := ForBorrow\<rparr>
            | ReliabilityPriority \<Rightarrow> SetParam ''lenderBalance'' (any_bool True)
                (r\<lparr>rq_scoreNames := [''LatencyScore'', ''RegionBalanceScore'', ''BalanceScore'',
                  ''ReliabilityBalanceScore'', ''DivideNumaScore''], rq_weights := ForLenderBalance\<rparr>)
            | PerformancePriority \<Rightarrow> SetParam ''schedulerMode'' (any_string ''performance-priority'')
                (r\<lparr>rq_scoreNames := [''LatencyScore'', ''RegionBalanceScore'', ''BalanceScore'',
                  ''BorrowReliabilityScore'', ''BorrowBandwidthScore'', ''DivideNumaScore''],
                  rq_weights := ForPerformancePriority\<rparr>))
        in if rq_params r1 ''samePlanePrefer'' \<noteq> None then
             r1\<lparr>rq_scoreNames := rq_scoreNames r1 @ [''SocketAffinityScore''],
                rq_weights := (rq_weights r1)\<lparr>wAffinity := AFFINITY_SCORE_WEIGHT,
                  wBalance := dbl (wBalance (rq_weights r1) - AFFINITY_SCORE_WEIGHT)\<rparr>\<rparr>
           else r1)"

section \<open>The aligned size\<close>

lemma AlignRequestSize_cases:
  fixes sz :: u64 and b :: u32
  defines "bb \<equiv> unat b * 2 ^ 20"
  assumes "b \<noteq> 0" and "unat sz + (bb - 1) < 2 ^ 64"
  shows "unat (AlignRequestSize sz b) = (unat sz + (bb - 1)) div bb * bb"
proof -
  let ?w = "ucast b * 0x100000 :: u64"
  have bb: "unat ?w = bb" by (simp add: bb_def unat_mb_of_u32)
  have pos: "0 < bb" using assms(2) by (simp add: bb_def unat_gt_0)
  have m1: "unat (?w - 1) = bb - 1"
    using pos bb by (subst unat_sub) (simp_all add: word_le_nat_alt)
  show ?thesis
  proof (cases "sz = 0")
    case True
    then show ?thesis using pos by (simp add: AlignRequestSize_def div_eq_0_iff)
  next
    case False
    have ok: "SafeAdd sz (?w - 1) = (True, sz + (?w - 1))"
      using assms(3) by (simp add: SafeAdd_def m1)
    have "AlignRequestSize sz b = (sz + (?w - 1)) div ?w * ?w"
      using False assms(2) by (simp add: AlignRequestSize_def SizeMb2Byte_u32 ok del: add_diff_eq)
    moreover have "unat (sz + (?w - 1)) = unat sz + (bb - 1)"
      using SafeAdd_val [OF ok] m1 by simp
    ultimately show ?thesis by (simp add: unat_round_down bb)
  qed
qed


section \<open>Properties\<close>

text \<open>
  Alignment. With a block size, and no 64-bit overflow in the rounding, the aligned
  size is the least multiple of the block that is at least the requested size.
\<close>

theorem AlignRequestSize_least:
  assumes "b \<noteq> 0" and "unat sz + unat b * 2 ^ 20 - 1 < 2 ^ 64"
  shows "unat b * 2 ^ 20 dvd unat (AlignRequestSize sz b) \<and> unat sz \<le> unat (AlignRequestSize sz b) \<and>
    (\<forall>m. unat b * 2 ^ 20 dvd m \<longrightarrow> unat sz \<le> m \<longrightarrow> unat (AlignRequestSize sz b) \<le> m)"
proof -
  define bb where "bb = unat b * 2 ^ 20"
  have pos: "0 < bb" using assms(1) by (simp add: bb_def unat_gt_0)
  have e: "unat (AlignRequestSize sz b) = (unat sz + (bb - 1)) div bb * bb"
    unfolding bb_def using assms pos by (intro AlignRequestSize_cases) (simp_all add: bb_def)
  have ge: "unat sz \<le> (unat sz + (bb - 1)) div bb * bb"
    using mod_less_divisor [OF pos, of "unat sz + (bb - 1)"] div_mult_mod_eq [of "unat sz + (bb - 1)" bb] by linarith
  have least: "(unat sz + (bb - 1)) div bb * bb \<le> m" if "bb dvd m" "unat sz \<le> m" for m
  proof -
    from that(1) obtain k where k: "m = k * bb" by (metis dvd_def mult.commute)
    have "unat sz + (bb - 1) < (k + 1) * bb" using that(2) k pos by simp
    then have "(unat sz + (bb - 1)) div bb < k + 1" by (rule less_mult_imp_div_less)
    then have "(unat sz + (bb - 1)) div bb \<le> k" by linarith
    then show ?thesis unfolding k by (rule mult_le_mono1)
  qed
  show ?thesis unfolding e bb_def [symmetric] by (intro conjI allI impI dvd_triv_right ge least)
qed

theorem AlignRequestSize_least_witness:
  "unat (AlignRequestSize 100 (4 :: u32)) = 4194304"
proof -
  have "AlignRequestSize 100 (4 :: u32) = 4194304" by (simp add: AlignRequestSize_def SizeMb2Byte_u32 [of 4, simplified] SafeAdd_def)
  with AlignRequestSize_least [of "4 :: u32" 100] show ?thesis by simp
qed

end
