(* ===== verification/AccountInfo.thy ===== *)
theory AccountInfo
  imports NodeManager
begin

text \<open>
  \<open>SchedulerAccountInfo\<close>: one booked borrowing. It keeps where it imports from and exports
  to, and a state that says which of the two sides is currently booked on the sockets and
  NUMA nodes. Every event changes the state and books or releases a side.
\<close>

section \<open>State and construction\<close>

record account_info =
  ac_importNumaLocs :: "UbseMemDebtNumaInfo list"
  ac_exportNumaLocs :: "UbseMemDebtNumaInfo list"
  ac_blockSize :: u32
  ac_type :: BorrowedType
  ac_state :: AccountState

datatype invalid_argument = blockSize_zero | exportNumaLocs_empty | importNumaLocs_empty

definition SchedulerAccountInfo_new ::
  "UbseMemDebtNumaInfo list \<Rightarrow> UbseMemDebtNumaInfo list \<Rightarrow> BorrowedType \<Rightarrow> u32 \<Rightarrow> invalid_argument + account_info" where
  "SchedulerAccountInfo_new imports exports type blockSize =
     (if blockSize = 0 then Inl blockSize_zero
      else if exports = [] then Inl exportNumaLocs_empty
      else if type \<noteq> SHM \<and> imports = [] then Inl importNumaLocs_empty
      else Inr \<lparr>ac_importNumaLocs = imports, ac_exportNumaLocs = exports, ac_blockSize = blockSize,
        ac_type = type, ac_state = BOTH_NOT_EXIST\<rparr>)"

definition GetExportNodeId :: "account_info \<Rightarrow> NodeId" where
  \<comment> \<open>reads element 0, which the constructor guarantees to exist\<close>
  "GetExportNodeId a = dn_nodeId (hd (ac_exportNumaLocs a))"

definition GetImportNodeId :: "account_info \<Rightarrow> NodeId" where
  "GetImportNodeId a =
     (if ac_importNumaLocs a = [] then [] else dn_nodeId (hd (ac_importNumaLocs a)))"

section \<open>Booking one location\<close>

definition blocks_of :: "u32 \<Rightarrow> u64 \<Rightarrow> u64" where
  \<comment> \<open>\<open>(size + ONE_M * blockSize - 1) / (ONE_M * blockSize)\<close>, in 64 bits\<close>
  "blocks_of blockSize sz = (sz + ONE_M * ucast blockSize - 1) div (ONE_M * ucast blockSize)"

definition upd_first_numa :: "(numa_info \<Rightarrow> numa_info) \<Rightarrow> socket_info \<Rightarrow> socket_info" where
  \<comment> \<open>through \<open>numaMap.begin()->second\<close>, when there is one\<close>
  "upd_first_numa f s = (case sk_numas s of
      [] \<Rightarrow> s
    | (k, u) # us \<Rightarrow> s\<lparr>sk_numas := (k, f u) # us\<rparr>)"

definition dn_numa :: "UbseMemDebtNumaInfo \<Rightarrow> NumaId" where
  \<comment> \<open>\<open>static_cast<NumaId>(info.numaId)\<close>\<close>
  "dn_numa d = ucast (dn_numaId d)"

definition add_borrow_at :: "UbseMemDebtNumaInfo \<Rightarrow> node_manager \<Rightarrow> node_manager" where
  "add_borrow_at d nm = upd_socket (dn_nodeId d) (dn_socketId d) (upd_first_numa (AddNumaBorrowSize (dn_size d))) nm"

definition sub_borrow_at :: "UbseMemDebtNumaInfo \<Rightarrow> node_manager \<Rightarrow> node_manager" where
  "sub_borrow_at d nm = upd_socket (dn_nodeId d) (dn_socketId d) (upd_first_numa (SubNumaBorrowSize (dn_size d))) nm"

definition add_lend_at :: "u32 \<Rightarrow> UbseMemDebtNumaInfo \<Rightarrow> node_manager \<Rightarrow> node_manager" where
  "add_lend_at bs d nm =
     upd_socket (dn_nodeId d) (dn_socketId d) (AddLentCount (blocks_of bs (dn_size d)))
       (upd_numa (dn_nodeId d) (dn_numa d) (AddNumaLentSize (dn_size d)) nm)"

definition sub_lend_at :: "u32 \<Rightarrow> UbseMemDebtNumaInfo \<Rightarrow> node_manager \<Rightarrow> node_manager" where
  "sub_lend_at bs d nm =
     upd_socket (dn_nodeId d) (dn_socketId d) (SubLentCount (blocks_of bs (dn_size d)))
       (upd_numa (dn_nodeId d) (dn_numa d) (SubNumaLentSize (dn_size d)) nm)"

definition add_share_at :: "u32 \<Rightarrow> UbseMemDebtNumaInfo \<Rightarrow> node_manager \<Rightarrow> node_manager" where
  "add_share_at bs d nm =
     upd_socket (dn_nodeId d) (dn_socketId d) (AddLentCount (blocks_of bs (dn_size d)))
       (upd_numa (dn_nodeId d) (dn_numa d) (AddNumaShareSize (dn_size d)) nm)"

definition sub_share_at :: "u32 \<Rightarrow> UbseMemDebtNumaInfo \<Rightarrow> node_manager \<Rightarrow> node_manager" where
  "sub_share_at bs d nm =
     upd_socket (dn_nodeId d) (dn_socketId d) (SubLentCount (blocks_of bs (dn_size d)))
       (upd_numa (dn_nodeId d) (dn_numa d) (SubNumaShareSize (dn_size d)) nm)"

section \<open>Booking an account\<close>

definition AddNumaBorrow :: "account_info \<Rightarrow> node_manager \<Rightarrow> node_manager" where
  "AddNumaBorrow a nm = fold add_borrow_at (ac_importNumaLocs a) nm"

definition SubNumaBorrow :: "account_info \<Rightarrow> node_manager \<Rightarrow> node_manager" where
  "SubNumaBorrow a nm = fold sub_borrow_at (ac_importNumaLocs a) nm"

definition AddNumaLend :: "account_info \<Rightarrow> node_manager \<Rightarrow> node_manager" where
  "AddNumaLend a nm = fold (add_lend_at (ac_blockSize a)) (ac_exportNumaLocs a) nm"

definition SubNumaLend :: "account_info \<Rightarrow> node_manager \<Rightarrow> node_manager" where
  "SubNumaLend a nm = fold (sub_lend_at (ac_blockSize a)) (ac_exportNumaLocs a) nm"

definition AddNumaShare :: "account_info \<Rightarrow> node_manager \<Rightarrow> node_manager" where
  "AddNumaShare a nm = fold (add_share_at (ac_blockSize a)) (ac_exportNumaLocs a) nm"

definition SubNumaShare :: "account_info \<Rightarrow> node_manager \<Rightarrow> node_manager" where
  "SubNumaShare a nm = fold (sub_share_at (ac_blockSize a)) (ac_exportNumaLocs a) nm"

section \<open>The state machine\<close>

definition UpdateByBothNotExist :: "UbseMemState \<Rightarrow> account_info \<Rightarrow> node_manager \<Rightarrow> account_info \<times> node_manager" where
  "UpdateByBothNotExist st a nm =
     (if st = UBSE_MEM_SCHEDULING then
        let nm1 = (if ac_type a = SHM then nm else AddNumaBorrow a nm);
            nm2 = (if ac_type a = SHM then AddNumaShare a nm1 else AddNumaLend a nm1)
        in (a\<lparr>ac_state := (if ac_type a = SHM then ONLY_EXPORT_EXIST else IMPORT_EXPORT_EXIST)\<rparr>, nm2)
      else if st = UBSE_MEM_IMPORT_SUCCESS then
        (a\<lparr>ac_state := ONLY_IMPORT_EXIST\<rparr>, if ac_type a = SHM then nm else AddNumaBorrow a nm)
      else if st = UBSE_MEM_EXPORT_SUCCESS then
        (a\<lparr>ac_state := ONLY_EXPORT_EXIST\<rparr>, if ac_type a = SHM then AddNumaShare a nm else AddNumaLend a nm)
      else (a, nm))"

definition UpdateStateByOnlyExportExist :: "UbseMemState \<Rightarrow> account_info \<Rightarrow> node_manager \<Rightarrow> account_info \<times> node_manager" where
  "UpdateStateByOnlyExportExist st a nm =
     (if st = UBSE_MEM_STATE_FAILED then
        (a\<lparr>ac_state := BOTH_NOT_EXIST\<rparr>, if ac_type a = SHM then SubNumaShare a nm else SubNumaLend a nm)
      else if st = UBSE_MEM_IMPORT_SUCCESS then
        (a\<lparr>ac_state := IMPORT_EXPORT_EXIST\<rparr>, if ac_type a = SHM then nm else AddNumaBorrow a nm)
      else if st = UBSE_MEM_EXPORT_DESTROYED then
        (a\<lparr>ac_state := BOTH_NOT_EXIST\<rparr>, if ac_type a = SHM then SubNumaShare a nm else SubNumaLend a nm)
      else (a, nm))"

definition UpdateStateByOnlyImportExist :: "UbseMemState \<Rightarrow> account_info \<Rightarrow> node_manager \<Rightarrow> account_info \<times> node_manager" where
  "UpdateStateByOnlyImportExist st a nm =
     (if st = UBSE_MEM_STATE_FAILED then
        (a\<lparr>ac_state := BOTH_NOT_EXIST\<rparr>, if ac_type a = SHM then nm else SubNumaBorrow a nm)
      else if st = UBSE_MEM_EXPORT_SUCCESS then
        (a\<lparr>ac_state := IMPORT_EXPORT_EXIST\<rparr>, if ac_type a = SHM then AddNumaShare a nm else AddNumaLend a nm)
      else if st = UBSE_MEM_IMPORT_DESTROYED then
        (a\<lparr>ac_state := BOTH_NOT_EXIST\<rparr>, if ac_type a = SHM then nm else SubNumaBorrow a nm)
      else (a, nm))"

definition UpdateStateByBothExist :: "UbseMemState \<Rightarrow> account_info \<Rightarrow> node_manager \<Rightarrow> account_info \<times> node_manager" where
  "UpdateStateByBothExist st a nm =
     (if st = UBSE_MEM_STATE_FAILED then
        let nm1 = (if ac_type a = SHM then nm else SubNumaBorrow a nm);
            nm2 = (if ac_type a = SHM then SubNumaShare a nm1 else SubNumaLend a nm1)
        in (a\<lparr>ac_state := BOTH_NOT_EXIST\<rparr>, nm2)
      else if st = UBSE_MEM_EXPORT_DESTROYED then
        (a\<lparr>ac_state := ONLY_IMPORT_EXIST\<rparr>, if ac_type a = SHM then SubNumaShare a nm else SubNumaLend a nm)
      else if st = UBSE_MEM_IMPORT_DESTROYED then
        (a\<lparr>ac_state := ONLY_EXPORT_EXIST\<rparr>, if ac_type a = SHM then nm else SubNumaBorrow a nm)
      else (a, nm))"

definition UpdateAccountState :: "UbseMemState \<Rightarrow> account_info \<Rightarrow> node_manager \<Rightarrow> account_info \<times> node_manager" where
  "UpdateAccountState st a nm = (case ac_state a of
      IMPORT_EXPORT_EXIST \<Rightarrow> UpdateStateByBothExist st a nm
    | ONLY_EXPORT_EXIST \<Rightarrow> UpdateStateByOnlyExportExist st a nm
    | ONLY_IMPORT_EXIST \<Rightarrow> UpdateStateByOnlyImportExist st a nm
    | BOTH_NOT_EXIST \<Rightarrow> UpdateByBothNotExist st a nm)"

section \<open>Which sides are booked, and the transition function\<close>

definition export_booked :: "AccountState \<Rightarrow> bool" where
  "export_booked s \<longleftrightarrow> s = IMPORT_EXPORT_EXIST \<or> s = ONLY_EXPORT_EXIST"

definition import_booked :: "AccountState \<Rightarrow> bool" where
  "import_booked s \<longleftrightarrow> s = IMPORT_EXPORT_EXIST \<or> s = ONLY_IMPORT_EXIST"

fun next_state :: "BorrowedType \<Rightarrow> AccountState \<Rightarrow> UbseMemState \<Rightarrow> AccountState" where
  "next_state t BOTH_NOT_EXIST UBSE_MEM_SCHEDULING = (if t = SHM then ONLY_EXPORT_EXIST else IMPORT_EXPORT_EXIST)"
| "next_state t BOTH_NOT_EXIST UBSE_MEM_IMPORT_SUCCESS = ONLY_IMPORT_EXIST"
| "next_state t BOTH_NOT_EXIST UBSE_MEM_EXPORT_SUCCESS = ONLY_EXPORT_EXIST"
| "next_state t ONLY_EXPORT_EXIST UBSE_MEM_IMPORT_SUCCESS = IMPORT_EXPORT_EXIST"
| "next_state t ONLY_EXPORT_EXIST UBSE_MEM_EXPORT_DESTROYED = BOTH_NOT_EXIST"
| "next_state t ONLY_IMPORT_EXIST UBSE_MEM_EXPORT_SUCCESS = IMPORT_EXPORT_EXIST"
| "next_state t ONLY_IMPORT_EXIST UBSE_MEM_IMPORT_DESTROYED = BOTH_NOT_EXIST"
| "next_state t IMPORT_EXPORT_EXIST UBSE_MEM_EXPORT_DESTROYED = ONLY_IMPORT_EXIST"
| "next_state t IMPORT_EXPORT_EXIST UBSE_MEM_IMPORT_DESTROYED = ONLY_EXPORT_EXIST"
| "next_state t s UBSE_MEM_STATE_FAILED = BOTH_NOT_EXIST"
| "next_state t s e = s"

text \<open>
  The effect on the cache is the difference of the booked sides: a side that becomes booked
  is added, one that stops being booked is subtracted.
\<close>

definition move_import :: "account_info \<Rightarrow> AccountState \<Rightarrow> node_manager \<Rightarrow> node_manager" where
  "move_import a s' nm =
     (if ac_type a = SHM \<or> import_booked (ac_state a) = import_booked s' then nm
      else if import_booked s' then AddNumaBorrow a nm else SubNumaBorrow a nm)"

definition move_export :: "account_info \<Rightarrow> AccountState \<Rightarrow> node_manager \<Rightarrow> node_manager" where
  "move_export a s' nm =
     (if export_booked (ac_state a) = export_booked s' then nm
      else if ac_type a = SHM then (if export_booked s' then AddNumaShare a nm else SubNumaShare a nm)
      else (if export_booked s' then AddNumaLend a nm else SubNumaLend a nm))"

lemma UpdateAccountState_moves:
  "UpdateAccountState st a nm =
     (a\<lparr>ac_state := next_state (ac_type a) (ac_state a) st\<rparr>,
      move_export a (next_state (ac_type a) (ac_state a) st)
        (move_import a (next_state (ac_type a) (ac_state a) st) nm))"
  by (cases "ac_state a"; cases st)
    (simp_all add: UpdateAccountState_def UpdateByBothNotExist_def UpdateStateByOnlyExportExist_def
      UpdateStateByOnlyImportExist_def UpdateStateByBothExist_def move_import_def move_export_def
      export_booked_def import_booked_def Let_def)

end
