(* ===== verification/AccountManager.thy ===== *)
theory AccountManager
  imports AccountInfo
begin

text \<open>
  \<open>SchedulerAccountManager\<close>: the borrow accounts and the share accounts by identifier. An
  account is created by the first event that names it and erased when neither side is booked
  any more. The look-ups are what the filters and scorers ask.
\<close>

section \<open>State\<close>

record account_manager =
  am_borrowAccount :: "(SchedulerAccountID, account_info) omap"
  am_shareAccount :: "(SchedulerAccountID, account_info) omap"

definition SchedulerAccountManager_new :: account_manager where
  "SchedulerAccountManager_new = \<lparr>am_borrowAccount = [], am_shareAccount = []\<rparr>"

definition AccountClear :: "account_manager \<Rightarrow> account_manager" where
  "AccountClear am = am\<lparr>am_borrowAccount := [], am_shareAccount := []\<rparr>"

definition targetMap :: "BorrowedType \<Rightarrow> account_manager \<Rightarrow> (SchedulerAccountID, account_info) omap" where
  "targetMap type am = (if type = SHM then am_shareAccount am else am_borrowAccount am)"

definition set_targetMap ::
  "BorrowedType \<Rightarrow> (SchedulerAccountID, account_info) omap \<Rightarrow> account_manager \<Rightarrow> account_manager" where
  "set_targetMap type m am = (if type = SHM then am\<lparr>am_shareAccount := m\<rparr> else am\<lparr>am_borrowAccount := m\<rparr>)"

section \<open>Events\<close>

definition account_id :: "string \<Rightarrow> UbseMemAlgoResult \<Rightarrow> BorrowedType \<Rightarrow> SchedulerAccountID" where
  "account_id name res type = SchedulerAccountID name
     (if ar_importNumaInfos res = [] then dn_nodeId (hd (ar_exportNumaInfos res))
      else dn_nodeId (hd (ar_importNumaInfos res))) type"

definition find_or_create :: "string \<Rightarrow> UbseMemAlgoResult \<Rightarrow> BorrowedType \<Rightarrow> account_manager \<Rightarrow> invalid_argument + account_info" where
  "find_or_create name res type am = (case map_of (targetMap type am) (account_id name res type) of
      Some a \<Rightarrow> Inr a
    | None \<Rightarrow> SchedulerAccountInfo_new (ar_importNumaInfos res) (ar_exportNumaInfos res) type (ar_blockSize res))"

definition UpdateSchedulerAccount ::
  "string \<Rightarrow> UbseMemAlgoResult \<Rightarrow> UbseMemState \<Rightarrow> BorrowedType \<Rightarrow> node_manager \<times> account_manager \<Rightarrow>
     UbseResult \<times> node_manager \<times> account_manager" where
  "UpdateSchedulerAccount name res state type st = (case st of (nm, am) \<Rightarrow>
     if ar_exportNumaInfos res = [] then (UBSE_ERROR_INVAL, nm, am)
     else if ar_importNumaInfos res = [] \<and> type \<noteq> SHM then (UBSE_ERROR_INVAL, nm, am)
     else case find_or_create name res type am of
         Inl e \<Rightarrow> (UBSE_ERROR_INVAL, nm, am)
       | Inr a \<Rightarrow>
           (let k = account_id name res type;
                m = om_put k a (targetMap type am)
            in case UpdateAccountState state a nm of (a', nm') \<Rightarrow>
              (UBSE_OK, nm',
               set_targetMap type (if ac_state a' = BOTH_NOT_EXIST then om_erase k m else om_put k a' m) am)))"

section \<open>What the filters and scorers ask\<close>

definition HasBorrowedFrom :: "account_manager \<Rightarrow> NodeId \<Rightarrow> NodeId \<Rightarrow> bool" where
  "HasBorrowedFrom am importNodeId exportNodeId =
     list_ex (\<lambda>(k, a). GetImportNodeId a = importNodeId \<and> GetExportNodeId a = exportNodeId) (am_borrowAccount am)"

definition exports_on :: "NodeId \<Rightarrow> SocketId \<Rightarrow> account_info \<Rightarrow> UbseMemDebtNumaInfo list" where
  "exports_on exportNodeId socketId a =
     filter (\<lambda>d. dn_nodeId d = exportNodeId \<and> dn_socketId d = socketId) (ac_exportNumaLocs a)"

definition HasBorrowedFromSocket :: "account_manager \<Rightarrow> NodeId \<Rightarrow> NodeId \<Rightarrow> SocketId \<Rightarrow> bool" where
  "HasBorrowedFromSocket am importNodeId exportNodeId socketId =
     list_ex (\<lambda>(k, a). if id_nodeId k \<noteq> importNodeId \<or> GetExportNodeId a \<noteq> exportNodeId then False
       else exports_on exportNodeId socketId a \<noteq> []) (am_borrowAccount am)"

definition CountDistinctLenders :: "account_manager \<Rightarrow> NodeId \<Rightarrow> u32" where
  "CountDistinctLenders am importNodeId =
     of_nat (card (fold (\<lambda>(k, a) lenders.
       if ac_state a = BOTH_NOT_EXIST \<or> ac_state a = ONLY_EXPORT_EXIST then lenders
       else if GetImportNodeId a = importNodeId then insert (GetExportNodeId a) lenders
       else lenders) (am_borrowAccount am) {}))"

definition CountDistinctBorrowers :: "account_manager \<Rightarrow> NodeId \<Rightarrow> u32" where
  "CountDistinctBorrowers am exportNodeId =
     of_nat (card (fold (\<lambda>(k, a) borrowers.
       if ac_state a = BOTH_NOT_EXIST \<or> ac_state a = ONLY_IMPORT_EXIST then borrowers
       else if GetExportNodeId a = exportNodeId then insert (GetImportNodeId a) borrowers
       else borrowers) (am_borrowAccount am) {}))"

record NumaBorrowInfo =
  borrowedByRequestor :: "u32 set"
  borrowerCount :: "(u32, u32) omap"

definition add_borrower :: "u32 \<Rightarrow> NodeId \<Rightarrow> (u32, NodeId set) omap \<Rightarrow> (u32, NodeId set) omap" where
  "add_borrower j i m = om_put j (insert i (case map_of m j of None \<Rightarrow> {} | Some s \<Rightarrow> s)) m"

definition GetNumaBorrowInfo :: "account_manager \<Rightarrow> NodeId \<Rightarrow> SocketId \<Rightarrow> NodeId \<Rightarrow> NumaBorrowInfo" where
  "GetNumaBorrowInfo am exportNodeId socketId importNodeId =
     (case fold (\<lambda>(k, a) acc. fold (\<lambda>d (req, nodes).
           (if id_nodeId k = importNodeId then insert (dn_numa d) req else req,
            add_borrower (dn_numa d) (id_nodeId k) nodes)) (exports_on exportNodeId socketId a) acc)
         (am_borrowAccount am) ({}, []) of (req, nodes) \<Rightarrow>
       \<lparr>borrowedByRequestor = req, borrowerCount = map (\<lambda>(j, s). (j, of_nat (card s))) nodes\<rparr>)"

fun sum_lent :: "u64 list \<Rightarrow> u64 \<Rightarrow> u64" where
  \<comment> \<open>the checked sum, with the early return on overflow\<close>
  "sum_lent [] acc = acc"
| "sum_lent (x # xs) acc = (case SafeAdd acc x of (ok, r) \<Rightarrow> if ok then sum_lent xs r else UINT64_MAX div 2)"

definition GetTotalLentToBorrower :: "account_manager \<Rightarrow> NodeId \<Rightarrow> SocketId \<Rightarrow> NodeId \<Rightarrow> u64" where
  "GetTotalLentToBorrower am exportNodeId socketId importNodeId =
     sum_lent (concat (map (\<lambda>(k, a). if id_nodeId k \<noteq> importNodeId then []
       else map dn_size (exports_on exportNodeId socketId a)) (am_borrowAccount am))) 0"

end
