(* ===== verification/Filters.thy ===== *)
theory Filters
  imports SchedRequest AccountManager
begin

text \<open>
  The filters of \<open>scheduler_filter/\<close> and the chain that runs them by name. A filter takes
  the candidate list and returns it with what does not qualify removed, or an error that
  stops the chain. Reject and warning records are logging and are left out.
\<close>

type_synonym filter_fn =
  "node_manager \<Rightarrow> account_manager \<Rightarrow> scheduler_request \<Rightarrow> NodeInfo list \<Rightarrow> UbseResult \<times> NodeInfo list"

section \<open>Erasing candidates\<close>

definition EraseNodesIf :: "(NodeInfo \<Rightarrow> bool) \<Rightarrow> NodeInfo list \<Rightarrow> NodeInfo list" where
  "EraseNodesIf pred nodes = filter (\<lambda>n. \<not> pred n) nodes"

definition EraseSocketsIf :: "(SocketInfo \<Rightarrow> bool) \<Rightarrow> NodeInfo \<Rightarrow> NodeInfo" where
  "EraseSocketsIf pred n = n\<lparr>nd_socketInfos := filter (\<lambda>s. \<not> pred s) (nd_socketInfos n)\<rparr>"

definition clear_sockets :: "NodeInfo \<Rightarrow> NodeInfo" where
  "clear_sockets n = n\<lparr>nd_socketInfos := []\<rparr>"

definition RemoveEmptyNodes :: "NodeInfo list \<Rightarrow> NodeInfo list" where
  "RemoveEmptyNodes nodes = filter (\<lambda>n. nd_socketInfos n \<noteq> []) nodes"

section \<open>Configuration and roles\<close>

fun config_scan :: "node_manager \<Rightarrow> NodeInfo list \<Rightarrow> (UbseAllocator \<times> u32) option \<Rightarrow> UbseResult + (UbseAllocator \<times> u32) option" where
  \<comment> \<open>the loop; the accumulator is the first lender's allocator and block size\<close>
  "config_scan nm [] first = Inr first"
| "config_scan nm (node # nodes) first = (case GetNodeInfo nm (nd_nodeId node) of
      None \<Rightarrow> Inl UBSE_SCHEDULER_ERROR_INVAL
    | Some n \<Rightarrow>
        if \<not> no_isLender n then config_scan nm nodes first
        else case first of
            None \<Rightarrow> config_scan nm nodes (Some (no_allocator n, no_blockSize n))
          | Some (firstAllocator, firstBlockSize) \<Rightarrow>
              if no_allocator n \<noteq> firstAllocator then Inl UBSE_ERROR_CONF_INVALID
              else if no_blockSize n \<noteq> firstBlockSize then Inl UBSE_ERROR_CONF_INVALID
              else config_scan nm nodes first)"

definition ConfigConsistencyFilter :: filter_fn where
  "ConfigConsistencyFilter nm am req nodes = (case config_scan nm nodes None of
      Inl e \<Rightarrow> (e, nodes)
    | Inr None \<Rightarrow> (UBSE_OK, nodes)
    | Inr (Some (a, firstBlockSize)) \<Rightarrow>
        if firstBlockSize < 4 \<or> firstBlockSize > 4096 \<or> firstBlockSize mod 2 \<noteq> 0
        then (UBSE_ERROR_CONF_INVALID, nodes) else (UBSE_OK, nodes))"

definition RoleConflictFilter :: filter_fn where
  "RoleConflictFilter nm am req nodes = (case GetNodeInfo nm (rq_importNodeId req) of
      None \<Rightarrow> (UBSE_SCHEDULER_ERROR_INVAL, nodes)
    | Some memNode \<Rightarrow>
        if GetLentSizeExcludingShared memNode > 0 then (UBSE_SCHEDULER_ERROR_INVAL, nodes)
        else (UBSE_OK, EraseNodesIf (\<lambda>node.
          if nd_nodeId node = rq_importNodeId req then True
          else case GetNodeInfo nm (nd_nodeId node) of
              None \<Rightarrow> True
            | Some n \<Rightarrow> NodeGetBorrowSize n > 0) nodes))"

definition LenderRoleFilter :: filter_fn where
  "LenderRoleFilter nm am req nodes =
     (UBSE_OK, EraseNodesIf (\<lambda>node. case GetNodeInfo nm (nd_nodeId node) of
         None \<Rightarrow> True | Some n \<Rightarrow> \<not> no_isLender n) nodes)"

definition NodeStateFilter :: filter_fn where
  "NodeStateFilter nm am req nodes =
     (UBSE_OK, EraseNodesIf (\<lambda>node. case GetNodeInfo nm (nd_nodeId node) of
         None \<Rightarrow> True | Some n \<Rightarrow> no_clusterState n \<noteq> UBSE_NODE_WORKING) nodes)"

definition GroupFilter :: filter_fn where
  "GroupFilter nm am req nodes =
     (let groupNodes = GetGroupNodes nm (rq_requestNodeId req)
      in (UBSE_OK, EraseNodesIf (\<lambda>node. nd_nodeId node \<notin> groupNodes) nodes))"

definition ProviderFilter :: filter_fn where
  "ProviderFilter nm am req nodes =
     (if nm_providerNodes nm = {} then (UBSE_OK, nodes)
      else (UBSE_OK, EraseNodesIf (\<lambda>node. nd_nodeId node \<notin> nm_providerNodes nm) nodes))"

definition RequestedProvidersFilter :: filter_fn where
  "RequestedProvidersFilter nm am req nodes =
     (if rq_provideNodes req = [] then (UBSE_OK, nodes)
      else (UBSE_OK, EraseNodesIf (\<lambda>node. nd_nodeId node \<notin> set (rq_provideNodes req)) nodes))"

definition RadiusBorrowFilter :: filter_fn where
  "RadiusBorrowFilter nm am req nodes =
     (if nm_radiusBorrow nm = UINT16_MAX then (UBSE_OK, nodes)
      else
        let lenderCount = CountDistinctLenders am (rq_importNodeId req)
        in (UBSE_OK, EraseNodesIf (\<lambda>node.
          if nd_nodeId node = rq_importNodeId req then False
          else if HasBorrowedFrom am (rq_importNodeId req) (nd_nodeId node) then False
          else if lenderCount < ucast (nm_radiusBorrow nm) then False
          else True) nodes))"

definition RadiusLenderFilter :: filter_fn where
  "RadiusLenderFilter nm am req nodes =
     (if nm_radiusLender nm = UINT16_MAX then (UBSE_OK, nodes)
      else (UBSE_OK, EraseNodesIf (\<lambda>node.
          if nd_nodeId node = rq_importNodeId req then False
          else if HasBorrowedFrom am (rq_importNodeId req) (nd_nodeId node) then False
          else if CountDistinctBorrowers am (nd_nodeId node) < ucast (nm_radiusLender nm) then False
          else True) nodes))"

section \<open>Capacity\<close>

definition LendCountFilter :: filter_fn where
  "LendCountFilter nm am req nodes =
     (let requestSizeMb = rq_requestSize req div ONE_M
      in (UBSE_OK, RemoveEmptyNodes (map (\<lambda>node. case GetNodeInfo nm (nd_nodeId node) of
          None \<Rightarrow> clear_sockets node
        | Some n \<Rightarrow>
            if no_blockSize n = 0 then clear_sockets node
            else
              let requiredBlocks = (ucast (requestSizeMb div ucast (no_blockSize n)) :: u32)
              in EraseSocketsIf (\<lambda>si. case GetSocketInfo nm (nd_nodeId node) (si_socketId si) of
                  None \<Rightarrow> True
                | Some s \<Rightarrow> (case SafeAdd (sk_lentCount s) (ucast requiredBlocks) of (ok, tot) \<Rightarrow>
                    if \<not> ok then True else tot > ucast (sk_maxExportTimes s))) node) nodes)))"

definition MaxLentSizeFilter :: filter_fn where
  "MaxLentSizeFilter nm am req nodes =
     (UBSE_OK, RemoveEmptyNodes (map (\<lambda>node.
        EraseSocketsIf (\<lambda>si. case GetSocketInfo nm (nd_nodeId node) (si_socketId si) of
            None \<Rightarrow> True
          | Some s \<Rightarrow> (case SafeAdd (rq_requestSize req) (SocketGetLentSize s) of (ok, totalLent) \<Rightarrow>
              if \<not> ok then True else sk_maxLentSize s \<noteq> 0 \<and> sk_maxLentSize s < totalLent)) node) nodes))"

definition GB_BYTES :: u64 where "GB_BYTES = 1073741824"

definition SharedPoolFilter :: filter_fn where
  "SharedPoolFilter nm am req nodes =
     (UBSE_OK, RemoveEmptyNodes (map (\<lambda>node. case GetNodeInfo nm (nd_nodeId node) of
          None \<Rightarrow> node
        | Some n \<Rightarrow>
            let poolBytes = ucast (no_nodeMaxLendGb n) * GB_BYTES
            in if poolBytes = 0 then node
               else case SafeAdd (NodeGetLentSize n) (rq_requestSize req) of (ok, projected) \<Rightarrow>
                 if \<not> ok then clear_sockets node
                 else if projected > poolBytes then clear_sockets node
                 else node) nodes))"

definition water_line :: "scheduler_request \<Rightarrow> u64" where
  "water_line req = (case GetParam_size ''highWatermark'' req of None \<Rightarrow> MAX_PERCENT | Some w \<Rightarrow> w)"

definition FreeMemoryFilter :: filter_fn where
  "FreeMemoryFilter nm am req nodes =
     (UBSE_OK, RemoveEmptyNodes (map (\<lambda>node.
        if rq_requestSize req = 0 then node
        else case GetNodeInfo nm (nd_nodeId node) of
            None \<Rightarrow> clear_sockets node
          | Some n \<Rightarrow> (case SizeMb2Byte (ucast (no_blockSize n)) of (ok, blockSizeByte) \<Rightarrow>
              if no_blockSize n = 0 \<or> \<not> ok then clear_sockets node
              else EraseSocketsIf (\<lambda>si. case GetSocketInfo nm (nd_nodeId node) (si_socketId si) of
                  None \<Rightarrow> True
                | Some s \<Rightarrow> SocketGetAvailableLendSize (water_line req) blockSizeByte s < rq_requestSize req) node))
        nodes))"

section \<open>Topology\<close>

definition TopoReachabilityFilter :: filter_fn where
  "TopoReachabilityFilter nm am req nodes = (case GetNodeInfo nm (rq_requestNodeId req) of
      None \<Rightarrow> (UBSE_SCHEDULER_ERROR_INVAL, nodes)
    | Some node \<Rightarrow>
        let peerSet = GetReachablePeers nm (rq_requestNodeId req) \<union>
              (\<lambda>(sid, s). (rq_requestNodeId req, sid)) ` set (no_sockets node)
        in (UBSE_OK, RemoveEmptyNodes (map (\<lambda>n. EraseSocketsIf (\<lambda>si. (nd_nodeId n, si_socketId si) \<notin> peerSet) n) nodes)))"

definition GetSamePlaneSockets :: "node_manager \<Rightarrow> scheduler_request \<Rightarrow> (NodeId \<times> SocketId) set" where
  "GetSamePlaneSockets nm req = (case GetParam_int ''affinitySocketId'' req of
      None \<Rightarrow> {}
    | Some v \<Rightarrow> if v = - 1 then {}
        else insert (rq_requestNodeId req, v) (GetReachablePeersOfSocket nm (rq_requestNodeId req) v))"

definition SocketAffinityFilter :: filter_fn where
  "SocketAffinityFilter nm am req nodes = (case GetParam_int ''affinitySocketId'' req of
      None \<Rightarrow> (UBSE_OK, nodes)
    | Some v \<Rightarrow>
        if v = - 1 then (UBSE_OK, nodes)
        else
          let peerSockets = GetSamePlaneSockets nm req
          in (UBSE_OK, RemoveEmptyNodes (map (\<lambda>n. EraseSocketsIf (\<lambda>si. (nd_nodeId n, si_socketId si) \<notin> peerSockets) n) nodes)))"

definition region_others :: "node_manager \<Rightarrow> MmiNodeInfo list \<Rightarrow> NodeId \<Rightarrow> NodeId set" where
  "region_others nm nodelist i =
     set (filter (\<lambda>o'. o' \<noteq> i \<and> GetNodeInfo nm o' \<noteq> None) (map mn_nodeId nodelist))"

definition can_reach_all :: "node_manager \<Rightarrow> MmiNodeInfo list \<Rightarrow> NodeId \<Rightarrow> bool" where
  "can_reach_all nm nodelist i \<longleftrightarrow> region_others nm nodelist i = {} \<or>
     (\<forall>target \<in> region_others nm nodelist i. target \<in> fst ` GetReachablePeers nm i)"

fun region_scan :: "node_manager \<Rightarrow> MmiNodeInfo list \<Rightarrow> MmiNodeInfo list \<Rightarrow> NodeId set \<Rightarrow> NodeId set option" where
  "region_scan nm nodelist [] acc = Some acc"
| "region_scan nm nodelist (node # rest) acc =
     (if mn_nodeId node \<notin> nm_staticNodes nm then None
      else if can_reach_all nm nodelist (mn_nodeId node) then region_scan nm nodelist rest (insert (mn_nodeId node) acc)
      else region_scan nm nodelist rest acc)"

definition RegionFilter :: filter_fn where
  "RegionFilter nm am req nodes = (case GetParam_region ''shmRegion'' req of
      None \<Rightarrow> (UBSE_OK, nodes)
    | Some region \<Rightarrow> (case region_scan nm (rg_nodelist region) (rg_nodelist region) {} of
        None \<Rightarrow> (UBSE_SCHEDULER_ERROR_INVAL, nodes)
      | Some regionNodes \<Rightarrow> (UBSE_OK, EraseNodesIf (\<lambda>node. nd_nodeId node \<notin> regionNodes) nodes)))"

definition on_front :: "(NodeInfo \<Rightarrow> NodeInfo) \<Rightarrow> NodeInfo list \<Rightarrow> NodeInfo list" where
  "on_front f nodes = (case nodes of [] \<Rightarrow> [] | n # ns \<Rightarrow> f n # ns)"

definition SpecifiedLinkFilter :: filter_fn where
  "SpecifiedLinkFilter nm am req nodes = (case GetParam_linkInfo ''linkInfo'' req of
      None \<Rightarrow> (UBSE_OK, nodes)
    | Some linkInfo \<Rightarrow>
        if ll_lenderNode linkInfo = [] then (UBSE_SCHEDULER_ERROR_INVAL, nodes)
        else (UBSE_OK, on_front (EraseSocketsIf (\<lambda>si. si_socketId si \<noteq> ll_lenderSocketId linkInfo))
               (EraseNodesIf (\<lambda>node. nd_nodeId node \<noteq> ll_lenderNode linkInfo) nodes)))"

section \<open>Specified lenders\<close>

definition FilterByNodeId :: "NodeId \<Rightarrow> NodeInfo list \<Rightarrow> NodeInfo list" where
  "FilterByNodeId targetNodeId nodes = filter (\<lambda>n. nd_nodeId n = targetNodeId) nodes"

definition FilterBySocketId :: "SocketId \<Rightarrow> NodeInfo list \<Rightarrow> NodeInfo list" where
  "FilterBySocketId targetSocketId nodes =
     (if targetSocketId = UINT32_MAX \<or> nodes = [] then nodes
      else on_front (EraseSocketsIf (\<lambda>si. si_socketId si \<noteq> targetSocketId)) nodes)"

definition EraseNumasIf :: "(NumaId \<Rightarrow> bool) \<Rightarrow> NodeInfo \<Rightarrow> NodeInfo" where
  "EraseNumasIf pred n = n\<lparr>nd_socketInfos :=
     map (\<lambda>si. si\<lparr>si_numaInfos := filter (\<lambda>j. \<not> pred j) (si_numaInfos si)\<rparr>) (nd_socketInfos n)\<rparr>"

definition FilterByNumaIds :: "NumaId set \<Rightarrow> NodeInfo list \<Rightarrow> NodeInfo list" where
  "FilterByNumaIds targetNumaIds nodes =
     (if targetNumaIds = {} \<or> nodes = [] then nodes
      else on_front (EraseNumasIf (\<lambda>j. j \<notin> targetNumaIds)) nodes)"

definition numa_lacks :: "node_manager \<Rightarrow> NodeId \<Rightarrow> u64 \<Rightarrow> u64 \<Rightarrow> (NumaId \<Rightarrow> u64 option) \<Rightarrow> NumaId \<Rightarrow> bool" where
  "numa_lacks nm i highWatermark blockSize numaToSize j = (case numaToSize j of
      None \<Rightarrow> True
    | Some requiredSize \<Rightarrow> (case GetNumaInfo nm i j of
        None \<Rightarrow> True
      | Some u \<Rightarrow> NumaGetAvailableLendSize highWatermark u div blockSize * blockSize < requiredSize))"

definition CheckNumaCapacity :: "node_manager \<Rightarrow> (NumaId \<Rightarrow> u64 option) \<Rightarrow> bool \<Rightarrow> scheduler_request \<Rightarrow> NodeInfo list \<Rightarrow>
    UbseResult \<times> NodeInfo list" where
  \<comment> \<open>the flag says whether \<open>numaToSize\<close> is empty\<close>
  "CheckNumaCapacity nm numaToSize sizes_empty req nodes = (case nodes of
      [] \<Rightarrow> (UBSE_OK, nodes)
    | front # rest \<Rightarrow>
        if sizes_empty then (UBSE_OK, nodes)
        else case GetNodeInfo nm (nd_nodeId front) of
            None \<Rightarrow> (UBSE_ERROR, nodes)
          | Some n \<Rightarrow>
              (let blockSize = (case SizeMb2Byte (ucast (no_blockSize n)) of (ok, b) \<Rightarrow> if \<not> ok \<or> b = 0 then 1 else b)
               in (UBSE_OK, EraseNumasIf (numa_lacks nm (nd_nodeId front) (water_line req) blockSize numaToSize) front # rest)))"

definition CleanupEmptyNodes :: "NodeInfo list \<Rightarrow> NodeInfo list" where
  "CleanupEmptyNodes nodes = filter (\<lambda>n. nd_socketInfos n \<noteq> [])
     (map (EraseSocketsIf (\<lambda>si. si_numaInfos si = [])) nodes)"

definition ValidatePortId :: "node_manager \<Rightarrow> UbseMemLenderInfo \<Rightarrow> SocketId \<Rightarrow> UbseResult" where
  "ValidatePortId nm lender sid = (case GetSocketInfo nm (li_nodeId lender) sid of
      None \<Rightarrow> UBSE_SCHEDULER_ERROR_INVAL
    | Some s \<Rightarrow> if li_portId lender \<notin> sk_ports s then UBSE_SCHEDULER_ERROR_INVAL else UBSE_OK)"

definition lender_socket :: "node_manager \<Rightarrow> UbseMemLenderInfo \<Rightarrow> SocketId" where
  "lender_socket nm lender =
     (if li_socketId lender = UINT32_MAX \<and> li_numaId lender \<noteq> UINT32_MAX
      then GetSocketIdByNumaId nm (li_nodeId lender) (li_numaId lender) else li_socketId lender)"

fun validate_lenders :: "node_manager \<Rightarrow> NodeId \<Rightarrow> SocketId \<Rightarrow> UbseMemLenderInfo list \<Rightarrow> (NumaId \<times> u64) list \<Rightarrow>
    UbseResult + (NumaId \<times> u64) list" where
  \<comment> \<open>the loop; the accumulator holds the (NUMA, size) pairs inserted so far, the latest first\<close>
  "validate_lenders nm firstNodeId outSocketId [] acc = Inr acc"
| "validate_lenders nm firstNodeId outSocketId (lender # lenders) acc =
     (let currentSocketId = lender_socket nm lender
      in if li_portId lender \<noteq> UINT32_MAX \<and> li_socketId lender = UINT32_MAX \<and> li_numaId lender = UINT32_MAX
         then Inl UBSE_SCHEDULER_ERROR_INVAL
         else if li_nodeId lender \<noteq> firstNodeId then Inl UBSE_SCHEDULER_ERROR_INVAL
         else if currentSocketId \<noteq> outSocketId then Inl UBSE_SCHEDULER_ERROR_INVAL
         else if li_portId lender \<noteq> UINT32_MAX \<and> ValidatePortId nm lender currentSocketId \<noteq> UBSE_OK
         then Inl (ValidatePortId nm lender currentSocketId)
         else if li_numaId lender \<noteq> UINT32_MAX then
           (if currentSocketId \<noteq> UINT32_MAX \<and> GetSocketIdByNumaId nm (li_nodeId lender) (li_numaId lender) \<noteq> currentSocketId
            then Inl UBSE_SCHEDULER_ERROR_INVAL
            else validate_lenders nm firstNodeId outSocketId lenders ((li_numaId lender, li_lender_size lender) # acc))
         else validate_lenders nm firstNodeId outSocketId lenders acc)"

definition ValidateLenderConsistency :: "node_manager \<Rightarrow> UbseMemLenderInfo list \<Rightarrow> UbseResult + SocketId \<times> (NumaId \<times> u64) list" where
  "ValidateLenderConsistency nm lenderInfos = (case lenderInfos of
      [] \<Rightarrow> Inl UBSE_SCHEDULER_ERROR_INVAL
    | first # _ \<Rightarrow>
        (let outSocketId = lender_socket nm first
         in case validate_lenders nm (li_nodeId first) outSocketId lenderInfos [] of
             Inl e \<Rightarrow> Inl e
           | Inr acc \<Rightarrow> Inr (outSocketId, acc)))"

definition SpecifiedLenderFilter :: filter_fn where
  "SpecifiedLenderFilter nm am req nodes = (case GetParam_lenderInfos ''lenderInfos'' req of
      None \<Rightarrow> (UBSE_OK, nodes)
    | Some [] \<Rightarrow> (UBSE_OK, nodes)
    | Some (first # others) \<Rightarrow> (case ValidateLenderConsistency nm (first # others) of
        Inl e \<Rightarrow> (e, [])
      | Inr (sid, acc) \<Rightarrow>
          (let nodes1 = FilterByNumaIds (fst ` set acc) (FilterBySocketId sid (FilterByNodeId (li_nodeId first) nodes))
           in case CheckNumaCapacity nm (map_of acc) (acc = []) req nodes1 of (ret, nodes2) \<Rightarrow>
             if ret \<noteq> UBSE_OK then (ret, nodes2) else (UBSE_OK, CleanupEmptyNodes nodes2))))"

section \<open>The chain\<close>

definition FindFilterByName :: "string \<Rightarrow> filter_fn option" where
  \<comment> \<open>the map that \<open>Init\<close> registers\<close>
  "FindFilterByName = map_of
     [(''ConfigConsistencyFilter'', ConfigConsistencyFilter), (''RoleConflictFilter'', RoleConflictFilter),
      (''LenderRoleFilter'', LenderRoleFilter), (''SocketAffinityFilter'', SocketAffinityFilter),
      (''GroupFilter'', GroupFilter), (''ProviderFilter'', ProviderFilter), (''NodeStateFilter'', NodeStateFilter),
      (''RequestedProvidersFilter'', RequestedProvidersFilter), (''LendCountFilter'', LendCountFilter),
      (''SpecifiedLenderFilter'', SpecifiedLenderFilter), (''SpecifiedLinkFilter'', SpecifiedLinkFilter),
      (''TopoReachabilityFilter'', TopoReachabilityFilter), (''MaxLentSizeFilter'', MaxLentSizeFilter),
      (''RadiusBorrowFilter'', RadiusBorrowFilter), (''RadiusLenderFilter'', RadiusLenderFilter),
      (''RegionFilter'', RegionFilter), (''FreeMemoryFilter'', FreeMemoryFilter), (''SharedPoolFilter'', SharedPoolFilter)]"

fun FilterByNames :: "string list \<Rightarrow> filter_fn" where
  "FilterByNames [] nm am req nodes = (UBSE_OK, nodes)"
| "FilterByNames (name # names) nm am req nodes = (case FindFilterByName name of
      None \<Rightarrow> FilterByNames names nm am req nodes
    | Some f \<Rightarrow> (case f nm am req nodes of (ret, nodes') \<Rightarrow>
        if ret \<noteq> UBSE_OK then (ret, nodes') else FilterByNames names nm am req nodes'))"

definition FilterNodes :: filter_fn where
  "FilterNodes nm am req nodes = FilterByNames (rq_filterNames req) nm am req nodes"

end
