(* ===== verification/Scores.thy ===== *)
theory Scores
  imports SchedRequest AccountManager Filters
begin

text \<open>
  The scorers of \<open>scheduler_score/\<close> and \<open>ubse_mem_scheduler_score_manager.cpp\<close>. Each scorer
  fills one \<open>double\<close> per candidate (node, socket), lower is better; the manager adds them up
  with the weights of the request and sorts. A \<open>double\<close> operation is the exact one followed by
  \<open>dbl\<close>. Score records are logging and are left out.
\<close>

record ScoredNode =
  sn_nodeId :: NodeId
  sn_socketId :: SocketId
  sn_componentScores :: "rat list"
  sn_totalCost :: rat

type_synonym score_fn =
  "NodeInfo list \<Rightarrow> node_manager \<Rightarrow> account_manager \<Rightarrow> scheduler_request \<Rightarrow> rat list \<Rightarrow> UbseResult \<times> rat list"

text \<open>
  The order in which the nested loops over nodes and their sockets visit the candidates; the
  manager passes a list of scores of this length, and a scorer that runs the loops overwrites
  all of it.
\<close>

definition candidates :: "NodeInfo list \<Rightarrow> (NodeId \<times> SocketInfo) list" where
  "candidates nodes = concat (map (\<lambda>n. map (\<lambda>s. (nd_nodeId n, s)) (nd_socketInfos n)) nodes)"

definition of_u64 :: "u64 \<Rightarrow> rat" where
  \<comment> \<open>\<open>static_cast<double>\<close> of a \<open>uint64_t\<close>\<close>
  "of_u64 x = dbl (of_nat (unat x))"

section \<open>Constant and yes-no scores\<close>

definition LatencyScore :: score_fn where
  "LatencyScore nodes nm am req scores = (UBSE_OK, map (\<lambda>s. 0) scores)"

definition RegionBalanceScore :: score_fn where
  "RegionBalanceScore nodes nm am req scores =
     (if IsFullyConnected nm then (UBSE_OK, map (\<lambda>s. 0) scores) else (UBSE_OK, map (\<lambda>s. 0) scores))"

definition BorrowReliabilityScore :: score_fn where
  "BorrowReliabilityScore nodes nm am req scores =
     (UBSE_OK, map (\<lambda>(i, si). if HasBorrowedFromSocket am (rq_importNodeId req) i (si_socketId si) then 0 else 1)
        (candidates nodes))"

definition has_share :: "node_manager \<Rightarrow> NodeId \<Rightarrow> NumaId \<Rightarrow> bool" where
  "has_share nm i j = (case GetNumaInfo nm i j of None \<Rightarrow> False | Some u \<Rightarrow> memShared u > 0)"

definition ShareReliabilityScore :: score_fn where
  "ShareReliabilityScore nodes nm am req scores =
     (UBSE_OK, map (\<lambda>(i, si). if list_ex (has_share nm i) (si_numaInfos si) then 0 else 1) (candidates nodes))"

definition SocketAffinityScore :: score_fn where
  "SocketAffinityScore nodes nm am req scores = (case GetParam_int ''affinitySocketId'' req of
      None \<Rightarrow> (UBSE_OK, scores)
    | Some v \<Rightarrow>
        if v = - 1 then (UBSE_OK, scores)
        else
          let peerSockets = GetSamePlaneSockets nm req
          in (UBSE_OK, map (\<lambda>(i, si). if (i, si_socketId si) \<in> peerSockets then 0 else 1) (candidates nodes)))"

section \<open>Balance\<close>

definition add_balance :: "node_manager \<Rightarrow> NodeId \<Rightarrow> u64 \<Rightarrow> NumaId \<Rightarrow> rat \<times> nat \<Rightarrow> rat \<times> nat" where
  "add_balance nm i requestSize j = (\<lambda>(socketScore, numaCount). case GetNumaInfo nm i j of
      None \<Rightarrow> (dbl (socketScore + 1), numaCount + 1)
    | Some u \<Rightarrow>
        if memTotal u = 0 then (dbl (socketScore + 1), numaCount + 1)
        else
          let balance = dbl (dbl (of_u64 requestSize + of_u64 (memUsed u)) / of_u64 (memTotal u))
          in (dbl (socketScore + min balance 1), numaCount + 1))"

definition balance_of :: "node_manager \<Rightarrow> u64 \<Rightarrow> NodeId \<Rightarrow> NumaId list \<Rightarrow> rat" where
  "balance_of nm requestSize i numas =
     (case fold (add_balance nm i requestSize) numas (0, 0) of (socketScore, numaCount) \<Rightarrow>
        if numaCount > 0 then dbl (socketScore / dbl (of_nat numaCount)) else socketScore)"

definition BalanceScore :: score_fn where
  "BalanceScore nodes nm am req scores =
     (UBSE_OK, map (\<lambda>(i, si). balance_of nm (rq_requestSize req) i (si_numaInfos si)) (candidates nodes))"

section \<open>Number of NUMA nodes\<close>

definition HALF_BLOCK_SIZE :: u64 where "HALF_BLOCK_SIZE = 64"

fun count_numas :: "u64 \<Rightarrow> u64 list \<Rightarrow> u64 \<Rightarrow> nat \<Rightarrow> nat" where
  "count_numas requestSize [] accumulated numaCount = numaCount"
| "count_numas requestSize (freeSize # rest) accumulated numaCount =
     (if accumulated \<ge> requestSize then numaCount
      else case SafeAdd accumulated freeSize of (ok, safeAdded) \<Rightarrow>
        count_numas requestSize rest (if ok then safeAdded else accumulated) (numaCount + 1))"

definition free_sizes :: "node_manager \<Rightarrow> NodeId \<Rightarrow> NumaId list \<Rightarrow> u64 list" where
  "free_sizes nm i numas = rev (sort (concat (map (\<lambda>j. case GetNumaInfo nm i j of None \<Rightarrow> [] | Some u \<Rightarrow> [memFree u]) numas)))"

definition DivideNumaScore :: score_fn where
  "DivideNumaScore nodes nm am req scores =
     (if rq_requestSize req = 0 then (UBSE_OK, map (\<lambda>s. 0) scores)
      else (UBSE_OK, map (\<lambda>(i, si).
        let numaCount = count_numas (rq_requestSize req) (free_sizes nm i (si_numaInfos si)) 0 0
        in if numaCount = 0 then 1
           else dbl (dbl (dbl (of_nat numaCount) * of_u64 HALF_BLOCK_SIZE) / of_u64 (rq_requestSize req))) (candidates nodes)))"

section \<open>Reliability under lender balance\<close>

definition borrow_times :: "NumaBorrowInfo \<Rightarrow> NumaId \<Rightarrow> u32" where
  "borrow_times info j = (case map_of (borrowerCount info) j of
      None \<Rightarrow> 0
    | Some c \<Rightarrow> if j \<notin> borrowedByRequestor info then c + 1 else c)"

definition borrowTimeCostWeight :: rat where "borrowTimeCostWeight = flt (1 / 2)"
definition outBorrowTimeCostRatio :: rat where "outBorrowTimeCostRatio = flt (borrowTimeCostWeight * 2)"
definition numaDivideCostWeight :: rat where "numaDivideCostWeight = flt (1 / 10)"

definition ComputeReliabilityCost :: "account_manager \<Rightarrow> NodeId \<Rightarrow> NodeId \<Rightarrow> u32 \<Rightarrow> u32 list \<Rightarrow> rat" where
  "ComputeReliabilityCost am importNodeId exportNodeId socketId numaIds =
     (let borrowInfo = GetNumaBorrowInfo am exportNodeId socketId importNodeId;
          cost0 = (if borrowedByRequestor borrowInfo \<noteq> {} then 0 else 3);
          cost1 = fold (\<lambda>j cost.
            let n = borrow_times borrowInfo j;
                ratio = (if n > 3 then outBorrowTimeCostRatio else borrowTimeCostWeight)
            in dbl (cost + dbl (dbl (of_nat (unat n)) * ratio))) numaIds cost0
      in dbl (cost1 + dbl (dbl (of_nat (length numaIds)) * numaDivideCostWeight)))"

definition ReliabilityBalanceScore :: score_fn where
  "ReliabilityBalanceScore nodes nm am req scores =
     (UBSE_OK, map (\<lambda>(i, si). ComputeReliabilityCost am (rq_requestNodeId req) i (si_socketId si) (si_numaInfos si))
        (candidates nodes))"

section \<open>Bandwidth\<close>

definition lend_tolerance :: "node_manager \<Rightarrow> u64" where
  "lend_tolerance nm = (case SizeMb2Byte (ucast (nm_bandwidthTolerance nm)) of (ok, tolerance) \<Rightarrow>
     if \<not> ok \<or> tolerance = 0 then ONE_M else tolerance)"

definition lend_amounts :: "account_manager \<Rightarrow> NodeId \<Rightarrow> NodeInfo list \<Rightarrow> u64 list" where
  "lend_amounts am importNodeId nodes =
     map (\<lambda>(i, si). GetTotalLentToBorrower am i (si_socketId si) importNodeId) (candidates nodes)"

definition simulated :: "u64 \<Rightarrow> u64 list \<Rightarrow> nat \<Rightarrow> u64 list" where
  \<comment> \<open>the amounts after the candidate with index \<open>i\<close> has lent the request as well\<close>
  "simulated requestSize amounts i = amounts[i := (case SafeAdd (amounts ! i) requestSize of (ok, incremented) \<Rightarrow>
     if ok then incremented else UINT64_MAX)]"

definition spread :: "u64 \<Rightarrow> u64 list \<Rightarrow> nat \<Rightarrow> u64" where
  "spread requestSize amounts i =
     fold (\<lambda>a m. max m a) (simulated requestSize amounts i) 0 - fold (\<lambda>a m. min m a) (simulated requestSize amounts i) UINT64_MAX"

definition band_indexes :: "u64 \<Rightarrow> u64 \<Rightarrow> u64 list \<Rightarrow> u64 list" where
  "band_indexes tolerance requestSize amounts = map (\<lambda>i. spread requestSize amounts i div tolerance) [0 ..< length amounts]"

definition hundredths :: "u64 \<Rightarrow> u64 \<Rightarrow> u64 \<Rightarrow> u64" where
  "hundredths minBand maxBand band =
     (let denom = maxBand - minBand; num = band - minBand in (num * 100 + denom div 2) div denom)"

definition BorrowBandwidthScore :: score_fn where
  "BorrowBandwidthScore nodes nm am req scores =
     (let bands = band_indexes (lend_tolerance nm) (rq_requestSize req) (lend_amounts am (rq_importNodeId req) nodes);
          minBand = fold (\<lambda>b m. min m b) bands UINT64_MAX;
          maxBand = fold (\<lambda>b m. max m b) bands 0
      in (UBSE_OK, map (\<lambda>band. if maxBand \<noteq> minBand then dbl (of_u64 (hundredths minBand maxBand band) / 100) else 0) bands))"

section \<open>The manager\<close>

definition FindScoreByName :: "string \<Rightarrow> score_fn option" where
  \<comment> \<open>the map that \<open>Init\<close> registers\<close>
  "FindScoreByName = map_of
     [(''LatencyScore'', LatencyScore), (''RegionBalanceScore'', RegionBalanceScore), (''BalanceScore'', BalanceScore),
      (''ReliabilityBalanceScore'', ReliabilityBalanceScore), (''BorrowReliabilityScore'', BorrowReliabilityScore),
      (''ShareReliabilityScore'', ShareReliabilityScore), (''BorrowBandwidthScore'', BorrowBandwidthScore),
      (''DivideNumaScore'', DivideNumaScore), (''SocketAffinityScore'', SocketAffinityScore)]"

definition GetWeightFor :: "string \<Rightarrow> ScoreWeights \<Rightarrow> rat" where
  "GetWeightFor name w =
     (if name = ''LatencyScore'' then wLatency w
      else if name = ''RegionBalanceScore'' then wRegionBalance w
      else if name = ''BalanceScore'' then wBalance w
      else if name = ''ReliabilityBalanceScore'' then wReliability w
      else if name = ''BorrowReliabilityScore'' then wReliability w
      else if name = ''ShareReliabilityScore'' then wReliability w
      else if name = ''DivideNumaScore'' then wDivideNuma w
      else if name = ''BorrowBandwidthScore'' then wBandwidth w
      else if name = ''SocketAffinityScore'' then wAffinity w
      else 0)"

definition unscored :: "NodeInfo list \<Rightarrow> ScoredNode list" where
  "unscored nodes = map (\<lambda>(i, si). \<lparr>sn_nodeId = i, sn_socketId = si_socketId si, sn_componentScores = [],
     sn_totalCost = 0\<rparr>) (candidates nodes)"

definition add_component :: "rat \<Rightarrow> rat \<Rightarrow> ScoredNode \<Rightarrow> ScoredNode" where
  "add_component w c r = r\<lparr>sn_componentScores := sn_componentScores r @ [c],
     sn_totalCost := dbl (sn_totalCost r + dbl (w * c))\<rparr>"

fun score_loop :: "NodeInfo list \<Rightarrow> node_manager \<Rightarrow> account_manager \<Rightarrow> scheduler_request \<Rightarrow> string list \<Rightarrow>
    ScoredNode list \<Rightarrow> UbseResult \<times> ScoredNode list" where
  "score_loop nodes nm am req [] results = (UBSE_OK, results)"
| "score_loop nodes nm am req (name # names) results = (case FindScoreByName name of
      None \<Rightarrow> score_loop nodes nm am req names results
    | Some scorer \<Rightarrow> (case scorer nodes nm am req (replicate (length results) 0) of (ret, scores) \<Rightarrow>
        if ret \<noteq> UBSE_OK then (ret, results)
        else score_loop nodes nm am req names
               (map2 (add_component (GetWeightFor name (rq_weights req))) scores results)))"

definition ComputeWeightedScores :: "NodeInfo list \<Rightarrow> node_manager \<Rightarrow> account_manager \<Rightarrow> scheduler_request \<Rightarrow>
    UbseResult \<times> ScoredNode list" where
  "ComputeWeightedScores nodes nm am req = score_loop nodes nm am req (rq_scoreNames req) (unscored nodes)"

definition cheaper :: "ScoredNode \<Rightarrow> ScoredNode \<Rightarrow> bool" where
  "cheaper a b \<longleftrightarrow> sn_totalCost a < sn_totalCost b"

definition ScoreAndRank ::
  "((ScoredNode \<Rightarrow> ScoredNode \<Rightarrow> bool) \<Rightarrow> ScoredNode list \<Rightarrow> ScoredNode list) \<Rightarrow> NodeInfo list \<Rightarrow> node_manager \<Rightarrow>
     account_manager \<Rightarrow> scheduler_request \<Rightarrow> nat \<Rightarrow> UbseResult \<times> ScoredNode list" where
  \<comment> \<open>the first argument is \<open>std::sort\<close>; \<open>results\<close> is empty at the only call\<close>
  "ScoreAndRank srt nodes nm am req topK = (case ComputeWeightedScores nodes nm am req of (ret, scoredNodes) \<Rightarrow>
     if ret \<noteq> UBSE_OK then (ret, [])
     else if scoredNodes = [] then (UBSE_SCHEDULER_ERROR_NO_NODE_CAN_LEND, [])
     else
       let ranked = srt cheaper scoredNodes;
           k = (if topK = 0 \<or> topK > length scoredNodes then length scoredNodes else topK)
       in (UBSE_OK, take k ranked))"

end
