(* ===== verification/SchedulerImpl.thy ===== *)
theory SchedulerImpl
  imports Filters Scores
begin

text \<open>
  \<open>ubse_mem_scheduler_impl.cpp\<close>: from a request to the memory it is served from. The scheduler
  refreshes its cache from the node reports, filters and ranks the candidates, and fills the
  result of the best one from its NUMA nodes. What the code takes from outside (the reports of
  \<open>GetAllNodes\<close>, the deployed nodes, the platform's \<open>long double\<close>, \<open>std::sort\<close>) is the record
  \<open>env\<close>; \<open>lock_\<close> makes every public operation one step.
\<close>

record env =
  ev_platform :: platform
  ev_deployed :: "u32 set"
  ev_nodes :: "(NodeId \<times> UbseNodeInfo) list"
  ev_sort_scored :: "(ScoredNode \<Rightarrow> ScoredNode \<Rightarrow> bool) \<Rightarrow> ScoredNode list \<Rightarrow> ScoredNode list"
  ev_sort_numa :: "(numa_info \<Rightarrow> numa_info \<Rightarrow> bool) \<Rightarrow> numa_info list \<Rightarrow> numa_info list"

section \<open>Filling the result\<close>

definition debt :: "NodeId \<Rightarrow> SocketId \<Rightarrow> NumaId \<Rightarrow> u64 \<Rightarrow> UbseMemDebtNumaInfo" where
  \<comment> \<open>the braced initialisers; the port and chip keep their default 0\<close>
  "debt i sid j sz = \<lparr>dn_nodeId = i, dn_socketId = sid, dn_numaId = ucast j, dn_size = sz, dn_portId = 0, dn_chipId = 0\<rparr>"

definition push_debt :: "scheduler_request \<Rightarrow> NodeId \<Rightarrow> SocketId \<Rightarrow> NumaId \<Rightarrow> u64 \<Rightarrow> UbseMemAlgoResult \<Rightarrow> UbseMemAlgoResult" where
  "push_debt req exportNode sid j sz res =
     (let res1 = res\<lparr>ar_exportNumaInfos := ar_exportNumaInfos res @ [debt exportNode sid j sz]\<rparr>
      in if rq_requestMode req = BORROW
         then res1\<lparr>ar_importNumaInfos := ar_importNumaInfos res1 @ [debt (rq_importNodeId req) sid j sz]\<rparr>
         else res1)"

definition block_bytes :: "UbseMemAlgoResult \<Rightarrow> u64" where
  "block_bytes res = (case SizeMb2Byte (ucast (ar_blockSize res)) of (ok, b) \<Rightarrow> if ok then b else 1)"

fun fill_loop :: "u64 \<Rightarrow> u64 \<Rightarrow> ScoredNode \<Rightarrow> scheduler_request \<Rightarrow> numa_info list \<Rightarrow> UbseMemAlgoResult \<times> u64 \<Rightarrow> UbseMemAlgoResult \<times> u64" where
  "fill_loop blockSize waterLine node req [] (res, remaining) = (res, remaining)"
| "fill_loop blockSize waterLine node req (u # us) (res, remaining) =
     (if remaining = 0 then (res, remaining)
      else
        let available = NumaGetAvailableLendSize waterLine u div blockSize * blockSize
        in if available < blockSize then fill_loop blockSize waterLine node req us (res, remaining)
           else
             let borrowSize = min available remaining
             in fill_loop blockSize waterLine node req us
                  (push_debt req (sn_nodeId node) (sn_socketId node) (nu_numaId u) borrowSize res,
                   if remaining \<ge> borrowSize then remaining - borrowSize else 0))"

definition FillFromNumaList :: "numa_info list \<Rightarrow> ScoredNode \<Rightarrow> scheduler_request \<Rightarrow> UbseMemAlgoResult \<times> u64 \<Rightarrow> UbseMemAlgoResult \<times> u64" where
  "FillFromNumaList numaList node req st = fill_loop (block_bytes (fst st)) (water_line req) node req numaList st"

definition more_free :: "numa_info \<Rightarrow> numa_info \<Rightarrow> bool" where
  "more_free a b \<longleftrightarrow> memFree a > memFree b"

definition GetSortedNumaList :: "env \<Rightarrow> node_manager \<Rightarrow> NodeId \<Rightarrow> SocketId \<Rightarrow> numa_info list" where
  "GetSortedNumaList e nm i sid = (case GetSocketInfo nm i sid of
      None \<Rightarrow> []
    | Some s \<Rightarrow> ev_sort_numa e more_free (map snd (sk_numas s)))"

definition SelectNumaForAddr :: "scheduler_request \<Rightarrow> UbseMemLenderInfo \<Rightarrow> UbseMemAlgoResult \<Rightarrow> UbseResult \<times> UbseMemAlgoResult" where
  "SelectNumaForAddr req li res =
     (UBSE_OK, push_debt req (li_nodeId li) (ar_attachSocketId res) (li_numaId li) (rq_requestSize req) res)"

definition SelectNumaByLenderInfo :: "scheduler_request \<Rightarrow> UbseMemLenderInfo \<Rightarrow> UbseMemAlgoResult \<Rightarrow> UbseResult \<times> UbseMemAlgoResult" where
  "SelectNumaByLenderInfo req li res =
     (let blockSize = block_bytes res;
          borrowSize = (li_lender_size li + blockSize - 1) div blockSize * blockSize
      in (UBSE_OK, push_debt req (li_nodeId li) (ar_attachSocketId res) (li_numaId li) borrowSize res))"

definition SelectNumaByFreeMemory :: "env \<Rightarrow> node_manager \<Rightarrow> scheduler_request \<Rightarrow> ScoredNode \<Rightarrow> UbseMemAlgoResult \<Rightarrow>
    UbseResult \<times> UbseMemAlgoResult" where
  "SelectNumaByFreeMemory e nm req node res =
     (let numaList = GetSortedNumaList e nm (sn_nodeId node) (sn_socketId node)
      in if numaList = [] then (UBSE_ERROR, res)
         else case FillFromNumaList numaList node req (res, rq_requestSize req) of (res', remaining) \<Rightarrow>
           if remaining > 0 then (UBSE_ERROR, res') else (UBSE_OK, res'))"

definition borrower_count :: "NumaBorrowInfo \<Rightarrow> numa_info \<Rightarrow> u32" where
  "borrower_count info u = (case map_of (borrowerCount info) (nu_numaId u) of None \<Rightarrow> 0 | Some c \<Rightarrow> c)"

definition by_borrowers :: "NumaBorrowInfo \<Rightarrow> numa_info \<Rightarrow> numa_info \<Rightarrow> bool" where
  "by_borrowers info a b =
     (if borrower_count info a \<noteq> borrower_count info b then borrower_count info a < borrower_count info b
      else memFree a > memFree b)"

definition SelectNumaByReliable :: "env \<Rightarrow> node_manager \<Rightarrow> account_manager \<Rightarrow> scheduler_request \<Rightarrow> ScoredNode \<Rightarrow>
    UbseMemAlgoResult \<Rightarrow> UbseResult \<times> UbseMemAlgoResult" where
  "SelectNumaByReliable e nm am req node res =
     (let allNumas = GetSortedNumaList e nm (sn_nodeId node) (sn_socketId node)
      in if allNumas = [] then (UBSE_ERROR, res)
         else
           let borrowInfo = GetNumaBorrowInfo am (sn_nodeId node) (sn_socketId node) (rq_importNodeId req);
               provided = filter (\<lambda>u. nu_numaId u \<in> borrowedByRequestor borrowInfo) allNumas;
               notProvided = filter (\<lambda>u. nu_numaId u \<notin> borrowedByRequestor borrowInfo) allNumas
           in case FillFromNumaList (ev_sort_numa e (by_borrowers borrowInfo) notProvided) node req
                (FillFromNumaList (ev_sort_numa e (by_borrowers borrowInfo) provided) node req (res, rq_requestSize req))
              of (res', remaining) \<Rightarrow> if remaining > 0 then (UBSE_ERROR, res') else (UBSE_OK, res'))"

fun fill_lenders :: "scheduler_request \<Rightarrow> UbseMemLenderInfo list \<Rightarrow> UbseMemAlgoResult \<Rightarrow> UbseResult \<times> UbseMemAlgoResult" where
  "fill_lenders req [] res = (UBSE_OK, res)"
| "fill_lenders req (li # lis) res =
     (if li_numaId li = UINT32_MAX then fill_lenders req lis res
      else case SelectNumaByLenderInfo req li res of (ret, res') \<Rightarrow>
        if ret \<noteq> UBSE_OK then (ret, res') else fill_lenders req lis res')"

definition named_lenders :: "scheduler_request \<Rightarrow> UbseMemLenderInfo list" where
  \<comment> \<open>the lenders of the request, if its first one names a NUMA node\<close>
  "named_lenders req = (case GetParam_lenderInfos ''lenderInfos'' req of
      None \<Rightarrow> []
    | Some [] \<Rightarrow> []
    | Some (li # lis) \<Rightarrow> if li_numaId li \<noteq> UINT32_MAX then li # lis else [])"

definition FillAlgoResult :: "env \<Rightarrow> node_manager \<Rightarrow> account_manager \<Rightarrow> scheduler_request \<Rightarrow> ScoredNode \<Rightarrow>
    UbseMemAlgoResult \<Rightarrow> UbseResult \<times> UbseMemAlgoResult" where
  "FillAlgoResult e nm am req node res = (case GetNodeInfo nm (sn_nodeId node) of
      None \<Rightarrow> (UBSE_ERROR, res)
    | Some n \<Rightarrow>
        let res1 = res\<lparr>ar_blockSize := no_blockSize n\<rparr>
        in if ar_blockSize res1 = 0 then (UBSE_ERROR, res1)
           else
             let res2 = res1\<lparr>ar_attachSocketId := sn_socketId node\<rparr>
             in (case named_lenders req of
                 li # lis \<Rightarrow>
                   if GetParam_bool ''isAddr'' req = Some True then SelectNumaForAddr req li res2
                   else fill_lenders req (li # lis) res2
               | [] \<Rightarrow>
                   if GetParam_bool ''lenderBalance'' req = Some True \<and> rq_requestMode req = BORROW
                   then SelectNumaByReliable e nm am req node res2
                   else SelectNumaByFreeMemory e nm req node res2))"

section \<open>Scheduling\<close>

definition probe_size :: "node_manager \<Rightarrow> scheduler_request \<Rightarrow> u64" where
  "probe_size nm req =
     (let probeBlockMb = GetRequestNodeBlockSize (rq_importNodeId req) (rq_requestNodeId req) (Some nm)
      in case SizeMb2Byte (ucast probeBlockMb) of (ok, probeBlockBytes) \<Rightarrow>
        if probeBlockMb \<noteq> 0 \<and> ok then probeBlockBytes else ONE_M)"

definition probe_request :: "node_manager \<Rightarrow> scheduler_request \<Rightarrow> scheduler_request" where
  "probe_request nm req = SetParam ''silent_replay'' (any_bool True) (req\<lparr>rq_requestSize := probe_size nm req\<rparr>)"

definition is_smoothing :: "node_manager \<Rightarrow> NodeInfo \<Rightarrow> bool" where
  "is_smoothing nm node = (case GetNodeInfo nm (nd_nodeId node) of
      None \<Rightarrow> False
    | Some n \<Rightarrow> no_clusterState n = UBSE_NODE_SMOOTHING)"

definition no_candidate :: "node_manager \<Rightarrow> account_manager \<Rightarrow> scheduler_request \<Rightarrow> UbseResult" where
  \<comment> \<open>what to answer when the filters leave nothing\<close>
  "no_candidate nm am req =
     (if list_ex (is_smoothing nm) (nm_nodeInfos nm) then UBSE_SCHEDULER_ERROR_NODE_RECONCILE
      else case FilterNodes nm am (probe_request nm req) (nm_nodeInfos nm) of (ret, probeNodes) \<Rightarrow>
        if probeNodes = [] then UBSE_SCHEDULER_ERROR_NO_NODE_CAN_LEND
        else UBSE_SCHEDULER_ERROR_SIZE_EXCEED_LEND)"

definition ScheduleOn :: "env \<Rightarrow> node_manager \<Rightarrow> account_manager \<Rightarrow> scheduler_request \<Rightarrow> UbseMemAlgoResult \<Rightarrow>
    UbseResult \<times> UbseMemAlgoResult" where
  \<comment> \<open>the part of \<open>ScheduleBorrow\<close> after the cache has been refreshed; it only reads the managers\<close>
  "ScheduleOn e nm am req res = (case FilterNodes nm am req (nm_nodeInfos nm) of (ret, nodes) \<Rightarrow>
     if ret \<noteq> UBSE_OK then (ret, res)
     else if nodes = [] then (no_candidate nm am req, res)
     else case ScoreAndRank (ev_sort_scored e) nodes nm am req 1 of (ret2, results) \<Rightarrow>
       if ret2 \<noteq> UBSE_OK then (ret2, res)
       else case results of
           [] \<Rightarrow> (UBSE_ERROR, res)
         | best # _ \<Rightarrow> FillAlgoResult e nm am req best res)"

definition ScheduleBorrow :: "env \<Rightarrow> scheduler_request \<Rightarrow> UbseMemAlgoResult \<Rightarrow> node_manager \<times> account_manager \<Rightarrow>
    UbseResult \<times> UbseMemAlgoResult \<times> node_manager \<times> account_manager" where
  "ScheduleBorrow e req res st = (case st of (nm, am) \<Rightarrow>
     case UpdateAllNumaMemInfo (ev_platform e) (ev_nodes e) nm of (ret, nm1) \<Rightarrow>
       if ret \<noteq> UBSE_OK then (ret, res, nm1, am)
       else case UpdateAllLinkInfo (ev_deployed e) (ev_nodes e) nm1 of (ret2, nm2) \<Rightarrow>
         if ret2 \<noteq> UBSE_OK then (ret2, res, nm2, am)
         else case ScheduleOn e nm2 am req res of (ret3, res') \<Rightarrow> (ret3, res', nm2, am))"

section \<open>Memory objects\<close>

text \<open>
  The eight object types the handler is instantiated for carry one of four kinds of request; the
  import and the export object of a kind are treated alike.
\<close>

datatype mem_req =
    FdReq UbseMemFdBorrowReq
  | NumaReq UbseMemNumaBorrowReq
  | ShareReq UbseMemShareBorrowReq
  | AddrReq UbseMemAddrBorrowReq

record mem_obj =
  mo_req :: mem_req
  mo_algoResult :: UbseMemAlgoResult
  mo_state :: UbseMemState

fun req_name :: "mem_req \<Rightarrow> string" where
  "req_name (FdReq r) = fd_name r"
| "req_name (NumaReq r) = fd_name r"
| "req_name (ShareReq r) = sb_name r"
| "req_name (AddrReq r) = ab_name r"

fun MemObjType :: "mem_req \<Rightarrow> BorrowedType" where
  "MemObjType (FdReq r) = FD"
| "MemObjType (NumaReq r) = NUMA"
| "MemObjType (ShareReq r) = SHM"
| "MemObjType (AddrReq r) = ADDR"

fun BuildRequest :: "mem_req \<Rightarrow> node_manager \<Rightarrow> scheduler_request" where
  "BuildRequest (FdReq r) nm = SetupFromNodeConf (BuildFromFdBorrow r (Some nm)) nm"
| "BuildRequest (NumaReq r) nm = SetupFromNodeConf (BuildFromNumaBorrow r (Some nm)) nm"
| "BuildRequest (ShareReq r) nm = SetupFromNodeConf (BuildFromShareBorrow r (Some nm)) nm"
| "BuildRequest (AddrReq r) nm = SetupFromNodeConf (BuildFromAddrBorrow r) nm"

record scheduler_impl =
  im_nodeInfo :: node_manager
  im_account :: account_manager
  im_initialized :: bool

definition SchedulerImpl_new :: scheduler_impl where
  "SchedulerImpl_new = \<lparr>im_nodeInfo = SchedulerNodeManager_new, im_account = SchedulerAccountManager_new,
     im_initialized = False\<rparr>"

definition MemoryObjChangeHandler :: "env \<Rightarrow> mem_obj \<Rightarrow> scheduler_impl \<Rightarrow> UbseResult \<times> mem_obj \<times> scheduler_impl" where
  "MemoryObjChangeHandler e obj im =
     (case (if mo_state obj = UBSE_MEM_SCHEDULING
            then ScheduleBorrow e (BuildRequest (mo_req obj) (im_nodeInfo im)) (mo_algoResult obj) (im_nodeInfo im, im_account im)
            else (UBSE_OK, mo_algoResult obj, im_nodeInfo im, im_account im)) of (ret, res, nm, am) \<Rightarrow>
        let obj' = obj\<lparr>mo_algoResult := res\<rparr>
        in if ret \<noteq> UBSE_OK then (ret, obj', im\<lparr>im_nodeInfo := nm, im_account := am\<rparr>)
           else case UpdateSchedulerAccount (req_name (mo_req obj)) res (mo_state obj) (MemObjType (mo_req obj)) (nm, am)
             of (ret2, nm2, am2) \<Rightarrow> (ret2, obj', im\<lparr>im_nodeInfo := nm2, im_account := am2\<rparr>))"

definition NodeObjChangeHandler :: "conf \<Rightarrow> u32 set \<Rightarrow> UbseNodeInfo \<Rightarrow> scheduler_impl \<Rightarrow> UbseResult \<times> scheduler_impl" where
  "NodeObjChangeHandler c deployed u im = (case UpdateNodeInfo c deployed u (im_nodeInfo im) of (ret, nm) \<Rightarrow>
     (ret, im\<lparr>im_nodeInfo := nm\<rparr>))"

definition ClearCache :: "scheduler_impl \<Rightarrow> scheduler_impl" where
  "ClearCache im = im\<lparr>im_nodeInfo := NodeManagerClear (im_nodeInfo im), im_account := AccountClear (im_account im)\<rparr>"

definition HasNodeCache :: "NodeId \<Rightarrow> scheduler_impl \<Rightarrow> bool" where
  "HasNodeCache i im \<longleftrightarrow> GetNodeInfo (im_nodeInfo im) i \<noteq> None"

definition SchedulerInit :: "UbseResult \<Rightarrow> conf \<Rightarrow> scheduler_impl \<Rightarrow> UbseResult \<times> scheduler_impl" where
  \<comment> \<open>\<open>SchedulerImpl::Init\<close>; the first argument is the result of registering the callback\<close>
  "SchedulerInit registered c im =
     (if im_initialized im then (UBSE_OK, im)
      else if registered \<noteq> UBSE_OK then (registered, im)
      else (UBSE_OK, im\<lparr>im_nodeInfo := InitSchedulerMode c (InitRadiusConfig c (InitPageSize c (im_nodeInfo im))),
        im_initialized := True\<rparr>))"

end
