(* ===== verification/FilterLaws.thy ===== *)
theory FilterLaws
  imports Filters "HOL-Library.Sublist"
begin

text \<open>
  What every filter promises: it only removes (nodes, sockets, NUMA identifiers), and after
  it succeeds each remaining candidate (node, socket) satisfies the constraint the filter
  stands for. The locale \<open>sound_filter\<close> states the two promises and is interpreted on all
  eighteen filters; the chain inherits both.
\<close>

section \<open>Shrinking\<close>

definition node_le :: "NodeInfo \<Rightarrow> NodeInfo \<Rightarrow> bool" where
  "node_le n' n \<longleftrightarrow> nd_nodeId n' = nd_nodeId n \<and>
     (\<forall>s' \<in> set (nd_socketInfos n'). \<exists>s \<in> set (nd_socketInfos n).
        si_socketId s' = si_socketId s \<and> set (si_numaInfos s') \<subseteq> set (si_numaInfos s))"

definition shrinks :: "NodeInfo list \<Rightarrow> NodeInfo list \<Rightarrow> bool" where
  "shrinks nodes' nodes \<longleftrightarrow> subseq (map nd_nodeId nodes') (map nd_nodeId nodes) \<and>
     (\<forall>n' \<in> set nodes'. \<exists>n \<in> set nodes. node_le n' n)"

lemma node_le_refl [simp]: "node_le n n"
  by (auto simp: node_le_def)

lemma node_le_trans:
  assumes ab: "node_le a b" and bc: "node_le b c"
  shows "node_le a c"
proof -
  have "\<exists>u \<in> set (nd_socketInfos c). si_socketId s = si_socketId u \<and> set (si_numaInfos s) \<subseteq> set (si_numaInfos u)"
    if s: "s \<in> set (nd_socketInfos a)" for s
  proof -
    obtain t where t: "t \<in> set (nd_socketInfos b)" "si_socketId s = si_socketId t" "set (si_numaInfos s) \<subseteq> set (si_numaInfos t)"
      using ab s unfolding node_le_def by blast
    obtain u where u: "u \<in> set (nd_socketInfos c)" "si_socketId t = si_socketId u" "set (si_numaInfos t) \<subseteq> set (si_numaInfos u)"
      using bc t(1) unfolding node_le_def by blast
    have "si_socketId s = si_socketId u" "set (si_numaInfos s) \<subseteq> set (si_numaInfos u)"
      using t u by auto
    then show ?thesis using u(1) by blast
  qed
  moreover have "nd_nodeId a = nd_nodeId c" using ab bc by (simp add: node_le_def)
  ultimately show ?thesis by (simp add: node_le_def)
qed

lemma node_le_in: "n \<in> set nodes \<Longrightarrow> \<exists>m \<in> set nodes. node_le n m"
  by (rule bexI [of _ n]) simp_all

lemma shrinks_refl [simp]: "shrinks nodes nodes"
  unfolding shrinks_def using node_le_refl by blast

lemma shrinks_Nil [simp]: "shrinks [] nodes"
  by (simp add: shrinks_def)

lemma shrinks_trans: "shrinks a b \<Longrightarrow> shrinks b c \<Longrightarrow> shrinks a c"
  unfolding shrinks_def by (meson node_le_trans subseq_order.trans)

lemma shrinks_filter: "shrinks (filter P nodes) nodes"
  unfolding shrinks_def by (auto intro: subseq_map node_le_in)

lemma shrinks_erase [intro]: "shrinks (EraseNodesIf P nodes) nodes"
  unfolding EraseNodesIf_def by (rule shrinks_filter)

lemma shrinks_empty [intro]: "shrinks (RemoveEmptyNodes nodes) nodes"
  unfolding RemoveEmptyNodes_def by (rule shrinks_filter)

lemma shrinks_map: "(\<And>n. node_le (f n) n) \<Longrightarrow> shrinks (map f nodes) nodes"
proof -
  assume f: "\<And>n. node_le (f n) n"
  then have "map nd_nodeId (map f nodes) = map nd_nodeId nodes"
    by (simp add: node_le_def)
  with f show ?thesis
    unfolding shrinks_def by (metis (no_types, lifting) ex_map_conv subseq_order.refl image_iff list.set_map)
qed

lemma shrinks_front: "(\<And>n. node_le (f n) n) \<Longrightarrow> shrinks (on_front f nodes) nodes"
  by (cases nodes) (auto simp: on_front_def shrinks_def node_le_def)

lemma node_le_sockets [simp]: "node_le (EraseSocketsIf P n) n" "node_le (clear_sockets n) n"
  by (auto simp: node_le_def EraseSocketsIf_def clear_sockets_def)

lemma node_le_numas [simp]: "node_le (EraseNumasIf P n) n"
  by (auto simp: node_le_def EraseNumasIf_def)

lemma shrinks_distinct: "shrinks nodes' nodes \<Longrightarrow> distinct (map nd_nodeId nodes) \<Longrightarrow> distinct (map nd_nodeId nodes')"
  unfolding shrinks_def by (metis distinct_nthsI subseq_conv_nths)

text \<open>The candidates of a list, as (node, socket) pairs.\<close>

definition cands :: "NodeInfo list \<Rightarrow> (NodeId \<times> SocketId) set" where
  "cands nodes = {(nd_nodeId n, si_socketId s) | n s. n \<in> set nodes \<and> s \<in> set (nd_socketInfos n)}"

lemma shrinks_cands: "shrinks nodes' nodes \<Longrightarrow> cands nodes' \<subseteq> cands nodes"
  unfolding shrinks_def node_le_def cands_def by fastforce

lemma cands_empty: "cands (RemoveEmptyNodes nodes) = cands nodes"
  by (force simp: cands_def RemoveEmptyNodes_def)

lemma cands_erase: "(i, sid) \<in> cands (EraseNodesIf P nodes) \<Longrightarrow> \<exists>n \<in> set nodes. nd_nodeId n = i \<and> \<not> P n"
  by (auto simp: cands_def EraseNodesIf_def)

lemma cands_map: "(i, sid) \<in> cands (map f nodes) \<Longrightarrow>
    \<exists>n \<in> set nodes. \<exists>s \<in> set (nd_socketInfos (f n)). i = nd_nodeId (f n) \<and> sid = si_socketId s"
  by (auto simp: cands_def)

lemma in_cands: "n \<in> set nodes \<Longrightarrow> s \<in> set (nd_socketInfos n) \<Longrightarrow> (nd_nodeId n, si_socketId s) \<in> cands nodes"
  by (auto simp: cands_def)

section \<open>The contract of a filter\<close>

type_synonym constraint = "node_manager \<Rightarrow> account_manager \<Rightarrow> scheduler_request \<Rightarrow> NodeId \<Rightarrow> SocketId \<Rightarrow> bool"

locale sound_filter =
  fixes f :: filter_fn and ok :: constraint
  assumes shrinks: "f nm am req nodes = (ret, nodes') \<Longrightarrow> shrinks nodes' nodes"
    and sound: "f nm am req nodes = (UBSE_OK, nodes') \<Longrightarrow> distinct (map nd_nodeId nodes) \<Longrightarrow>
      (i, sid) \<in> cands nodes' \<Longrightarrow> ok nm am req i sid"
begin

lemma sound_after:
  \<comment> \<open>whatever removes candidates later keeps the constraint\<close>
  assumes "f nm am req nodes = (UBSE_OK, nodes')" and "distinct (map nd_nodeId nodes)"
    and "FilterLaws.shrinks nodes'' nodes'" and "(i, sid) \<in> cands nodes''"
  shows "ok nm am req i sid"
  using sound [OF assms(1,2)] shrinks_cands [OF assms(3)] assms(4) by blast

end

text \<open>
  A filter is exact when it removes nothing else: a candidate that meets the constraint stays.
  \<open>SpecifiedLenderFilter\<close> is the only one that is not, for it also looks at the NUMA nodes
  each candidate socket still lists.
\<close>

locale exact_filter = sound_filter +
  assumes complete: "f nm am req nodes = (UBSE_OK, nodes') \<Longrightarrow> distinct (map nd_nodeId nodes) \<Longrightarrow>
      (i, sid) \<in> cands nodes \<Longrightarrow> ok nm am req i sid \<Longrightarrow> (i, sid) \<in> cands nodes'"
begin

lemma exact:
  assumes "f nm am req nodes = (UBSE_OK, nodes')" and "distinct (map nd_nodeId nodes)"
  shows "cands nodes' = {c \<in> cands nodes. ok nm am req (fst c) (snd c)}"
  using complete [OF assms] sound [OF assms] shrinks_cands [OF shrinks [OF assms(1)]] by auto

end

section \<open>The constraints\<close>

definition ok_ConfigConsistency :: constraint where
  "ok_ConfigConsistency nm am req i sid \<longleftrightarrow> (\<exists>n. GetNodeInfo nm i = Some n \<and>
     (no_isLender n \<longrightarrow> 4 \<le> no_blockSize n \<and> no_blockSize n \<le> 4096 \<and> no_blockSize n mod 2 = 0))"

definition ok_RoleConflict :: constraint where
  "ok_RoleConflict nm am req i sid \<longleftrightarrow> i \<noteq> rq_importNodeId req \<and>
     (\<exists>m. GetNodeInfo nm (rq_importNodeId req) = Some m \<and>
        (\<forall>(k, s) \<in> set (no_sockets m). \<forall>(j, u) \<in> set (sk_numas s). memLent u = 0)) \<and>
     (\<exists>n. GetNodeInfo nm i = Some n \<and>
        (\<forall>(k, s) \<in> set (no_sockets n). \<forall>(j, u) \<in> set (sk_numas s). memBorrow u = 0))"

definition ok_LenderRole :: constraint where
  "ok_LenderRole nm am req i sid \<longleftrightarrow> (\<exists>n. GetNodeInfo nm i = Some n \<and> no_isLender n)"

definition ok_NodeState :: constraint where
  "ok_NodeState nm am req i sid \<longleftrightarrow> (\<exists>n. GetNodeInfo nm i = Some n \<and> no_clusterState n = UBSE_NODE_WORKING)"

definition ok_Group :: constraint where
  "ok_Group nm am req i sid \<longleftrightarrow> i \<in> GetGroupNodes nm (rq_requestNodeId req)"

definition ok_Provider :: constraint where
  "ok_Provider nm am req i sid \<longleftrightarrow> nm_providerNodes nm = {} \<or> i \<in> nm_providerNodes nm"

definition ok_RequestedProviders :: constraint where
  "ok_RequestedProviders nm am req i sid \<longleftrightarrow> rq_provideNodes req = [] \<or> i \<in> set (rq_provideNodes req)"

definition ok_RadiusBorrow :: constraint where
  "ok_RadiusBorrow nm am req i sid \<longleftrightarrow> nm_radiusBorrow nm = UINT16_MAX \<or> i = rq_importNodeId req \<or>
     HasBorrowedFrom am (rq_importNodeId req) i \<or>
     unat (CountDistinctLenders am (rq_importNodeId req)) < unat (nm_radiusBorrow nm)"

definition ok_RadiusLender :: constraint where
  "ok_RadiusLender nm am req i sid \<longleftrightarrow> nm_radiusLender nm = UINT16_MAX \<or> i = rq_importNodeId req \<or>
     HasBorrowedFrom am (rq_importNodeId req) i \<or>
     unat (CountDistinctBorrowers am i) < unat (nm_radiusLender nm)"

definition ok_LendCount :: constraint where
  "ok_LendCount nm am req i sid \<longleftrightarrow> (\<exists>n s. GetNodeInfo nm i = Some n \<and> GetSocketInfo nm i sid = Some s \<and>
     no_blockSize n \<noteq> 0 \<and>
     unat (sk_lentCount s) + unat (rq_requestSize req) div 2 ^ 20 div unat (no_blockSize n) mod 2 ^ 32 \<le>
       unat (sk_maxExportTimes s))"

definition ok_MaxLentSize :: constraint where
  "ok_MaxLentSize nm am req i sid \<longleftrightarrow> (\<exists>s. GetSocketInfo nm i sid = Some s \<and>
     unat (rq_requestSize req) + unat (SocketGetLentSize s) < 2 ^ 64 \<and>
     (sk_maxLentSize s = 0 \<or>
      unat (rq_requestSize req) + unat (SocketGetLentSize s) \<le> unat (sk_maxLentSize s)))"

definition ok_SharedPool :: constraint where
  "ok_SharedPool nm am req i sid \<longleftrightarrow> (\<forall>n. GetNodeInfo nm i = Some n \<longrightarrow> no_nodeMaxLendGb n \<noteq> 0 \<longrightarrow>
     unat (NodeGetLentSize n) + unat (rq_requestSize req) \<le> unat (no_nodeMaxLendGb n) * 2 ^ 30)"

definition ok_FreeMemory :: constraint where
  "ok_FreeMemory nm am req i sid \<longleftrightarrow> rq_requestSize req = 0 \<or>
     (\<exists>n s. GetNodeInfo nm i = Some n \<and> GetSocketInfo nm i sid = Some s \<and> no_blockSize n \<noteq> 0 \<and>
        rq_requestSize req \<le> SocketGetAvailableLendSize (water_line req) (ucast (no_blockSize n) * 0x100000) s)"

definition ok_TopoReachability :: constraint where
  "ok_TopoReachability nm am req i sid \<longleftrightarrow> (i, sid) \<in> GetReachablePeers nm (rq_requestNodeId req) \<or>
     i = rq_requestNodeId req \<and> GetSocketInfo nm i sid \<noteq> None"

definition ok_SocketAffinity :: constraint where
  "ok_SocketAffinity nm am req i sid \<longleftrightarrow> (\<forall>v. GetParam_int ''affinitySocketId'' req = Some v \<longrightarrow> v \<noteq> - 1 \<longrightarrow>
     (i = rq_requestNodeId req \<and> sid = v) \<or> (i, sid) \<in> GetReachablePeersOfSocket nm (rq_requestNodeId req) v)"

definition ok_Region :: constraint where
  "ok_Region nm am req i sid \<longleftrightarrow> (\<forall>r. GetParam_region ''shmRegion'' req = Some r \<longrightarrow>
     i \<in> mn_nodeId ` set (rg_nodelist r) \<and> i \<in> nm_staticNodes nm \<and>
     (\<forall>t \<in> mn_nodeId ` set (rg_nodelist r). t \<noteq> i \<longrightarrow> GetNodeInfo nm t \<noteq> None \<longrightarrow>
        (\<exists>k. (t, k) \<in> GetReachablePeers nm i)))"

definition ok_SpecifiedLink :: constraint where
  "ok_SpecifiedLink nm am req i sid \<longleftrightarrow> (\<forall>l. GetParam_linkInfo ''linkInfo'' req = Some l \<longrightarrow>
     i = ll_lenderNode l \<and> sid = ll_lenderSocketId l)"

definition ok_SpecifiedLender :: constraint where
  "ok_SpecifiedLender nm am req i sid \<longleftrightarrow> (\<forall>l ls. GetParam_lenderInfos ''lenderInfos'' req = Some (l # ls) \<longrightarrow>
     i = li_nodeId l \<and> (lender_socket nm l = UINT32_MAX \<or> sid = lender_socket nm l) \<and>
     (\<forall>x \<in> set ls. li_nodeId x = i \<and> lender_socket nm x = lender_socket nm l))"


section \<open>Every filter keeps the contract\<close>

lemma erase_shape:
  assumes r: "(r1, EraseNodesIf P nodes) = (ret, nodes')" and c: "(i, sid) \<in> cands nodes'"
  shows "\<exists>n \<in> set nodes. nd_nodeId n = i \<and> \<not> P n"
  using cands_erase r c by blast

lemma sockets_shape:
  assumes r: "(r1, RemoveEmptyNodes (map f nodes)) = (ret, nodes')" and c: "(i, sid) \<in> cands nodes'"
    and f: "\<And>n. node_le (f n) n"
  obtains n s where "n \<in> set nodes" "s \<in> set (nd_socketInfos (f n))" "nd_nodeId n = i" "si_socketId s = sid"
  using cands_map [of i sid f nodes] r c f unfolding node_le_def by (auto simp: cands_empty)

lemma erase_sockets_iff [simp]:
  "s \<in> set (nd_socketInfos (EraseSocketsIf P n)) \<longleftrightarrow> s \<in> set (nd_socketInfos n) \<and> \<not> P s"
  "nd_socketInfos (clear_sockets n) = []"
  "nd_nodeId (EraseSocketsIf P n) = nd_nodeId n" "nd_nodeId (clear_sockets n) = nd_nodeId n"
  "nd_nodeId (EraseNumasIf Q n) = nd_nodeId n"
  by (auto simp: EraseSocketsIf_def clear_sockets_def EraseNumasIf_def)

lemma shrinks_sockets: "(\<And>n. node_le (f n) n) \<Longrightarrow> shrinks (RemoveEmptyNodes (map f nodes)) nodes"
  using shrinks_trans [OF shrinks_empty shrinks_map] .

lemma config_scan_found:
  "config_scan nm nodes first = Inr r \<Longrightarrow>
     (first \<noteq> None \<longrightarrow> r = first) \<and>
     (\<forall>n \<in> set nodes. \<exists>m. GetNodeInfo nm (nd_nodeId n) = Some m \<and>
        (no_isLender m \<longrightarrow> r = Some (no_allocator m, no_blockSize m)))"
proof (induction nodes arbitrary: first)
  case (Cons node nodes)
  then obtain m where m: "GetNodeInfo nm (nd_nodeId node) = Some m"
    by (auto split: option.splits)
  show ?case
  proof (cases "no_isLender m")
    case False
    then have "config_scan nm nodes first = Inr r" using Cons.prems m by simp
    from Cons.IH [OF this] m False show ?thesis by auto
  next
    case True
    show ?thesis
    proof (cases first)
      case None
      then have "config_scan nm nodes (Some (no_allocator m, no_blockSize m)) = Inr r"
        using Cons.prems m True by simp
      from Cons.IH [OF this] m True None show ?thesis by auto
    next
      case (Some x)
      obtain a b where x: "x = (a, b)" by (cases x)
      have ab: "no_allocator m = a" "no_blockSize m = b" "config_scan nm nodes first = Inr r"
        using Cons.prems m True Some x by (auto split: if_splits)
      from Cons.IH [OF ab(3)] m True Some x ab show ?thesis by auto
    qed
  qed
qed simp

lemma config_scan_error: "config_scan nm nodes first \<noteq> Inl UBSE_OK"
  by (induction nm nodes first rule: config_scan.induct) (auto split: option.splits)

interpretation config_ok: sound_filter ConfigConsistencyFilter ok_ConfigConsistency
proof (unfold_locales, goal_cases)
  case (1 nm am req nodes ret nodes')
  then show ?case by (auto simp: ConfigConsistencyFilter_def split: sum.splits option.splits if_splits)
next
  case (2 nm am req nodes nodes' i sid)
  from 2(1) obtain r where r: "config_scan nm nodes None = Inr r" and n: "nodes' = nodes"
    and b: "r = Some (a, b) \<Longrightarrow> 4 \<le> b \<and> b \<le> 4096 \<and> b mod 2 = 0" for a b
    using config_scan_error [of nm nodes None]
    by (auto simp: ConfigConsistencyFilter_def not_less split: sum.splits option.splits if_splits)
  from 2(3) n obtain x where x: "x \<in> set nodes" "nd_nodeId x = i" by (auto simp: cands_def)
  from config_scan_found [OF r] x obtain m where m: "GetNodeInfo nm i = Some m"
    "no_isLender m \<longrightarrow> r = Some (no_allocator m, no_blockSize m)" by blast
  with b show ?case by (auto simp: ok_ConfigConsistency_def)
qed

interpretation role_ok: sound_filter RoleConflictFilter ok_RoleConflict
proof (unfold_locales, goal_cases)
  case (1 nm am req nodes ret nodes')
  then show ?case by (auto simp: RoleConflictFilter_def split: option.splits if_splits)
next
  case (2 nm am req nodes nodes' i sid)
  from 2(1) obtain m where m: "GetNodeInfo nm (rq_importNodeId req) = Some m" "GetLentSizeExcludingShared m = 0"
    and e: "nodes' = EraseNodesIf (\<lambda>node. if nd_nodeId node = rq_importNodeId req then True
          else case GetNodeInfo nm (nd_nodeId node) of None \<Rightarrow> True | Some n \<Rightarrow> NodeGetBorrowSize n > 0) nodes"
    by (cases "GetNodeInfo nm (rq_importNodeId req)"; cases "0 < GetLentSizeExcludingShared (the (GetNodeInfo nm (rq_importNodeId req)))")
      (simp_all add: RoleConflictFilter_def word_neq_0_conv [symmetric])
  have x: "i \<noteq> rq_importNodeId req"
    "\<not> (case GetNodeInfo nm i of None \<Rightarrow> True | Some n \<Rightarrow> NodeGetBorrowSize n > 0)"
    using cands_erase [OF 2(3) [unfolded e]] by (auto simp del: not_None_eq split: if_splits)
  then obtain n where n: "GetNodeInfo nm i = Some n" "NodeGetBorrowSize n = 0"
    by (auto simp: word_neq_0_conv [symmetric] split: option.splits)
  show ?case
    unfolding ok_RoleConflict_def NodeGetBorrowSize_0_iff [symmetric] GetLentSizeExcludingShared_0_iff [symmetric]
    using m n x by simp
qed

interpretation lender_ok: sound_filter LenderRoleFilter ok_LenderRole
  by unfold_locales (auto simp: LenderRoleFilter_def ok_LenderRole_def dest!: cands_erase split: option.splits)

interpretation state_ok: sound_filter NodeStateFilter ok_NodeState
  by unfold_locales (auto simp: NodeStateFilter_def ok_NodeState_def dest!: cands_erase split: option.splits)

interpretation group_ok: sound_filter GroupFilter ok_Group
  by unfold_locales (auto simp: GroupFilter_def ok_Group_def Let_def dest!: cands_erase)

interpretation provider_ok: sound_filter ProviderFilter ok_Provider
  by unfold_locales (auto simp: ProviderFilter_def ok_Provider_def dest!: cands_erase split: if_splits)

interpretation requested_ok: sound_filter RequestedProvidersFilter ok_RequestedProviders
  by unfold_locales (auto simp: RequestedProvidersFilter_def ok_RequestedProviders_def dest!: cands_erase split: if_splits)

lemma less_ucast_u16: "(x :: u32) < ucast (y :: u16) \<longleftrightarrow> unat x < unat y"
  by (simp add: word_less_nat_alt unsigned_ucast_eq take_bit_nat_eq_self unsigned_less [THEN less_trans])

interpretation radius_borrow_ok: sound_filter RadiusBorrowFilter ok_RadiusBorrow
  by unfold_locales (auto simp: RadiusBorrowFilter_def ok_RadiusBorrow_def Let_def less_ucast_u16 dest!: cands_erase split: if_splits)

interpretation radius_lender_ok: sound_filter RadiusLenderFilter ok_RadiusLender
  by unfold_locales (auto simp: RadiusLenderFilter_def ok_RadiusLender_def less_ucast_u16 dest!: cands_erase split: if_splits)


lemma cands_within:
  "(i, sid) \<in> cands (RemoveEmptyNodes (map (\<lambda>n. EraseSocketsIf (\<lambda>si. (nd_nodeId n, si_socketId si) \<notin> S) n) nodes)) \<Longrightarrow>
     (i, sid) \<in> S"
  by (auto simp: cands_def RemoveEmptyNodes_def)

interpretation lend_count_ok: sound_filter LendCountFilter ok_LendCount
proof (unfold_locales, goal_cases)
  case (1 nm am req nodes ret nodes')
  then show ?case
    by (auto simp: LendCountFilter_def Let_def intro!: shrinks_sockets split: option.splits)
next
  case (2 nm am req nodes nodes' i sid)
  from 2(1)[unfolded LendCountFilter_def Let_def] 2(3) show ?case
    by (rule sockets_shape)
      (auto simp: ok_LendCount_def SafeAdd_def not_less word_le_nat_alt unat_add_fits unat_div_distrib unat_mod_distrib unat_ucast_u32_u64
        ONE_M_def unsigned_ucast_eq take_bit_eq_mod split: option.splits if_splits)
qed

interpretation max_lent_ok: sound_filter MaxLentSizeFilter ok_MaxLentSize
proof (unfold_locales, goal_cases)
  case (1 nm am req nodes ret nodes')
  then show ?case by (auto simp: MaxLentSizeFilter_def intro!: shrinks_sockets)
next
  case (2 nm am req nodes nodes' i sid)
  from 2(1)[unfolded MaxLentSizeFilter_def] 2(3) show ?case
    by (rule sockets_shape)
      (auto simp: ok_MaxLentSize_def SafeAdd_def not_less word_le_nat_alt unat_add_fits split: option.splits if_splits)
qed

lemma pool_bytes:
  fixes g :: u32
  shows "unat (ucast g * GB_BYTES :: u64) = unat g * 2 ^ 30" and "ucast g * GB_BYTES = (0 :: u64) \<longleftrightarrow> g = 0"
proof -
  show u: "unat (ucast g * GB_BYTES :: u64) = unat g * 2 ^ 30"
    using unat_mul_u32 [of g "2 ^ 30"] unat_u32_less [of g] by (simp add: GB_BYTES_def)
  then show "ucast g * GB_BYTES = (0 :: u64) \<longleftrightarrow> g = 0"
    by (auto simp: unat_eq_0 [symmetric])
qed

interpretation shared_pool_ok: sound_filter SharedPoolFilter ok_SharedPool
proof (unfold_locales, goal_cases)
  case (1 nm am req nodes ret nodes')
  then show ?case by (auto simp: SharedPoolFilter_def Let_def SafeAdd_def intro!: shrinks_sockets split: option.splits)
next
  case (2 nm am req nodes nodes' i sid)
  from 2(1)[unfolded SharedPoolFilter_def Let_def] 2(3) show ?case
    by (rule sockets_shape)
      (auto simp: ok_SharedPool_def SafeAdd_def not_less word_le_nat_alt unat_add_fits pool_bytes split: option.splits if_splits)
qed

interpretation free_memory_ok: sound_filter FreeMemoryFilter ok_FreeMemory
proof (unfold_locales, goal_cases)
  case (1 nm am req nodes ret nodes')
  then show ?case by (auto simp: FreeMemoryFilter_def SizeMb2Byte_u32 intro!: shrinks_sockets split: option.splits)
next
  case (2 nm am req nodes nodes' i sid)
  from 2(1)[unfolded FreeMemoryFilter_def] 2(3) show ?case
    by (rule sockets_shape)
      (auto simp: ok_FreeMemory_def SizeMb2Byte_u32 not_less split: option.splits if_splits)
qed

interpretation topo_ok: sound_filter TopoReachabilityFilter ok_TopoReachability
proof (unfold_locales, goal_cases)
  case (1 nm am req nodes ret nodes')
  then show ?case by (auto simp: TopoReachabilityFilter_def intro!: shrinks_sockets split: option.splits)
next
  case (2 nm am req nodes nodes' i sid)
  from 2(1) obtain m where m: "GetNodeInfo nm (rq_requestNodeId req) = Some m"
    by (auto simp: TopoReachabilityFilter_def split: option.splits)
  from 2(1) m have "nodes' = RemoveEmptyNodes (map (\<lambda>n. EraseSocketsIf (\<lambda>si. (nd_nodeId n, si_socketId si) \<notin>
      GetReachablePeers nm (rq_requestNodeId req) \<union> (\<lambda>(sid, s). (rq_requestNodeId req, sid)) ` set (no_sockets m)) n) nodes)"
    unfolding TopoReachabilityFilter_def Let_def by simp
  with 2(3) have "(i, sid) \<in> GetReachablePeers nm (rq_requestNodeId req) \<union> (\<lambda>(sid, s). (rq_requestNodeId req, sid)) ` set (no_sockets m)"
    using cands_within by blast
  with m show ?case
    by (auto simp: ok_TopoReachability_def GetSocketInfo_def GetNodeInfo_def NodeGetSocketInfo_def dest: weak_map_of_SomeI)
qed

interpretation affinity_ok: sound_filter SocketAffinityFilter ok_SocketAffinity
proof (unfold_locales, goal_cases)
  case (1 nm am req nodes ret nodes')
  then show ?case by (auto simp: SocketAffinityFilter_def Let_def intro!: shrinks_sockets split: option.splits if_splits)
next
  case (2 nm am req nodes nodes' i sid)
  show ?case
  proof (cases "GetParam_int ''affinitySocketId'' req = None \<or> GetParam_int ''affinitySocketId'' req = Some (- 1)")
    case True
    then show ?thesis by (auto simp: ok_SocketAffinity_def)
  next
    case False
    then obtain v where v: "GetParam_int ''affinitySocketId'' req = Some v" "v \<noteq> - 1" by auto
    from 2(1) v have "nodes' = RemoveEmptyNodes (map (\<lambda>n. EraseSocketsIf (\<lambda>si. (nd_nodeId n, si_socketId si) \<notin>
        GetSamePlaneSockets nm req) n) nodes)"
      unfolding SocketAffinityFilter_def Let_def by simp
    with 2(3) have "(i, sid) \<in> GetSamePlaneSockets nm req"
      using cands_within by blast
    with v show ?thesis
      by (auto simp: ok_SocketAffinity_def GetSamePlaneSockets_def)
  qed
qed


lemma region_scan_sound:
  "region_scan nm nodelist rest acc = Some r \<Longrightarrow> i \<in> r \<Longrightarrow>
     i \<in> acc \<or> i \<in> mn_nodeId ` set rest \<and> i \<in> nm_staticNodes nm \<and> can_reach_all nm nodelist i"
  by (induction nm nodelist rest acc rule: region_scan.induct) (fastforce split: if_splits)+

lemma can_reach_allD:
  "can_reach_all nm nodelist i \<Longrightarrow> t \<in> mn_nodeId ` set nodelist \<Longrightarrow> t \<noteq> i \<Longrightarrow> GetNodeInfo nm t \<noteq> None \<Longrightarrow>
     \<exists>k. (t, k) \<in> GetReachablePeers nm i"
proof -
  assume r: "can_reach_all nm nodelist i" and t: "t \<in> mn_nodeId ` set nodelist" "t \<noteq> i" "GetNodeInfo nm t \<noteq> None"
  from t have "t \<in> region_others nm nodelist i" by (auto simp: region_others_def)
  with r show ?thesis by (force simp: can_reach_all_def)
qed

interpretation region_ok: sound_filter RegionFilter ok_Region
proof (unfold_locales, goal_cases)
  case (1 nm am req nodes ret nodes')
  then show ?case by (auto simp: RegionFilter_def split: option.splits)
next
  case (2 nm am req nodes nodes' i sid)
  show ?case
  proof (cases "GetParam_region ''shmRegion'' req")
    case None
    then show ?thesis by (simp add: ok_Region_def)
  next
    case (Some rg)
    with 2(1) obtain r where r: "region_scan nm (rg_nodelist rg) (rg_nodelist rg) {} = Some r"
      and e: "nodes' = EraseNodesIf (\<lambda>node. nd_nodeId node \<notin> r) nodes"
      by (auto simp: RegionFilter_def split: option.splits)
    have "i \<in> r" using cands_erase [OF 2(3) [unfolded e]] by auto
    from region_scan_sound [OF r this]
    have i: "i \<in> mn_nodeId ` set (rg_nodelist rg)" "i \<in> nm_staticNodes nm" "can_reach_all nm (rg_nodelist rg) i"
      by simp_all
    show ?thesis
      unfolding ok_Region_def using Some i(1,2) can_reach_allD [OF i(3)] by auto
  qed
qed

lemma filter_one_id:
  assumes "distinct (map nd_nodeId nodes)"
  shows "filter (\<lambda>n. nd_nodeId n = x) nodes = [] \<or> (\<exists>n. filter (\<lambda>n. nd_nodeId n = x) nodes = [n])"
  using assms
proof (induction nodes)
  case (Cons m nodes)
  show ?case
  proof (cases "nd_nodeId m = x")
    case True
    with Cons.prems have "filter (\<lambda>n. nd_nodeId n = x) nodes = []"
      by (simp add: filter_empty_conv) (metis image_eqI)
    with True show ?thesis by simp
  qed (use Cons in simp)
qed simp

lemma on_front_one_id:
  "distinct (map nd_nodeId nodes) \<Longrightarrow>
     on_front f (filter (\<lambda>n. nd_nodeId n = x) nodes) = map f (filter (\<lambda>n. nd_nodeId n = x) nodes)"
  using filter_one_id [of nodes x] by (auto simp: on_front_def)

interpretation link_ok: sound_filter SpecifiedLinkFilter ok_SpecifiedLink
proof (unfold_locales, goal_cases)
  case (1 nm am req nodes ret nodes')
  then show ?case
    using shrinks_trans [OF shrinks_front shrinks_erase]
    by (auto simp: SpecifiedLinkFilter_def split: option.splits if_splits)
next
  case (2 nm am req nodes nodes' i sid)
  then show ?case
    using on_front_one_id [OF 2(2)]
    by (auto simp: SpecifiedLinkFilter_def ok_SpecifiedLink_def EraseNodesIf_def cands_def split: option.splits if_splits)
qed

lemma validate_lenders_ok:
  "validate_lenders nm i0 sid0 lenders acc = Inr r \<Longrightarrow> x \<in> set lenders \<Longrightarrow> li_nodeId x = i0 \<and> lender_socket nm x = sid0"
  by (induction nm i0 sid0 lenders acc rule: validate_lenders.induct) (auto simp: Let_def split: if_splits)

lemma validate_lenders_error: "validate_lenders nm i0 sid0 lenders acc \<noteq> Inl UBSE_OK"
  by (induction nm i0 sid0 lenders acc rule: validate_lenders.induct) (auto simp: Let_def)

lemma shrinks_lender_steps:
  "shrinks (FilterByNodeId i nodes) nodes" "shrinks (FilterBySocketId sid nodes) nodes"
  "shrinks (FilterByNumaIds js nodes) nodes" "shrinks (CleanupEmptyNodes nodes) nodes"
  "CheckNumaCapacity nm sizes e req nodes = (ret, nodes') \<Longrightarrow> shrinks nodes' nodes"
proof -
  show "shrinks (FilterByNodeId i nodes) nodes" unfolding FilterByNodeId_def by (rule shrinks_filter)
  show "shrinks (FilterBySocketId sid nodes) nodes" by (simp add: FilterBySocketId_def shrinks_front)
  show "shrinks (FilterByNumaIds js nodes) nodes" by (simp add: FilterByNumaIds_def shrinks_front)
  show "shrinks (CleanupEmptyNodes nodes) nodes"
    unfolding CleanupEmptyNodes_def by (rule shrinks_trans [OF shrinks_filter shrinks_map]) simp
  have front: "shrinks (EraseNumasIf P n # ns) (n # ns)" for P n ns
    using shrinks_front [of "EraseNumasIf P" "n # ns"] by (simp add: on_front_def)
  show "CheckNumaCapacity nm sizes e req nodes = (ret, nodes') \<Longrightarrow> shrinks nodes' nodes"
    by (auto simp: CheckNumaCapacity_def Let_def front split: list.splits if_splits option.splits)
qed

lemma cands_FilterByNodeId: "(i, sid) \<in> cands (FilterByNodeId x nodes) \<Longrightarrow> i = x"
  by (auto simp: cands_def FilterByNodeId_def)

lemma cands_FilterBySocketId:
  assumes d: "distinct (map nd_nodeId nodes)" and c: "(i, sid) \<in> cands (FilterBySocketId k (FilterByNodeId x nodes))"
    and k: "k \<noteq> UINT32_MAX"
  shows "sid = k"
  using c k unfolding FilterBySocketId_def FilterByNodeId_def on_front_one_id [OF d]
  by (auto simp: cands_def split: if_splits)

text \<open>The steps of \<open>SpecifiedLenderFilter\<close> on a request that names lenders.\<close>

lemma SpecifiedLender_steps:
  assumes f: "SpecifiedLenderFilter nm am req nodes = (UBSE_OK, nodes')"
    and p: "GetParam_lenderInfos ''lenderInfos'' req = Some (l # ls)"
  obtains acc nodes2 where
    "validate_lenders nm (li_nodeId l) (lender_socket nm l) (l # ls) [] = Inr acc"
    "CheckNumaCapacity nm (map_of acc) (acc = []) req
       (FilterByNumaIds (fst ` set acc) (FilterBySocketId (lender_socket nm l) (FilterByNodeId (li_nodeId l) nodes))) = (UBSE_OK, nodes2)"
    "nodes' = CleanupEmptyNodes nodes2"
  using f p that validate_lenders_error [of nm "li_nodeId l" "lender_socket nm l" "l # ls" "[]"]
  by (auto simp: SpecifiedLenderFilter_def ValidateLenderConsistency_def Let_def simp del: validate_lenders.simps
      split: sum.splits prod.splits if_splits)

interpretation specified_ok: sound_filter SpecifiedLenderFilter ok_SpecifiedLender
proof (unfold_locales, goal_cases)
  case (1 nm am req nodes ret nodes')
  have chain: "shrinks nodes2 nodes \<and> shrinks (CleanupEmptyNodes nodes2) nodes"
    if c: "CheckNumaCapacity nm m e req (FilterByNumaIds js (FilterBySocketId k (FilterByNodeId x nodes))) = (r, nodes2)"
    for nodes2 m e js k x r
  proof -
    note shrinks_lender_steps(5) [OF c]
    also note shrinks_lender_steps(3)
    also (shrinks_trans) note shrinks_lender_steps(2)
    also (shrinks_trans) note shrinks_lender_steps(1)
    finally (shrinks_trans) have n2: "shrinks nodes2 nodes" .
    from shrinks_trans [OF shrinks_lender_steps(4) n2] n2 show ?thesis by simp
  qed
  show ?case
  proof (cases "GetParam_lenderInfos ''lenderInfos'' req")
    case None
    with 1 show ?thesis by (simp add: SpecifiedLenderFilter_def)
  next
    case (Some lenders)
    show ?thesis
    proof (cases lenders)
      case Nil
      with Some 1 show ?thesis by (simp add: SpecifiedLenderFilter_def)
    next
      case (Cons l ls)
      show ?thesis
      proof (cases "ValidateLenderConsistency nm (l # ls)")
        case (Inl e)
        with Some Cons 1 show ?thesis by (simp add: SpecifiedLenderFilter_def)
      next
        case (Inr v)
        obtain sid acc where v: "v = (sid, acc)" by (cases v)
        obtain r nodes2 where c: "CheckNumaCapacity nm (map_of acc) (acc = []) req
            (FilterByNumaIds (fst ` set acc) (FilterBySocketId sid (FilterByNodeId (li_nodeId l) nodes))) = (r, nodes2)"
          by fastforce
        from 1 Some Cons Inr v c chain [OF c] show ?thesis
          by (simp add: SpecifiedLenderFilter_def Let_def split: if_splits)
      qed
    qed
  qed
next
  case (2 nm am req nodes nodes' i sid)
  show ?case unfolding ok_SpecifiedLender_def
  proof (intro allI impI)
    fix l ls assume p: "GetParam_lenderInfos ''lenderInfos'' req = Some (l # ls)"
    obtain acc nodes2 where v: "validate_lenders nm (li_nodeId l) (lender_socket nm l) (l # ls) [] = Inr acc"
      and c: "CheckNumaCapacity nm (map_of acc) (acc = []) req
         (FilterByNumaIds (fst ` set acc) (FilterBySocketId (lender_socket nm l) (FilterByNodeId (li_nodeId l) nodes))) = (UBSE_OK, nodes2)"
      and e: "nodes' = CleanupEmptyNodes nodes2"
      using SpecifiedLender_steps [OF 2(1) p] .
    note shrinks_lender_steps(4)
    also note shrinks_lender_steps(5) [OF c]
    also (shrinks_trans) note shrinks_lender_steps(3)
    finally (shrinks_trans) have "shrinks nodes' (FilterBySocketId (lender_socket nm l) (FilterByNodeId (li_nodeId l) nodes))"
      unfolding e .
    then have c1: "(i, sid) \<in> cands (FilterBySocketId (lender_socket nm l) (FilterByNodeId (li_nodeId l) nodes))"
      using shrinks_cands 2(3) by blast
    then have i: "i = li_nodeId l"
      using cands_FilterByNodeId shrinks_cands [OF shrinks_lender_steps(2)] by blast
    have "lender_socket nm l = UINT32_MAX \<or> sid = lender_socket nm l"
      using cands_FilterBySocketId [OF 2(2) c1] by blast
    moreover have "li_nodeId x = i \<and> lender_socket nm x = lender_socket nm l" if "x \<in> set ls" for x
      using validate_lenders_ok [OF v, of x] that i by simp
    ultimately show "i = li_nodeId l \<and> (lender_socket nm l = UINT32_MAX \<or> sid = lender_socket nm l) \<and>
        (\<forall>x \<in> set ls. li_nodeId x = i \<and> lender_socket nm x = lender_socket nm l)"
      using i by blast
  qed
qed


section \<open>Exact filters\<close>

lemma erase_keeps:
  "(i, sid) \<in> cands nodes \<Longrightarrow> (\<And>n. n \<in> set nodes \<Longrightarrow> nd_nodeId n = i \<Longrightarrow> \<not> P n) \<Longrightarrow> (i, sid) \<in> cands (EraseNodesIf P nodes)"
  by (auto simp: cands_def EraseNodesIf_def)

lemma sockets_keep:
  assumes c: "(i, sid) \<in> cands nodes"
    and k: "\<And>n s. s \<in> set (nd_socketInfos n) \<Longrightarrow> nd_nodeId n = i \<Longrightarrow> si_socketId s = sid \<Longrightarrow>
        s \<in> set (nd_socketInfos (f n)) \<and> nd_nodeId (f n) = nd_nodeId n"
  shows "(i, sid) \<in> cands (RemoveEmptyNodes (map f nodes))"
  using c in_cands [of _ "map f nodes"] k unfolding cands_empty by (fastforce simp: cands_def)

interpretation config_ex: exact_filter ConfigConsistencyFilter ok_ConfigConsistency
  by unfold_locales (auto simp: ConfigConsistencyFilter_def config_scan_error split: sum.splits option.splits if_splits)

interpretation role_ex: exact_filter RoleConflictFilter ok_RoleConflict
  by unfold_locales
    (auto simp: RoleConflictFilter_def ok_RoleConflict_def NodeGetBorrowSize_0_iff [symmetric]
      intro!: erase_keeps split: option.splits if_splits)

interpretation lender_ex: exact_filter LenderRoleFilter ok_LenderRole
  by unfold_locales (auto simp: LenderRoleFilter_def ok_LenderRole_def intro!: erase_keeps)

interpretation state_ex: exact_filter NodeStateFilter ok_NodeState
  by unfold_locales (auto simp: NodeStateFilter_def ok_NodeState_def intro!: erase_keeps)

interpretation group_ex: exact_filter GroupFilter ok_Group
  by unfold_locales (auto simp: GroupFilter_def ok_Group_def Let_def intro!: erase_keeps)

interpretation provider_ex: exact_filter ProviderFilter ok_Provider
  by unfold_locales (auto simp: ProviderFilter_def ok_Provider_def intro!: erase_keeps split: if_splits)

interpretation requested_ex: exact_filter RequestedProvidersFilter ok_RequestedProviders
  by unfold_locales (auto simp: RequestedProvidersFilter_def ok_RequestedProviders_def intro!: erase_keeps split: if_splits)

interpretation radius_borrow_ex: exact_filter RadiusBorrowFilter ok_RadiusBorrow
  by unfold_locales (auto simp: RadiusBorrowFilter_def ok_RadiusBorrow_def Let_def less_ucast_u16 intro!: erase_keeps split: if_splits)

interpretation radius_lender_ex: exact_filter RadiusLenderFilter ok_RadiusLender
  by unfold_locales (auto simp: RadiusLenderFilter_def ok_RadiusLender_def less_ucast_u16 intro!: erase_keeps split: if_splits)

interpretation lend_count_ex: exact_filter LendCountFilter ok_LendCount
proof (unfold_locales, goal_cases)
  case (1 nm am req nodes nodes' i sid)
  have fits: "a \<le> unat (x :: u32) \<Longrightarrow> a < 18446744073709551616" for a x
    using unat_u32_less [of x] by simp
  from 1 show ?case
    by (auto simp: LendCountFilter_def ok_LendCount_def Let_def SafeAdd_def not_less word_le_nat_alt unat_add_fits
        unat_div_distrib unat_mod_distrib unat_ucast_u32_u64 ONE_M_def unsigned_ucast_eq take_bit_eq_mod fits intro!: sockets_keep)
qed

interpretation max_lent_ex: exact_filter MaxLentSizeFilter ok_MaxLentSize
  by unfold_locales
    (auto simp: MaxLentSizeFilter_def ok_MaxLentSize_def SafeAdd_def not_less word_less_nat_alt unat_add_fits intro!: sockets_keep)

interpretation free_memory_ex: exact_filter FreeMemoryFilter ok_FreeMemory
  by unfold_locales
    (auto simp: FreeMemoryFilter_def ok_FreeMemory_def SizeMb2Byte_u32 not_less intro!: sockets_keep split: option.splits)

lemma cands_within_keep:
  "(i, sid) \<in> cands nodes \<Longrightarrow> (i, sid) \<in> S \<Longrightarrow>
     (i, sid) \<in> cands (RemoveEmptyNodes (map (\<lambda>n. EraseSocketsIf (\<lambda>si. (nd_nodeId n, si_socketId si) \<notin> S) n) nodes))"
  by (rule sockets_keep) auto

interpretation affinity_ex: exact_filter SocketAffinityFilter ok_SocketAffinity
proof (unfold_locales, goal_cases)
  case (1 nm am req nodes nodes' i sid)
  from 1(4) have s: "GetParam_int ''affinitySocketId'' req = Some v \<Longrightarrow> v \<noteq> - 1 \<Longrightarrow> (i, sid) \<in> GetSamePlaneSockets nm req" for v
    by (auto simp: ok_SocketAffinity_def GetSamePlaneSockets_def)
  show ?case
    using 1(1) 1(3) cands_within_keep [OF 1(3) s]
    by (auto simp only: SocketAffinityFilter_def Let_def prod.inject split: option.splits if_splits)
qed


interpretation shared_pool_ex: exact_filter SharedPoolFilter ok_SharedPool
proof (unfold_locales, goal_cases)
  case (1 nm am req nodes nodes' i sid)
  have "unat (g :: u32) * 1073741824 < 18446744073709551616" for g
    using unat_u32_less [of g] by simp
  then have fits: "a \<le> unat (g :: u32) * 1073741824 \<Longrightarrow> \<not> 18446744073709551616 \<le> a" for a g
    using le_less_trans not_le by blast
  from 1 show ?case
    by (auto simp: SharedPoolFilter_def ok_SharedPool_def Let_def SafeAdd_def not_less word_le_nat_alt word_less_nat_alt
        unat_add_fits pool_bytes fits intro!: sockets_keep split: option.splits)
qed

interpretation topo_ex: exact_filter TopoReachabilityFilter ok_TopoReachability
proof (unfold_locales, goal_cases)
  case (1 nm am req nodes nodes' i sid)
  from 1(1) obtain m where m: "GetNodeInfo nm (rq_requestNodeId req) = Some m"
    by (auto simp: TopoReachabilityFilter_def split: option.splits)
  from 1(4) m have "(i, sid) \<in> GetReachablePeers nm (rq_requestNodeId req) \<union> (\<lambda>(sid, s). (rq_requestNodeId req, sid)) ` set (no_sockets m)"
    by (force simp: ok_TopoReachability_def GetSocketInfo_def GetNodeInfo_def NodeGetSocketInfo_def dest: map_of_SomeD)
  from cands_within_keep [OF 1(3) this] 1(1) m show ?case
    by (simp add: TopoReachabilityFilter_def Let_def)
qed

lemma region_scan_complete:
  "region_scan nm nodelist rest acc = Some r \<Longrightarrow> can_reach_all nm nodelist i \<Longrightarrow>
     i \<in> acc \<or> i \<in> mn_nodeId ` set rest \<Longrightarrow> i \<in> r"
  by (induction nm nodelist rest acc rule: region_scan.induct) (auto split: if_splits)

interpretation region_ex: exact_filter RegionFilter ok_Region
proof (unfold_locales, goal_cases)
  case (1 nm am req nodes nodes' i sid)
  show ?case
  proof (cases "GetParam_region ''shmRegion'' req")
    case None
    then show ?thesis using 1 by (simp add: RegionFilter_def)
  next
    case (Some rg)
    with 1(1) obtain r where r: "region_scan nm (rg_nodelist rg) (rg_nodelist rg) {} = Some r"
      and e: "nodes' = EraseNodesIf (\<lambda>node. nd_nodeId node \<notin> r) nodes"
      by (auto simp: RegionFilter_def split: option.splits)
    from 1(4) Some have i: "i \<in> mn_nodeId ` set (rg_nodelist rg)"
      and reach: "\<And>t. t \<in> mn_nodeId ` set (rg_nodelist rg) \<Longrightarrow> t \<noteq> i \<Longrightarrow> GetNodeInfo nm t \<noteq> None \<Longrightarrow>
        \<exists>k. (t, k) \<in> GetReachablePeers nm i"
      unfolding ok_Region_def by blast+
    have "t \<in> fst ` GetReachablePeers nm i" if "t \<in> region_others nm (rg_nodelist rg) i" for t
      using reach [of t] that by (force simp: region_others_def)
    then have "can_reach_all nm (rg_nodelist rg) i" by (auto simp: can_reach_all_def)
    from region_scan_complete [OF r this] i have "i \<in> r" by blast
    with 1(3) show ?thesis unfolding e by (auto intro!: erase_keeps)
  qed
qed

interpretation link_ex: exact_filter SpecifiedLinkFilter ok_SpecifiedLink
proof (unfold_locales, goal_cases)
  case (1 nm am req nodes nodes' i sid)
  show ?case
  proof (cases "GetParam_linkInfo ''linkInfo'' req")
    case None
    then show ?thesis using 1 by (simp add: SpecifiedLinkFilter_def)
  next
    case (Some l)
    with 1(1) have e: "nodes' = map (EraseSocketsIf (\<lambda>si. si_socketId si \<noteq> ll_lenderSocketId l))
        (filter (\<lambda>n. nd_nodeId n = ll_lenderNode l) nodes)"
      using on_front_one_id [OF 1(2)] by (auto simp: SpecifiedLinkFilter_def EraseNodesIf_def split: if_splits)
    from 1(4) Some have i: "i = ll_lenderNode l" "sid = ll_lenderSocketId l"
      by (simp_all add: ok_SpecifiedLink_def)
    from 1(3) obtain n s where n: "n \<in> set nodes" "s \<in> set (nd_socketInfos n)" "i = nd_nodeId n" "sid = si_socketId s"
      by (auto simp: cands_def)
    then show ?thesis
      using i in_cands [of "EraseSocketsIf (\<lambda>si. si_socketId si \<noteq> ll_lenderSocketId l) n" nodes' s] unfolding e by simp
  qed
qed

section \<open>The chain\<close>

definition FindConstraint :: "string \<Rightarrow> constraint option" where
  \<comment> \<open>the constraint a registered name stands for\<close>
  "FindConstraint = map_of
     [(''ConfigConsistencyFilter'', ok_ConfigConsistency), (''RoleConflictFilter'', ok_RoleConflict),
      (''LenderRoleFilter'', ok_LenderRole), (''SocketAffinityFilter'', ok_SocketAffinity),
      (''GroupFilter'', ok_Group), (''ProviderFilter'', ok_Provider), (''NodeStateFilter'', ok_NodeState),
      (''RequestedProvidersFilter'', ok_RequestedProviders), (''LendCountFilter'', ok_LendCount),
      (''SpecifiedLenderFilter'', ok_SpecifiedLender), (''SpecifiedLinkFilter'', ok_SpecifiedLink),
      (''TopoReachabilityFilter'', ok_TopoReachability), (''MaxLentSizeFilter'', ok_MaxLentSize),
      (''RadiusBorrowFilter'', ok_RadiusBorrow), (''RadiusLenderFilter'', ok_RadiusLender),
      (''RegionFilter'', ok_Region), (''FreeMemoryFilter'', ok_FreeMemory), (''SharedPoolFilter'', ok_SharedPool)]"

definition satisfies :: "node_manager \<Rightarrow> account_manager \<Rightarrow> scheduler_request \<Rightarrow> string \<Rightarrow> NodeId \<times> SocketId \<Rightarrow> bool" where
  \<comment> \<open>a name nobody registered constrains nothing\<close>
  "satisfies nm am req name c = (case FindConstraint name of None \<Rightarrow> True | Some ok \<Rightarrow> ok nm am req (fst c) (snd c))"

lemma parallel_maps:
  assumes "list_all2 (\<lambda>(k, f) (k', c). k = k' \<and> P k f c) xs ys"
  shows "case map_of xs k of None \<Rightarrow> map_of ys k = None | Some f \<Rightarrow> (\<exists>c. map_of ys k = Some c \<and> P k f c)"
  using assms
proof (induction rule: list_all2_induct)
  case (Cons x xs y ys)
  then show ?case by (cases x; cases y; cases "map_of xs k"; cases "k = fst x") auto
qed simp

lemma registered:
  "case FindFilterByName name of None \<Rightarrow> FindConstraint name = None
   | Some f \<Rightarrow> (\<exists>ok. FindConstraint name = Some ok \<and> sound_filter f ok \<and>
       (name \<noteq> ''SpecifiedLenderFilter'' \<longrightarrow> exact_filter f ok))"
  unfolding FindFilterByName_def FindConstraint_def
  by (rule parallel_maps)
    (simp add: config_ex.exact_filter_axioms role_ex.exact_filter_axioms lender_ex.exact_filter_axioms
      affinity_ex.exact_filter_axioms group_ex.exact_filter_axioms provider_ex.exact_filter_axioms
      state_ex.exact_filter_axioms requested_ex.exact_filter_axioms lend_count_ex.exact_filter_axioms
      link_ex.exact_filter_axioms topo_ex.exact_filter_axioms max_lent_ex.exact_filter_axioms
      radius_borrow_ex.exact_filter_axioms radius_lender_ex.exact_filter_axioms region_ex.exact_filter_axioms
      free_memory_ex.exact_filter_axioms shared_pool_ex.exact_filter_axioms
      config_ok.sound_filter_axioms role_ok.sound_filter_axioms lender_ok.sound_filter_axioms
      affinity_ok.sound_filter_axioms group_ok.sound_filter_axioms provider_ok.sound_filter_axioms
      state_ok.sound_filter_axioms requested_ok.sound_filter_axioms lend_count_ok.sound_filter_axioms
      link_ok.sound_filter_axioms topo_ok.sound_filter_axioms max_lent_ok.sound_filter_axioms
      radius_borrow_ok.sound_filter_axioms radius_lender_ok.sound_filter_axioms region_ok.sound_filter_axioms
      free_memory_ok.sound_filter_axioms shared_pool_ok.sound_filter_axioms specified_ok.sound_filter_axioms)


lemma registered_Some:
  assumes "FindFilterByName name = Some f"
  obtains ok where "FindConstraint name = Some ok" "sound_filter f ok"
    "name \<noteq> ''SpecifiedLenderFilter'' \<Longrightarrow> exact_filter f ok"
  using registered [of name] assms by auto

lemma registered_None: "FindFilterByName name = None \<Longrightarrow> FindConstraint name = None"
  using registered [of name] by simp

lemma FilterByNames_shrinks: "FilterByNames names nm am req nodes = (ret, nodes') \<Longrightarrow> shrinks nodes' nodes"
proof (induction names arbitrary: nodes)
  case (Cons name names)
  show ?case
  proof (cases "FindFilterByName name")
    case None
    with Cons show ?thesis by simp
  next
    case (Some f)
    obtain ret1 nodes1 where f: "f nm am req nodes = (ret1, nodes1)" by fastforce
    from registered_Some [OF Some] obtain ok where "sound_filter f ok" by metis
    then have s: "shrinks nodes1 nodes" using f by (rule sound_filter.shrinks)
    show ?thesis
    proof (cases "ret1 = UBSE_OK")
      case True
      with Cons.prems Some f have "FilterByNames names nm am req nodes1 = (ret, nodes')" by simp
      from shrinks_trans [OF Cons.IH [OF this] s] show ?thesis .
    next
      case False
      with Cons.prems Some f s show ?thesis by simp
    qed
  qed
qed simp

lemma FilterByNames_step:
  \<comment> \<open>a chain that succeeds on \<open>name # names\<close> has succeeded on the filter of that name, if any\<close>
  assumes "FilterByNames (name # names) nm am req nodes = (UBSE_OK, nodes')"
  obtains nodes1 where "FilterByNames names nm am req nodes1 = (UBSE_OK, nodes')"
    "FindFilterByName name = None \<Longrightarrow> nodes1 = nodes"
    "\<And>f. FindFilterByName name = Some f \<Longrightarrow> f nm am req nodes = (UBSE_OK, nodes1)"
  using assms by (cases "FindFilterByName name") (auto split: prod.splits if_splits)

lemma chain_step:
  assumes r: "FilterByNames (name # names) nm am req nodes = (UBSE_OK, nodes')" and d: "distinct (map nd_nodeId nodes)"
  obtains nodes1 where "FilterByNames names nm am req nodes1 = (UBSE_OK, nodes')" "distinct (map nd_nodeId nodes1)"
    "cands nodes1 \<subseteq> {c \<in> cands nodes. satisfies nm am req name c}"
    "name \<noteq> ''SpecifiedLenderFilter'' \<Longrightarrow> cands nodes1 = {c \<in> cands nodes. satisfies nm am req name c}"
proof -
  obtain nodes1 where n: "FilterByNames names nm am req nodes1 = (UBSE_OK, nodes')"
    and none: "FindFilterByName name = None \<Longrightarrow> nodes1 = nodes"
    and some: "\<And>f. FindFilterByName name = Some f \<Longrightarrow> f nm am req nodes = (UBSE_OK, nodes1)"
    using FilterByNames_step [OF r] by blast
  show thesis
  proof (cases "FindFilterByName name")
    case None
    with that [OF n] none registered_None [OF None] d show ?thesis by (simp add: satisfies_def)
  next
    case (Some f)
    from registered_Some [OF Some] obtain ok where ok: "FindConstraint name = Some ok" "sound_filter f ok"
      "name \<noteq> ''SpecifiedLenderFilter'' \<Longrightarrow> exact_filter f ok" by metis
    note f = some [OF Some]
    have s: "shrinks nodes1 nodes" using sound_filter.shrinks [OF ok(2) f] .
    have "cands nodes1 \<subseteq> {c \<in> cands nodes. ok nm am req (fst c) (snd c)}"
      using shrinks_cands [OF s] sound_filter.sound [OF ok(2) f d] by auto
    moreover have "name \<noteq> ''SpecifiedLenderFilter'' \<Longrightarrow> cands nodes1 = {c \<in> cands nodes. ok nm am req (fst c) (snd c)}"
      using exact_filter.exact [OF ok(3) f d] .
    ultimately show ?thesis
      using that [OF n shrinks_distinct [OF s d]] ok(1) by (simp add: satisfies_def)
  qed
qed

lemma FilterByNames_cands:
  assumes "FilterByNames names nm am req nodes = (UBSE_OK, nodes')" and "distinct (map nd_nodeId nodes)"
  shows "cands nodes' \<subseteq> {c \<in> cands nodes. \<forall>name \<in> set names. satisfies nm am req name c}"
    and "''SpecifiedLenderFilter'' \<notin> set names \<Longrightarrow>
      cands nodes' = {c \<in> cands nodes. \<forall>name \<in> set names. satisfies nm am req name c}"
proof -
  have "cands nodes' \<subseteq> {c \<in> cands nodes. \<forall>name \<in> set names. satisfies nm am req name c} \<and>
      (''SpecifiedLenderFilter'' \<notin> set names \<longrightarrow>
        cands nodes' = {c \<in> cands nodes. \<forall>name \<in> set names. satisfies nm am req name c})"
    using assms
  proof (induction names arbitrary: nodes)
    case (Cons name names)
    obtain nodes1 where n: "FilterByNames names nm am req nodes1 = (UBSE_OK, nodes')" "distinct (map nd_nodeId nodes1)"
      "cands nodes1 \<subseteq> {c \<in> cands nodes. satisfies nm am req name c}"
      "name \<noteq> ''SpecifiedLenderFilter'' \<Longrightarrow> cands nodes1 = {c \<in> cands nodes. satisfies nm am req name c}"
      using chain_step [OF Cons.prems] by blast
    from Cons.IH [OF n(1,2)] n(3,4) show ?case by auto
  qed simp
  then show "cands nodes' \<subseteq> {c \<in> cands nodes. \<forall>name \<in> set names. satisfies nm am req name c}"
    and "''SpecifiedLenderFilter'' \<notin> set names \<Longrightarrow>
      cands nodes' = {c \<in> cands nodes. \<forall>name \<in> set names. satisfies nm am req name c}"
    by simp_all
qed


section \<open>Properties\<close>

text \<open>
  C7: The filter chain is sound, whatever the names and their order: when
  \<open>FilterByNames\<close> succeeds, the surviving candidates are among the given ones, in the same
  order of nodes, and each of them satisfies the constraint of every name in the chain; an
  error, too, leaves a list that was only shrunk. The constraints are stated on the caches
  (role, state, group, radius, link count, quota, free memory, topology, region, lender), not
  on the filters.
\<close>

theorem filter_chain_sound:
  assumes "FilterByNames names nm am req nodes = (ret, nodes')" and "distinct (map nd_nodeId nodes)"
  shows "subseq (map nd_nodeId nodes') (map nd_nodeId nodes) \<and> cands nodes' \<subseteq> cands nodes \<and>
    (ret = UBSE_OK \<longrightarrow> (\<forall>(i, sid) \<in> cands nodes'. \<forall>name \<in> set names. \<forall>ok.
       FindConstraint name = Some ok \<longrightarrow> ok nm am req i sid))"
proof (intro conjI impI)
  note s = FilterByNames_shrinks [OF assms(1)]
  show "subseq (map nd_nodeId nodes') (map nd_nodeId nodes)" using s by (simp add: shrinks_def)
  show "cands nodes' \<subseteq> cands nodes" using s by (rule shrinks_cands)
  assume "ret = UBSE_OK"
  with FilterByNames_cands(1) [of names nm am req nodes nodes'] assms
  show "\<forall>(i, sid) \<in> cands nodes'. \<forall>name \<in> set names. \<forall>ok. FindConstraint name = Some ok \<longrightarrow> ok nm am req i sid"
    by (force simp: satisfies_def)
qed

definition demo_filters :: "string list" where
  "demo_filters = [''ProviderFilter'', ''Unregistered'', ''RequestedProvidersFilter'', ''SharedPoolFilter'']"

definition demo_nm :: node_manager where
  "demo_nm = SchedulerNodeManager_new\<lparr>nm_providerNodes := {''1'', ''2''}\<rparr>"

definition demo_request :: scheduler_request where
  "demo_request = SchedulerRequest_new\<lparr>rq_provideNodes := [''2'', ''3''], rq_requestSize := 4096\<rparr>"

definition demo_cands :: "NodeInfo list" where
  "demo_cands = map (\<lambda>i. \<lparr>nd_nodeId = i, nd_socketInfos = [\<lparr>si_socketId = 36, si_numaInfos = [0, 1]\<rparr>]\<rparr>) [''1'', ''2'', ''3'']"

lemma demo_run:
  "FilterByNames demo_filters demo_nm SchedulerAccountManager_new demo_request demo_cands = (UBSE_OK, [demo_cands ! 1])"
  by (simp add: demo_filters_def FindFilterByName_def ProviderFilter_def RequestedProvidersFilter_def SharedPoolFilter_def
      EraseNodesIf_def RemoveEmptyNodes_def demo_nm_def demo_request_def demo_cands_def GetNodeInfo_def SchedulerNodeManager_new_def)

lemma demo_distinct: "distinct (map nd_nodeId demo_cands)"
  by (simp add: demo_cands_def)

theorem filter_chain_sound_witness:
  "cands [demo_cands ! 1] \<subseteq> cands demo_cands \<and>
   ok_RequestedProviders demo_nm SchedulerAccountManager_new demo_request ''2'' 36"
  using filter_chain_sound [OF demo_run demo_distinct]
  by (auto simp: cands_def demo_cands_def demo_filters_def FindConstraint_def)

text \<open>
  C6: The chain removes nothing it need not: without \<open>SpecifiedLenderFilter\<close> (which
  also counts NUMA nodes), the candidates that survive a successful chain are exactly the
  given ones that satisfy every constraint named in it. In particular neither the order of the
  names nor a repeated name matters, and an unregistered name is ignored.
\<close>

theorem filter_chain_exact:
  assumes "FilterByNames names nm am req nodes = (UBSE_OK, nodes')" and "distinct (map nd_nodeId nodes)"
    and "''SpecifiedLenderFilter'' \<notin> set names"
  shows "cands nodes' = {c \<in> cands nodes. \<forall>name \<in> set names. satisfies nm am req name c}"
  using FilterByNames_cands(2) [OF assms] .

theorem filter_chain_exact_witness:
  "cands [demo_cands ! 1] = {c \<in> cands demo_cands.
     satisfies demo_nm SchedulerAccountManager_new demo_request ''ProviderFilter'' c \<and>
     satisfies demo_nm SchedulerAccountManager_new demo_request ''Unregistered'' c \<and>
     satisfies demo_nm SchedulerAccountManager_new demo_request ''RequestedProvidersFilter'' c \<and>
     satisfies demo_nm SchedulerAccountManager_new demo_request ''SharedPoolFilter'' c}"
  using filter_chain_exact [OF demo_run demo_distinct] by (simp add: demo_filters_def)

end
