(* ===== verification/ScoreLaws.thy ===== *)
theory ScoreLaws
  imports Scores FilterLaws
begin

text \<open>
  What the scorers promise the manager, as locales: a score for every candidate and no error
  (\<open>total_scorer\<close>), and for most of them a score between 0 and 1 (\<open>unit_scorer\<close>). Then the
  ranking: the head of the result is a candidate of least total cost.
\<close>

section \<open>The contract of a scorer\<close>

locale total_scorer =
  fixes f :: score_fn
  assumes total: "length scores = length (candidates nodes) \<Longrightarrow>
    \<exists>scores'. f nodes nm am req scores = (UBSE_OK, scores') \<and> length scores' = length (candidates nodes)"
begin

lemma never_fails:
  assumes "length scores = length (candidates nodes)" and "f nodes nm am req scores = (ret, scores')"
  shows "ret = UBSE_OK \<and> length scores' = length (candidates nodes)"
  using total [OF assms(1), of nm am req] assms(2) by auto

end

interpretation latency: total_scorer LatencyScore
  by unfold_locales (simp add: LatencyScore_def)
interpretation region_balance: total_scorer RegionBalanceScore
  by unfold_locales (simp add: RegionBalanceScore_def)
interpretation balance: total_scorer BalanceScore
  by unfold_locales (simp add: BalanceScore_def)
interpretation reliability_balance: total_scorer ReliabilityBalanceScore
  by unfold_locales (simp add: ReliabilityBalanceScore_def)
interpretation borrow_reliability: total_scorer BorrowReliabilityScore
  by unfold_locales (simp add: BorrowReliabilityScore_def)
interpretation share_reliability: total_scorer ShareReliabilityScore
  by unfold_locales (simp add: ShareReliabilityScore_def)
interpretation bandwidth: total_scorer BorrowBandwidthScore
  by unfold_locales (simp add: BorrowBandwidthScore_def Let_def band_indexes_def lend_amounts_def)
interpretation divide_numa: total_scorer DivideNumaScore
  by unfold_locales (simp add: DivideNumaScore_def)
interpretation socket_affinity: total_scorer SocketAffinityScore
  by unfold_locales (simp add: SocketAffinityScore_def Let_def split: option.splits)

lemma registered_scorer: "FindScoreByName name = Some f \<Longrightarrow> total_scorer f"
  unfolding FindScoreByName_def
  using latency.total_scorer_axioms region_balance.total_scorer_axioms balance.total_scorer_axioms
    reliability_balance.total_scorer_axioms borrow_reliability.total_scorer_axioms
    share_reliability.total_scorer_axioms bandwidth.total_scorer_axioms divide_numa.total_scorer_axioms
    socket_affinity.total_scorer_axioms
  by (auto split: if_splits)

section \<open>Ranking\<close>

definition scored_ids :: "ScoredNode list \<Rightarrow> (NodeId \<times> SocketId) list" where
  "scored_ids rs = map (\<lambda>r. (sn_nodeId r, sn_socketId r)) rs"

lemma scored_ids_add [simp]:
  "length cs = length rs \<Longrightarrow> scored_ids (map2 (add_component w) cs rs) = scored_ids rs"
  by (induction cs rs rule: list_induct2) (auto simp: scored_ids_def add_component_def)

lemma score_loop_total:
  assumes "length results = length (candidates nodes)"
  shows "\<exists>results'. score_loop nodes nm am req names results = (UBSE_OK, results') \<and>
    scored_ids results' = scored_ids results"
  using assms
proof (induction names arbitrary: results)
  case (Cons name names)
  show ?case
  proof (cases "FindScoreByName name")
    case None
    with Cons show ?thesis by simp
  next
    case (Some f)
    then have tf: "total_scorer f" by (rule registered_scorer)
    obtain scores where f: "f nodes nm am req (replicate (length results) 0) = (UBSE_OK, scores)"
      "length scores = length results"
      using total_scorer.total [OF tf, of "replicate (length results) 0" nodes nm am req] Cons.prems by auto
    from Cons.IH [of "map2 (add_component (GetWeightFor name (rq_weights req))) scores results"] Cons.prems Some f
    show ?thesis by simp
  qed
qed simp

lemma scored_ids_unscored: "scored_ids (unscored nodes) = map (\<lambda>(i, si). (i, si_socketId si)) (candidates nodes)"
  by (auto simp: scored_ids_def unscored_def)

lemma ComputeWeightedScores_total:
  "\<exists>rs. ComputeWeightedScores nodes nm am req = (UBSE_OK, rs) \<and>
     scored_ids rs = map (\<lambda>(i, si). (i, si_socketId si)) (candidates nodes)"
  using score_loop_total [of "unscored nodes" nodes nm am req "rq_scoreNames req"]
  by (simp add: ComputeWeightedScores_def scored_ids_unscored) (simp add: unscored_def)

lemma strict_weak_cheaper: "strict_weak cheaper"
  unfolding cheaper_def by (rule strict_weak_key)

lemma ScoreAndRank_cases:
  assumes srt: "std_sort srt" and c: "ComputeWeightedScores nodes nm am req = (UBSE_OK, rs)"
  shows "ScoreAndRank srt nodes nm am req 1 =
    (if rs = [] then (UBSE_SCHEDULER_ERROR_NO_NODE_CAN_LEND, []) else (UBSE_OK, [hd (srt cheaper rs)]))"
proof -
  have ne: "srt cheaper rs = [] \<longleftrightarrow> rs = []"
    by (rule std_sort.srt_Nil [OF srt strict_weak_cheaper])
  have k: "(if 1 = (0 :: nat) \<or> 1 > length rs then length rs else 1) = 1" if "rs \<noteq> []"
    using that by (cases rs) auto
  show ?thesis
    by (cases "srt cheaper rs") (use ne k in \<open>auto simp: ScoreAndRank_def c Let_def\<close>)
qed

lemma ScoreAndRank_hd:
  assumes srt: "std_sort srt" and r: "ScoreAndRank srt nodes nm am req 1 = (ret, best # rest)"
    and c: "ComputeWeightedScores nodes nm am req = (UBSE_OK, rs)"
  shows "rest = []" and "best \<in> set rs" and "x \<in> set rs \<Longrightarrow> sn_totalCost best \<le> sn_totalCost x"
proof -
  from r have ne: "rs \<noteq> []" and b: "best = hd (srt cheaper rs)" and "rest = []"
    unfolding ScoreAndRank_cases [OF srt c] by (auto split: if_splits)
  then show "rest = []" by simp
  have "srt cheaper rs \<noteq> []" using ne std_sort.srt_Nil [OF srt strict_weak_cheaper] by blast
  then show "best \<in> set rs"
    unfolding b using std_sort.set_srt [OF srt strict_weak_cheaper, of rs] by (metis hd_in_set)
  show "x \<in> set rs \<Longrightarrow> sn_totalCost best \<le> sn_totalCost x"
    unfolding b using std_sort.hd_least [OF srt strict_weak_cheaper] by (auto simp: cheaper_def not_less)
qed



lemma cands_candidates: "cands nodes = set (map (\<lambda>(i, si). (i, si_socketId si)) (candidates nodes))"
  by (fastforce simp: candidates_def cands_def)

section \<open>Scores between 0 and 1\<close>

definition unit :: "rat \<Rightarrow> bool" where "unit x \<longleftrightarrow> 0 \<le> x \<and> x \<le> 1"

text \<open>
  The sizes for which the bounds hold: at most 65536 NUMA nodes in a socket, and a request of
  at least 4 MiB (the least block the configuration admits) or of nothing at all.
\<close>

definition sizes_ok :: "NodeInfo list \<Rightarrow> scheduler_request \<Rightarrow> bool" where
  "sizes_ok nodes req \<longleftrightarrow> (\<forall>(i, si) \<in> set (candidates nodes). length (si_numaInfos si) \<le> 2 ^ 16) \<and>
     (rq_requestSize req = 0 \<or> 2 ^ 22 \<le> unat (rq_requestSize req))"

locale unit_scorer = total_scorer +
  assumes in_unit: "sizes_ok nodes req \<Longrightarrow> length scores = length (candidates nodes) \<Longrightarrow> (\<forall>s \<in> set scores. unit s) \<Longrightarrow>
    f nodes nm am req scores = (ret, scores') \<Longrightarrow> \<forall>s \<in> set scores'. unit s"

lemma unit_01 [simp]: "unit 0" "unit 1"
  by (simp_all add: unit_def)

interpretation latency: unit_scorer LatencyScore
  by unfold_locales (auto simp: LatencyScore_def)
interpretation region_balance: unit_scorer RegionBalanceScore
  by unfold_locales (auto simp: RegionBalanceScore_def)
interpretation borrow_reliability: unit_scorer BorrowReliabilityScore
  by unfold_locales (auto simp: BorrowReliabilityScore_def)
interpretation share_reliability: unit_scorer ShareReliabilityScore
  by unfold_locales (auto simp: ShareReliabilityScore_def)
interpretation socket_affinity: unit_scorer SocketAffinityScore
  by unfold_locales (auto simp: SocketAffinityScore_def Let_def split: option.splits if_splits)

lemma of_u64_nonneg: "0 \<le> of_u64 x"
  unfolding of_u64_def by (rule double.rnd_nonneg) (rule of_nat_0_le_iff)

lemma add_balance_step:
  assumes "add_balance nm i sz j (sc, k) = (sc', k')" and "0 \<le> sc" and "sc \<le> of_nat k" and "k < 2 ^ 24"
  shows "k' = Suc k" and "0 \<le> sc'" and "sc' \<le> of_nat k'"
proof -
  obtain b where b: "0 \<le> b" "b \<le> 1" "sc' = dbl (sc + b)" "k' = Suc k"
  proof (cases "GetNumaInfo nm i j")
    case None
    with assms(1) show thesis by (intro that [of 1]) (auto simp: add_balance_def)
  next
    case (Some u)
    show thesis
    proof (cases "memTotal u = 0")
      case True
      with assms(1) Some show thesis by (intro that [of 1]) (auto simp: add_balance_def)
    next
      case False
      have "0 \<le> dbl (dbl (of_u64 sz + of_u64 (memUsed u)) / of_u64 (memTotal u))"
        by (intro double.rnd_nonneg divide_nonneg_nonneg add_nonneg_nonneg of_u64_nonneg)
      with assms(1) Some False show thesis
        by (intro that [of "min (dbl (dbl (of_u64 sz + of_u64 (memUsed u)) / of_u64 (memTotal u))) 1"])
          (auto simp: add_balance_def Let_def)
    qed
  qed
  have "sc + b \<le> of_nat (Suc k)" using b assms(3) by simp
  then have "dbl (sc + b) \<le> of_nat (Suc k)" using assms(4) by (intro double.rnd_le_nat) simp_all
  with b double.rnd_nonneg [of "sc + b"] assms(2) show "k' = Suc k" "0 \<le> sc'" "sc' \<le> of_nat k'" by simp_all
qed

lemma add_balance_fold:
  assumes "fold (add_balance nm i sz) js (sc, k) = (sc', k')" and "0 \<le> sc" and "sc \<le> of_nat k" and "k + length js \<le> 2 ^ 24"
  shows "k' = k + length js \<and> 0 \<le> sc' \<and> sc' \<le> of_nat k'"
  using assms
proof (induction js arbitrary: sc k)
  case (Cons j js)
  obtain sc1 k1 where s: "add_balance nm i sz j (sc, k) = (sc1, k1)" by fastforce
  note step = add_balance_step [OF s]
  from Cons.prems have k: "k < 2 ^ 24" by simp
  from Cons.IH [of sc1 k1] Cons.prems s step [OF Cons.prems(2,3) k] show ?case by auto
qed simp

lemma balance_of_unit:
  assumes "length js \<le> 2 ^ 24"
  shows "unit (balance_of nm sz i js)"
proof -
  obtain sc k where f: "fold (add_balance nm i sz) js (0, 0) = (sc, k)" by fastforce
  have b: "k = length js" "0 \<le> sc" "sc \<le> of_nat k"
    using add_balance_fold [OF f] assms by auto
  have "dbl (of_nat k) = of_nat k" using b assms by (intro double.rnd_nat) simp
  then show ?thesis
    using b double.rnd_quotient_unit [of sc "of_nat k"] by (auto simp: balance_of_def f unit_def)
qed

interpretation balance: unit_scorer BalanceScore
proof (unfold_locales, goal_cases)
  case (1 nodes req scores nm am ret scores')
  then show ?case by (fastforce simp: BalanceScore_def sizes_ok_def intro!: balance_of_unit)
qed

lemma count_numas_le: "count_numas r fs a n \<le> n + length fs"
  by (induction r fs a n rule: count_numas.induct) (auto simp: SafeAdd_def)

lemma length_free_sizes: "length (free_sizes nm i js) \<le> length js"
proof -
  have "length (concat (map (\<lambda>j. case GetNumaInfo nm i j of None \<Rightarrow> [] | Some u \<Rightarrow> [memFree u]) js)) \<le> length js"
    by (induction js) (auto split: option.splits)
  then show ?thesis by (simp add: free_sizes_def)
qed

lemma of_u64_small: "unat x \<le> 2 ^ 24 \<Longrightarrow> of_u64 x = of_nat (unat x)"
  unfolding of_u64_def by (rule double.rnd_nat)

lemma divide_numa_unit:
  assumes n: "n \<le> 2 ^ 16" and sz: "2 ^ 22 \<le> unat (sz :: u64)"
  shows "unit (dbl (dbl (dbl (of_nat n) * of_u64 HALF_BLOCK_SIZE) / of_u64 sz))"
proof -
  have "dbl (of_nat n) = of_nat n" using n by (intro double.rnd_nat) simp
  moreover have "of_u64 HALF_BLOCK_SIZE = 64" using of_u64_small [of HALF_BLOCK_SIZE] by (simp add: HALF_BLOCK_SIZE_def)
  moreover have "dbl (of_nat (n * 64)) = of_nat (n * 64)" using n by (intro double.rnd_nat) simp
  ultimately have e: "dbl (dbl (of_nat n) * of_u64 HALF_BLOCK_SIZE) = of_nat (n * 64)" by simp
  have "(of_nat (n * 64) :: rat) \<le> of_nat (2 ^ 22)" using n by (intro of_nat_mono) simp
  also have "\<dots> = dbl (of_nat (2 ^ 22))" by (intro double.rnd_nat [symmetric]) simp
  also have "\<dots> \<le> of_u64 sz" unfolding of_u64_def using sz by (intro double.rnd_mono of_nat_mono)
  finally show ?thesis
    unfolding e unit_def by (intro double.rnd_quotient_unit) simp_all
qed

interpretation divide_numa: unit_scorer DivideNumaScore
proof (unfold_locales, goal_cases)
  case (1 nodes req scores nm am ret scores')
  have "count_numas sz (free_sizes nm i (si_numaInfos si)) 0 0 \<le> 2 ^ 16" if "(i, si) \<in> set (candidates nodes)" for i si sz
    using count_numas_le [of sz "free_sizes nm i (si_numaInfos si)" 0 0] length_free_sizes [of nm i "si_numaInfos si"]
      1(1) that by (fastforce simp: sizes_ok_def)
  with 1(1,4) show ?case
    by (auto simp: DivideNumaScore_def Let_def sizes_ok_def unit_def [of 1] split: if_splits intro!: divide_numa_unit)
qed


section \<open>The bandwidth score\<close>

lemma fold_max_ge: "(m :: u64) \<le> fold (\<lambda>a m. max m a) xs m \<and> (\<forall>x \<in> set xs. x \<le> fold (\<lambda>a m. max m a) xs m)"
proof (induction xs arbitrary: m)
  case (Cons x xs)
  from Cons [of "max m x"] show ?case by auto
qed simp

lemma fold_max_in: "fold (\<lambda>a m. max m a) xs (m :: u64) \<in> insert m (set xs)"
proof (induction xs arbitrary: m)
  case (Cons x xs)
  from Cons [of "max m x"] show ?case by (auto simp: max_def split: if_splits)
qed simp

lemma fold_min_le: "fold (\<lambda>a m. min m a) xs m \<le> (m :: u64) \<and> (\<forall>x \<in> set xs. fold (\<lambda>a m. min m a) xs m \<le> x)"
proof (induction xs arbitrary: m)
  case (Cons x xs)
  from Cons [of "min m x"] show ?case by auto
qed simp

lemma fold_min_in: "fold (\<lambda>a m. min m a) xs (m :: u64) \<in> insert m (set xs)"
proof (induction xs arbitrary: m)
  case (Cons x xs)
  from Cons [of "min m x"] show ?case by (auto simp: min_def split: if_splits)
qed simp

lemma lend_tolerance_ge: "2 ^ 20 \<le> unat (lend_tolerance nm)"
proof -
  have t: "lend_tolerance nm = (if ucast (nm_bandwidthTolerance nm) * 0x100000 = (0 :: u64) then ONE_M
      else ucast (nm_bandwidthTolerance nm) * 0x100000)"
    by (simp add: lend_tolerance_def SizeMb2Byte_u32 del: mult_eq_0_iff)
  show ?thesis
  proof (cases "ucast (nm_bandwidthTolerance nm) * 0x100000 = (0 :: u64)")
    case False
    have u: "unat (ucast (nm_bandwidthTolerance nm) * 0x100000 :: u64) = unat (nm_bandwidthTolerance nm) * 2 ^ 20"
      by (rule unat_mb_of_u32)
    with False have "unat (nm_bandwidthTolerance nm) \<noteq> 0" by (auto simp: unat_eq_0 [symmetric])
    then show ?thesis unfolding t using False u by simp
  qed (simp add: t ONE_M_def)
qed

lemma unat_times_100: "unat (x :: u64) \<le> 2 ^ 44 \<Longrightarrow> unat (x * 100) = unat x * 100"
  by (simp add: unat_word_ariths)

lemma unat_hundredths:
  assumes lo: "lo \<le> band" and hi: "band \<le> hi" and small: "unat hi \<le> 2 ^ 44"
  shows "unat (hundredths lo hi band) = ((unat band - unat lo) * 100 + (unat hi - unat lo) div 2) div (unat hi - unat lo)"
proof -
  have d: "unat (hi - lo) = unat hi - unat lo" using order_trans [OF lo hi] by (simp add: unat_sub)
  have n: "unat (band - lo) = unat band - unat lo" using lo by (simp add: unat_sub)
  have b: "unat band \<le> 2 ^ 44" using hi small by (simp add: word_le_nat_alt)
  have "unat (band - lo) \<le> 2 ^ 44" using b n by simp
  then have m: "unat ((band - lo) * 100) = (unat band - unat lo) * 100"
    using unat_times_100 n by metis
  have h: "unat ((hi - lo) div 2) = (unat hi - unat lo) div 2" by (simp add: unat_div_distrib d)
  have "(unat band - unat lo) * 100 + (unat hi - unat lo) div 2 < 2 ^ 64" using b small by simp
  then have "unat ((band - lo) * 100 + (hi - lo) div 2) = (unat band - unat lo) * 100 + (unat hi - unat lo) div 2"
    using unat_add_fits [of "(band - lo) * 100" "(hi - lo) div 2"] unfolding m h by simp
  then show ?thesis unfolding hundredths_def Let_def unat_div_distrib d by (simp only:)
qed

lemma hundredths_le:
  assumes "lo \<le> band" and "band \<le> hi" and "unat hi \<le> 2 ^ 44" and "lo < hi"
  shows "unat (hundredths lo hi band) \<le> 100"
proof -
  define d where "d = unat hi - unat lo"
  have d: "0 < d" using assms(4) by (simp add: d_def word_less_nat_alt)
  have "(unat band - unat lo) * 100 + d div 2 < d * 101"
    using assms(2) d by (simp add: d_def word_le_nat_alt)
  then have "((unat band - unat lo) * 100 + d div 2) div d < 101"
    by (simp add: less_mult_imp_div_less mult.commute)
  then show ?thesis using unat_hundredths [OF assms(1-3)] by (simp add: d_def)
qed

lemma hundredths_mono:
  assumes "lo \<le> b1" and "b1 \<le> b2" and "b2 \<le> hi" and "unat hi \<le> 2 ^ 44"
  shows "unat (hundredths lo hi b1) \<le> unat (hundredths lo hi b2)"
proof -
  have "unat b1 \<le> unat b2" using assms(2) by (simp add: word_le_nat_alt)
  then show ?thesis
    using unat_hundredths [OF assms(1) order_trans [OF assms(2,3)] assms(4)]
      unat_hundredths [OF order_trans [OF assms(1,2)] assms(3,4)]
    by (simp only:) (intro div_le_mono add_le_mono mult_le_mono1 diff_le_mono order_refl)
qed

definition bands_of :: "node_manager \<Rightarrow> account_manager \<Rightarrow> scheduler_request \<Rightarrow> NodeInfo list \<Rightarrow> u64 list" where
  "bands_of nm am req nodes = band_indexes (lend_tolerance nm) (rq_requestSize req) (lend_amounts am (rq_importNodeId req) nodes)"

lemma bands_small: "b \<in> set (bands_of nm am req nodes) \<Longrightarrow> unat b \<le> 2 ^ 44"
proof -
  assume "b \<in> set (bands_of nm am req nodes)"
  then obtain s where "b = s div lend_tolerance nm" by (auto simp: bands_of_def band_indexes_def)
  then have "unat b = unat s div unat (lend_tolerance nm)" by (simp add: unat_div_distrib)
  also have "\<dots> \<le> unat s div 2 ^ 20" by (intro div_le_mono2 lend_tolerance_ge) simp
  also have "\<dots> \<le> 2 ^ 44" using unat_u64_less [of s] by simp
  finally show ?thesis .
qed

definition band_score :: "u64 list \<Rightarrow> u64 \<Rightarrow> rat" where
  "band_score bands b = (let lo = fold (\<lambda>b m. min m b) bands UINT64_MAX; hi = fold (\<lambda>b m. max m b) bands 0
     in if hi \<noteq> lo then dbl (of_u64 (hundredths lo hi b) / 100) else 0)"

lemma BorrowBandwidthScore_bands:
  "BorrowBandwidthScore nodes nm am req scores = (UBSE_OK, map (band_score (bands_of nm am req nodes)) (bands_of nm am req nodes))"
  by (simp add: BorrowBandwidthScore_def band_score_def bands_of_def Let_def)

lemma band_score_bounds:
  assumes small: "\<And>b. b \<in> set bands \<Longrightarrow> unat b \<le> 2 ^ 44"
    and b: "b1 \<in> set bands" "b2 \<in> set bands"
  shows "unit (band_score bands b1)" and "b1 \<le> b2 \<Longrightarrow> band_score bands b1 \<le> band_score bands b2"
    and "(\<And>b. b \<in> set bands \<Longrightarrow> b1 \<le> b) \<Longrightarrow> band_score bands b1 = 0"
proof -
  define lo where "lo = fold (\<lambda>b m. min m b) bands (UINT64_MAX :: u64)"
  define hi where "hi = fold (\<lambda>b m. max m b) bands (0 :: u64)"
  have lo: "lo \<le> b" if "b \<in> set bands" for b using fold_min_le that by (simp add: lo_def)
  have hi: "b \<le> hi" if "b \<in> set bands" for b using fold_max_ge that by (simp add: hi_def)
  have small_hi: "unat hi \<le> 2 ^ 44" using fold_max_in [of bands 0] small by (auto simp: hi_def)
  have le: "lo \<le> hi" using lo hi b(1) order_trans by blast
  have sc: "band_score bands x = (if hi \<noteq> lo then dbl (of_nat (unat (hundredths lo hi x)) / 100) else 0)"
    if "x \<in> set bands" for x
  proof (cases "hi = lo")
    case False
    with le have "unat (hundredths lo hi x) \<le> 100" using hundredths_le [OF lo [OF that] hi [OF that] small_hi] by simp
    then have "of_u64 (hundredths lo hi x) = of_nat (unat (hundredths lo hi x))" by (intro of_u64_small) simp
    with False show ?thesis unfolding band_score_def Let_def lo_def [symmetric] hi_def [symmetric] by simp
  qed (simp add: band_score_def lo_def hi_def)
  show "unit (band_score bands b1)"
  proof (cases "hi = lo")
    case False
    with le have "unat (hundredths lo hi b1) \<le> 100"
      using hundredths_le [OF lo [OF b(1)] hi [OF b(1)] small_hi] by simp
    then have "(of_nat (unat (hundredths lo hi b1)) :: rat) \<le> of_nat 100" by (rule of_nat_mono)
    then have "0 \<le> dbl (of_nat (unat (hundredths lo hi b1)) / 100) \<and> dbl (of_nat (unat (hundredths lo hi b1)) / 100) \<le> 1"
      by (intro double.rnd_quotient_unit of_nat_0_le_iff) simp
    with False show ?thesis unfolding sc [OF b(1)] unit_def by simp
  qed (simp add: sc b)
  show "band_score bands b1 \<le> band_score bands b2" if "b1 \<le> b2"
  proof (cases "hi = lo")
    case False
    have "(of_nat (unat (hundredths lo hi b1)) :: rat) \<le> of_nat (unat (hundredths lo hi b2))"
      using hundredths_mono [OF lo [OF b(1)] that hi [OF b(2)] small_hi] by (rule of_nat_mono)
    then show ?thesis unfolding sc [OF b(1)] sc [OF b(2)] using False by (auto intro!: double.rnd_mono divide_right_mono)
  qed (simp add: sc b)
  show "band_score bands b1 = 0" if "\<And>b. b \<in> set bands \<Longrightarrow> b1 \<le> b"
  proof -
    have "\<forall>b \<in> set bands. b1 \<le> b" using that by blast
    moreover have "b1 \<le> UINT64_MAX" by simp
    ultimately have "b1 \<le> lo" using fold_min_in [of bands UINT64_MAX] by (auto simp: lo_def)
    then have "b1 = lo" using lo [OF b(1)] by simp
    moreover have "unat (hundredths lo hi lo) = 0" if "lo < hi"
      using unat_hundredths [OF order_refl le small_hi] that by (simp add: word_less_nat_alt div_less)
    ultimately have "hi \<noteq> lo \<Longrightarrow> unat (hundredths lo hi b1) = 0" using le by (simp add: le_less)
    then have z: "hi \<noteq> lo \<Longrightarrow> (of_nat (unat (hundredths lo hi b1)) :: rat) = of_nat 0" by (rule arg_cong)
    show ?thesis
    proof (cases "hi = lo")
      case False
      show ?thesis unfolding sc [OF b(1)] z [OF False] using False by simp
    qed (simp add: sc b)
  qed
qed


interpretation bandwidth: unit_scorer BorrowBandwidthScore
  by unfold_locales (auto simp: BorrowBandwidthScore_bands intro!: band_score_bounds(1) bands_small)

lemma registered_unit: "FindScoreByName name = Some f \<Longrightarrow> name \<noteq> ''ReliabilityBalanceScore'' \<Longrightarrow> unit_scorer f"
  unfolding FindScoreByName_def
  using latency.unit_scorer_axioms region_balance.unit_scorer_axioms balance.unit_scorer_axioms
    borrow_reliability.unit_scorer_axioms share_reliability.unit_scorer_axioms bandwidth.unit_scorer_axioms
    divide_numa.unit_scorer_axioms socket_affinity.unit_scorer_axioms
  by (auto split: if_splits)

section \<open>Properties\<close>

text \<open>
  C8: Ranking. With a \<open>std::sort\<close> that keeps its contract, \<open>ScoreAndRank\<close> with
  \<open>topK = 1\<close> fails only when there is no candidate; otherwise it returns exactly one candidate
  of the given list, and no candidate has a smaller weighted cost.
\<close>

theorem ScoreAndRank_best:
  assumes "std_sort srt" and "ScoreAndRank srt nodes nm am req 1 = (ret, results)"
  shows "if candidates nodes = [] then ret = UBSE_SCHEDULER_ERROR_NO_NODE_CAN_LEND \<and> results = []
    else ret = UBSE_OK \<and> (\<exists>best. results = [best] \<and> (sn_nodeId best, sn_socketId best) \<in> cands nodes \<and>
      best \<in> set (snd (ComputeWeightedScores nodes nm am req)) \<and>
      (\<forall>x \<in> set (snd (ComputeWeightedScores nodes nm am req)). sn_totalCost best \<le> sn_totalCost x))"
proof -
  obtain rs where c: "ComputeWeightedScores nodes nm am req = (UBSE_OK, rs)"
    and ids: "scored_ids rs = map (\<lambda>(i, si). (i, si_socketId si)) (candidates nodes)"
    using ComputeWeightedScores_total by blast
  have empty: "rs = [] \<longleftrightarrow> candidates nodes = []" using arg_cong [OF ids, of length] by (auto simp: scored_ids_def)
  show ?thesis
  proof (cases "rs = []")
    case True
    with assms(2) empty show ?thesis unfolding ScoreAndRank_cases [OF assms(1) c] by simp
  next
    case False
    define best where "best = hd (srt cheaper rs)"
    have r: "ret = UBSE_OK" "results = [best]"
      using assms(2) False unfolding ScoreAndRank_cases [OF assms(1) c] by (simp_all add: best_def)
    note b = ScoreAndRank_hd [OF assms(1) assms(2) [unfolded r] c]
    have "(sn_nodeId best, sn_socketId best) \<in> set (scored_ids rs)" using b(2) by (auto simp: scored_ids_def)
    then show ?thesis using r b(2,3) empty False by (simp add: c ids cands_candidates)
  qed
qed

theorem ScoreAndRank_best_witness:
  "\<exists>best. ScoreAndRank isort_by demo_cands demo_nm SchedulerAccountManager_new demo_request 1 = (UBSE_OK, [best]) \<and>
     (sn_nodeId best, sn_socketId best) \<in> cands demo_cands"
proof -
  obtain ret results where r: "ScoreAndRank isort_by demo_cands demo_nm SchedulerAccountManager_new demo_request 1 = (ret, results)"
    by fastforce
  have "candidates demo_cands \<noteq> []" by (simp add: candidates_def demo_cands_def)
  with ScoreAndRank_best [OF isort.std_sort_axioms r] r show ?thesis by auto
qed



text \<open>
  Bandwidth. The score orders the candidates by the spread between the largest and
  the smallest amount lent that would result from lending the request there, in bands of the
  tolerance: a candidate of the least band scores 0, a larger band never scores less, no score
  exceeds 1 and none of the integer arithmetic wraps around.
\<close>

theorem BorrowBandwidthScore_order:
  assumes "BorrowBandwidthScore nodes nm am req scores0 = (ret, scores)"
    and "j < length (candidates nodes)" and "k < length (candidates nodes)"
  shows "ret = UBSE_OK \<and> length scores = length (candidates nodes) \<and> 0 \<le> scores ! j \<and> scores ! j \<le> 1 \<and>
    (bands_of nm am req nodes ! j \<le> bands_of nm am req nodes ! k \<longrightarrow> scores ! j \<le> scores ! k) \<and>
    ((\<forall>b \<in> set (bands_of nm am req nodes). bands_of nm am req nodes ! j \<le> b) \<longrightarrow> scores ! j = 0)"
proof -
  let ?b = "bands_of nm am req nodes"
  have len: "length ?b = length (candidates nodes)" by (simp add: bands_of_def band_indexes_def lend_amounts_def)
  have s: "ret = UBSE_OK" "scores = map (band_score ?b) ?b"
    using assms(1) unfolding BorrowBandwidthScore_bands by simp_all
  have in_b: "?b ! j \<in> set ?b" "?b ! k \<in> set ?b" using assms(2,3) len by simp_all
  note bounds = band_score_bounds [of ?b, OF bands_small in_b]
  have sc: "scores ! j = band_score ?b (?b ! j)" "scores ! k = band_score ?b (?b ! k)" "length scores = length (candidates nodes)"
    using s assms(2,3) len by simp_all
  show ?thesis
    unfolding sc using s(1) bounds(1)
    by (intro conjI impI) (simp_all add: unit_def bounds(2,3))
qed

theorem BorrowBandwidthScore_order_witness:
  "0 \<le> snd (BorrowBandwidthScore demo_cands demo_nm SchedulerAccountManager_new demo_request []) ! 1"
proof -
  obtain ret scores where r: "BorrowBandwidthScore demo_cands demo_nm SchedulerAccountManager_new demo_request [] = (ret, scores)"
    by fastforce
  have "length (candidates demo_cands) = 3" by (simp add: candidates_def demo_cands_def)
  with BorrowBandwidthScore_order [OF r, of 1 1] r show ?thesis by simp
qed

end
