(* ===== verification/ImplLaws.thy ===== *)
theory ImplLaws
  imports SchedulerImpl ScoreLaws
begin

text \<open>
  Laws of the allocation. \<open>fill_plan\<close> is what \<open>FillFromNumaList\<close> decides, apart from where it
  writes it: a list of NUMA nodes with sizes and what is left over. It is the specification
  that the two ways of selecting NUMA nodes refine.
\<close>

section \<open>The plan\<close>

definition offer :: "u64 \<Rightarrow> u64 \<Rightarrow> numa_info \<Rightarrow> u64" where
  \<comment> \<open>the whole blocks a NUMA node can lend\<close>
  "offer b w u = NumaGetAvailableLendSize w u div b * b"

fun fill_plan :: "u64 \<Rightarrow> u64 \<Rightarrow> numa_info list \<Rightarrow> u64 \<Rightarrow> (NumaId \<times> u64) list \<times> u64" where
  "fill_plan b w [] r = ([], r)"
| "fill_plan b w (u # us) r =
     (if r = 0 then ([], r)
      else if offer b w u < b then fill_plan b w us r
      else case fill_plan b w us (r - min (offer b w u) r) of (ps, r') \<Rightarrow> ((nu_numaId u, min (offer b w u) r) # ps, r'))"

definition push_plan :: "scheduler_request \<Rightarrow> NodeId \<Rightarrow> SocketId \<Rightarrow> (NumaId \<times> u64) list \<Rightarrow> UbseMemAlgoResult \<Rightarrow> UbseMemAlgoResult" where
  "push_plan req i sid ps res = fold (\<lambda>(j, sz). push_debt req i sid j sz) ps res"

lemma fill_loop_plan:
  "fill_loop b w node req us (res, r) =
     (push_plan req (sn_nodeId node) (sn_socketId node) (fst (fill_plan b w us r)) res, snd (fill_plan b w us r))"
proof (induction us arbitrary: res r)
  case (Cons u us)
  show ?case
  proof (cases "r = 0 \<or> offer b w u < b")
    case True
    with Cons show ?thesis by (auto simp: push_plan_def offer_def Let_def)
  next
    case False
    have "min (offer b w u) r \<le> r" by simp
    with False Cons [of "push_debt req (sn_nodeId node) (sn_socketId node) (nu_numaId u) (min (offer b w u) r) res"
        "r - min (offer b w u) r"]
    show ?thesis by (auto simp: push_plan_def offer_def [symmetric] Let_def split: prod.splits)
  qed
qed (simp add: push_plan_def)

lemma push_plan_result:
  "push_plan req i sid ps res = res
     \<lparr>ar_exportNumaInfos := ar_exportNumaInfos res @ map (\<lambda>(j, sz). debt i sid j sz) ps,
      ar_importNumaInfos := ar_importNumaInfos res @
        (if rq_requestMode req = BORROW then map (\<lambda>(j, sz). debt (rq_importNodeId req) sid j sz) ps else [])\<rparr>"
  by (induction ps arbitrary: res) (auto simp: push_plan_def push_debt_def Let_def)

lemma plan_total: "unat (snd (fill_plan b w us r)) + (\<Sum>p \<leftarrow> fst (fill_plan b w us r). unat (snd p)) = unat r"
proof (induction us arbitrary: r)
  case (Cons u us)
  show ?case
  proof (cases "r = 0 \<or> offer b w u < b")
    case False
    define m where "m = min (offer b w u) r"
    have "m \<le> r" by (simp add: m_def)
    then have "unat (r - m) = unat r - unat m" "unat m \<le> unat r" by (simp_all add: unat_sub word_le_nat_alt)
    with False Cons [of "r - m"] show ?thesis by (auto simp: m_def [symmetric] split: prod.splits)
  qed (use Cons in auto)
qed simp

lemma plan_member:
  assumes "p \<in> set (fst (fill_plan b w us r))" and "b \<noteq> 0"
  shows "\<exists>u \<in> set us. fst p = nu_numaId u \<and> snd p \<le> offer b w u \<and> snd p \<noteq> 0"
  using assms(1)
proof (induction us arbitrary: r)
  case (Cons u us)
  show ?case
  proof (cases "r = 0 \<or> offer b w u < b")
    case False
    with assms(2) have "min (offer b w u) r \<noteq> 0" by (auto simp: min_def not_less word_le_nat_alt unat_eq_0 [symmetric])
    with False Cons.prems consider "p = (nu_numaId u, min (offer b w u) r)" | "p \<in> set (fst (fill_plan b w us (r - min (offer b w u) r)))"
      by (auto simp: case_prod_beta')
    then show ?thesis
    proof cases
      case 1
      then show ?thesis using \<open>min (offer b w u) r \<noteq> 0\<close> by auto
    next
      case 2
      from Cons.IH [OF 2] show ?thesis by auto
    qed
  qed (use Cons in \<open>auto split: if_splits\<close>)
qed simp

lemma plan_ids: "subseq (map fst (fst (fill_plan b w us r))) (map nu_numaId us)"
  by (induction us arbitrary: r) (auto simp: case_prod_beta')

lemma plan_blocks:
  "unat b dvd unat r \<Longrightarrow> p \<in> set (fst (fill_plan b w us r)) \<Longrightarrow> unat b dvd unat (snd p)"
proof (induction us arbitrary: r)
  case (Cons u us)
  show ?case
  proof (cases "r = 0 \<or> offer b w u < b")
    case False
    define m where "m = min (offer b w u) r"
    have m: "unat b dvd unat m" using Cons.prems(1) dvd_round_down [of b] by (auto simp: m_def offer_def min_def)
    have "m \<le> r" by (simp add: m_def)
    then have "unat (r - m) = unat r - unat m" by (rule unat_sub)
    with m Cons.prems(1) have "unat b dvd unat (r - m)" by (simp add: dvd_diff_nat)
    with Cons False m show ?thesis by (auto simp: m_def [symmetric] split: prod.splits)
  qed (use Cons in \<open>auto split: if_splits\<close>)
qed simp

lemma plan_short:
  "snd (fill_plan b w us r) \<noteq> 0 \<Longrightarrow> b \<noteq> 0 \<Longrightarrow>
     (\<Sum>p \<leftarrow> fst (fill_plan b w us r). unat (snd p)) = (\<Sum>u \<leftarrow> us. unat (offer b w u))"
proof (induction us arbitrary: r)
  case (Cons u us)
  have small: "offer b w u < b \<Longrightarrow> unat (offer b w u) = 0"
  proof -
    assume "offer b w u < b"
    then have "unat (NumaGetAvailableLendSize w u) div unat b * unat b < unat b"
      by (simp add: offer_def word_less_nat_alt unat_round_down)
    then show ?thesis by (auto simp: offer_def unat_round_down)
  qed
  show ?case
  proof (cases "r = 0 \<or> offer b w u < b")
    case False
    have all: "r - r = 0" by simp
    have "offer b w u \<le> r"
    proof (rule ccontr)
      assume "\<not> offer b w u \<le> r"
      then have "min (offer b w u) r = r" by simp
      with False Cons.prems have "snd (fill_plan b w us 0) \<noteq> 0" by (auto split: prod.splits)
      then show False using plan_total [of b w us 0] by (auto simp: unat_eq_0)
    qed
    then have "min (offer b w u) r = offer b w u" by simp
    with False Cons.prems Cons.IH [of "r - offer b w u"] show ?thesis by (auto simp: case_prod_beta')
  qed (use Cons small in \<open>auto split: if_splits\<close>)
qed simp

lemma plan_append:
  "fill_plan b w (us @ vs) r =
     (fst (fill_plan b w us r) @ fst (fill_plan b w vs (snd (fill_plan b w us r))), snd (fill_plan b w vs (snd (fill_plan b w us r))))"
proof (induction us arbitrary: r)
  case (Cons u us)
  have z: "fill_plan b w vs 0 = ([], 0)" for vs by (cases vs) auto
  show ?case using Cons z by (auto simp: case_prod_beta')
qed simp

text \<open>Enough on offer means nothing is left over.\<close>

lemma plan_suffices:
  assumes "unat r \<le> (\<Sum>u \<leftarrow> us. unat (offer b w u))" and "b \<noteq> 0"
  shows "snd (fill_plan b w us r) = 0"
proof (rule ccontr)
  assume n: "snd (fill_plan b w us r) \<noteq> 0"
  then have "0 < unat (snd (fill_plan b w us r))" by (simp add: unat_gt_0)
  with plan_total [of b w us r] plan_short [OF n assms(2)] assms(1) show False by simp
qed


section \<open>Both selections carry out a plan\<close>

lemma block_bytes_eq: "block_bytes res = ucast (ar_blockSize res) * 0x100000"
  by (simp add: block_bytes_def SizeMb2Byte_u32)

lemma unat_block_bytes: "unat (block_bytes res) = unat (ar_blockSize res) * 2 ^ 20"
  unfolding block_bytes_eq by (rule unat_mb_of_u32)

lemma block_bytes_0_iff: "block_bytes res = 0 \<longleftrightarrow> ar_blockSize res = 0"
  using unat_block_bytes [of res] by (simp add: unat_eq_0 [symmetric])

lemma push_plan_append: "push_plan req i sid (ps @ qs) res = push_plan req i sid qs (push_plan req i sid ps res)"
  by (simp add: push_plan_def)

lemma push_plan_block [simp]: "block_bytes (push_plan req i sid ps res) = block_bytes res"
  by (simp add: push_plan_result block_bytes_def)

lemma FillFromNumaList_plan:
  "FillFromNumaList us node req (res, r) =
     (push_plan req (sn_nodeId node) (sn_socketId node) (fst (fill_plan (block_bytes res) (water_line req) us r)) res,
      snd (fill_plan (block_bytes res) (water_line req) us r))"
  by (simp add: FillFromNumaList_def fill_loop_plan)

definition numas_at :: "node_manager \<Rightarrow> NodeId \<Rightarrow> SocketId \<Rightarrow> numa_info list" where
  "numas_at nm i sid = (case GetSocketInfo nm i sid of None \<Rightarrow> [] | Some s \<Rightarrow> map snd (sk_numas s))"

definition reliable :: "scheduler_request \<Rightarrow> bool" where
  "reliable req \<longleftrightarrow> GetParam_bool ''lenderBalance'' req = Some True \<and> rq_requestMode req = BORROW"

definition fill_order :: "env \<Rightarrow> node_manager \<Rightarrow> account_manager \<Rightarrow> scheduler_request \<Rightarrow> ScoredNode \<Rightarrow> numa_info list" where
  \<comment> \<open>the order in which the NUMA nodes of the socket are used\<close>
  "fill_order e nm am req node =
     (let us = GetSortedNumaList e nm (sn_nodeId node) (sn_socketId node);
          info = GetNumaBorrowInfo am (sn_nodeId node) (sn_socketId node) (rq_importNodeId req)
      in if reliable req
         then ev_sort_numa e (by_borrowers info) (filter (\<lambda>u. nu_numaId u \<in> borrowedByRequestor info) us) @
              ev_sort_numa e (by_borrowers info) (filter (\<lambda>u. nu_numaId u \<notin> borrowedByRequestor info) us)
         else us)"

lemma strict_weak_more_free: "strict_weak more_free"
  unfolding more_free_def by (rule strict_weak_key_desc)

lemma strict_weak_by_borrowers: "strict_weak (by_borrowers info)"
  unfolding by_borrowers_def by (rule strict_weak_lex_desc)

lemma mset_GetSortedNumaList:
  "std_sort (ev_sort_numa e) \<Longrightarrow> mset (GetSortedNumaList e nm i sid) = mset (numas_at nm i sid)"
  by (simp add: GetSortedNumaList_def numas_at_def std_sort.srt_perm strict_weak_more_free split: option.split)

lemma mset_fill_order:
  assumes "std_sort (ev_sort_numa e)"
  shows "mset (fill_order e nm am req node) = mset (numas_at nm (sn_nodeId node) (sn_socketId node))"
  using mset_GetSortedNumaList [OF assms]
  by (simp add: fill_order_def Let_def std_sort.srt_perm [OF assms strict_weak_by_borrowers] flip: multiset_partition)

lemma set_fill_order:
  "std_sort (ev_sort_numa e) \<Longrightarrow> set (fill_order e nm am req node) = set (numas_at nm (sn_nodeId node) (sn_socketId node))"
  using mset_fill_order by (metis set_mset_mset)

lemma sorted_numas_Nil: "std_sort (ev_sort_numa e) \<Longrightarrow> GetSortedNumaList e nm i sid = [] \<longleftrightarrow> numas_at nm i sid = []"
  using mset_GetSortedNumaList [of e nm i sid] by (metis mset_zero_iff)

text \<open>On a request that names no lender, \<open>FillAlgoResult\<close> is the plan on that order.\<close>

definition served :: "env \<Rightarrow> node_manager \<Rightarrow> account_manager \<Rightarrow> scheduler_request \<Rightarrow> ScoredNode \<Rightarrow> u32 \<Rightarrow> (NumaId \<times> u64) list \<times> u64" where
  "served e nm am req node blockSize =
     fill_plan (ucast blockSize * 0x100000) (water_line req) (fill_order e nm am req node) (rq_requestSize req)"

lemma FillAlgoResult_plan:
  assumes srt: "std_sort (ev_sort_numa e)" and n: "GetNodeInfo nm (sn_nodeId node) = Some n" and b: "no_blockSize n \<noteq> 0"
    and un: "named_lenders req = []"
  shows "FillAlgoResult e nm am req node res =
    (let res2 = res\<lparr>ar_blockSize := no_blockSize n, ar_attachSocketId := sn_socketId node\<rparr>;
         plan = served e nm am req node (no_blockSize n)
     in if numas_at nm (sn_nodeId node) (sn_socketId node) = [] then (UBSE_ERROR, res2)
        else (if snd plan > 0 then UBSE_ERROR else UBSE_OK,
              push_plan req (sn_nodeId node) (sn_socketId node) (fst plan) res2))"
proof -
  define res2 where "res2 = res\<lparr>ar_blockSize := no_blockSize n, ar_attachSocketId := sn_socketId node\<rparr>"
  have bb: "block_bytes res2 = ucast (no_blockSize n) * 0x100000" by (simp add: res2_def block_bytes_eq)
  have F: "FillAlgoResult e nm am req node res =
      (if reliable req then SelectNumaByReliable e nm am req node res2 else SelectNumaByFreeMemory e nm req node res2)"
    using n b un by (simp add: FillAlgoResult_def Let_def res2_def reliable_def)
  show ?thesis
  proof (cases "numas_at nm (sn_nodeId node) (sn_socketId node) = []")
    case True
    then have "GetSortedNumaList e nm (sn_nodeId node) (sn_socketId node) = []" using sorted_numas_Nil [OF srt] by blast
    with True show ?thesis
      unfolding F by (simp add: SelectNumaByReliable_def SelectNumaByFreeMemory_def Let_def res2_def)
  next
    case False
    then have ne: "GetSortedNumaList e nm (sn_nodeId node) (sn_socketId node) \<noteq> []" using sorted_numas_Nil [OF srt] by blast
    show ?thesis
    proof (cases "reliable req")
      case True
      show ?thesis
        using ne False True
        by (simp add: F SelectNumaByReliable_def FillFromNumaList_plan served_def fill_order_def Let_def bb plan_append
            push_plan_append flip: res2_def)
    next
      case no: False
      then show ?thesis
        using ne False
        by (simp add: F SelectNumaByFreeMemory_def FillFromNumaList_plan served_def fill_order_def Let_def bb
            flip: res2_def)
    qed
  qed
qed


lemma numas_at_ok:
  assumes "cache_ok nm" and "GetSocketInfo nm i sid = Some s"
  shows "distinct (map nu_numaId (map snd (sk_numas s)))" and "u \<in> set (map snd (sk_numas s)) \<Longrightarrow> map_of (sk_numas s) (nu_numaId u) = Some u"
proof -
  obtain n where n: "GetNodeInfo nm i = Some n" "map_of (no_sockets n) sid = Some s"
    using assms(2) by (auto simp: GetSocketInfo_def NodeGetSocketInfo_def split: option.splits)
  have "node_ok n" using cache_okD(1) [OF assms(1)] n(1) by (simp add: GetNodeInfo_def)
  moreover have "(sid, s) \<in> set (no_sockets n)" using n(2) by (rule map_of_SomeD)
  ultimately have "socket_ok s" by (auto simp: node_ok_def)
  then have ok: "om_ok (sk_numas s)" and keys: "\<And>k u. (k, u) \<in> set (sk_numas s) \<Longrightarrow> nu_numaId u = k"
    by (auto simp: socket_ok_def)
  have ids: "map nu_numaId (map snd (sk_numas s)) = map fst (sk_numas s)" using keys by (auto intro: map_cong)
  show "distinct (map nu_numaId (map snd (sk_numas s)))" unfolding ids using ok by (rule om_ok_distinct)
  show "u \<in> set (map snd (sk_numas s)) \<Longrightarrow> map_of (sk_numas s) (nu_numaId u) = Some u"
    using om_ok_distinct [OF ok] keys by force
qed

lemma served_facts:
  fixes req :: scheduler_request and am :: account_manager
  assumes srt: "std_sort (ev_sort_numa e)" and ok: "cache_ok nm"
    and s: "GetSocketInfo nm (sn_nodeId node) (sn_socketId node) = Some s" and b: "b \<noteq> 0"
  defines "ps \<equiv> fst (served e nm am req node b)"
  shows "distinct (map fst ps)"
    and "unat (snd (served e nm am req node b)) + (\<Sum>p \<leftarrow> ps. unat (snd p)) = unat (rq_requestSize req)"
    and "(j, sz) \<in> set ps \<Longrightarrow> \<exists>u. map_of (sk_numas s) j = Some u \<and> sz \<noteq> 0 \<and> sz \<le> NumaGetAvailableLendSize (water_line req) u"
    and "unat b * 2 ^ 20 dvd unat (rq_requestSize req) \<Longrightarrow> (j, sz) \<in> set ps \<Longrightarrow> unat b * 2 ^ 20 dvd unat sz"
proof -
  let ?b = "ucast b * 0x100000 :: u64"
  have b0: "?b \<noteq> 0" using b unat_mb_of_u32 [of b] by (auto simp: unat_eq_0 [symmetric])
  have us: "set (fill_order e nm am req node) = set (map snd (sk_numas s))"
    "mset (fill_order e nm am req node) = mset (map snd (sk_numas s))"
    using set_fill_order [OF srt] mset_fill_order [OF srt] s by (simp_all add: numas_at_def)
  have "mset (map nu_numaId (fill_order e nm am req node)) = mset (map nu_numaId (map snd (sk_numas s)))"
    using us(2) by (simp only: mset_map)
  then have "distinct (map nu_numaId (fill_order e nm am req node))"
    using numas_at_ok(1) [OF ok s] by (metis mset_eq_imp_distinct_iff)
  then show "distinct (map fst ps)"
    using plan_ids unfolding ps_def served_def by (metis distinct_nthsI subseq_conv_nths)
  show "unat (snd (served e nm am req node b)) + (\<Sum>p \<leftarrow> ps. unat (snd p)) = unat (rq_requestSize req)"
    unfolding ps_def served_def by (rule plan_total)
  show "\<exists>u. map_of (sk_numas s) j = Some u \<and> sz \<noteq> 0 \<and> sz \<le> NumaGetAvailableLendSize (water_line req) u" if m: "(j, sz) \<in> set ps"
  proof -
    obtain u where u: "u \<in> set (map snd (sk_numas s))" "j = nu_numaId u" "sz \<le> offer ?b (water_line req) u" "sz \<noteq> 0"
      using plan_member [OF m [unfolded ps_def served_def] b0] us by auto
    have "offer ?b (water_line req) u \<le> NumaGetAvailableLendSize (water_line req) u"
      unfolding offer_def by (rule round_down_le)
    with u numas_at_ok(2) [OF ok s u(1)] show ?thesis by auto
  qed
  show "unat b * 2 ^ 20 dvd unat sz" if "unat b * 2 ^ 20 dvd unat (rq_requestSize req)" "(j, sz) \<in> set ps"
    using plan_blocks [of ?b "rq_requestSize req" "(j, sz)"] that unat_mb_of_u32 [of b] by (simp add: ps_def served_def)
qed


section \<open>The free-memory filter is enough\<close>

lemma offers_cover:
  assumes ok: "ok_FreeMemory nm am req i sid" and r: "rq_requestSize req \<noteq> 0"
  obtains n s where "GetNodeInfo nm i = Some n" "no_blockSize n \<noteq> 0" "GetSocketInfo nm i sid = Some s"
    "unat (rq_requestSize req) \<le> (\<Sum>u \<leftarrow> map snd (sk_numas s). unat (offer (ucast (no_blockSize n) * 0x100000) (water_line req) u))"
proof -
  obtain n s where n: "GetNodeInfo nm i = Some n" "GetSocketInfo nm i sid = Some s" "no_blockSize n \<noteq> 0"
    and le: "rq_requestSize req \<le> SocketGetAvailableLendSize (water_line req) (ucast (no_blockSize n) * 0x100000) s"
    using ok r by (auto simp: ok_FreeMemory_def)
  let ?b = "ucast (no_blockSize n) * 0x100000 :: u64"
  have "?b \<noteq> 0" using n(3) unat_mb_of_u32 [of "no_blockSize n"] by (auto simp: unat_eq_0 [symmetric])
  note av = SocketGetAvailableLendSize_le [OF this, of "water_line req" s]
  have "unat (rq_requestSize req) \<le> unat (SocketGetAvailableLendSize (water_line req) ?b s)"
    using le by (simp add: word_le_nat_alt)
  also note av
  also have "(\<Sum>(k, u) \<leftarrow> sk_numas s. unat (NumaGetAvailableLendSize (water_line req) u div ?b * ?b)) =
      (\<Sum>u \<leftarrow> map snd (sk_numas s). unat (offer ?b (water_line req) u))"
    by (simp add: offer_def case_prod_beta' o_def)
  finally show thesis using that n by blast
qed

lemma sum_list_fill_order:
  assumes "std_sort (ev_sort_numa e)"
  shows "(\<Sum>u \<leftarrow> fill_order e nm am req node. f u) = (\<Sum>u \<leftarrow> numas_at nm (sn_nodeId node) (sn_socketId node). (f u :: nat))"
  using mset_fill_order [OF assms] by (metis mset_map sum_mset_sum_list)

lemma FillAlgoResult_never_short:
  assumes srt: "std_sort (ev_sort_numa e)" and un: "named_lenders req = []"
    and ok: "ok_FreeMemory nm am req (sn_nodeId node) (sn_socketId node)" and r: "rq_requestSize req \<noteq> 0"
  shows "fst (FillAlgoResult e nm am req node res) = UBSE_OK"
proof -
  obtain n s where n: "GetNodeInfo nm (sn_nodeId node) = Some n" "no_blockSize n \<noteq> 0"
    and s: "GetSocketInfo nm (sn_nodeId node) (sn_socketId node) = Some s"
    and le: "unat (rq_requestSize req) \<le>
      (\<Sum>u \<leftarrow> map snd (sk_numas s). unat (offer (ucast (no_blockSize n) * 0x100000) (water_line req) u))"
    using offers_cover [OF ok r] .
  let ?b = "ucast (no_blockSize n) * 0x100000 :: u64"
  have b0: "?b \<noteq> 0" using n(2) unat_mb_of_u32 [of "no_blockSize n"] by (auto simp: unat_eq_0 [symmetric])
  have at: "numas_at nm (sn_nodeId node) (sn_socketId node) = map snd (sk_numas s)" by (simp add: numas_at_def s)
  have "numas_at nm (sn_nodeId node) (sn_socketId node) \<noteq> []" using le r at by (auto simp: unat_eq_0)
  moreover have "snd (served e nm am req node (no_blockSize n)) = 0"
    unfolding served_def by (rule plan_suffices [OF _ b0]) (simp only: sum_list_fill_order [OF srt] at le)
  ultimately show ?thesis by (simp add: FillAlgoResult_plan [OF srt n un] Let_def)
qed


section \<open>Candidates keep sockets\<close>

text \<open>
  Only \<open>SpecifiedLinkFilter\<close> can leave a node without sockets in the list; every other filter
  keeps the property that each listed node has one, and the free-memory filter establishes it.
\<close>

definition all_sockets :: "NodeInfo list \<Rightarrow> bool" where
  "all_sockets nodes \<longleftrightarrow> (\<forall>n \<in> set nodes. nd_socketInfos n \<noteq> [])"

locale socket_keeper =
  fixes f :: filter_fn
  assumes keeps: "f nm am req nodes = (UBSE_OK, nodes') \<Longrightarrow> all_sockets nodes \<Longrightarrow> all_sockets nodes'"

lemma all_sockets_Nil [simp]: "all_sockets []" and all_sockets_empty [simp]: "all_sockets (RemoveEmptyNodes nodes)"
  and all_sockets_erase: "all_sockets nodes \<Longrightarrow> all_sockets (EraseNodesIf P nodes)"
  and all_sockets_cleanup [simp]: "all_sockets (CleanupEmptyNodes nodes)"
  by (auto simp: all_sockets_def RemoveEmptyNodes_def EraseNodesIf_def CleanupEmptyNodes_def)

interpretation config_keeps: socket_keeper ConfigConsistencyFilter
  by unfold_locales (auto simp: ConfigConsistencyFilter_def config_scan_error split: sum.splits option.splits if_splits)
interpretation role_keeps: socket_keeper RoleConflictFilter
  by unfold_locales (auto simp: RoleConflictFilter_def intro: all_sockets_erase split: option.splits if_splits)
interpretation lender_keeps: socket_keeper LenderRoleFilter
  by unfold_locales (auto simp: LenderRoleFilter_def intro: all_sockets_erase)
interpretation state_keeps: socket_keeper NodeStateFilter
  by unfold_locales (auto simp: NodeStateFilter_def intro: all_sockets_erase)
interpretation group_keeps: socket_keeper GroupFilter
  by unfold_locales (auto simp: GroupFilter_def Let_def intro: all_sockets_erase)
interpretation provider_keeps: socket_keeper ProviderFilter
  by unfold_locales (auto simp: ProviderFilter_def intro: all_sockets_erase split: if_splits)
interpretation requested_keeps: socket_keeper RequestedProvidersFilter
  by unfold_locales (auto simp: RequestedProvidersFilter_def intro: all_sockets_erase split: if_splits)
interpretation radius_borrow_keeps: socket_keeper RadiusBorrowFilter
  by unfold_locales (auto simp: RadiusBorrowFilter_def Let_def intro: all_sockets_erase split: if_splits)
interpretation radius_lender_keeps: socket_keeper RadiusLenderFilter
  by unfold_locales (auto simp: RadiusLenderFilter_def intro: all_sockets_erase split: if_splits)
interpretation lend_count_keeps: socket_keeper LendCountFilter
  by unfold_locales (auto simp: LendCountFilter_def Let_def)
interpretation max_lent_keeps: socket_keeper MaxLentSizeFilter
  by unfold_locales (auto simp: MaxLentSizeFilter_def)
interpretation shared_pool_keeps: socket_keeper SharedPoolFilter
  by unfold_locales (auto simp: SharedPoolFilter_def)
interpretation free_memory_keeps: socket_keeper FreeMemoryFilter
  by unfold_locales (auto simp: FreeMemoryFilter_def)
interpretation topo_keeps: socket_keeper TopoReachabilityFilter
  by unfold_locales (auto simp: TopoReachabilityFilter_def Let_def split: option.splits)
interpretation affinity_keeps: socket_keeper SocketAffinityFilter
  by unfold_locales (auto simp: SocketAffinityFilter_def Let_def split: option.splits if_splits)
interpretation region_keeps: socket_keeper RegionFilter
  by unfold_locales (auto simp: RegionFilter_def intro: all_sockets_erase split: option.splits)
interpretation specified_keeps: socket_keeper SpecifiedLenderFilter
  by unfold_locales (auto simp: SpecifiedLenderFilter_def Let_def split: option.splits list.splits sum.splits prod.splits if_splits)

lemma registered_keeper: "FindFilterByName name = Some f \<Longrightarrow> name \<noteq> ''SpecifiedLinkFilter'' \<Longrightarrow> socket_keeper f"
  unfolding FindFilterByName_def
  using config_keeps.socket_keeper_axioms role_keeps.socket_keeper_axioms lender_keeps.socket_keeper_axioms
    state_keeps.socket_keeper_axioms group_keeps.socket_keeper_axioms provider_keeps.socket_keeper_axioms
    requested_keeps.socket_keeper_axioms radius_borrow_keeps.socket_keeper_axioms radius_lender_keeps.socket_keeper_axioms
    lend_count_keeps.socket_keeper_axioms max_lent_keeps.socket_keeper_axioms shared_pool_keeps.socket_keeper_axioms
    free_memory_keeps.socket_keeper_axioms topo_keeps.socket_keeper_axioms affinity_keeps.socket_keeper_axioms
    region_keeps.socket_keeper_axioms specified_keeps.socket_keeper_axioms
  by (auto split: if_splits)

lemma chain_keeps_sockets:
  "FilterByNames names nm am req nodes = (UBSE_OK, nodes') \<Longrightarrow> ''SpecifiedLinkFilter'' \<notin> set names \<Longrightarrow>
     all_sockets nodes \<or> ''FreeMemoryFilter'' \<in> set names \<Longrightarrow> all_sockets nodes'"
proof (induction names arbitrary: nodes)
  case (Cons name names)
  obtain nodes1 where n: "FilterByNames names nm am req nodes1 = (UBSE_OK, nodes')"
    and none: "FindFilterByName name = None \<Longrightarrow> nodes1 = nodes"
    and some: "\<And>f. FindFilterByName name = Some f \<Longrightarrow> f nm am req nodes = (UBSE_OK, nodes1)"
    using FilterByNames_step [OF Cons.prems(1)] by blast
  have "all_sockets nodes1" if "name = ''FreeMemoryFilter''"
    using some [of FreeMemoryFilter] that by (auto simp: FindFilterByName_def FreeMemoryFilter_def)
  moreover have "all_sockets nodes1" if "all_sockets nodes"
    using none some that registered_keeper [of name] Cons.prems(2) socket_keeper.keeps
    by (cases "FindFilterByName name") fastforce+
  ultimately have "all_sockets nodes1 \<or> ''FreeMemoryFilter'' \<in> set names" using Cons.prems(3) by auto
  with Cons.IH [OF n] Cons.prems(2) show ?case by simp
qed simp


section \<open>Scheduling on a refreshed cache\<close>

definition env_ok :: "env \<Rightarrow> bool" where
  \<comment> \<open>\<open>std::sort\<close> keeps its contract at both types it is used for\<close>
  "env_ok e \<longleftrightarrow> std_sort (ev_sort_scored e) \<and> std_sort (ev_sort_numa e)"

lemma cache_ok_distinct: "cache_ok nm \<Longrightarrow> distinct (map nd_nodeId (nm_nodeInfos nm))"
  by (simp add: cache_ok_def)

text \<open>The best candidate of a non-empty filtered list.\<close>

lemma best_of:
  assumes srt: "std_sort srt" and ne: "candidates nodes \<noteq> []"
  obtains best where "ScoreAndRank srt nodes nm am req 1 = (UBSE_OK, [best])" "(sn_nodeId best, sn_socketId best) \<in> cands nodes"
proof -
  obtain rs where c: "ComputeWeightedScores nodes nm am req = (UBSE_OK, rs)"
    and ids: "scored_ids rs = map (\<lambda>(i, si). (i, si_socketId si)) (candidates nodes)"
    using ComputeWeightedScores_total by blast
  have rs: "rs \<noteq> []" using arg_cong [OF ids, of length] ne by (auto simp: scored_ids_def)
  then have r: "ScoreAndRank srt nodes nm am req 1 = (UBSE_OK, [hd (srt cheaper rs)])"
    by (simp only: ScoreAndRank_cases [OF srt c] if_False)
  have "hd (srt cheaper rs) \<in> set rs" using ScoreAndRank_hd(2) [OF srt r c] .
  then have "(sn_nodeId (hd (srt cheaper rs)), sn_socketId (hd (srt cheaper rs))) \<in> set (scored_ids rs)"
    by (force simp: scored_ids_def)
  then show thesis using that [OF r] by (simp add: ids cands_candidates)
qed

lemma no_best: "candidates nodes = [] \<Longrightarrow> std_sort srt \<Longrightarrow>
    ScoreAndRank srt nodes nm am req 1 = (UBSE_SCHEDULER_ERROR_NO_NODE_CAN_LEND, [])"
proof -
  assume ne: "candidates nodes = []" and srt: "std_sort srt"
  obtain rs where c: "ComputeWeightedScores nodes nm am req = (UBSE_OK, rs)"
    and ids: "scored_ids rs = map (\<lambda>(i, si). (i, si_socketId si)) (candidates nodes)"
    using ComputeWeightedScores_total by blast
  have "rs = []" using arg_cong [OF ids, of length] ne by (simp add: scored_ids_def)
  then show ?thesis by (simp add: ScoreAndRank_cases [OF srt c, simplified])
qed

lemma no_candidate_error: "no_candidate nm am req \<noteq> UBSE_OK"
  by (auto simp: no_candidate_def split: prod.splits)

lemma ScheduleOn_cases:
  assumes env: "env_ok e" and f: "FilterNodes nm am req (nm_nodeInfos nm) = (ret, nodes)"
  obtains (filter_error) "ret \<noteq> UBSE_OK" "ScheduleOn e nm am req res = (ret, res)"
  | (none) "ret = UBSE_OK" "nodes = []" "ScheduleOn e nm am req res = (no_candidate nm am req, res)"
  | (no_socket) "ret = UBSE_OK" "nodes \<noteq> []" "candidates nodes = []"
      "ScheduleOn e nm am req res = (UBSE_SCHEDULER_ERROR_NO_NODE_CAN_LEND, res)"
  | (best) best where "ret = UBSE_OK" "(sn_nodeId best, sn_socketId best) \<in> cands nodes"
      "ScheduleOn e nm am req res = FillAlgoResult e nm am req best res"
proof -
  have srt: "std_sort (ev_sort_scored e)" using env by (simp add: env_ok_def)
  show thesis
  proof (cases "ret = UBSE_OK \<and> nodes \<noteq> []")
    case False
    then show ?thesis using filter_error none f by (auto simp: ScheduleOn_def)
  next
    case True
    show ?thesis
    proof (cases "candidates nodes = []")
      case True': True
      then show ?thesis using no_socket True f no_best [OF True' srt, of nm am req] by (simp add: ScheduleOn_def)
    next
      case False
      obtain b where b: "ScoreAndRank (ev_sort_scored e) nodes nm am req 1 = (UBSE_OK, [b])"
        "(sn_nodeId b, sn_socketId b) \<in> cands nodes"
        using best_of [OF srt False, of nm am req] by blast
      then show ?thesis using best [of b] True f by (simp add: ScheduleOn_def)
    qed
  qed
qed

lemma filtered_satisfies:
  assumes "cache_ok nm" and "FilterNodes nm am req (nm_nodeInfos nm) = (UBSE_OK, nodes)" and "c \<in> cands nodes"
  shows "c \<in> cands (nm_nodeInfos nm)" and "name \<in> set (rq_filterNames req) \<Longrightarrow> satisfies nm am req name c"
  using FilterByNames_cands(1) [OF assms(2) [unfolded FilterNodes_def] cache_ok_distinct [OF assms(1)]] assms(3) by auto

lemma satisfies_free: "satisfies nm am req ''FreeMemoryFilter'' c \<Longrightarrow> ok_FreeMemory nm am req (fst c) (snd c)"
  by (simp add: satisfies_def FindConstraint_def)

lemma schedule_feasible:
  assumes env: "env_ok e" and ok: "cache_ok nm" and f: "FilterNodes nm am req (nm_nodeInfos nm) = (UBSE_OK, nodes)" and ne: "nodes \<noteq> []"
    and free: "''FreeMemoryFilter'' \<in> set (rq_filterNames req)" and link: "''SpecifiedLinkFilter'' \<notin> set (rq_filterNames req)"
    and un: "named_lenders req = []" and r: "rq_requestSize req \<noteq> 0"
  shows "fst (ScheduleOn e nm am req res) = UBSE_OK"
proof (cases rule: ScheduleOn_cases [OF env f, of res, case_names filter_error none no_socket best])
  case no_socket
  have "all_sockets nodes" using chain_keeps_sockets [OF f [unfolded FilterNodes_def] link] free by blast
  with no_socket show ?thesis by (cases nodes) (auto simp: candidates_def all_sockets_def)
next
  case (best b)
  have "ok_FreeMemory nm am req (sn_nodeId b) (sn_socketId b)"
    using satisfies_free [OF filtered_satisfies(2) [OF ok f best(2) free]] by simp
  with FillAlgoResult_never_short [OF _ un _ r] env best(3) show ?thesis by (simp add: env_ok_def)
qed (use ne in auto)


lemma probe_params: "key \<noteq> ''silent_replay'' \<Longrightarrow> rq_params (probe_request nm req) key = rq_params req key"
  by (simp add: probe_request_def SetParam_def)

lemma probe_request_simps [simp]:
  "rq_filterNames (probe_request nm req) = rq_filterNames req" "rq_requestSize (probe_request nm req) = probe_size nm req"
  "named_lenders (probe_request nm req) = named_lenders req"
  by (simp_all add: probe_request_def SetParam_def named_lenders_def GetParam_lenderInfos_def)

lemma probe_size_pos: "probe_size nm req \<noteq> 0"
proof -
  let ?b = "GetRequestNodeBlockSize (rq_importNodeId req) (rq_requestNodeId req) (Some nm)"
  have "unat (ucast ?b * 0x100000 :: u64) = unat ?b * 2 ^ 20" by (rule unat_mb_of_u32)
  then have "?b \<noteq> 0 \<Longrightarrow> ucast ?b * 0x100000 \<noteq> (0 :: u64)" by (auto simp: unat_eq_0 [symmetric])
  then show ?thesis by (auto simp: probe_size_def Let_def SizeMb2Byte_u32 ONE_M_def)
qed

lemma granted_facts:
  assumes "env_ok e" and "cache_ok nm" and "named_lenders req = []"
    and "ar_exportNumaInfos res = []" and "ar_importNumaInfos res = []"
    and "ScheduleOn e nm am req res = (UBSE_OK, res')"
  shows "\<exists>i sid n s ps. (i, sid) \<in> cands (nm_nodeInfos nm) \<and>
    (\<forall>name \<in> set (rq_filterNames req). satisfies nm am req name (i, sid)) \<and>
    GetNodeInfo nm i = Some n \<and> GetSocketInfo nm i sid = Some s \<and>
    ar_blockSize res' = no_blockSize n \<and> ar_attachSocketId res' = sid \<and>
    ar_exportNumaInfos res' = map (\<lambda>(j, sz). debt i sid j sz) ps \<and>
    ar_importNumaInfos res' = (if rq_requestMode req = BORROW then map (\<lambda>(j, sz). debt (rq_importNodeId req) sid j sz) ps else []) \<and>
    distinct (map fst ps) \<and> (\<Sum>p \<leftarrow> ps. unat (snd p)) = unat (rq_requestSize req) \<and>
    (\<forall>(j, sz) \<in> set ps. \<exists>u. map_of (sk_numas s) j = Some u \<and> sz \<noteq> 0 \<and> sz \<le> NumaGetAvailableLendSize (water_line req) u)"
proof -
  have srt: "std_sort (ev_sort_numa e)" using assms(1) by (simp add: env_ok_def)
  obtain ret nodes where f: "FilterNodes nm am req (nm_nodeInfos nm) = (ret, nodes)" by fastforce
  show ?thesis
  proof (cases rule: ScheduleOn_cases [OF assms(1) f, of res, case_names filter_error none no_socket best])
    case (best b)
    define i sid where "i = sn_nodeId b" and "sid = sn_socketId b"
    have fill: "FillAlgoResult e nm am req b res = (UBSE_OK, res')" using best(3) assms(6) by simp
    then obtain n where n: "GetNodeInfo nm i = Some n" "no_blockSize n \<noteq> 0"
      by (auto simp: FillAlgoResult_def i_def Let_def split: option.splits if_splits)
    note plan = fill [unfolded FillAlgoResult_plan [OF srt n(1) [unfolded i_def] n(2) assms(3)] Let_def]
    have ne: "numas_at nm i sid \<noteq> []" using plan by (auto simp: i_def sid_def)
    then obtain s where s: "GetSocketInfo nm i sid = Some s" by (auto simp: numas_at_def split: option.splits)
    define ps where "ps = fst (served e nm am req b (no_blockSize n))"
    have left: "snd (served e nm am req b (no_blockSize n)) = 0"
      using plan ne by (auto simp: i_def sid_def word_gt_0 split: if_splits)
    have r: "res' = push_plan req i sid ps (res\<lparr>ar_blockSize := no_blockSize n, ar_attachSocketId := sid\<rparr>)"
      using plan ne by (auto simp: i_def sid_def ps_def)
    note facts = served_facts [OF srt assms(2) s [unfolded i_def sid_def] n(2), where req = req and am = am, folded ps_def]
    have "(i, sid) \<in> cands (nm_nodeInfos nm)" "\<forall>name \<in> set (rq_filterNames req). satisfies nm am req name (i, sid)"
      using filtered_satisfies [OF assms(2) f [unfolded best(1)] best(2)] by (auto simp: i_def sid_def)
    then show ?thesis
      using n s facts(1,3) facts(2) left
      by (intro exI [of _ i] exI [of _ sid] exI [of _ n] exI [of _ s] exI [of _ ps])
        (auto simp: r push_plan_result assms(4,5))
  qed (use assms(6) no_candidate_error no_candidate_error [symmetric] in auto)
qed

section \<open>Properties\<close>


definition demo_lender :: node_info where
  "demo_lender = \<lparr>no_nodeId = ''2'', no_hostName = ''h2'', no_allocator = HUGETLB_PMD, no_pmdMapping = 100, no_blockSize = 128,
     no_nodeMaxLendGb = 0, no_isLender = True, no_clusterState = UBSE_NODE_WORKING,
     no_sockets = [(36, (SchedulerSocketInfo_new 36)\<lparr>sk_maxExportTimes := 16,
       sk_numas := [(0, (SchedulerNumaInfo_new 0)\<lparr>memTotal := 0x40000000, memFree := 0x40000000\<rparr>)]\<rparr>)]\<rparr>"

definition demo_cluster :: node_manager where
  "demo_cluster = SchedulerNodeManager_new\<lparr>nm_nodeMap := [''2'' \<mapsto> demo_lender], nm_nodeInfos := [GetNodeInfoView demo_lender]\<rparr>"

definition demo_env :: env where
  "demo_env = \<lparr>ev_platform = platform_x86, ev_deployed = {}, ev_nodes = [], ev_sort_scored = isort_by, ev_sort_numa = isort_by\<rparr>"

definition demo_borrow :: scheduler_request where
  "demo_borrow = SchedulerRequest_new\<lparr>rq_importNodeId := ''1'', rq_requestNodeId := ''1'', rq_requestSize := 0x8000000,
     rq_filterNames := [''LenderRoleFilter'', ''NodeStateFilter'', ''FreeMemoryFilter'']\<rparr>"

lemma demo_env_ok: "env_ok demo_env"
  by (simp add: env_ok_def demo_env_def isort.std_sort_axioms)

lemma demo_cluster_ok: "cache_ok demo_cluster"
  by (simp add: cache_ok_def demo_cluster_def demo_lender_def SchedulerNodeManager_new_def node_ok_def socket_ok_def om_ok_def
      SchedulerSocketInfo_new_def SchedulerNumaInfo_new_def)

definition demo_socket :: socket_info where
  "demo_socket = (SchedulerSocketInfo_new 36)\<lparr>sk_maxExportTimes := 16,
     sk_numas := [(0, (SchedulerNumaInfo_new 0)\<lparr>memTotal := 0x40000000, memFree := 0x40000000\<rparr>)]\<rparr>"

lemma demo_lookup [simp]:
  "GetNodeInfo demo_cluster ''2'' = Some demo_lender" "GetSocketInfo demo_cluster ''2'' 36 = Some demo_socket"
  "nm_nodeInfos demo_cluster = [\<lparr>nd_nodeId = ''2'', nd_socketInfos = [\<lparr>si_socketId = 36, si_numaInfos = [0]\<rparr>]\<rparr>]"
  "no_isLender demo_lender" "no_clusterState demo_lender = UBSE_NODE_WORKING" "no_blockSize demo_lender = 128"
  by (simp_all add: GetSocketInfo_def GetNodeInfo_def demo_cluster_def demo_lender_def demo_socket_def NodeGetSocketInfo_def
      GetNodeInfoView_def GetSocketInfoView_def SchedulerSocketInfo_new_def SchedulerNumaInfo_new_def)

lemma demo_available: "SocketGetAvailableLendSize 100 0x8000000 demo_socket = 0x40000000"
  by (simp add: SocketGetAvailableLendSize_def demo_socket_def NumaGetAvailableLendSize_def SchedulerSocketInfo_new_def
      SchedulerNumaInfo_new_def MAX_PERCENT_def add_keep_def SafeAdd_def)

lemma demo_chain:
  assumes "rq_filterNames req = [''LenderRoleFilter'', ''NodeStateFilter'', ''FreeMemoryFilter'']"
    and "rq_requestSize req \<noteq> 0" and "water_line req = 100"
  shows "FilterNodes demo_cluster SchedulerAccountManager_new req (nm_nodeInfos demo_cluster) =
    (UBSE_OK, if 0x40000000 < rq_requestSize req then [] else nm_nodeInfos demo_cluster)"
proof -
  have mb: "SizeMb2Byte 128 = (True, 0x8000000)" using SizeMb2Byte_u32 [of 128] by simp
  have free: "FreeMemoryFilter demo_cluster SchedulerAccountManager_new req (nm_nodeInfos demo_cluster) =
      (UBSE_OK, if 0x40000000 < rq_requestSize req then [] else nm_nodeInfos demo_cluster)"
    by (simp add: FreeMemoryFilter_def RemoveEmptyNodes_def EraseSocketsIf_def assms mb demo_available)
  show ?thesis
    using free by (simp add: FilterNodes_def assms(1) FindFilterByName_def LenderRoleFilter_def NodeStateFilter_def EraseNodesIf_def)
qed

lemma demo_water_line: "rq_params req ''highWatermark'' = None \<Longrightarrow> water_line req = 100"
  by (simp add: water_line_def GetParam_size_def MAX_PERCENT_def)

lemma demo_filtered: "FilterNodes demo_cluster SchedulerAccountManager_new demo_borrow (nm_nodeInfos demo_cluster) =
    (UBSE_OK, nm_nodeInfos demo_cluster)"
  by (subst demo_chain) (simp_all add: demo_water_line demo_borrow_def SchedulerRequest_new_def)

lemma demo_unnamed: "named_lenders demo_borrow = []"
  by (simp add: named_lenders_def demo_borrow_def SchedulerRequest_new_def GetParam_lenderInfos_def)

lemma demo_granted: "fst (ScheduleOn demo_env demo_cluster SchedulerAccountManager_new demo_borrow algo_result_init) = UBSE_OK"
  by (rule schedule_feasible [OF demo_env_ok demo_cluster_ok demo_filtered])
    (simp_all add: demo_cluster_def demo_borrow_def demo_unnamed [unfolded demo_borrow_def])






definition demo_big :: scheduler_request where
  "demo_big = demo_borrow\<lparr>rq_requestSize := 0x80000000\<rparr>"

lemma demo_big_facts:
  "rq_filterNames demo_big = [''LenderRoleFilter'', ''NodeStateFilter'', ''FreeMemoryFilter'']" "rq_requestSize demo_big = 0x80000000"
  "rq_params demo_big = Map.empty" "probe_size demo_cluster demo_big = 0x100000"
  by (simp_all add: demo_big_def demo_borrow_def SchedulerRequest_new_def probe_size_def GetRequestNodeBlockSize_def GetNodeInfo_def
      demo_cluster_def ONE_M_def split: prod.split)

lemma demo_big_filtered:
  "FilterNodes demo_cluster SchedulerAccountManager_new demo_big (nm_nodeInfos demo_cluster) = (UBSE_OK, [])"
  "FilterNodes demo_cluster SchedulerAccountManager_new (probe_request demo_cluster demo_big) (nm_nodeInfos demo_cluster) =
     (UBSE_OK, nm_nodeInfos demo_cluster)"
  by (subst demo_chain; simp add: demo_water_line probe_params demo_big_facts)+


end
