(* ===== verification/Ledger.thy ===== *)
theory Ledger
  imports AccountManager
begin

text \<open>
  The ledger: what is booked on the NUMA nodes and sockets is exactly what the accounts say.
  The four counters (lent, shared and borrowed bytes, lent blocks) obey one contract, the
  locale \<open>item_counter\<close>, which carries the arithmetic; the account state machine moves each
  of them by the difference of the booked sides.
\<close>

section \<open>A counter per key, moved by lists of items\<close>

definition due :: "('i \<Rightarrow> 'k) \<Rightarrow> ('i \<Rightarrow> u64) \<Rightarrow> 'i list \<Rightarrow> 'k \<Rightarrow> nat" where
  "due key amt ds k = (\<Sum>d \<leftarrow> ds. if key d = k then unat (amt d) else 0)"

definition balanced :: "('s \<Rightarrow> 'k \<Rightarrow> u64 option) \<Rightarrow> 's \<Rightarrow> ('k \<Rightarrow> nat) \<Rightarrow> bool" where
  "balanced rd s T \<longleftrightarrow> (\<forall>k v. rd s k = Some v \<longrightarrow> unat v = T k)"

lemma due_simps [simp]:
  "due key amt [] k = 0"
  "due key amt (d # ds) k = (if key d = k then unat (amt d) else 0) + due key amt ds k"
  by (simp_all add: due_def)

lemma fold_frame: "(\<And>d s. rd (f d s) = rd s) \<Longrightarrow> rd (fold f ds s) = rd s"
  by (induction ds arbitrary: s) auto

lemma balancedD: "balanced rd s T \<Longrightarrow> rd s k = Some v \<Longrightarrow> unat v = T k"
  by (simp add: balanced_def)

lemma balanced_cong: "rd s' = rd s \<Longrightarrow> balanced rd s' T = balanced rd s T"
  by (simp add: balanced_def)

locale item_counter =
  fixes rd :: "'s \<Rightarrow> 'k \<Rightarrow> u64 option"
    and key :: "'i \<Rightarrow> 'k"
    and amt :: "'i \<Rightarrow> u64"
    and add sub :: "'i \<Rightarrow> 's \<Rightarrow> 's"
  assumes rd_add: "rd (add d s) k = (if key d = k then map_option (\<lambda>v. add_keep v (amt d)) (rd s k) else rd s k)"
    and rd_sub: "rd (sub d s) k = (if key d = k then map_option (\<lambda>v. sub_keep v (amt d)) (rd s k) else rd s k)"
begin

lemma balanced_add:
  "balanced rd s T \<Longrightarrow> (\<forall>k. T k + due key amt ds k < 2 ^ 64) \<Longrightarrow>
     balanced rd (fold add ds s) (\<lambda>k. T k + due key amt ds k)"
proof (induction ds arbitrary: s T)
  case (Cons d ds)
  let ?T = "\<lambda>k. T k + (if key d = k then unat (amt d) else 0)"
  have lt: "T (key d) + unat (amt d) < 2 ^ 64"
    using spec [OF Cons.prems(2), of "key d"] by simp
  have "balanced rd (add d s) ?T"
    using Cons.prems(1) lt by (auto simp: balanced_def rd_add unat_add_keep split: if_splits)
  with Cons.IH [of "add d s" ?T] Cons.prems(2) show ?case
    by (simp add: add.assoc)
qed simp

lemma balanced_sub:
  "balanced rd s T \<Longrightarrow> (\<forall>k. due key amt ds k \<le> T k) \<Longrightarrow>
     balanced rd (fold sub ds s) (\<lambda>k. T k - due key amt ds k)"
proof (induction ds arbitrary: s T)
  case (Cons d ds)
  let ?T = "\<lambda>k. T k - (if key d = k then unat (amt d) else 0)"
  have le: "unat (amt d) \<le> T (key d)"
    using spec [OF Cons.prems(2), of "key d"] by simp
  have "balanced rd (sub d s) ?T"
    using Cons.prems(1) le by (auto simp: balanced_def rd_sub unat_sub_keep split: if_splits)
  moreover have "due key amt ds k \<le> ?T k" for k
    using spec [OF Cons.prems(2), of k] by (auto split: if_splits)
  ultimately show ?case
    using Cons.IH [of "sub d s" ?T] by simp
qed simp

text \<open>A side that becomes booked is added, one that stops being booked is subtracted.\<close>

lemma balanced_move:
  assumes "balanced rd s T"
    and "\<forall>k. (if old then due key amt ds k else 0) \<le> T k"
    and "\<forall>k. T k - (if old then due key amt ds k else 0) + (if new then due key amt ds k else 0) < 2 ^ 64"
  shows "balanced rd (if old = new then s else if new then fold add ds s else fold sub ds s)
    (\<lambda>k. T k - (if old then due key amt ds k else 0) + (if new then due key amt ds k else 0))"
proof -
  consider "old" "new" | "old" "\<not> new" | "\<not> old" "new" | "\<not> old" "\<not> new" by blast
  then show ?thesis
  proof cases
    case 1
    with assms show ?thesis by simp
  next
    case 2
    with assms balanced_sub [OF assms(1)] show ?thesis by simp
  next
    case 3
    with assms balanced_add [OF assms(1)] show ?thesis by simp
  next
    case 4
    with assms(1) show ?thesis by simp
  qed
qed

end

section \<open>The four counters\<close>

definition key_numa :: "UbseMemDebtNumaInfo \<Rightarrow> NodeId \<times> NumaId" where
  "key_numa d = (dn_nodeId d, dn_numa d)"

definition key_sock :: "UbseMemDebtNumaInfo \<Rightarrow> NodeId \<times> SocketId" where
  "key_sock d = (dn_nodeId d, dn_socketId d)"

definition rd_lent :: "node_manager \<Rightarrow> NodeId \<times> NumaId \<Rightarrow> u64 option" where
  "rd_lent nm k = map_option memLent (GetNumaInfo nm (fst k) (snd k))"

definition rd_shared :: "node_manager \<Rightarrow> NodeId \<times> NumaId \<Rightarrow> u64 option" where
  "rd_shared nm k = map_option memShared (GetNumaInfo nm (fst k) (snd k))"

definition rd_count :: "node_manager \<Rightarrow> NodeId \<times> SocketId \<Rightarrow> u64 option" where
  "rd_count nm k = map_option sk_lentCount (GetSocketInfo nm (fst k) (snd k))"

definition first_borrow :: "socket_info \<Rightarrow> u64 option" where
  "first_borrow s = (case sk_numas s of [] \<Rightarrow> None | (j, u) # us \<Rightarrow> Some (memBorrow u))"

definition rd_borrow :: "node_manager \<Rightarrow> NodeId \<times> SocketId \<Rightarrow> u64 option" where
  "rd_borrow nm k = Option.bind (GetSocketInfo nm (fst k) (snd k)) first_borrow"

definition blocks_at :: "u32 \<Rightarrow> UbseMemDebtNumaInfo \<Rightarrow> u64" where
  "blocks_at bs d = blocks_of bs (dn_size d)"

lemma LentCount_frame [frame_simps]:
  "sk_numas (AddLentCount c s) = sk_numas s" "sk_numas (SubLentCount c s) = sk_numas s"
  "sk_lentCount (AddLentCount c s) = add_keep (sk_lentCount s) c"
  "sk_lentCount (SubLentCount c s) = sub_keep (sk_lentCount s) c"
  by (simp_all add: AddLentCount_def SubLentCount_def)

lemma GetNumaInfo_upd_socket_frame:
  assumes "\<And>s. sk_numas (h s) = sk_numas s"
  shows "GetNumaInfo (upd_socket i sid h nm) i' j = GetNumaInfo nm i' j"
  using GetNumaInfo_upd_socket [of id j h i sid nm i'] assms
  by (simp add: SocketGetNumaInfo_def option.map_id)

lemma upd_first_numa_read:
  assumes "\<And>u. g (f u) = g u"
  shows "map_option g (SocketGetNumaInfo j (upd_first_numa f s)) = map_option g (SocketGetNumaInfo j s)"
  by (auto simp: upd_first_numa_def SocketGetNumaInfo_def assms split: list.split)

lemma first_borrow_upd_numa:
  assumes "\<And>u. memBorrow (f u) = memBorrow u"
  shows "first_borrow (upd_numa_of j f s) = first_borrow s"
  by (auto simp: first_borrow_def om_upd_def assms split: list.split)

lemma first_borrow_upd_first: "first_borrow (upd_first_numa (\<lambda>u. u\<lparr>memBorrow := h (memBorrow u)\<rparr>) s) = map_option h (first_borrow s)"
  by (auto simp: first_borrow_def upd_first_numa_def split: list.split)

lemma rd_borrow_upd_numa:
  assumes "\<And>u. memBorrow (f u) = memBorrow u"
  shows "rd_borrow (upd_numa i j f nm) k = rd_borrow nm k"
proof -
  have "map_option first_borrow (GetSocketInfo (upd_numa i j f nm) (fst k) (snd k)) =
      map_option first_borrow (GetSocketInfo nm (fst k) (snd k))"
    by (rule GetSocketInfo_upd_numa) (rule first_borrow_upd_numa, rule assms)
  then show ?thesis
    by (cases "GetSocketInfo (upd_numa i j f nm) (fst k) (snd k)"; cases "GetSocketInfo nm (fst k) (snd k)")
      (auto simp: rd_borrow_def)
qed

lemma rd_upd_numa_sock [frame_simps]:
  "rd_count (upd_numa i j f nm) k = rd_count nm k"
  by (simp add: rd_count_def GetSocketInfo_upd_numa)

lemmas rd_defs = rd_lent_def rd_shared_def rd_count_def key_numa_def key_sock_def blocks_at_def
lemmas book_defs = add_lend_at_def sub_lend_at_def add_share_at_def sub_share_at_def
lemmas book_frames = GetNumaInfo_upd_socket_frame [OF LentCount_frame(1)]
  GetNumaInfo_upd_socket_frame [OF LentCount_frame(2)]

lemma map_option_upd_eq:
  "(\<And>u. g (f u) = h (g u)) \<Longrightarrow> map_option g (map_option f x) = map_option h (map_option g x)"
  by (cases x) simp_all

interpretation lent: item_counter rd_lent key_numa dn_size "add_lend_at bs" "sub_lend_at bs" for bs
  by unfold_locales
    (auto simp: rd_defs book_defs book_frames GetNumaInfo_upd_numa numa_op_defs intro!: map_option_upd_eq)

interpretation shared: item_counter rd_shared key_numa dn_size "add_share_at bs" "sub_share_at bs" for bs
  by unfold_locales
    (auto simp: rd_defs book_defs book_frames GetNumaInfo_upd_numa numa_op_defs intro!: map_option_upd_eq)

lemma rd_count_upd_socket:
  assumes "\<And>s. sk_lentCount (h s) = g (sk_lentCount s)"
  shows "rd_count (upd_socket i sid h nm) k = (if (i, sid) = k then map_option g (rd_count nm k) else rd_count nm k)"
  by (cases k) (auto simp: rd_count_def GetSocketInfo_upd_socket assms intro!: map_option_upd_eq)

lemma rd_count_lent:
  "rd_count (upd_socket i sid (AddLentCount c) nm) k =
     (if (i, sid) = k then map_option (\<lambda>v. add_keep v c) (rd_count nm k) else rd_count nm k)"
  "rd_count (upd_socket i sid (SubLentCount c) nm) k =
     (if (i, sid) = k then map_option (\<lambda>v. sub_keep v c) (rd_count nm k) else rd_count nm k)"
  by (rule rd_count_upd_socket, simp add: frame_simps)+

interpretation lend_count: item_counter rd_count key_sock "blocks_at bs" "add_lend_at bs" "sub_lend_at bs" for bs
  by unfold_locales
    (simp_all add: book_defs rd_count_lent rd_upd_numa_sock key_sock_def blocks_at_def)

interpretation share_count: item_counter rd_count key_sock "blocks_at bs" "add_share_at bs" "sub_share_at bs" for bs
  by unfold_locales
    (simp_all add: book_defs rd_count_lent rd_upd_numa_sock key_sock_def blocks_at_def)

lemma rd_borrow_upd_socket:
  assumes "\<And>s. first_borrow (h s) = map_option g (first_borrow s)"
  shows "rd_borrow (upd_socket i sid h nm) k = (if (i, sid) = k then map_option g (rd_borrow nm k) else rd_borrow nm k)"
proof (cases "GetSocketInfo nm (fst k) (snd k)")
  case (Some s)
  then show ?thesis
    using assms [of s] by (cases k) (auto simp: rd_borrow_def GetSocketInfo_upd_socket)
qed (cases k, auto simp: rd_borrow_def GetSocketInfo_upd_socket)

lemma first_borrow_add: "first_borrow (upd_first_numa (AddNumaBorrowSize v) s) = map_option (\<lambda>x. add_keep x v) (first_borrow s)"
  and first_borrow_sub: "first_borrow (upd_first_numa (SubNumaBorrowSize v) s) = map_option (\<lambda>x. sub_keep x v) (first_borrow s)"
  using first_borrow_upd_first [of "\<lambda>x. add_keep x v"] first_borrow_upd_first [of "\<lambda>x. sub_keep x v"]
  by (simp_all add: AddNumaBorrowSize_def [abs_def] SubNumaBorrowSize_def [abs_def])

interpretation borrow: item_counter rd_borrow key_sock dn_size add_borrow_at sub_borrow_at
  by unfold_locales
    (simp_all add: add_borrow_at_def sub_borrow_at_def rd_borrow_upd_socket [OF first_borrow_add]
      rd_borrow_upd_socket [OF first_borrow_sub] key_sock_def)

text \<open>Booking one side leaves the counters of the others alone.\<close>

lemma first_borrow_lent_count:
  "first_borrow (AddLentCount c s) = map_option (\<lambda>x. x) (first_borrow s)"
  "first_borrow (SubLentCount c s) = map_option (\<lambda>x. x) (first_borrow s)"
  by (simp_all add: first_borrow_def frame_simps option.map_ident)

lemma numa_op_frames:
  "memBorrow (AddNumaLentSize v u) = memBorrow u" "memBorrow (SubNumaLentSize v u) = memBorrow u"
  "memBorrow (AddNumaShareSize v u) = memBorrow u" "memBorrow (SubNumaShareSize v u) = memBorrow u"
  "memLent (AddNumaShareSize v u) = memLent u" "memLent (SubNumaShareSize v u) = memLent u"
  "memShared (AddNumaLentSize v u) = memShared u" "memShared (SubNumaLentSize v u) = memShared u"
  "memLent (AddNumaBorrowSize v u) = memLent u" "memLent (SubNumaBorrowSize v u) = memLent u"
  "memShared (AddNumaBorrowSize v u) = memShared u" "memShared (SubNumaBorrowSize v u) = memShared u"
  by (simp_all add: numa_op_defs)

lemma book_frame_borrow:
  "rd_borrow (add_lend_at bs d nm) = rd_borrow nm" "rd_borrow (sub_lend_at bs d nm) = rd_borrow nm"
  "rd_borrow (add_share_at bs d nm) = rd_borrow nm" "rd_borrow (sub_share_at bs d nm) = rd_borrow nm"
  by (rule ext, simp add: book_defs rd_borrow_upd_socket [OF first_borrow_lent_count(1)]
      rd_borrow_upd_socket [OF first_borrow_lent_count(2)] rd_borrow_upd_numa numa_op_frames option.map_ident)+

lemma book_frame_lent:
  "rd_lent (add_share_at bs d nm) = rd_lent nm" "rd_lent (sub_share_at bs d nm) = rd_lent nm"
  "rd_lent (add_borrow_at d nm) = rd_lent nm" "rd_lent (sub_borrow_at d nm) = rd_lent nm"
  by (rule ext, simp add: rd_lent_def book_defs book_frames GetNumaInfo_upd_numa add_borrow_at_def sub_borrow_at_def
      GetNumaInfo_upd_socket [OF upd_first_numa_read] numa_op_frames option.map_comp comp_def)+

lemma book_frame_shared:
  "rd_shared (add_lend_at bs d nm) = rd_shared nm" "rd_shared (sub_lend_at bs d nm) = rd_shared nm"
  "rd_shared (add_borrow_at d nm) = rd_shared nm" "rd_shared (sub_borrow_at d nm) = rd_shared nm"
  by (rule ext, simp add: rd_shared_def book_defs book_frames GetNumaInfo_upd_numa add_borrow_at_def sub_borrow_at_def
      GetNumaInfo_upd_socket [OF upd_first_numa_read] numa_op_frames option.map_comp comp_def)+

lemma upd_first_numa_count: "sk_lentCount (upd_first_numa f s) = sk_lentCount s"
  by (simp add: upd_first_numa_def split: list.split)

lemma book_frame_count:
  "rd_count (add_borrow_at d nm) = rd_count nm" "rd_count (sub_borrow_at d nm) = rd_count nm"
  by (rule ext, simp add: add_borrow_at_def sub_borrow_at_def rd_count_upd_socket [of _ "\<lambda>x. x", OF upd_first_numa_count]
      option.map_ident)+

section \<open>What an account has booked\<close>

definition acct_lent :: "NodeId \<times> NumaId \<Rightarrow> account_info \<Rightarrow> nat" where
  "acct_lent k a = (if export_booked (ac_state a) then due key_numa dn_size (ac_exportNumaLocs a) k else 0)"

definition acct_count :: "NodeId \<times> SocketId \<Rightarrow> account_info \<Rightarrow> nat" where
  "acct_count k a =
     (if export_booked (ac_state a) then due key_sock (blocks_at (ac_blockSize a)) (ac_exportNumaLocs a) k else 0)"

definition acct_borrow :: "NodeId \<times> SocketId \<Rightarrow> account_info \<Rightarrow> nat" where
  "acct_borrow k a = (if import_booked (ac_state a) then due key_sock dn_size (ac_importNumaLocs a) k else 0)"

lemmas acct_defs = acct_lent_def acct_count_def acct_borrow_def
lemmas account_op_defs = AddNumaBorrow_def SubNumaBorrow_def AddNumaLend_def SubNumaLend_def
  AddNumaShare_def SubNumaShare_def

lemma account_frames:
  "rd_lent (move_import a s' nm) = rd_lent nm" "rd_shared (move_import a s' nm) = rd_shared nm"
  "rd_count (move_import a s' nm) = rd_count nm" "rd_borrow (move_export a s' nm) = rd_borrow nm"
  "ac_type a = SHM \<Longrightarrow> rd_lent (move_export a s' nm) = rd_lent nm"
  "ac_type a \<noteq> SHM \<Longrightarrow> rd_shared (move_export a s' nm) = rd_shared nm"
  "ac_type a = SHM \<Longrightarrow> move_import a s' nm = nm"
  by (simp_all add: move_import_def move_export_def account_op_defs fold_frame book_frame_lent
      book_frame_shared book_frame_count book_frame_borrow)

lemma account_step_state:
  "fst (UpdateAccountState st a nm) = a\<lparr>ac_state := next_state (ac_type a) (ac_state a) st\<rparr>"
  by (simp add: UpdateAccountState_moves)

lemma acct_state:
  "acct_lent k (a\<lparr>ac_state := s'\<rparr>) = (if export_booked s' then due key_numa dn_size (ac_exportNumaLocs a) k else 0)"
  "acct_count k' (a\<lparr>ac_state := s'\<rparr>) =
     (if export_booked s' then due key_sock (blocks_at (ac_blockSize a)) (ac_exportNumaLocs a) k' else 0)"
  "acct_borrow k' (a\<lparr>ac_state := s'\<rparr>) = (if import_booked s' then due key_sock dn_size (ac_importNumaLocs a) k' else 0)"
  by (simp_all add: acct_defs)

lemma account_step_nm:
  "snd (UpdateAccountState st a nm) =
     move_export a (next_state (ac_type a) (ac_state a) st) (move_import a (next_state (ac_type a) (ac_state a) st) nm)"
  by (simp add: UpdateAccountState_moves)

lemma balanced_move_import:
  "balanced rd_lent nm T \<Longrightarrow> balanced rd_lent (move_import a s' nm) T"
  "balanced rd_count nm T' \<Longrightarrow> balanced rd_count (move_import a s' nm) T'"
  by (simp_all add: balanced_def account_frames)

lemma lent_step:
  assumes type: "ac_type a \<noteq> SHM" and bal: "balanced rd_lent nm T" and le: "\<forall>k. acct_lent k a \<le> T k"
    and fits: "\<forall>k. T k - acct_lent k a + acct_lent k (fst (UpdateAccountState st a nm)) < 2 ^ 64"
  shows "balanced rd_lent (snd (UpdateAccountState st a nm))
    (\<lambda>k. T k - acct_lent k a + acct_lent k (fst (UpdateAccountState st a nm)))"
proof -
  note pre = le [unfolded acct_defs] fits [unfolded account_step_state acct_state, unfolded acct_defs]
  from lent.balanced_move [OF balanced_move_import(1) [OF bal] pre] show ?thesis
    unfolding account_step_state account_step_nm acct_state
    unfolding acct_defs move_export_def [of a] account_op_defs if_not_P [OF type] .
qed

lemma shared_step:
  assumes type: "ac_type a = SHM" and bal: "balanced rd_shared nm T" and le: "\<forall>k. acct_lent k a \<le> T k"
    and fits: "\<forall>k. T k - acct_lent k a + acct_lent k (fst (UpdateAccountState st a nm)) < 2 ^ 64"
  shows "balanced rd_shared (snd (UpdateAccountState st a nm))
    (\<lambda>k. T k - acct_lent k a + acct_lent k (fst (UpdateAccountState st a nm)))"
proof -
  note pre = le [unfolded acct_defs] fits [unfolded account_step_state acct_state, unfolded acct_defs]
  from shared.balanced_move [OF bal pre] show ?thesis
    unfolding account_step_state account_step_nm acct_state account_frames(7) [OF type]
    unfolding acct_defs move_export_def [of a] account_op_defs if_P [OF type] .
qed

lemma count_step:
  assumes bal: "balanced rd_count nm T" and le: "\<forall>k. acct_count k a \<le> T k"
    and fits: "\<forall>k. T k - acct_count k a + acct_count k (fst (UpdateAccountState st a nm)) < 2 ^ 64"
  shows "balanced rd_count (snd (UpdateAccountState st a nm))
    (\<lambda>k. T k - acct_count k a + acct_count k (fst (UpdateAccountState st a nm)))"
proof -
  note pre = le [unfolded acct_defs] fits [unfolded account_step_state acct_state, unfolded acct_defs]
  show ?thesis
  proof (cases "ac_type a = SHM")
    case True
    from share_count.balanced_move [OF balanced_move_import(2) [OF bal] pre] show ?thesis
      unfolding account_step_state account_step_nm acct_state
      unfolding acct_defs move_export_def [of a] account_op_defs if_P [OF True] .
  next
    case False
    from lend_count.balanced_move [OF balanced_move_import(2) [OF bal] pre] show ?thesis
      unfolding account_step_state account_step_nm acct_state
      unfolding acct_defs move_export_def [of a] account_op_defs if_not_P [OF False] .
  qed
qed

lemma borrow_step:
  assumes type: "ac_type a \<noteq> SHM" and bal: "balanced rd_borrow nm T" and le: "\<forall>k. acct_borrow k a \<le> T k"
    and fits: "\<forall>k. T k - acct_borrow k a + acct_borrow k (fst (UpdateAccountState st a nm)) < 2 ^ 64"
  shows "balanced rd_borrow (snd (UpdateAccountState st a nm))
    (\<lambda>k. T k - acct_borrow k a + acct_borrow k (fst (UpdateAccountState st a nm)))"
proof -
  note pre = le [unfolded acct_defs] fits [unfolded account_step_state acct_state, unfolded acct_defs]
  from borrow.balanced_move [OF bal pre] type show ?thesis
    unfolding account_step_state account_step_nm acct_state balanced_def account_frames(4)
    unfolding acct_defs move_import_def [of a] account_op_defs by simp
qed

section \<open>The ledger invariant\<close>

definition borrow_maps_ok :: "account_manager \<Rightarrow> bool" where
  "borrow_maps_ok am \<longleftrightarrow> om_ok (am_borrowAccount am) \<and> om_ok (am_shareAccount am) \<and>
     (\<forall>(k, a) \<in> set (am_borrowAccount am). ac_type a \<noteq> SHM \<and> ac_state a \<noteq> BOTH_NOT_EXIST \<and> ac_exportNumaLocs a \<noteq> [] \<and> ac_importNumaLocs a \<noteq> []) \<and>
     (\<forall>(k, a) \<in> set (am_shareAccount am). ac_type a = SHM \<and> ac_state a \<noteq> BOTH_NOT_EXIST \<and> ac_exportNumaLocs a \<noteq> [])"

definition total_lent :: "account_manager \<Rightarrow> NodeId \<times> NumaId \<Rightarrow> nat" where
  "total_lent am k = om_sum (acct_lent k) (am_borrowAccount am)"

definition total_shared :: "account_manager \<Rightarrow> NodeId \<times> NumaId \<Rightarrow> nat" where
  "total_shared am k = om_sum (acct_lent k) (am_shareAccount am)"

definition total_borrow :: "account_manager \<Rightarrow> NodeId \<times> SocketId \<Rightarrow> nat" where
  "total_borrow am k = om_sum (acct_borrow k) (am_borrowAccount am)"

definition total_count :: "account_manager \<Rightarrow> NodeId \<times> SocketId \<Rightarrow> nat" where
  "total_count am k = om_sum (acct_count k) (am_borrowAccount am) + om_sum (acct_count k) (am_shareAccount am)"

lemmas total_defs = total_lent_def total_shared_def total_borrow_def total_count_def

definition ledger_ok :: "node_manager \<Rightarrow> account_manager \<Rightarrow> bool" where
  "ledger_ok nm am \<longleftrightarrow> borrow_maps_ok am \<and> balanced rd_lent nm (total_lent am) \<and>
     balanced rd_shared nm (total_shared am) \<and> balanced rd_borrow nm (total_borrow am) \<and>
     balanced rd_count nm (total_count am)"

definition ledger_fits :: "account_manager \<Rightarrow> bool" where
  \<comment> \<open>no counter would need more than 64 bits\<close>
  "ledger_fits am \<longleftrightarrow> (\<forall>k. total_lent am k < 2 ^ 64 \<and> total_shared am k < 2 ^ 64 \<and>
     total_borrow am k < 2 ^ 64 \<and> total_count am k < 2 ^ 64)"

text \<open>How the totals of an account map move when an account is stored or dropped.\<close>

definition store :: "SchedulerAccountID \<Rightarrow> account_info \<Rightarrow> (SchedulerAccountID, account_info) omap \<Rightarrow> (SchedulerAccountID, account_info) omap" where
  "store k a m = (if ac_state a = BOTH_NOT_EXIST then om_erase k m else om_put k a m)"

lemma acct_unbooked: "ac_state a = BOTH_NOT_EXIST \<Longrightarrow> acct_lent k a = 0 \<and> acct_count k' a = 0 \<and> acct_borrow k'' a = 0"
  by (simp add: acct_defs export_booked_def import_booked_def)

lemma om_sum_store:
  assumes "om_ok m" and "map_of m k = Some a \<or> map_of m k = None \<and> f a = 0"
    and "ac_state a' = BOTH_NOT_EXIST \<Longrightarrow> f a' = 0"
  shows "f a \<le> om_sum f m" and "om_sum f (store k a' (om_put k a m)) = om_sum f m - f a + f a'"
proof -
  have ok: "om_ok (om_put k a m)" by (rule om.inv_put [OF assms(1)])
  have put: "om_sum f (om_put k a m) = om_sum f m"
    using om_sum_put [OF assms(1), of f k a] assms(2) by auto
  have e: "om_sum f (om_erase k (om_put k a m)) + f a = om_sum f m"
    using om_sum_erase [OF om_ok_distinct [OF ok], of f k] put
    by (simp add: om.find_put_same [OF assms(1)])
  then show "f a \<le> om_sum f m" by linarith
  have "om_sum f (om_put k a' (om_put k a m)) + f a = om_sum f m + f a'"
    using om_sum_put [OF ok, of f k a'] put by (simp add: om.find_put_same [OF assms(1)])
  with e show "om_sum f (store k a' (om_put k a m)) = om_sum f m - f a + f a'"
    using assms(3) by (auto simp: store_def)
qed

lemma find_or_create_Inr:
  assumes ok: "borrow_maps_ok am" and f: "find_or_create name res type am = Inr a"
  shows "ac_type a = SHM \<longleftrightarrow> type = SHM" and "ac_exportNumaLocs a \<noteq> []"
    and "type \<noteq> SHM \<Longrightarrow> ac_importNumaLocs a \<noteq> []"
    and "map_of (targetMap type am) (account_id name res type) = Some a \<or>
      map_of (targetMap type am) (account_id name res type) = None \<and> ac_state a = BOTH_NOT_EXIST"
  using assms
  by (auto simp: find_or_create_def borrow_maps_ok_def targetMap_def SchedulerAccountInfo_new_def
      split: option.splits if_splits dest!: map_of_SomeD)

lemma UpdateSchedulerAccount_cases:
  assumes "UpdateSchedulerAccount name res state type (nm, am) = (ret, nm', am')"
  obtains (err) "ret = UBSE_ERROR_INVAL" "nm' = nm" "am' = am"
  | (ok) a where "ret = UBSE_OK" "find_or_create name res type am = Inr a"
      "nm' = snd (UpdateAccountState state a nm)"
      "am' = set_targetMap type (store (account_id name res type) (fst (UpdateAccountState state a nm))
         (om_put (account_id name res type) a (targetMap type am))) am"
proof (cases "ar_exportNumaInfos res = [] \<or> ar_importNumaInfos res = [] \<and> type \<noteq> SHM")
  case True
  then show thesis
    using assms by (intro err) (auto simp: UpdateSchedulerAccount_def split: if_splits)
next
  case False
  show thesis
  proof (cases "find_or_create name res type am")
    case (Inl e)
    with False show thesis
      using assms by (intro err) (auto simp: UpdateSchedulerAccount_def)
  next
    case (Inr a)
    obtain a' nm'' where u: "UpdateAccountState state a nm = (a', nm'')" by force
    have "UpdateSchedulerAccount name res state type (nm, am) = (UBSE_OK, nm'',
        set_targetMap type (store (account_id name res type) a' (om_put (account_id name res type) a (targetMap type am))) am)"
      unfolding UpdateSchedulerAccount_def store_def Let_def
      using False by (simp add: Inr u if_not_P)
    then show thesis
      using assms by (intro ok [OF _ Inr]) (simp_all add: u)
  qed
qed

lemma om_put_put: "om_ok m \<Longrightarrow> om_put k a' (om_put k a m) = om_put k a' m"
  by (induction k a m rule: om_put.induct) (auto simp: om_ok_def)

lemma om_erase_put: "om_ok m \<Longrightarrow> om_erase k (om_put k a m) = om_erase k m"
  by (induction k a m rule: om_put.induct) (auto simp: om_ok_def om_erase_def)

lemma store_put: "om_ok m \<Longrightarrow> store k a' (om_put k a m) = store k a' m"
  by (simp add: store_def om_put_put om_erase_put)

lemma all_values_store:
  assumes "om_ok m" and "\<forall>(k, v) \<in> set m. P v" and "ac_state a' \<noteq> BOTH_NOT_EXIST \<Longrightarrow> P a'"
  shows "\<forall>(k, v) \<in> set (store k a' m). P v" and "om_ok (store k a' m)"
  using all_values_put [OF assms(1), of "\<lambda>_. P" k a'] assms
  by (auto simp: store_def om_erase_def om.inv_put om.inv_erase [unfolded om_erase_def])

lemma ledger_account_step:
  assumes ok: "ledger_ok nm am"
    and step: "UpdateSchedulerAccount name res state type (nm, am) = (ret, nm', am')"
    and fits: "ledger_fits am'"
  shows "ledger_ok nm' am'"
  using step
proof (cases rule: UpdateSchedulerAccount_cases)
  case err
  with ok show ?thesis by simp
next
  case (ok a)
  let ?k = "account_id name res type" and ?m = "targetMap type am"
  define a' where "a' = fst (UpdateAccountState state a nm)"
  have maps: "borrow_maps_ok am" using assms(1) by (simp add: ledger_ok_def)
  note a = find_or_create_Inr [OF maps ok(2)]
  have m: "om_ok ?m" using maps by (simp add: borrow_maps_ok_def targetMap_def)
  have a': "ac_type a' = ac_type a" "ac_exportNumaLocs a' = ac_exportNumaLocs a" "ac_importNumaLocs a' = ac_importNumaLocs a"
    by (simp_all add: a'_def account_step_state)
  have am': "am' = set_targetMap type (store ?k a' ?m) am"
    using ok(4) store_put [OF m] by (simp add: a'_def)
  have sums: "f a \<le> om_sum f ?m \<and> om_sum f (store ?k a' ?m) = om_sum f ?m - f a + f a'"
    if "\<And>b. ac_state b = BOTH_NOT_EXIST \<Longrightarrow> f b = 0" for f
    using om_sum_store [OF m, of ?k a f a'] a(4) that store_put [OF m] by auto
  note lent = sums [of "acct_lent k" for k, OF conjunct1 [OF acct_unbooked]]
  note count = sums [of "acct_count k" for k, OF conjunct1 [OF conjunct2 [OF acct_unbooked]]]
  note borrow = sums [of "acct_borrow k" for k, OF conjunct2 [OF conjunct2 [OF acct_unbooked]]]
  show ?thesis
  proof (cases "type = SHM")
    case True
    then have shm: "ac_type a = SHM" and tm: "?m = am_shareAccount am"
      and am'': "am' = am\<lparr>am_shareAccount := store ?k a' (am_shareAccount am)\<rparr>"
      using a(1) by (simp_all add: targetMap_def am' set_targetMap_def)
    have tot: "total_lent am' = total_lent am" "total_borrow am' = total_borrow am"
      by (simp_all add: total_lent_def [abs_def] total_borrow_def [abs_def] am'')
    have sh: "acct_lent k a \<le> total_shared am k" "total_shared am' k = total_shared am k - acct_lent k a + acct_lent k a'" for k
      using lent [of k] by (simp_all add: total_shared_def am'' tm)
    have co: "acct_count k a \<le> total_count am k" "total_count am' k = total_count am k - acct_count k a + acct_count k a'" for k
      using count [of k] by (simp_all add: total_count_def am'' tm)
    have "balanced rd_shared nm' (\<lambda>k. total_shared am k - acct_lent k a + acct_lent k a')"
      unfolding ok(3) a'_def
      using assms(1,3) sh shared_step [OF shm, of nm "total_shared am" state]
      by (simp add: ledger_ok_def ledger_fits_def a'_def)
    moreover have "balanced rd_count nm' (\<lambda>k. total_count am k - acct_count k a + acct_count k a')"
      unfolding ok(3) a'_def
      using assms(1,3) co count_step [of nm "total_count am" a state]
      by (simp add: ledger_ok_def ledger_fits_def a'_def)
    moreover have "rd_lent nm' = rd_lent nm" "rd_borrow nm' = rd_borrow nm"
      using shm by (simp_all add: ok(3) account_step_nm account_frames)
    moreover have "borrow_maps_ok am'"
      using maps a a' all_values_store [of "am_shareAccount am" "\<lambda>a. ac_type a = SHM \<and> ac_state a \<noteq> BOTH_NOT_EXIST \<and> ac_exportNumaLocs a \<noteq> []" a' ?k] True
      by (simp add: borrow_maps_ok_def am'')
    ultimately show ?thesis
      using assms(1) tot by (simp add: ledger_ok_def balanced_def sh(2) co(2))
  next
    case False
    then have nshm: "ac_type a \<noteq> SHM" and tm: "?m = am_borrowAccount am"
      and am'': "am' = am\<lparr>am_borrowAccount := store ?k a' (am_borrowAccount am)\<rparr>"
      using a(1) by (simp_all add: targetMap_def am' set_targetMap_def)
    have tot: "total_shared am' = total_shared am"
      by (simp add: total_shared_def [abs_def] am'')
    have le: "acct_lent k a \<le> total_lent am k" "total_lent am' k = total_lent am k - acct_lent k a + acct_lent k a'" for k
      using lent [of k] by (simp_all add: total_lent_def am'' tm)
    have co: "acct_count k a \<le> total_count am k" "total_count am' k = total_count am k - acct_count k a + acct_count k a'" for k
      using count [of k] by (simp_all add: total_count_def am'' tm)
    have bo: "acct_borrow k a \<le> total_borrow am k" "total_borrow am' k = total_borrow am k - acct_borrow k a + acct_borrow k a'" for k
      using borrow [of k] by (simp_all add: total_borrow_def am'' tm)
    have "balanced rd_lent nm' (\<lambda>k. total_lent am k - acct_lent k a + acct_lent k a')"
      unfolding ok(3) a'_def
      using assms(1,3) le lent_step [OF nshm, of nm "total_lent am" state]
      by (simp add: ledger_ok_def ledger_fits_def a'_def)
    moreover have "balanced rd_count nm' (\<lambda>k. total_count am k - acct_count k a + acct_count k a')"
      unfolding ok(3) a'_def
      using assms(1,3) co count_step [of nm "total_count am" a state]
      by (simp add: ledger_ok_def ledger_fits_def a'_def)
    moreover have "balanced rd_borrow nm' (\<lambda>k. total_borrow am k - acct_borrow k a + acct_borrow k a')"
      unfolding ok(3) a'_def
      using assms(1,3) bo borrow_step [OF nshm, of nm "total_borrow am" state]
      by (simp add: ledger_ok_def ledger_fits_def a'_def)
    moreover have "rd_shared nm' = rd_shared nm"
      using nshm by (simp add: ok(3) account_step_nm account_frames)
    moreover have "borrow_maps_ok am'"
      using maps a a' all_values_store [of "am_borrowAccount am" "\<lambda>a. ac_type a \<noteq> SHM \<and> ac_state a \<noteq> BOTH_NOT_EXIST \<and>
        ac_exportNumaLocs a \<noteq> [] \<and> ac_importNumaLocs a \<noteq> []" a' ?k] False
      by (simp add: borrow_maps_ok_def am'')
    ultimately show ?thesis
      using assms(1) tot by (simp add: ledger_ok_def balanced_def le(2) co(2) bo(2))
  qed
qed

section \<open>What the collections and reports do to the books\<close>

text \<open>Two states of a node agree on the books when no counter of theirs can tell them apart.\<close>

definition node_lent :: "NumaId \<Rightarrow> node_info \<Rightarrow> (u64 \<times> u64) option" where
  "node_lent j n = map_option (\<lambda>(sid, u). (memLent u, memShared u)) (find_numa j (no_sockets n))"

definition node_sock :: "SocketId \<Rightarrow> node_info \<Rightarrow> (u64 \<times> u64 option) option" where
  "node_sock sid n = map_option (\<lambda>s. (sk_lentCount s, first_borrow s)) (NodeGetSocketInfo sid n)"

definition same_books :: "node_info \<Rightarrow> node_info \<Rightarrow> bool" where
  "same_books n n' \<longleftrightarrow> (\<forall>j. node_lent j n' = node_lent j n) \<and> (\<forall>sid. node_sock sid n' = node_sock sid n)"

lemma rd_node:
  "rd_lent nm k = (case GetNodeInfo nm (fst k) of None \<Rightarrow> None | Some n \<Rightarrow> map_option fst (node_lent (snd k) n))"
  "rd_shared nm k = (case GetNodeInfo nm (fst k) of None \<Rightarrow> None | Some n \<Rightarrow> map_option snd (node_lent (snd k) n))"
  "rd_count nm q = (case GetNodeInfo nm (fst q) of None \<Rightarrow> None | Some n \<Rightarrow> map_option fst (node_sock (snd q) n))"
  "rd_borrow nm q = (case GetNodeInfo nm (fst q) of None \<Rightarrow> None | Some n \<Rightarrow> Option.bind (node_sock (snd q) n) snd)"
  by (auto simp: rd_lent_def rd_shared_def rd_count_def rd_borrow_def GetNumaInfo_def GetSocketInfo_def
      node_lent_def node_sock_def option.map_comp comp_def case_prod_beta' bind_map_option split: option.splits)

lemma same_books_upd:
  assumes "\<And>s j. map_option (\<lambda>u. (memLent u, memShared u)) (SocketGetNumaInfo j (f s)) =
      map_option (\<lambda>u. (memLent u, memShared u)) (SocketGetNumaInfo j s)"
    and "\<And>s. sk_lentCount (f s) = sk_lentCount s \<and> first_borrow (f s) = first_borrow s"
  shows "same_books n (n\<lparr>no_sockets := om_upd sid f (no_sockets n)\<rparr>)"
proof -
  have "node_lent j (n\<lparr>no_sockets := om_upd sid f (no_sockets n)\<rparr>) = node_lent j n" for j
    using arg_cong [OF find_numa_frame [of "\<lambda>u. (memLent u, memShared u)" j f sid "no_sockets n", OF assms(1)],
        of "map_option snd"]
    by (simp add: node_lent_def option.map_comp comp_def case_prod_beta')
  then show ?thesis
    using assms(2) by (auto simp: same_books_def node_sock_def NodeGetSocketInfo_def map_of_om_upd
        option.map_comp comp_def)
qed

lemma same_books_trans: "same_books n n1 \<Longrightarrow> same_books n1 n2 \<Longrightarrow> same_books n n2"
  by (simp add: same_books_def)

lemma same_books_refl: "same_books n n"
  by (simp add: same_books_def)

lemma same_books_mem: "same_books n (collect_node_mem pf p64 u n)"
  unfolding collect_node_mem_def
proof (rule fold_invariant_simple [where P = "same_books n", OF same_books_refl])
  fix r m
  assume "same_books n m"
  then show "same_books n (upd_node_numa (un_socketId r) (un_numaId r) (UpdateNumaMemInfo pf p64 r (uo_allocator u) (uo_pmdMapping u)) m)"
    unfolding upd_node_numa_def
    by (rule same_books_trans, intro same_books_upd conjI)
      (auto simp: SocketGetNumaInfo_def map_of_om_upd frame_simps first_borrow_upd_numa option.map_comp comp_def)
qed

lemma same_books_links: "same_books n (collect_node_links u n)"
  unfolding collect_node_links_def
proof (rule fold_invariant_simple [where P = "same_books n", OF same_books_refl])
  fix cpu m
  assume "same_books n m"
  then show "same_books n (m\<lparr>no_sockets := om_upd (cp_socketId cpu) (UpdateLinkInfo cpu) (no_sockets m)\<rparr>)"
    by (rule same_books_trans, intro same_books_upd conjI) (simp_all add: SocketGetNumaInfo_def first_borrow_def)
qed

definition books :: "node_manager \<Rightarrow> _" where
  "books nm = (rd_lent nm, rd_shared nm, rd_count nm, rd_borrow nm)"

lemma books_put_node: "GetNodeInfo nm i = Some n \<Longrightarrow> same_books n n' \<Longrightarrow> books (put_node i n' nm) = books nm"
  by (auto simp: books_def fun_eq_iff rd_node same_books_def)

lemma books_nodeMap: "nm_nodeMap nm' = nm_nodeMap nm \<Longrightarrow> books nm' = books nm"
  by (simp add: books_def fun_eq_iff rd_node GetNodeInfo_def)

lemma ledger_ok_books: "books nm' = books nm \<Longrightarrow> ledger_ok nm' am = ledger_ok nm am"
  by (simp add: books_def ledger_ok_def balanced_def)

lemma books_collect: "books (snd (UpdateAllNumaMemInfo pf nodeMap nm)) = books nm"
  by (induction pf nodeMap nm rule: UpdateAllNumaMemInfo.induct)
    (auto simp: books_put_node same_books_mem split: option.split)

lemma books_update_links: "books (snd (update_links nodeMap nm)) = books nm"
  by (induction nodeMap nm rule: update_links.induct)
    (auto simp: books_put_node same_books_links split: option.split)

lemma books_links: "books (snd (UpdateAllLinkInfo deployed nodeMap nm)) = books nm"
  unfolding UpdateAllLinkInfo_def books_update_links by (rule books_nodeMap) (simp add: frame_simps)

text \<open>A node built from a report has nothing booked on it.\<close>

definition unbooked_node :: "node_info \<Rightarrow> bool" where
  "unbooked_node n \<longleftrightarrow> (\<forall>(k, s) \<in> set (no_sockets n). sk_lentCount s = 0 \<and>
     (\<forall>(j, u) \<in> set (sk_numas s). memLent u = 0 \<and> memShared u = 0 \<and> memBorrow u = 0))"

lemma all_values_put': "\<forall>(k, v) \<in> set m. P v \<Longrightarrow> P v \<Longrightarrow> \<forall>(k, v) \<in> set (om_put k v m). P v"
  by (induction k v m rule: om_put.induct) auto

lemma set_om_put: "set (om_put k v m) \<subseteq> insert (k, v) (set m)"
  by (induction k v m rule: om_put.induct) auto

lemma unbooked_new: "unbooked_node (SchedulerNodeInfo_new u)"
proof -
  define P where "P s \<longleftrightarrow> sk_lentCount s = 0 \<and> (\<forall>(j, u) \<in> set (sk_numas s). memLent u = 0 \<and> memShared u = 0 \<and> memBorrow u = 0)"
    for s :: socket_info
  have init: "P (SetMaxExportTimes t (SocketInit r s))" if "P s" for t r s
    using that unfolding P_def SocketInit_def Let_def SetMaxExportTimes_def NumaInit_def
    by (auto simp: SchedulerNumaInfo_new_def dest!: map_of_SomeD subsetD [OF set_om_put] split: option.split)
  have new: "P (SchedulerSocketInfo_new i)" for i
    by (simp add: P_def SchedulerSocketInfo_new_def)
  have chip: "P (SetChipId c s) = P s" for c s
    by (simp add: P_def SetChipId_def)
  then have chip': "P (if b then SetChipId c s else s) = P s" for b c s
    by simp
  have "\<forall>(k, s) \<in> set (fold (add_numa_report t) rs []). P s" for t rs
  proof (rule fold_invariant_simple [where P = "\<lambda>m. \<forall>(k, s) \<in> set m. P s"])
    show "\<forall>(k, s) \<in> set (add_numa_report t x m). P s" if "\<forall>(k, s) \<in> set m. P s" for x m
      unfolding add_numa_report_def Let_def
      using that new by (intro all_values_put' init) (auto dest!: map_of_SomeD split: option.split)
  qed simp
  then have "\<forall>(k, s) \<in> set (fold add_cpu_report cs (fold (add_numa_report t) rs [])). P s" for cs t rs
  proof (rule fold_invariant_simple [where P = "\<lambda>m. \<forall>(k, s) \<in> set m. P s"])
    show "\<forall>(k, s) \<in> set (add_cpu_report c m). P s" if "\<forall>(k, s) \<in> set m. P s" for c m
      using that by (auto simp: add_cpu_report_def om_upd_def chip' split: option.split prod.splits)
  qed
  then show ?thesis
    by (simp add: unbooked_node_def SchedulerNodeInfo_new_def P_def)
qed

lemma find_numa_SomeD: "find_numa j ss = Some (sid, u) \<Longrightarrow> \<exists>s. (sid, s) \<in> set ss \<and> (j, u) \<in> set (sk_numas s)"
  by (induction j ss rule: find_numa.induct)
    (auto simp: SocketGetNumaInfo_def split: option.splits dest: map_of_SomeD)

lemma unbooked_reads:
  assumes "unbooked_node n"
  shows "node_lent j n = Some (x, y) \<Longrightarrow> x = 0 \<and> y = 0"
    and "node_sock sid n = Some (c, b) \<Longrightarrow> c = 0 \<and> (b = None \<or> b = Some 0)"
  using assms
  by (fastforce simp: node_lent_def unbooked_node_def dest: find_numa_SomeD)
    (use assms in \<open>auto simp: node_sock_def NodeGetSocketInfo_def unbooked_node_def first_borrow_def
      split: list.split dest!: map_of_SomeD\<close>, fastforce+)

lemma node_lent_state [simp]: "node_lent j (n\<lparr>no_hostName := h, no_clusterState := c\<rparr>) = node_lent j n"
  and node_sock_state [simp]: "node_sock sid (n\<lparr>no_hostName := h, no_clusterState := c\<rparr>) = node_sock sid n"
  by (simp_all add: node_lent_def node_sock_def NodeGetSocketInfo_def)

lemma books_set_node_state: "books (set_node_state u nm) = books nm"
proof (cases "nm_nodeMap nm (uo_nodeId u)")
  case (Some n)
  have "same_books n (UpdateHostName h (UpdateNodeClusterState c n))" for h c
    by (simp add: same_books_def UpdateHostName_def UpdateNodeClusterState_def node_lent_def node_sock_def
        NodeGetSocketInfo_def)
  with Some show ?thesis
    by (simp add: set_node_state_def books_put_node GetNodeInfo_def)
qed (simp add: set_node_state_def)

definition nothing_booked :: "NodeId \<Rightarrow> account_manager \<Rightarrow> bool" where
  "nothing_booked i am \<longleftrightarrow> (\<forall>j. total_lent am (i, j) = 0 \<and> total_shared am (i, j) = 0 \<and>
     total_borrow am (i, j) = 0 \<and> total_count am (i, j) = 0)"

lemma ledger_put_unbooked:
  assumes ok: "ledger_ok nm am" and n: "unbooked_node n" and i: "nothing_booked i am"
  shows "ledger_ok (put_node i n nm) am"
proof -
  have "rd_lent (put_node i n nm) k = (if fst k = i then map_option fst (node_lent (snd k) n) else rd_lent nm k)"
    "rd_shared (put_node i n nm) k = (if fst k = i then map_option snd (node_lent (snd k) n) else rd_shared nm k)"
    "rd_count (put_node i n nm) k = (if fst k = i then map_option fst (node_sock (snd k) n) else rd_count nm k)"
    "rd_borrow (put_node i n nm) k = (if fst k = i then Option.bind (node_sock (snd k) n) snd else rd_borrow nm k)" for k
    by (simp_all add: rd_node)
  then show ?thesis
    using ok i unbooked_reads [OF n]
    by (fastforce simp: ledger_ok_def balanced_def nothing_booked_def split: if_splits bind_splits)
qed

lemma ledger_report_step:
  assumes ok: "ledger_ok nm am" and i: "needs_init u nm \<Longrightarrow> nothing_booked (uo_nodeId u) am"
  shows "ledger_ok (snd (UpdateNodeInfo c deployed u nm)) am"
proof (cases "uo_nodeId u \<noteq> [] \<and> needs_init u nm \<and> uo_clusterState u \<noteq> UBSE_NODE_FAULT")
  case True
  define nm0 where "nm0 = UpdateNodeInfoCache (uo_nodeId u) (InitOneNodeData u nm)"
  obtain b nm1 where nm1: "fill_chip_maps (uo_cpuInfos u) nm0 = (b, nm1)" by force
  have "ledger_ok (InitOneNodeData u nm) am"
    using ledger_put_unbooked [OF ok unbooked_new i] True by (simp add: InitOneNodeData_def)
  moreover have "nm_nodeMap nm0 = nm_nodeMap (InitOneNodeData u nm)"
    by (simp add: nm0_def UpdateNodeInfoCache_def split: option.split)
  moreover have "nm_nodeMap nm1 = nm_nodeMap nm0"
    using fill_chip_maps_frame(1) [of "uo_cpuInfos u" nm0] nm1 by simp
  ultimately have nm1_ok: "ledger_ok nm' am" if "nm_nodeMap nm' = nm_nodeMap nm1" for nm'
    using that by (metis ledger_ok_books books_nodeMap)
  show ?thesis
    using True nm1
    by (auto simp: UpdateNodeInfo_def nm0_def [symmetric] Let_def ledger_ok_books [OF books_set_node_state]
        frame_simps intro!: nm1_ok)
next
  case False
  then show ?thesis
    using ok by (auto simp: UpdateNodeInfo_def ledger_ok_books [OF books_set_node_state])
qed

section \<open>Histories\<close>

text \<open>
  The steps that change the cluster view or the accounts. A booking step is one whose totals
  still fit 64 bits; a report that (re)builds a node is one for a node that no account has
  booked anything on.
\<close>

inductive ledger_step :: "node_manager \<times> account_manager \<Rightarrow> node_manager \<times> account_manager \<Rightarrow> bool" where
  booked: "UpdateSchedulerAccount name res state type (nm, am) = (ret, nm', am') \<Longrightarrow> ledger_fits am' \<Longrightarrow>
     ledger_step (nm, am) (nm', am')"
| reported: "(needs_init u nm \<Longrightarrow> nothing_booked (uo_nodeId u) am) \<Longrightarrow>
     ledger_step (nm, am) (snd (UpdateNodeInfo c deployed u nm), am)"
| collected: "ledger_step (nm, am) (snd (UpdateAllNumaMemInfo pf nodeMap nm), am)"
| linked: "ledger_step (nm, am) (snd (UpdateAllLinkInfo deployed nodeMap nm), am)"

lemma ledger_ok_new: "ledger_ok SchedulerNodeManager_new SchedulerAccountManager_new"
  by (simp add: ledger_ok_def borrow_maps_ok_def balanced_def SchedulerNodeManager_new_def
      SchedulerAccountManager_new_def rd_node GetNodeInfo_def)

lemma ledger_ok_step: "ledger_step s s' \<Longrightarrow> ledger_ok (fst s) (snd s) \<Longrightarrow> ledger_ok (fst s') (snd s')"
  by (induction rule: ledger_step.induct)
    (auto intro: ledger_account_step ledger_report_step simp: ledger_ok_books [OF books_collect] ledger_ok_books [OF books_links])

lemma ledger_ok_run: "ledger_step\<^sup>*\<^sup>* s s' \<Longrightarrow> ledger_ok (fst s) (snd s) \<Longrightarrow> ledger_ok (fst s') (snd s')"
  by (induction rule: rtranclp_induct) (auto intro: ledger_ok_step)

lemma numa_op_id:
  "nu_numaId (AddNumaBorrowSize v u) = nu_numaId u" "nu_numaId (SubNumaBorrowSize v u) = nu_numaId u"
  "nu_numaId (AddNumaLentSize v u) = nu_numaId u" "nu_numaId (SubNumaLentSize v u) = nu_numaId u"
  "nu_numaId (AddNumaShareSize v u) = nu_numaId u" "nu_numaId (SubNumaShareSize v u) = nu_numaId u"
  by (simp_all add: numa_op_defs)

lemma cache_ok_books_step: "ledger_step s s' \<Longrightarrow> cache_ok (fst s) \<Longrightarrow> cache_ok (fst s')"
proof (induction rule: ledger_step.induct)
  case (booked name res state type nm am ret nm' am')
  have "in_place (upd_first_numa f)" if "\<And>u. nu_numaId (f u) = nu_numaId u" for f
    using that by (auto simp: in_place_def upd_first_numa_def socket_ok_def om_ok_def GetSocketInfoView_def
        split: list.split)
  then have b: "in_place (upd_first_numa (AddNumaBorrowSize v))" "in_place (upd_first_numa (SubNumaBorrowSize v))" for v
    by (simp_all add: numa_op_id)
  have c: "in_place (AddLentCount v)" "in_place (SubLentCount v)" for v
    by (rule in_place_numas, simp add: AddLentCount_def SubLentCount_def)+
  have fold: "cache_ok (fold f ds nm)" if "\<And>d nm. cache_ok nm \<Longrightarrow> cache_ok (f d nm)" and "cache_ok nm" for f ds nm
    using that(2) by (induction ds arbitrary: nm) (auto intro: that(1))
  have "cache_ok (move_import a s' nm)" "cache_ok (move_export a s' nm)" if "cache_ok nm" for a s' nm
    using that b c
    by (auto simp: move_import_def move_export_def account_op_defs add_borrow_at_def sub_borrow_at_def book_defs
        numa_op_id intro!: fold cache_ok_upd_socket cache_ok_upd_numa)
  then have "cache_ok (snd (UpdateAccountState state a nm))" for a
    using booked(3) by (simp add: account_step_nm)
  with booked(1,3) show ?case
    by (cases rule: UpdateSchedulerAccount_cases) auto
qed (simp_all add: cache_ok_UpdateNodeInfo cache_ok_UpdateAllNumaMemInfo cache_ok_UpdateAllLinkInfo)

lemma reinit_node:
  assumes "uo_nodeId u \<noteq> []" and "needs_init u nm" and "uo_clusterState u \<noteq> UBSE_NODE_FAULT"
  shows "\<exists>n. GetNodeInfo (snd (UpdateNodeInfo c deployed u nm)) (uo_nodeId u) = Some n \<and>
    no_sockets n = no_sockets (SchedulerNodeInfo_new u)"
proof -
  define nm0 where "nm0 = UpdateNodeInfoCache (uo_nodeId u) (InitOneNodeData u nm)"
  obtain b nm1 where nm1: "fill_chip_maps (uo_cpuInfos u) nm0 = (b, nm1)" by force
  have "nm_nodeMap nm0 (uo_nodeId u) = Some (SchedulerNodeInfo_new u)"
    by (simp add: nm0_def UpdateNodeInfoCache_def InitOneNodeData_def put_node_def)
  then have n1: "nm_nodeMap nm1 (uo_nodeId u) = Some (SchedulerNodeInfo_new u)"
    using fill_chip_maps_frame(1) [of "uo_cpuInfos u" nm0] nm1 by simp
  show ?thesis
    using assms nm1 n1
    by (auto simp: UpdateNodeInfo_def nm0_def [symmetric] Let_def set_node_state_def frame_simps put_node_def
        GetNodeInfo_def UpdateHostName_def UpdateNodeClusterState_def)
qed

text \<open>What the invariant says of one cell.\<close>

lemma ledger_ok_reads:
  assumes "ledger_ok nm am"
  shows "(\<forall>i j u. GetNumaInfo nm i j = Some u \<longrightarrow>
      unat (memLent u) = total_lent am (i, j) \<and> unat (memShared u) = total_shared am (i, j)) \<and>
    (\<forall>i sid s. GetSocketInfo nm i sid = Some s \<longrightarrow> unat (sk_lentCount s) = total_count am (i, sid) \<and>
      (\<forall>j u us. sk_numas s = (j, u) # us \<longrightarrow> unat (memBorrow u) = total_borrow am (i, sid)))"
proof -
  have bal: "balanced rd_lent nm (total_lent am)" "balanced rd_shared nm (total_shared am)"
    "balanced rd_count nm (total_count am)" "balanced rd_borrow nm (total_borrow am)"
    using assms by (simp_all add: ledger_ok_def)
  have "unat (memLent u) = total_lent am (i, j) \<and> unat (memShared u) = total_shared am (i, j)"
    if "GetNumaInfo nm i j = Some u" for i j u
    using that balancedD [OF bal(1), of "(i, j)"] balancedD [OF bal(2), of "(i, j)"]
    by (simp add: rd_lent_def rd_shared_def)
  moreover have "unat (sk_lentCount s) = total_count am (i, sid)" if "GetSocketInfo nm i sid = Some s" for i sid s
    using that balancedD [OF bal(3), of "(i, sid)"] by (simp add: rd_count_def)
  moreover have "unat (memBorrow u) = total_borrow am (i, sid)"
    if "GetSocketInfo nm i sid = Some s" "sk_numas s = (j, u) # us" for i sid s j u us
    using that balancedD [OF bal(4), of "(i, sid)"] by (simp add: rd_borrow_def first_borrow_def)
  ultimately show ?thesis by blast
qed

section \<open>Properties\<close>

text \<open>
  C38 The four handlers of the account state machine are one transition function together
  with the rule that the cache moves by the difference of the booked sides: a side that
  becomes booked is added once, a side that stops being booked is subtracted once, an event
  that a state does not handle changes nothing, and a shared account never books an import.
\<close>

theorem account_transition:
  "UpdateAccountState st a nm =
     (let s' = next_state (ac_type a) (ac_state a) st
      in (a\<lparr>ac_state := s'\<rparr>, move_export a s' (move_import a s' nm)))"
  by (simp add: UpdateAccountState_moves Let_def)


definition demo_numa :: "NodeId \<Rightarrow> UbseNumaInfo" where
  "demo_numa i = report_1G\<lparr>un_nodeId := i\<rparr>"

definition demo_node :: "NodeId \<Rightarrow> UbseNodeInfo" where
  "demo_node i = \<lparr>uo_nodeId = i, uo_hostName = ''host'' @ i, uo_numaInfos = [demo_numa i], uo_cpuInfos = [],
     uo_clusterState = UBSE_NODE_WORKING, uo_isLender = True, uo_allocator = HUGETLB_PUD, uo_pmdMapping = 100,
     uo_blockSize = 128, uo_nodeMaxLendGb = 0, uo_exportTotalTimes = 16\<rparr>"

definition demo_debt :: "NodeId \<Rightarrow> UbseMemDebtNumaInfo" where
  "demo_debt i = \<lparr>dn_nodeId = i, dn_socketId = 0, dn_numaId = 0, dn_size = 0x8000000, dn_portId = 0, dn_chipId = 0\<rparr>"

definition demo_result :: UbseMemAlgoResult where
  "demo_result = algo_result_init\<lparr>ar_exportNumaInfos := [demo_debt ''2''], ar_importNumaInfos := [demo_debt ''1'']\<rparr>"

definition demo_booked :: "node_manager \<times> account_manager" where
  "demo_booked = snd (UpdateSchedulerAccount ''r'' demo_result UBSE_MEM_SCHEDULING FD
     (snd (UpdateNodeInfo None {} (demo_node ''2'') SchedulerNodeManager_new), SchedulerAccountManager_new))"

lemma demo_booked_accounts:
  "snd demo_booked = \<lparr>am_borrowAccount = [(SchedulerAccountID ''r'' ''1'' FD,
     \<lparr>ac_importNumaLocs = [demo_debt ''1''], ac_exportNumaLocs = [demo_debt ''2''], ac_blockSize = 128, ac_type = FD,
      ac_state = IMPORT_EXPORT_EXIST\<rparr>)], am_shareAccount = []\<rparr>"
  by (simp add: demo_booked_def demo_result_def algo_result_init_def UpdateSchedulerAccount_def find_or_create_def
      targetMap_def set_targetMap_def SchedulerAccountManager_new_def SchedulerAccountInfo_new_def account_id_def
      UpdateAccountState_moves demo_debt_def)

lemma demo_booked_run:
  "ledger_step\<^sup>*\<^sup>* (SchedulerNodeManager_new, SchedulerAccountManager_new) demo_booked"
proof -
  let ?nm = "snd (UpdateNodeInfo None {} (demo_node ''2'') SchedulerNodeManager_new)"
  have "nothing_booked i SchedulerAccountManager_new" for i
    by (simp add: nothing_booked_def total_defs SchedulerAccountManager_new_def)
  then have 1: "ledger_step (SchedulerNodeManager_new, SchedulerAccountManager_new) (?nm, SchedulerAccountManager_new)"
    by (intro reported)
  have "ledger_fits (snd demo_booked)"
    by (simp add: ledger_fits_def demo_booked_accounts total_defs acct_defs demo_debt_def blocks_at_def blocks_of_def ONE_M_def)
  then have "ledger_step (?nm, SchedulerAccountManager_new) (fst demo_booked, snd demo_booked)"
    by (intro booked [of "''r''" demo_result UBSE_MEM_SCHEDULING FD _ _ "fst (UpdateSchedulerAccount ''r'' demo_result UBSE_MEM_SCHEDULING FD (?nm, SchedulerAccountManager_new))"])
      (simp_all add: demo_booked_def)
  with 1 show ?thesis by (simp add: rtranclp.rtrancl_into_rtrancl)
qed

lemma demo_booked_nm:
  "fst demo_booked = add_lend_at 128 (demo_debt ''2'') (add_borrow_at (demo_debt ''1'')
     (snd (UpdateNodeInfo None {} (demo_node ''2'') SchedulerNodeManager_new)))"
  by (simp add: demo_booked_def demo_result_def algo_result_init_def UpdateSchedulerAccount_def find_or_create_def
      targetMap_def SchedulerAccountManager_new_def SchedulerAccountInfo_new_def account_id_def
      UpdateAccountState_moves move_import_def move_export_def import_booked_def export_booked_def account_op_defs)

lemma demo_node_read:
  "\<exists>n. GetNodeInfo (snd (UpdateNodeInfo None {} (demo_node ''2'') SchedulerNodeManager_new)) ''2'' = Some n \<and>
     no_sockets n = [(0, SetMaxExportTimes 16 (SocketInit (demo_numa ''2'') (SchedulerSocketInfo_new 0)))]"
  using reinit_node [of "demo_node ''2''" SchedulerNodeManager_new None "{}"]
  by (simp add: demo_node_def needs_init_def SchedulerNodeManager_new_def SchedulerNodeInfo_new_def
      add_numa_report_def demo_numa_def report_1G_def Let_def)

lemma demo_node_lent: "rd_lent (snd (UpdateNodeInfo None {} (demo_node ''2'') SchedulerNodeManager_new)) (''2'', 0) \<noteq> None"
  using demo_node_read by (auto simp: rd_node node_lent_def SocketInit_def
      SchedulerSocketInfo_new_def demo_numa_def report_1G_def SocketGetNumaInfo_def Let_def NumaInit_def)


text \<open>
  C39 Rebuilding a node forgets its bookings: a report that re-initialises a node (first
  report, the node asks for initialisation, or it comes back from an unknown or faulty state)
  leaves every NUMA node of it with zero lent, shared and borrowed bytes and every socket with
  zero lent blocks, although the accounts that booked them stay.
\<close>

theorem reinit_forgets_bookings:
  assumes "uo_nodeId u \<noteq> []" and "needs_init u nm" and "uo_clusterState u \<noteq> UBSE_NODE_FAULT"
    and "GetSocketInfo (snd (UpdateNodeInfo c deployed u nm)) (uo_nodeId u) sid = Some s"
  shows "sk_lentCount s = 0 \<and>
    (\<forall>j n. map_of (sk_numas s) j = Some n \<longrightarrow> memLent n = 0 \<and> memShared n = 0 \<and> memBorrow n = 0)"
proof -
  obtain n where n: "GetNodeInfo (snd (UpdateNodeInfo c deployed u nm)) (uo_nodeId u) = Some n"
      "no_sockets n = no_sockets (SchedulerNodeInfo_new u)"
    using reinit_node [OF assms(1-3)] by blast
  with assms(4) unbooked_new [of u] show ?thesis
    by (fastforce simp: GetSocketInfo_def NodeGetSocketInfo_def unbooked_node_def dest!: map_of_SomeD)
qed

theorem reinit_forgets_bookings_witness:
  "rd_count (fst demo_booked) (''2'', 0) = Some 1 \<and>
   rd_count (snd (UpdateNodeInfo None {} (demo_node ''2''\<lparr>uo_clusterState := UBSE_NODE_INIT\<rparr>) (fst demo_booked))) (''2'', 0) = Some 0"
proof -
  let ?u = "demo_node ''2''\<lparr>uo_clusterState := UBSE_NODE_INIT\<rparr>"
  obtain n where n: "GetNodeInfo (snd (UpdateNodeInfo None {} (demo_node ''2'') SchedulerNodeManager_new)) ''2'' = Some n"
    "no_sockets n = [(0, SetMaxExportTimes 16 (SocketInit (demo_numa ''2'') (SchedulerSocketInfo_new 0)))]"
    using demo_node_read by blast
  have "rd_count (snd (UpdateNodeInfo None {} (demo_node ''2'') SchedulerNodeManager_new)) (''2'', 0) = Some 0"
    using n by (simp add: rd_node node_sock_def SocketInit_def SchedulerSocketInfo_new_def
        NodeGetSocketInfo_def Let_def SetMaxExportTimes_def)
  then have 1: "rd_count (fst demo_booked) (''2'', 0) = Some 1"
    by (simp add: demo_booked_nm lend_count.rd_add book_frame_count demo_debt_def key_sock_def blocks_at_def
        blocks_of_def ONE_M_def add_keep_zero)
  have u: "uo_nodeId ?u = ''2'' \<and> uo_clusterState ?u = UBSE_NODE_INIT" by (simp add: demo_node_def)
  then have i: "needs_init ?u (fst demo_booked)"
    by (simp add: needs_init_def split: option.split)
  obtain n' where n': "GetNodeInfo (snd (UpdateNodeInfo None {} ?u (fst demo_booked))) ''2'' = Some n'"
      "no_sockets n' = no_sockets (SchedulerNodeInfo_new ?u)"
    using reinit_node [OF _ i, of None "{}"] u by auto
  then have "map_of (no_sockets n') 0 \<noteq> None"
    by (simp add: SchedulerNodeInfo_new_def demo_node_def add_numa_report_def demo_numa_def report_1G_def Let_def)
  then obtain s where s: "GetSocketInfo (snd (UpdateNodeInfo None {} ?u (fst demo_booked))) ''2'' 0 = Some s"
    using n' by (auto simp: GetSocketInfo_def NodeGetSocketInfo_def)
  then have "sk_lentCount s = 0"
    using reinit_forgets_bookings [OF _ i, of None "{}" 0 s] u by auto
  with 1 s show ?thesis by (simp add: rd_count_def)
qed

end
