(* ===== verification/ImplSafety.thy ===== *)
theory ImplSafety
  imports ImplLaws Ledger
begin

text \<open>
  The scheduler as a whole: its states over time, and what booking a granted request does to
  the NUMA nodes it was taken from.
\<close>

section \<open>One NUMA identifier, one socket\<close>

definition numa_unique :: "node_manager \<Rightarrow> bool" where
  "numa_unique nm \<longleftrightarrow> (\<forall>v \<in> set (nm_nodeInfos nm). \<forall>s \<in> set (nd_socketInfos v). \<forall>t \<in> set (nd_socketInfos v).
     \<forall>j. j \<in> set (si_numaInfos s) \<longrightarrow> j \<in> set (si_numaInfos t) \<longrightarrow> si_socketId s = si_socketId t)"

lemma find_numa_Some: "find_numa j ss = Some (sid, u) \<Longrightarrow> \<exists>s. (sid, s) \<in> set ss \<and> map_of (sk_numas s) j = Some u"
  by (induction ss) (fastforce simp: SocketGetNumaInfo_def split: option.splits)+

lemma find_numa_None: "find_numa j ss = None \<Longrightarrow> (sid, s) \<in> set ss \<Longrightarrow> map_of (sk_numas s) j = None"
  by (induction ss) (auto simp: SocketGetNumaInfo_def split: option.splits)

lemma numa_of_socket:
  assumes ok: "cache_ok nm" and uq: "numa_unique nm"
    and s: "GetSocketInfo nm i sid = Some s" and u: "map_of (sk_numas s) j = Some u"
  shows "GetNumaInfo nm i j = Some u"
proof -
  obtain n where n: "nm_nodeMap nm i = Some n" "map_of (no_sockets n) sid = Some s"
    using s by (auto simp: GetSocketInfo_def GetNodeInfo_def NodeGetSocketInfo_def split: option.splits)
  have nok: "node_ok n" and view: "GetNodeInfoView n \<in> set (nm_nodeInfos nm)" using cache_okD [OF ok n(1)] by simp_all
  have s_in: "(sid, s) \<in> set (no_sockets n)" using n(2) by (rule map_of_SomeD)
  obtain sid' u' where f: "find_numa j (no_sockets n) = Some (sid', u')"
    using find_numa_None [OF _ s_in, of j] u by (cases "find_numa j (no_sockets n)") auto
  obtain s' where s': "(sid', s') \<in> set (no_sockets n)" "map_of (sk_numas s') j = Some u'" using find_numa_Some [OF f] by blast
  have ids: "sk_socketId t = k \<and> (map_of (sk_numas t) j = Some w \<longrightarrow> j \<in> set (si_numaInfos (GetSocketInfoView t)))"
    if "(k, t) \<in> set (no_sockets n)" for k t w
    using nok that by (force simp: node_ok_def socket_ok_def GetSocketInfoView_def dest!: map_of_SomeD)
  have views: "GetSocketInfoView t \<in> set (nd_socketInfos (GetNodeInfoView n))" if "(k, t) \<in> set (no_sockets n)" for k t
    using that by (force simp: GetNodeInfoView_def)
  have "sid' = sid"
    using uq view views [OF s_in] views [OF s'(1)] ids [OF s_in] ids [OF s'(1)] u s'(2)
    unfolding numa_unique_def by (metis view_socketId)
  moreover have "distinct (map fst (no_sockets n))" using nok by (auto simp: node_ok_def intro: om_ok_distinct)
  ultimately have "s' = s" using s'(1) s_in by (auto dest: eq_key_imp_eq_value)
  with s'(2) u f show ?thesis using n(1) by (simp add: GetNumaInfo_def GetNodeInfo_def)
qed

section \<open>What booking does to a NUMA node\<close>

lemma numa_upd_count: "GetNumaInfo (upd_socket i sid (AddLentCount c) nm) i' j = GetNumaInfo nm i' j"
proof -
  have "SocketGetNumaInfo j (AddLentCount c s) = SocketGetNumaInfo j s" for s
    by (simp add: SocketGetNumaInfo_def AddLentCount_def)
  then show ?thesis using GetNumaInfo_upd_socket [of "\<lambda>x. x" j "AddLentCount c"] by (simp add: option.map_ident)
qed

lemma numa_add_at:
  "GetNumaInfo (add_lend_at bs d nm) i j =
     (if i = dn_nodeId d \<and> j = dn_numa d then map_option (AddNumaLentSize (dn_size d)) (GetNumaInfo nm i j) else GetNumaInfo nm i j)"
  "GetNumaInfo (add_share_at bs d nm) i j =
     (if i = dn_nodeId d \<and> j = dn_numa d then map_option (AddNumaShareSize (dn_size d)) (GetNumaInfo nm i j) else GetNumaInfo nm i j)"
  by (simp_all add: add_lend_at_def add_share_at_def numa_upd_count GetNumaInfo_upd_numa)

text \<open>A fold of such updates at distinct places, seen from one place.\<close>

lemma numa_fold_frame:
  assumes f: "\<And>d nm i j. GetNumaInfo (f d nm) i j =
      (if i = dn_nodeId d \<and> j = dn_numa d then map_option (g (dn_size d)) (GetNumaInfo nm i j) else GetNumaInfo nm i j)"
  shows "(i, j) \<notin> (\<lambda>d. (dn_nodeId d, dn_numa d)) ` set ds \<Longrightarrow> GetNumaInfo (fold f ds nm) i j = GetNumaInfo nm i j"
  by (induction ds arbitrary: nm) (auto simp: f)

lemma numa_fold_at:
  assumes f: "\<And>d nm i j. GetNumaInfo (f d nm) i j =
      (if i = dn_nodeId d \<and> j = dn_numa d then map_option (g (dn_size d)) (GetNumaInfo nm i j) else GetNumaInfo nm i j)"
    and dist: "distinct (map (\<lambda>d. (dn_nodeId d, dn_numa d)) ds)"
  shows "d \<in> set ds \<Longrightarrow> GetNumaInfo (fold f ds nm) (dn_nodeId d) (dn_numa d) =
      map_option (g (dn_size d)) (GetNumaInfo nm (dn_nodeId d) (dn_numa d))"
  using dist
proof (induction ds arbitrary: nm)
  case (Cons d0 ds)
  show ?case
  proof (cases "d = d0")
    case True
    have "(dn_nodeId d0, dn_numa d0) \<notin> (\<lambda>d. (dn_nodeId d, dn_numa d)) ` set ds" using Cons.prems(2) by simp
    from numa_fold_frame [OF f this] True show ?thesis by (simp add: f)
  next
    case False
    with Cons.prems have "d \<in> set ds" by simp
    then have "(dn_nodeId d, dn_numa d) \<in> (\<lambda>d. (dn_nodeId d, dn_numa d)) ` set ds" by (rule imageI)
    then have "(dn_nodeId d, dn_numa d) \<noteq> (dn_nodeId d0, dn_numa d0)" using Cons.prems(2) by auto
    with Cons.IH [OF \<open>d \<in> set ds\<close>] Cons.prems(2) show ?thesis by (auto simp: f)
  qed
qed simp

definition caps :: "numa_info \<Rightarrow> u64 \<times> u64 \<times> u64" where
  "caps u = (memTotal u, memLent u, memShared u)"

lemma caps_borrow: "map_option caps (GetNumaInfo (AddNumaBorrow a nm) i j) = map_option caps (GetNumaInfo nm i j)"
proof -
  have "map_option caps (SocketGetNumaInfo j (upd_first_numa (AddNumaBorrowSize v) s)) = map_option caps (SocketGetNumaInfo j s)" for v s
    by (auto simp: SocketGetNumaInfo_def upd_first_numa_def AddNumaBorrowSize_def caps_def split: list.split)
  then have "map_option caps (GetNumaInfo (add_borrow_at d nm) i j) = map_option caps (GetNumaInfo nm i j)" for d nm
    unfolding add_borrow_at_def by (rule GetNumaInfo_upd_socket)
  then have "map_option caps (GetNumaInfo (fold add_borrow_at ds nm) i j) = map_option caps (GetNumaInfo nm i j)" for ds
    by (induction ds arbitrary: nm) auto
  then show ?thesis by (simp add: AddNumaBorrow_def)
qed

text \<open>What a NUMA node lends on top of its bookings stays below the water line.\<close>

lemma add_within_limit:
  assumes "unat (memLent u) + unat (memShared u) < 2 ^ 64" and "sz \<noteq> 0" and "sz \<le> NumaGetAvailableLendSize w u"
  shows "unat (add_keep (memLent u) sz) + unat (memShared u) \<le> unat (memTotal u * w div MAX_PERCENT)"
    and "unat (memLent u) + unat (add_keep (memShared u) sz) \<le> unat (memTotal u * w div MAX_PERCENT)"
proof -
  let ?l = "memTotal u * w div MAX_PERCENT"
  have sum: "unat (memLent u + memShared u) = unat (memLent u) + unat (memShared u)"
    using assms(1) by (simp add: unat_add_fits)
  have le: "memLent u + memShared u \<le> ?l" and "sz \<le> ?l - (memLent u + memShared u)"
    using assms(2,3) by (auto simp: NumaGetAvailableLendSize_def Let_def split: if_splits)
  then have sz: "unat sz + unat (memLent u) + unat (memShared u) \<le> unat ?l"
    using sum by (simp add: word_le_nat_alt unat_sub)
  moreover have "unat ?l < 2 ^ 64" by (rule unat_u64_less)
  ultimately have "unat (add_keep (memLent u) sz) = unat (memLent u) + unat sz"
    "unat (add_keep (memShared u) sz) = unat (memShared u) + unat sz"
    by (simp_all add: add_keep_def SafeAdd_def unat_add_fits)
  with sz show "unat (add_keep (memLent u) sz) + unat (memShared u) \<le> unat ?l"
    "unat (memLent u) + unat (add_keep (memShared u) sz) \<le> unat ?l" by simp_all
qed


section \<open>Refreshing the cache\<close>

lemma infos_collect: "nm_nodeInfos (snd (UpdateAllNumaMemInfo pf nodeMap nm)) = nm_nodeInfos nm"
  by (induction pf nodeMap nm rule: UpdateAllNumaMemInfo.induct) (auto simp: put_node_def split: option.split)

lemma infos_links: "nm_nodeInfos (snd (UpdateAllLinkInfo deployed nodeMap nm)) = nm_nodeInfos nm"
proof -
  have "nm_nodeInfos (snd (update_links nodeMap nm)) = nm_nodeInfos nm" for nm
    by (induction nodeMap nm rule: update_links.induct) (auto simp: put_node_def split: option.split)
  then show ?thesis by (simp add: UpdateAllLinkInfo_def UpdateStaticNodeInfo_def)
qed

lemma ScheduleBorrow_refresh:
  \<comment> \<open>the managers after \<open>ScheduleBorrow\<close>: the accounts as before, the cache refreshed\<close>
  assumes "ScheduleBorrow e req res (nm, am) = (ret, res', nm', am')"
  shows "am' = am" and "nm_nodeInfos nm' = nm_nodeInfos nm" and "books nm' = books nm"
    and "cache_ok nm \<Longrightarrow> cache_ok nm'" and "ledger_step\<^sup>*\<^sup>* (nm, am) (nm', am)"
    and "ret = UBSE_OK \<Longrightarrow> ScheduleOn e nm' am req res = (UBSE_OK, res')"
proof -
  obtain r1 nm1 where c: "UpdateAllNumaMemInfo (ev_platform e) (ev_nodes e) nm = (r1, nm1)" by fastforce
  obtain r2 nm2 where l: "UpdateAllLinkInfo (ev_deployed e) (ev_nodes e) nm1 = (r2, nm2)" by fastforce
  have c1: "nm1 = snd (UpdateAllNumaMemInfo (ev_platform e) (ev_nodes e) nm)" by (simp add: c)
  have l2: "nm2 = snd (UpdateAllLinkInfo (ev_deployed e) (ev_nodes e) nm1)" by (simp add: l)
  have s1: "ledger_step (nm, am) (nm1, am)" unfolding c1 by (rule ledger_step.collected)
  have s2: "ledger_step (nm1, am) (nm2, am)" unfolding l2 by (rule ledger_step.linked)
  have cases: "am' = am \<and> (nm' = nm1 \<or> nm' = nm2) \<and> (ret = UBSE_OK \<longrightarrow> ScheduleOn e nm' am req res = (UBSE_OK, res'))"
    using assms by (auto simp: ScheduleBorrow_def c l split: if_splits prod.splits)
  then show "am' = am" and "ret = UBSE_OK \<Longrightarrow> ScheduleOn e nm' am req res = (UBSE_OK, res')" by auto
  show "nm_nodeInfos nm' = nm_nodeInfos nm" using cases by (auto simp: c1 l2 infos_collect infos_links)
  show "books nm' = books nm" using cases by (auto simp: c1 l2 books_collect books_links)
  show "cache_ok nm \<Longrightarrow> cache_ok nm'"
    using cases by (auto simp: c1 l2 intro: cache_ok_UpdateAllNumaMemInfo cache_ok_UpdateAllLinkInfo)
  show "ledger_step\<^sup>*\<^sup>* (nm, am) (nm', am)"
    using cases s1 s2 by (auto intro: converse_rtranclp_into_rtranclp)
qed

section \<open>The states of the scheduler\<close>

inductive impl_step :: "scheduler_impl \<Rightarrow> scheduler_impl \<Rightarrow> bool" where
  mem_event: "MemoryObjChangeHandler e obj im = (ret, obj', im') \<Longrightarrow> ledger_fits (im_account im') \<Longrightarrow> impl_step im im'"
| node_event: "(needs_init u (im_nodeInfo im) \<Longrightarrow> nothing_booked (uo_nodeId u) (im_account im)) \<Longrightarrow>
     impl_step im (snd (NodeObjChangeHandler c deployed u im))"
| cleared: "impl_step im (ClearCache im)"
| initialised: "impl_step im (snd (SchedulerInit registered c im))"

inductive_cases impl_stepE: "impl_step im im'"

text \<open>
  The handler refines the ledger: whatever a memory event carries, and whether the handler schedules it, refuses it half-way
  or books it, the pair of managers moves by a run of the ledger's steps (collecting memory, reading links, booking an
  account); the books are touched in no other way.
\<close>

lemma handler_refines:
  assumes h: "MemoryObjChangeHandler e obj im = (ret, obj', im')" and fits: "ledger_fits (im_account im')"
  shows "ledger_step\<^sup>*\<^sup>* (im_nodeInfo im, im_account im) (im_nodeInfo im', im_account im')"
proof -
  obtain r1 res nm1 am1 where s: "(if mo_state obj = UBSE_MEM_SCHEDULING
      then ScheduleBorrow e (BuildRequest (mo_req obj) (im_nodeInfo im)) (mo_algoResult obj) (im_nodeInfo im, im_account im)
      else (UBSE_OK, mo_algoResult obj, im_nodeInfo im, im_account im)) = (r1, res, nm1, am1)"
    using prod_cases4 by blast
  have run: "am1 = im_account im" "ledger_step\<^sup>*\<^sup>* (im_nodeInfo im, im_account im) (nm1, im_account im)"
    using s ScheduleBorrow_refresh(1,5) by (auto split: if_splits)
  obtain r2 nm2 am2 where u: "UpdateSchedulerAccount (req_name (mo_req obj)) res (mo_state obj) (MemObjType (mo_req obj)) (nm1, am1) = (r2, nm2, am2)"
    using prod_cases3 by blast
  show ?thesis
  proof (cases "r1 = UBSE_OK")
    case True
    then have im': "im_nodeInfo im' = nm2" "im_account im' = am2" using h s u by (auto simp: MemoryObjChangeHandler_def)
    have "ledger_step (nm1, am1) (nm2, am2)" using ledger_step.booked [OF u] fits im' by simp
    with run im' show ?thesis by (simp add: rtranclp.rtrancl_into_rtrancl)
  next
    case False
    then have "im_nodeInfo im' = nm1" "im_account im' = am1" using h s by (auto simp: MemoryObjChangeHandler_def)
    with run show ?thesis by simp
  qed
qed

definition impl_ok :: "scheduler_impl \<Rightarrow> bool" where
  "impl_ok im \<longleftrightarrow> cache_ok (im_nodeInfo im) \<and> ledger_ok (im_nodeInfo im) (im_account im)"

lemma ledger_run_ok:
  "ledger_step\<^sup>*\<^sup>* (nm, am) (nm', am') \<Longrightarrow> cache_ok nm \<and> ledger_ok nm am \<Longrightarrow> cache_ok nm' \<and> ledger_ok nm' am'"
proof (induction rule: rtranclp_induct2)
  case (step nm1 am1 nm2 am2)
  then show ?case using ledger_ok_step [OF step(2)] cache_ok_books_step [OF step(2)] by simp
qed simp

lemma init_config_frame:
  "nm_nodeMap (InitSchedulerMode c (InitRadiusConfig c (InitPageSize c nm))) = nm_nodeMap nm"
  "nm_nodeInfos (InitSchedulerMode c (InitRadiusConfig c (InitPageSize c nm))) = nm_nodeInfos nm"
  by (auto simp: InitSchedulerMode_def InitRadiusConfig_def InitPageSize_def Let_def split: option.splits)

lemma ledger_ok_nodeMap: "nm_nodeMap nm' = nm_nodeMap nm \<Longrightarrow> ledger_ok nm' am = ledger_ok nm am"
  by (rule ledger_ok_books) (rule books_nodeMap)

lemma impl_ok_step: "impl_step im im' \<Longrightarrow> impl_ok im \<Longrightarrow> impl_ok im'"
proof (induction rule: impl_step.induct)
  case (mem_event e obj im ret obj' im')
  then show ?case using ledger_run_ok [OF handler_refines [OF mem_event(1,2)]] by (simp add: impl_ok_def)
next
  case (node_event u im c deployed)
  then show ?case
    using ledger_report_step [of "im_nodeInfo im" "im_account im" u c deployed] cache_ok_UpdateNodeInfo [of "im_nodeInfo im" c deployed u]
    by (auto simp: impl_ok_def NodeObjChangeHandler_def split: prod.splits)
next
  case (cleared im)
  have "ledger_ok (NodeManagerClear nm) (AccountClear am)" for nm am
    by (simp add: ledger_ok_def borrow_maps_ok_def balanced_def rd_node GetNodeInfo_def NodeManagerClear_def AccountClear_def)
  then show ?case by (simp add: impl_ok_def ClearCache_def cache_ok_clear)
next
  case (initialised im registered c)
  then show ?case
    using ledger_ok_nodeMap [OF init_config_frame(1)] cache_ok_same [OF init_config_frame]
    by (auto simp: impl_ok_def SchedulerInit_def)
qed

lemma impl_ok_run: "impl_step\<^sup>*\<^sup>* SchedulerImpl_new im \<Longrightarrow> impl_ok im"
proof (induction rule: rtranclp_induct)
  case base
  then show ?case by (simp add: impl_ok_def SchedulerImpl_new_def ledger_ok_new cache_ok_new)
qed (rule impl_ok_step)

section \<open>A granted request once it is booked\<close>

definition books_fit :: "node_manager \<Rightarrow> bool" where
  "books_fit nm \<longleftrightarrow> (\<forall>i j u. GetNumaInfo nm i j = Some u \<longrightarrow> unat (memLent u) + unat (memShared u) < 2 ^ 64)"

lemma books_fit_cong:
  assumes "books nm' = books nm" and "books_fit nm"
  shows "books_fit nm'"
  unfolding books_fit_def
proof (intro allI impI)
  fix i j u
  assume u: "GetNumaInfo nm' i j = Some u"
  have "rd_lent nm' (i, j) = rd_lent nm (i, j)" "rd_shared nm' (i, j) = rd_shared nm (i, j)"
    using assms(1) by (simp_all add: books_def)
  with u obtain v where v: "GetNumaInfo nm i j = Some v" "memLent v = memLent u" "memShared v = memShared u"
    by (auto simp: rd_lent_def rd_shared_def map_option_case split: option.splits)
  have "unat (memLent v) + unat (memShared v) < 2 ^ 64" using assms(2) v(1) unfolding books_fit_def by blast
  then show "unat (memLent u) + unat (memShared u) < 2 ^ 64" using v(2,3) by simp
qed

lemma dn_numa_debt [simp]: "dn_numa (debt i sid j sz) = j" "dn_nodeId (debt i sid j sz) = i" "dn_size (debt i sid j sz) = sz"
  by (simp_all add: dn_numa_def debt_def ucast_up_ucast_id is_up)

text \<open>The exports of a fresh account, added to a cache that can lend them.\<close>

lemma lend_within_limit:
  assumes at: "\<And>j sz. (j, sz) \<in> set ps \<Longrightarrow>
      \<exists>u. GetNumaInfo nm i j = Some u \<and> sz \<noteq> 0 \<and> sz \<le> NumaGetAvailableLendSize w u"
    and fit: "books_fit nm" and dist: "distinct (map fst ps)"
    and cap: "\<And>j. map_option caps (GetNumaInfo nm1 i j) = map_option caps (GetNumaInfo nm i j)"
    and d: "d \<in> set (map (\<lambda>(j, sz). debt i sid j sz) ps)"
  shows "\<exists>u. GetNumaInfo (fold (if sh then add_share_at bs else add_lend_at bs) (map (\<lambda>(j, sz). debt i sid j sz) ps) nm1) (dn_nodeId d) (dn_numa d) = Some u \<and>
      unat (memLent u) + unat (memShared u) \<le> unat (memTotal u * w div MAX_PERCENT)"
proof -
  let ?ds = "map (\<lambda>(j, sz). debt i sid j sz) ps"
  obtain j sz where jsz: "(j, sz) \<in> set ps" "d = debt i sid j sz" using d by auto
  obtain u0 where u0: "GetNumaInfo nm i j = Some u0" "sz \<noteq> 0" "sz \<le> NumaGetAvailableLendSize w u0" using at [OF jsz(1)] by blast
  obtain u1 where u1: "GetNumaInfo nm1 i j = Some u1" and c: "caps u1 = caps u0" using cap [of j] u0(1) by (auto simp: map_option_case split: option.splits)
  have "unat (memLent u0) + unat (memShared u0) < 2 ^ 64" using fit u0(1) by (auto simp: books_fit_def)
  note lim = add_within_limit [OF this u0(2,3)]
  have "map (\<lambda>d. (dn_nodeId d, dn_numa d)) ?ds = map (Pair i) (map fst ps)" by (simp add: comp_def case_prod_beta')
  then have dd: "distinct (map (\<lambda>d. (dn_nodeId d, dn_numa d)) ?ds)" using dist by (simp add: distinct_map inj_on_def)
  show ?thesis
  proof (cases sh)
    case True
    then have "GetNumaInfo (fold (if sh then add_share_at bs else add_lend_at bs) ?ds nm1) (dn_nodeId d) (dn_numa d) = Some (AddNumaShareSize sz u1)"
      using numa_fold_at [OF numa_add_at(2) [where bs = bs] dd d, where nm = nm1] jsz(2) u1 by simp
    with c lim(2) show ?thesis by (simp add: AddNumaShareSize_def caps_def)
  next
    case False
    then have "GetNumaInfo (fold (if sh then add_share_at bs else add_lend_at bs) ?ds nm1) (dn_nodeId d) (dn_numa d) = Some (AddNumaLentSize sz u1)"
      using numa_fold_at [OF numa_add_at(1) [where bs = bs] dd d, where nm = nm1] jsz(2) u1 by simp
    with c lim(1) show ?thesis by (simp add: AddNumaLentSize_def caps_def)
  qed
qed

text \<open>What an \<open>OK\<close> of the handler means for an object that is being scheduled.\<close>

lemma handler_granted:
  assumes h: "MemoryObjChangeHandler e obj im = (UBSE_OK, obj', im')" and st: "mo_state obj = UBSE_MEM_SCHEDULING"
    and new: "map_of (targetMap (MemObjType (mo_req obj)) (im_account im))
      (account_id (req_name (mo_req obj)) (mo_algoResult obj') (MemObjType (mo_req obj))) = None"
  obtains nm1 a where "ScheduleBorrow e (BuildRequest (mo_req obj) (im_nodeInfo im)) (mo_algoResult obj) (im_nodeInfo im, im_account im) =
      (UBSE_OK, mo_algoResult obj', nm1, im_account im)"
    "ac_exportNumaLocs a = ar_exportNumaInfos (mo_algoResult obj')" "ac_type a = MemObjType (mo_req obj)" "ac_state a = BOTH_NOT_EXIST"
    "im_nodeInfo im' = move_export a (next_state (ac_type a) BOTH_NOT_EXIST UBSE_MEM_SCHEDULING)
      (move_import a (next_state (ac_type a) BOTH_NOT_EXIST UBSE_MEM_SCHEDULING) nm1)"
proof -
  obtain r1 res nm1 am1 where s: "ScheduleBorrow e (BuildRequest (mo_req obj) (im_nodeInfo im)) (mo_algoResult obj) (im_nodeInfo im, im_account im)
      = (r1, res, nm1, am1)"
    using prod_cases4 by blast
  have am1: "am1 = im_account im" using ScheduleBorrow_refresh(1) [OF s] .
  obtain r2 nm2 am2 where u: "UpdateSchedulerAccount (req_name (mo_req obj)) res (mo_state obj) (MemObjType (mo_req obj)) (nm1, am1) = (r2, nm2, am2)"
    using prod_cases3 by blast
  have r: "r1 = UBSE_OK" "r2 = UBSE_OK" "mo_algoResult obj' = res" "im_nodeInfo im' = nm2"
    using h s st u by (auto simp: MemoryObjChangeHandler_def Let_def split: if_splits)
  show thesis
  proof (cases rule: UpdateSchedulerAccount_cases [OF u, case_names err ok])
    case (ok a)
    have a: "SchedulerAccountInfo_new (ar_importNumaInfos res) (ar_exportNumaInfos res) (MemObjType (mo_req obj)) (ar_blockSize res) = Inr a"
      using ok(2) new r(3) am1 by (simp add: find_or_create_def)
    show thesis
      using that [of nm1 a] s r am1 ok(3) a
      by (auto simp: SchedulerAccountInfo_new_def UpdateAccountState_moves st split: if_splits)
  qed (use r(2) in simp)
qed


text \<open>An address request for one block on a two-node cluster.\<close>

definition demo_borrower :: node_info where
  "demo_borrower = demo_lender\<lparr>no_nodeId := ''1'', no_isLender := False, no_sockets := []\<rparr>"

definition demo_pair :: scheduler_impl where
  "demo_pair = SchedulerImpl_new\<lparr>im_nodeInfo := SchedulerNodeManager_new\<lparr>
     nm_nodeMap := [''1'' \<mapsto> demo_borrower, ''2'' \<mapsto> demo_lender],
     nm_nodeInfos := [GetNodeInfoView demo_borrower, GetNodeInfoView demo_lender]\<rparr>\<rparr>"

definition demo_addr :: mem_obj where
  "demo_addr = \<lparr>mo_req = AddrReq \<lparr>ab_name = ''a'', ab_requestNodeId = ''1'', ab_importNodeId = ''1'', ab_exportNodeId = ''2'',
     ab_dstSocket = - 1, ab_dstNuma = - 1, ab_exportAddrList = [\<lparr>ai_addr = 0, ai_size = 0x8000000\<rparr>]\<rparr>,
     mo_algoResult = algo_result_init, mo_state = UBSE_MEM_SCHEDULING\<rparr>"

abbreviation "demo_pair_nm \<equiv> im_nodeInfo demo_pair"
abbreviation "demo_addr_req \<equiv> BuildRequest (mo_req demo_addr) demo_pair_nm"

lemma demo_pair_lookup [simp]:
  "GetNodeInfo demo_pair_nm ''2'' = Some demo_lender" "GetNodeInfo demo_pair_nm ''1'' = Some demo_borrower"
  "GetSocketInfo demo_pair_nm ''2'' 36 = Some demo_socket"
  "nm_nodeInfos demo_pair_nm = [\<lparr>nd_nodeId = ''1'', nd_socketInfos = []\<rparr>, \<lparr>nd_nodeId = ''2'', nd_socketInfos = [\<lparr>si_socketId = 36, si_numaInfos = [0]\<rparr>]\<rparr>]"
  "nm_schedulerMode demo_pair_nm = FreePriority" "im_account demo_pair = SchedulerAccountManager_new"
  by (simp_all add: GetSocketInfo_def GetNodeInfo_def demo_pair_def demo_borrower_def demo_lender_def demo_socket_def NodeGetSocketInfo_def
      GetNodeInfoView_def GetSocketInfoView_def SchedulerSocketInfo_new_def SchedulerNumaInfo_new_def SchedulerImpl_new_def SchedulerNodeManager_new_def)

lemma demo_pair_ok: "cache_ok demo_pair_nm" "numa_unique demo_pair_nm" "books_fit demo_pair_nm"
proof -
  show "cache_ok demo_pair_nm"
    by (simp add: cache_ok_def demo_pair_def demo_lender_def demo_borrower_def SchedulerNodeManager_new_def SchedulerImpl_new_def
        node_ok_def socket_ok_def om_ok_def SchedulerSocketInfo_new_def SchedulerNumaInfo_new_def)
  show "numa_unique demo_pair_nm" by (simp add: numa_unique_def)
  have "memLent u = 0 \<and> memShared u = 0" if "GetNumaInfo demo_pair_nm i j = Some u" for i j u
    using that by (auto simp: GetNumaInfo_def GetNodeInfo_def SocketGetNumaInfo_def demo_pair_def demo_borrower_def demo_lender_def
        SchedulerSocketInfo_new_def SchedulerNumaInfo_new_def SchedulerImpl_new_def SchedulerNodeManager_new_def split: if_splits)
  then show "books_fit demo_pair_nm" by (auto simp: books_fit_def)
qed

lemma demo_addr_facts:
  "rq_filterNames demo_addr_req = [''LenderRoleFilter'', ''NodeStateFilter'', ''RoleConflictFilter'']"
  "rq_requestSize demo_addr_req = 0x8000000" "rq_importNodeId demo_addr_req = ''1''" "rq_requestMode demo_addr_req = BORROW"
  "named_lenders demo_addr_req = []" "water_line demo_addr_req = 100"
  by (simp_all add: demo_addr_def BuildFromAddrBorrow_def SetupFromNodeConf_def SchedulerRequest_new_def SetParam_def SafeAdd_def
      named_lenders_def GetParam_lenderInfos_def water_line_def GetParam_size_def MAX_PERCENT_def)

lemma demo_addr_granted:
  "\<exists>res. ScheduleBorrow demo_env demo_addr_req algo_result_init (demo_pair_nm, SchedulerAccountManager_new) =
     (UBSE_OK, res, demo_pair_nm, SchedulerAccountManager_new)"
proof -
  have st: "UpdateStaticNodeInfo {} demo_pair_nm = demo_pair_nm" by (simp add: UpdateStaticNodeInfo_def)
  have f: "FilterNodes demo_pair_nm SchedulerAccountManager_new demo_addr_req (nm_nodeInfos demo_pair_nm) =
      (UBSE_OK, [\<lparr>nd_nodeId = ''2'', nd_socketInfos = [\<lparr>si_socketId = 36, si_numaInfos = [0]\<rparr>]\<rparr>])"
    unfolding FilterNodes_def demo_addr_facts
    by (simp add: FindFilterByName_def LenderRoleFilter_def NodeStateFilter_def RoleConflictFilter_def EraseNodesIf_def demo_addr_facts
        demo_borrower_def demo_lender_def GetLentSizeExcludingShared_def NodeGetBorrowSize_def
        SchedulerSocketInfo_new_def SchedulerNumaInfo_new_def add_keep_def SafeAdd_def)
  have free: "ok_FreeMemory demo_pair_nm SchedulerAccountManager_new demo_addr_req ''2'' 36"
    by (simp add: ok_FreeMemory_def demo_addr_facts demo_available)
  have "fst (ScheduleOn demo_env demo_pair_nm SchedulerAccountManager_new demo_addr_req algo_result_init) = UBSE_OK"
  proof (cases rule: ScheduleOn_cases [OF demo_env_ok f, of algo_result_init, case_names filter_error none no_socket best])
    case (best b)
    then have b: "sn_nodeId b = ''2''" "sn_socketId b = 36" by (simp_all add: cands_def)
    show ?thesis
      unfolding best(3) using demo_env_ok
      by (intro FillAlgoResult_never_short) (simp_all add: env_ok_def demo_addr_facts b free)
  qed (simp_all add: candidates_def)
  then show ?thesis
    by (auto simp: ScheduleBorrow_def UpdateAllLinkInfo_def st demo_env_def prod_eq_iff split: prod.split)
qed

lemma fresh_account_booked:
  assumes "ar_exportNumaInfos res \<noteq> []" and "ar_importNumaInfos res \<noteq> []" and "ar_blockSize res \<noteq> 0"
    and "map_of (targetMap type am) (account_id name res type) = None"
  shows "fst (UpdateSchedulerAccount name res st type (nm, am)) = UBSE_OK"
  using assms by (simp add: UpdateSchedulerAccount_def find_or_create_def SchedulerAccountInfo_new_def Let_def case_prod_beta')



definition demo_booking :: "mem_obj" where
  "demo_booking = \<lparr>mo_req = AddrReq \<lparr>ab_name = ''r'', ab_requestNodeId = ''1'', ab_importNodeId = ''1'', ab_exportNodeId = ''2'',
     ab_dstSocket = - 1, ab_dstNuma = - 1, ab_exportAddrList = []\<rparr>, mo_algoResult = demo_result, mo_state = UBSE_MEM_EXPORT_SUCCESS\<rparr>"

definition demo_running :: scheduler_impl where
  "demo_running = snd (snd (MemoryObjChangeHandler demo_env demo_booking
     (snd (NodeObjChangeHandler None {} (demo_node ''2'') SchedulerImpl_new))))"

lemma demo_running_parts:
  "im_account demo_running = \<lparr>am_borrowAccount = [(SchedulerAccountID ''r'' ''1'' ADDR,
     \<lparr>ac_importNumaLocs = [demo_debt ''1''], ac_exportNumaLocs = [demo_debt ''2''], ac_blockSize = 128, ac_type = ADDR,
      ac_state = ONLY_EXPORT_EXIST\<rparr>)], am_shareAccount = []\<rparr>"
  "im_nodeInfo demo_running = add_lend_at 128 (demo_debt ''2'') (snd (UpdateNodeInfo None {} (demo_node ''2'') SchedulerNodeManager_new))"
  by (simp_all add: demo_running_def demo_booking_def MemoryObjChangeHandler_def NodeObjChangeHandler_def SchedulerImpl_new_def
      demo_result_def algo_result_init_def UpdateSchedulerAccount_def find_or_create_def case_prod_beta' Let_def
      targetMap_def set_targetMap_def SchedulerAccountManager_new_def SchedulerAccountInfo_new_def account_id_def
      UpdateAccountState_moves move_import_def move_export_def import_booked_def export_booked_def account_op_defs demo_debt_def)

lemma demo_running_fits: "ledger_fits (im_account demo_running)"
  by (simp add: ledger_fits_def demo_running_parts total_defs acct_defs demo_debt_def blocks_at_def blocks_of_def ONE_M_def)

lemma demo_running_run: "impl_step\<^sup>*\<^sup>* SchedulerImpl_new demo_running"
proof -
  let ?im = "snd (NodeObjChangeHandler None {} (demo_node ''2'') SchedulerImpl_new)"
  have "nothing_booked i SchedulerAccountManager_new" for i
    by (simp add: nothing_booked_def total_defs SchedulerAccountManager_new_def)
  then have 1: "impl_step SchedulerImpl_new ?im" by (intro node_event) (simp add: SchedulerImpl_new_def)
  have "impl_step ?im demo_running"
    using demo_running_fits unfolding demo_running_def by (cases "MemoryObjChangeHandler demo_env demo_booking ?im") (auto intro: mem_event)
  with 1 show ?thesis by (simp add: rtranclp.rtrancl_into_rtrancl)
qed


end
