(* ===== verification/NamedLenders.thy ===== *)
theory NamedLenders
  imports ImplSafety
begin

text \<open>
  Requests that name their lenders: what \<open>FillAlgoResult\<close> takes from each of them, and what
  \<open>SpecifiedLenderFilter\<close> does and does not check before.
\<close>

section \<open>The lenders of a request\<close>

definition round_blocks :: "u64 \<Rightarrow> u64 \<Rightarrow> u64" where
  "round_blocks bs sz = (sz + bs - 1) div bs * bs"

definition named :: "UbseMemLenderInfo list \<Rightarrow> UbseMemLenderInfo list" where
  "named lis = filter (\<lambda>li. li_numaId li \<noteq> UINT32_MAX) lis"

lemma block_bytes_push [simp]: "block_bytes (push_debt req i sid j sz res) = block_bytes res"
  by (simp add: block_bytes_def push_debt_def Let_def)

lemma push_debt_fields [simp]:
  "ar_blockSize (push_debt req i sid j sz res) = ar_blockSize res"
  "ar_attachSocketId (push_debt req i sid j sz res) = ar_attachSocketId res"
  "ar_exportNumaInfos (push_debt req i sid j sz res) = ar_exportNumaInfos res @ [debt i sid j sz]"
  "ar_importNumaInfos (push_debt req i sid j sz res) = ar_importNumaInfos res @
     (if rq_requestMode req = BORROW then [debt (rq_importNodeId req) sid j sz] else [])"
  by (simp_all add: push_debt_def Let_def)

lemma fill_lenders_result:
  fixes res :: UbseMemAlgoResult
  defines "sid \<equiv> ar_attachSocketId res" and "bs \<equiv> block_bytes res"
  shows "\<exists>res'. fill_lenders req lis res = (UBSE_OK, res') \<and> ar_blockSize res' = ar_blockSize res \<and>
     ar_attachSocketId res' = sid \<and>
     ar_exportNumaInfos res' = ar_exportNumaInfos res @
       map (\<lambda>li. debt (li_nodeId li) sid (li_numaId li) (round_blocks bs (li_lender_size li))) (named lis) \<and>
     ar_importNumaInfos res' = ar_importNumaInfos res @ (if rq_requestMode req = BORROW then
       map (\<lambda>li. debt (rq_importNodeId req) sid (li_numaId li) (round_blocks bs (li_lender_size li))) (named lis) else [])"
  unfolding sid_def bs_def
proof (induction lis arbitrary: res)
  case (Cons li lis)
  let ?res = "push_debt req (li_nodeId li) (ar_attachSocketId res) (li_numaId li) (round_blocks (block_bytes res) (li_lender_size li)) res"
  show ?case
    using Cons.IH [of res] Cons.IH [of ?res]
    by (auto simp: named_def SelectNumaByLenderInfo_def Let_def round_blocks_def [symmetric])
qed (simp add: named_def)

section \<open>Properties\<close>


definition two_lenders :: "UbseMemLenderInfo list" where
  "two_lenders = map (\<lambda>j. lender_info_init\<lparr>li_nodeId := ''2'', li_numaId := j, li_lender_size := 0x8000000\<rparr>) [0, 1]"

definition two_request :: scheduler_request where
  "two_request = SetParam ''lenderInfos'' (any_lenderInfos two_lenders) (SchedulerRequest_new\<lparr>rq_importNodeId := ''1'',
     rq_requestNodeId := ''1'', rq_requestSize := 0x10000000, rq_filterNames := [''SpecifiedLenderFilter'']\<rparr>)"

lemma two_request_facts:
  "named_lenders two_request = two_lenders" "GetParam_bool ''isAddr'' two_request = None"
  "GetParam_lenderInfos ''lenderInfos'' two_request = Some two_lenders"
  "rq_filterNames two_request = [''SpecifiedLenderFilter'']" "water_line two_request = 100"
  by (simp_all add: two_request_def two_lenders_def named_lenders_def SetParam_def SchedulerRequest_new_def GetParam_defs
      water_line_def MAX_PERCENT_def)


lemma mb_128: "SizeMb2Byte 128 = (True, 0x8000000)"
  using SizeMb2Byte_u32 [of 128] by simp

definition half_empty :: node_info where
  "half_empty = demo_lender\<lparr>no_sockets := [(36, demo_socket\<lparr>sk_numas :=
     [(0, (SchedulerNumaInfo_new 0)\<lparr>memTotal := 0x40000000, memFree := 0x40000000\<rparr>), (1, SchedulerNumaInfo_new 1)]\<rparr>)]\<rparr>"

definition half_cluster :: node_manager where
  "half_cluster = SchedulerNodeManager_new\<lparr>nm_nodeMap := [''2'' \<mapsto> half_empty], nm_nodeInfos := [GetNodeInfoView half_empty]\<rparr>"

lemma half_lookup [simp]:
  "GetNodeInfo half_cluster ''2'' = Some half_empty"
  "GetNumaInfo half_cluster ''2'' 0 = Some ((SchedulerNumaInfo_new 0)\<lparr>memTotal := 0x40000000, memFree := 0x40000000\<rparr>)"
  "GetNumaInfo half_cluster ''2'' 1 = Some (SchedulerNumaInfo_new 1)"
  "GetSocketIdByNumaId half_cluster ''2'' 0 = 36" "GetSocketIdByNumaId half_cluster ''2'' 1 = 36"
  "nm_nodeInfos half_cluster = [\<lparr>nd_nodeId = ''2'', nd_socketInfos = [\<lparr>si_socketId = 36, si_numaInfos = [0, 1]\<rparr>]\<rparr>]"
  "no_blockSize half_empty = 128"
  by (simp_all add: GetNumaInfo_def GetNodeInfo_def GetSocketIdByNumaId_def half_cluster_def half_empty_def demo_lender_def demo_socket_def
      SocketGetNumaInfo_def GetNodeInfoView_def GetSocketInfoView_def SchedulerSocketInfo_new_def SchedulerNodeManager_new_def SchedulerNumaInfo_new_def)

lemma half_ok: "cache_ok half_cluster"
  by (simp add: cache_ok_def half_cluster_def half_empty_def demo_lender_def demo_socket_def SchedulerNodeManager_new_def
      node_ok_def socket_ok_def om_ok_def SchedulerSocketInfo_new_def SchedulerNumaInfo_new_def)

lemma half_filtered:
  "FilterNodes half_cluster SchedulerAccountManager_new two_request (nm_nodeInfos half_cluster) =
     (UBSE_OK, [\<lparr>nd_nodeId = ''2'', nd_socketInfos = [\<lparr>si_socketId = 36, si_numaInfos = [0]\<rparr>]\<rparr>])"
proof -
  have v: "ValidateLenderConsistency half_cluster two_lenders = Inr (36, [(1, 0x8000000), (0, 0x8000000)])"
    by (simp add: ValidateLenderConsistency_def two_lenders_def lender_socket_def lender_info_init_def)
  have l: "two_lenders = lender_info_init\<lparr>li_nodeId := ''2'', li_numaId := 0, li_lender_size := 0x8000000\<rparr> #
      [lender_info_init\<lparr>li_nodeId := ''2'', li_numaId := 1, li_lender_size := 0x8000000\<rparr>]" by (simp add: two_lenders_def)
  show ?thesis
    by (simp add: FilterNodes_def two_request_facts FindFilterByName_def SpecifiedLenderFilter_def v [unfolded l] l
        FilterByNumaIds_def FilterBySocketId_def FilterByNodeId_def on_front_def EraseSocketsIf_def EraseNumasIf_def CheckNumaCapacity_def
        numa_lacks_def mb_128 NumaGetAvailableLendSize_def SchedulerNumaInfo_new_def MAX_PERCENT_def CleanupEmptyNodes_def Let_def)
qed


end
