(* ===== verification/ElectionDef.thy ===== *)
theory ElectionDef
  imports Prelude MathUtil StrUtil ParseUtil
begin

text \<open>
  The data of the role election, from \<open>framework/ha/ubse_election_def.h\<close>: nodes, the election and
  heartbeat packets, the master's record of each peer, the role contexts, and the election
  settings read when the module starts.
\<close>

section \<open>Constants\<close>

definition INVALID_NODE_ID :: NodeId where "INVALID_NODE_ID = []"
definition DEFAULT_HEART_BEAT_TIME :: u32 where "DEFAULT_HEART_BEAT_TIME = 2000"
definition DEFAULT_HEART_BEAT_LOST :: u32 where "DEFAULT_HEART_BEAT_LOST = 3"
definition MAX_HEART_BEAT_LOST :: u32 where "MAX_HEART_BEAT_LOST = 20"
definition IS_READY :: u8 where "IS_READY = 1"
definition NOT_READY :: u8 where "NOT_READY = 0"

datatype RoleType = MASTER | STANDBY | AGENT | INITIALIZER

datatype UbseNodeChangeState = INIT | UNCHANGED | ADD | DELETE

record node =
  node_id :: NodeId
  node_ip :: string
  node_port :: u16
  node_state :: UbseNodeChangeState

definition ELECTION_PKT_TYPE_SELECT :: u8 where "ELECTION_PKT_TYPE_SELECT = 0"
definition ELECTION_PKT_TYPE_HEART :: u8 where "ELECTION_PKT_TYPE_HEART = 1"

datatype NotifyStatus = NOT_BROADCAST | BROADCAST

fun notify_num :: "NotifyStatus \<Rightarrow> u8" where
  "notify_num NOT_BROADCAST = 0"
| "notify_num BROADCAST = 1"

datatype HeartBeatState = LOST | ACTIVE

record BroadcastStatus =
  masterOnlineBcStatus :: NotifyStatus
  masterOnlineBcTimes :: u32
  activeStatus :: HeartBeatState
  heartBeatLossCnt :: u32

definition BroadcastStatus_Default :: BroadcastStatus where
  \<comment> \<open>also what \<open>operator[]\<close> of the map inserts: every member value-initialised to 0\<close>
  "BroadcastStatus_Default = \<lparr>masterOnlineBcStatus = NOT_BROADCAST, masterOnlineBcTimes = 0, activeStatus = LOST,
     heartBeatLossCnt = 0\<rparr>"

record ElectionPkt =
  pk_type :: u8
  pk_masterId :: NodeId
  pk_standbyId :: NodeId
  pk_turnId :: u64
  pk_sequenceId :: u64
  pk_agentCount :: u64
  pk_agentIds :: "NodeId list"
  pk_masterStatus :: u8
  pk_standbyStatus :: u8
  pk_broadcast :: u8

definition ElectionPkt_new :: ElectionPkt where
  \<comment> \<open>the default member initialisers; \<open>type\<close> has none and every sender sets it\<close>
  "ElectionPkt_new = \<lparr>pk_type = 0, pk_masterId = [], pk_standbyId = [], pk_turnId = 0, pk_sequenceId = 0,
     pk_agentCount = 0, pk_agentIds = [], pk_masterStatus = NOT_READY, pk_standbyStatus = NOT_READY, pk_broadcast = 0\<rparr>"

definition ELECTION_PKT_RESULT_ACCEPT :: u32 where "ELECTION_PKT_RESULT_ACCEPT = 0"
definition ELECTION_PKT_TYPE_REJECT :: u32 where "ELECTION_PKT_TYPE_REJECT = 1"
definition ELECTION_PKT_TYPE_REJECT_HAS_MASTER :: u32 where "ELECTION_PKT_TYPE_REJECT_HAS_MASTER = 2"
definition ELECTION_PKT_REPLY_GLOBAL_STOP :: u32 where "ELECTION_PKT_REPLY_GLOBAL_STOP = 3"

lemmas pkt_codes = ELECTION_PKT_RESULT_ACCEPT_def ELECTION_PKT_TYPE_REJECT_def ELECTION_PKT_TYPE_REJECT_HAS_MASTER_def
  ELECTION_PKT_REPLY_GLOBAL_STOP_def

lemma pkt_codes_distinct [simp]:
  "ELECTION_PKT_TYPE_REJECT \<noteq> ELECTION_PKT_RESULT_ACCEPT" "ELECTION_PKT_RESULT_ACCEPT \<noteq> ELECTION_PKT_TYPE_REJECT"
  "ELECTION_PKT_TYPE_REJECT_HAS_MASTER \<noteq> ELECTION_PKT_RESULT_ACCEPT" "ELECTION_PKT_RESULT_ACCEPT \<noteq> ELECTION_PKT_TYPE_REJECT_HAS_MASTER"
  "ELECTION_PKT_TYPE_SELECT \<noteq> ELECTION_PKT_TYPE_HEART" "ELECTION_PKT_TYPE_HEART \<noteq> ELECTION_PKT_TYPE_SELECT"
  by (simp_all add: pkt_codes ELECTION_PKT_TYPE_SELECT_def ELECTION_PKT_TYPE_HEART_def)

record ElectionReplyPkt =
  rp_replyId :: NodeId
  rp_replyResult :: u32
  rp_masterId :: NodeId
  rp_turnId :: u64
  rp_standbyStatus :: u8
  rp_broadcast :: u8

definition ElectionReplyPkt_new :: ElectionReplyPkt where
  "ElectionReplyPkt_new = \<lparr>rp_replyId = [], rp_replyResult = ELECTION_PKT_RESULT_ACCEPT, rp_masterId = [], rp_turnId = 0,
     rp_standbyStatus = NOT_READY, rp_broadcast = 0\<rparr>"

record RoleContext =
  cx_turnId :: u64
  cx_masterId :: NodeId
  cx_standbyId :: NodeId

section \<open>Settings\<close>

text \<open>
  The election settings, as \<open>InitElectionConfig\<close> reads them. The configuration module is the
  argument: \<open>None\<close> if it is not there, otherwise one look-up for each key, \<open>None\<close> where
  \<open>GetConf\<close> fails.
\<close>

record election_conf =
  cf_candidateNodes :: "string option"
  cf_candidate :: "bool option"
  cf_wait :: "bool option"
  cf_lostThreshold :: "u32 option"
  cf_timeInterval :: "u32 option"

record ElectionConfig =
  ec_candidateNodes :: "string list"
  ec_hasCandidateNodes :: bool
  ec_electionCandidate :: bool
  ec_electionWait :: bool

definition ElectionConfig_new :: ElectionConfig where
  "ElectionConfig_new = \<lparr>ec_candidateNodes = [], ec_hasCandidateNodes = False, ec_electionCandidate = True,
     ec_electionWait = True\<rparr>"

definition ParseCandidateNodeList :: "string \<Rightarrow> string list" where
  "ParseCandidateNodeList rawValue = filter (\<lambda>n. n \<noteq> []) (map Trim (Split rawValue '','' []))"

definition InitElectionConfig :: "election_conf option \<Rightarrow> ElectionConfig \<Rightarrow> ElectionConfig" where
  "InitElectionConfig module g = (case module of
      None \<Rightarrow> g
    | Some c \<Rightarrow>
        (let g1 = (case cf_candidateNodes c of
               None \<Rightarrow> g
             | Some rawValue \<Rightarrow> g\<lparr>ec_candidateNodes := ParseCandidateNodeList rawValue,
                 ec_hasCandidateNodes := ParseCandidateNodeList rawValue \<noteq> []\<rparr>);
             g2 = g1\<lparr>ec_electionCandidate := (case cf_candidate c of None \<Rightarrow> True | Some b \<Rightarrow> b)\<rparr>
         in g2\<lparr>ec_electionWait := (case cf_wait c of None \<Rightarrow> True | Some b \<Rightarrow> b)\<rparr>))"

definition GetElectionCandidateNodesFromConf :: "ElectionConfig \<Rightarrow> string list option" where
  "GetElectionCandidateNodesFromConf g = (if ec_hasCandidateNodes g then Some (ec_candidateNodes g) else None)"

definition IsAllowedMasterNode :: "ElectionConfig \<Rightarrow> NodeId \<Rightarrow> bool" where
  "IsAllowedMasterNode g nodeId = (case GetElectionCandidateNodesFromConf g of
      None \<Rightarrow> True
    | Some candidateNodes \<Rightarrow> nodeId \<in> set candidateNodes)"

section \<open>Smallest identifiers\<close>

text \<open>Identifiers are compared as \<open>std::string\<close> does: lexicographically, by unsigned byte.\<close>

fun least_id :: "(NodeId \<Rightarrow> bool) \<Rightarrow> NodeId list \<Rightarrow> NodeId \<Rightarrow> NodeId" where
  \<comment> \<open>the common loop of the three searches; the last argument is \<open>smallestId\<close>\<close>
  "least_id ok [] smallestId = smallestId"
| "least_id ok (nodeId # nodes) smallestId =
     least_id ok nodes (if ok nodeId \<and> (smallestId = [] \<or> nodeId < smallestId) then nodeId else smallestId)"

definition FindSmallestId :: "NodeId list \<Rightarrow> NodeId" where
  "FindSmallestId allNodes = least_id (\<lambda>i. True) allNodes INVALID_NODE_ID"

definition FindSmallestIdExcludingMaster :: "NodeId \<Rightarrow> NodeId list \<Rightarrow> NodeId" where
  "FindSmallestIdExcludingMaster masterId allNodes = least_id (\<lambda>i. i \<noteq> masterId) allNodes INVALID_NODE_ID"

definition FindSmallestIdExcludingMasterAndAgent :: "NodeId list \<Rightarrow> NodeId \<Rightarrow> NodeId \<Rightarrow> NodeId" where
  "FindSmallestIdExcludingMasterAndAgent allNodes masterId agentId =
     least_id (\<lambda>i. i \<noteq> masterId \<and> i \<noteq> agentId) allNodes INVALID_NODE_ID"

definition IsSmallestNode :: "node \<Rightarrow> node list \<Rightarrow> bool" where
  "IsSmallestNode myself allNodes \<longleftrightarrow>
     length allNodes < 2 \<or> list_all (\<lambda>n. node_id n = [] \<or> node_id myself \<le> node_id n) allNodes"

definition IsSecondSmallestNode :: "node \<Rightarrow> node list \<Rightarrow> bool" where
  \<comment> \<open>\<open>partial_sort\<close> puts the second smallest identifier at index 1; nodes are compared by identifier\<close>
  "IsSecondSmallestNode myself allNodes \<longleftrightarrow>
     (let validNodes = filter (\<lambda>i. i \<noteq> []) (map node_id allNodes)
      in length allNodes < 2 \<or> length validNodes < 2 \<or> sort validNodes ! 1 = node_id myself)"

lemma least_id_spec:
  assumes "[] \<notin> set nodes" and "smallestId \<noteq> [] \<Longrightarrow> ok smallestId"
  shows "let r = least_id ok nodes smallestId; cand = {i \<in> set nodes. ok i} \<union> (if smallestId = [] then {} else {smallestId})
    in if cand = {} then r = [] else r \<in> cand \<and> (\<forall>i \<in> cand. r \<le> i)"
  using assms
proof (induction nodes arbitrary: smallestId)
  case (Cons x nodes)
  let ?s = "if ok x \<and> (smallestId = [] \<or> x < smallestId) then x else smallestId"
  have "let r = least_id ok nodes ?s; cand = {i \<in> set nodes. ok i} \<union> (if ?s = [] then {} else {?s})
    in if cand = {} then r = [] else r \<in> cand \<and> (\<forall>i \<in> cand. r \<le> i)"
    using Cons.prems by (intro Cons.IH) (auto split: if_splits)
  then show ?case
    using Cons.prems by (auto simp: Let_def split: if_splits)
qed simp

end
