(* ===== verification/ElectionNodeMgr.thy ===== *)
theory ElectionNodeMgr
  imports ElectionDef
begin

text \<open>
  \<open>UbseElectionNodeMgr\<close>: the node's own identity, the nodes it may hold an election with, and
  the heartbeat settings. What the code asks other modules for (the current node, the static
  node list, the topology, the cluster IP list) are fields of \<open>election_world\<close>. The mutex
  \<open>mtx_\<close> makes every public operation one step. \<open>nodeIpMap_\<close> is an unordered map that is looked
  up and, by \<open>GetNodeIpById\<close>, iterated: it is kept as the list of its entries in iteration order.
\<close>

section \<open>State\<close>

datatype UbseNodeLocalState = UBSE_NODE_RESTORE | UBSE_NODE_READY

record static_node =
  st_nodeId :: NodeId
  st_bondingEid :: string

record election_world =
  ew_curNode :: NodeId
  ew_curEid :: string
  ew_localState :: UbseNodeLocalState
  ew_ubEnable :: "bool option"
  ew_localIp :: "string option"
  ew_static :: "static_node list"
  ew_topo :: "string list list option"
  ew_clusterIps :: "string list"

definition TCP_LISTEN_PORT :: u16 where "TCP_LISTEN_PORT = 1901"

record election_nodes =
  en_currentNode :: node
  en_heartBeatTime :: u32
  en_heartBeatLost :: u32
  en_currentAllNodes :: "node list"
  en_nodeIpMap :: "(string \<times> NodeId) list"

definition map_emplace :: "string \<Rightarrow> NodeId \<Rightarrow> (string \<times> NodeId) list \<Rightarrow> (string \<times> NodeId) list" where
  "map_emplace ip i m = (if map_of m ip = None then m @ [(ip, i)] else m)"

fun map_assign :: "string \<Rightarrow> NodeId \<Rightarrow> (string \<times> NodeId) list \<Rightarrow> (string \<times> NodeId) list" where
  "map_assign ip i [] = [(ip, i)]"
| "map_assign ip i ((k, v) # m) = (if k = ip then (k, i) # m else (k, v) # map_assign ip i m)"

section \<open>Loading the nodes\<close>

definition GetTopoLinkedNodes :: "election_world \<Rightarrow> NodeId set" where
  \<comment> \<open>the ports of all devices, by the slot they are linked to\<close>
  "GetTopoLinkedNodes w = (case ew_topo w of
      None \<Rightarrow> {}
    | Some devices \<Rightarrow> set (filter (\<lambda>slot. slot \<noteq> ''-'') (concat devices)))"

definition UpdateCurrentNode :: "election_nodes \<Rightarrow> election_nodes" where
  "UpdateCurrentNode en = en\<lparr>en_currentAllNodes := en_currentAllNodes en @ [en_currentNode en],
     en_nodeIpMap := map_emplace (node_ip (en_currentNode en)) (node_id (en_currentNode en)) (en_nodeIpMap en)\<rparr>"

definition add_static :: "NodeId set \<Rightarrow> static_node \<Rightarrow> election_nodes \<Rightarrow> election_nodes" where
  "add_static linked n en =
     (if st_nodeId n \<in> linked \<or> node_id (en_currentNode en) = st_nodeId n then
        en\<lparr>en_currentAllNodes := en_currentAllNodes en @
             [\<lparr>node_id = st_nodeId n, node_ip = st_bondingEid n, node_port = TCP_LISTEN_PORT, node_state = UNCHANGED\<rparr>],
           en_nodeIpMap := map_emplace (st_bondingEid n) (st_nodeId n) (en_nodeIpMap en)\<rparr>
      else en)"

definition add_ip :: "string \<Rightarrow> election_nodes \<Rightarrow> election_nodes" where
  "add_ip ip en =
     (let i = (if node_ip (en_currentNode en) = ip then node_id (en_currentNode en) else [])
      in en\<lparr>en_currentAllNodes := en_currentAllNodes en @
             [\<lparr>node_id = i, node_ip = ip, node_port = TCP_LISTEN_PORT, node_state = UNCHANGED\<rparr>],
           en_nodeIpMap := map_emplace ip i (en_nodeIpMap en)\<rparr>)"

definition ParseAllNodesVector :: "election_world \<Rightarrow> election_nodes \<Rightarrow> election_nodes" where
  "ParseAllNodesVector w en = (case ew_ubEnable w of
      None \<Rightarrow> en
    | Some ubEnable \<Rightarrow>
        if ubEnable then
          let en1 = en\<lparr>en_currentAllNodes := [], en_nodeIpMap := []\<rparr>
          in if ew_static w = [] then UpdateCurrentNode en1
             else fold (add_static (GetTopoLinkedNodes w)) (ew_static w) en1
        else if en_currentAllNodes en = [] then fold add_ip (ew_clusterIps w) en
        else en)"

definition LoadConfig :: "election_world \<Rightarrow> election_nodes \<Rightarrow> UbseResult \<times> election_nodes" where
  "LoadConfig w en =
     (if ew_curNode w = [] then (UBSE_ERROR, en)
      else case ew_ubEnable w of
          None \<Rightarrow> (UBSE_ERROR, en)
        | Some ubEnable \<Rightarrow>
            let cur = en_currentNode en;
                cur1 = (if ubEnable then cur\<lparr>node_ip := ew_curEid w\<rparr>
                  else cur\<lparr>node_ip := (case ew_localIp w of None \<Rightarrow> node_ip cur | Some ip \<Rightarrow> ip), node_port := TCP_LISTEN_PORT\<rparr>);
                en1 = ParseAllNodesVector w (en\<lparr>en_currentNode := cur1\<lparr>node_id := ew_curNode w\<rparr>\<rparr>)
            in if node_id (en_currentNode en1) = [] \<or> node_ip (en_currentNode en1) = [] \<or> en_currentAllNodes en1 = []
               then (UBSE_ERROR, en1) else (UBSE_OK, en1))"

definition loaded_lost :: "election_conf \<Rightarrow> u32" where
  "loaded_lost c = (case cf_lostThreshold c of
      None \<Rightarrow> DEFAULT_HEART_BEAT_LOST
    | Some v \<Rightarrow> if v < DEFAULT_HEART_BEAT_LOST \<or> v > MAX_HEART_BEAT_LOST then DEFAULT_HEART_BEAT_LOST else v)"

definition loaded_time :: "election_conf \<Rightarrow> u32" where
  "loaded_time c =
     (let heartBeatTime = (case cf_timeInterval c of None \<Rightarrow> DEFAULT_HEART_BEAT_TIME | Some v \<Rightarrow> v)
      in if heartBeatTime < 1000 \<or> heartBeatTime > 60000 then DEFAULT_HEART_BEAT_TIME else heartBeatTime)"

definition UbseElectionNodeMgr_new :: "election_conf option \<Rightarrow> election_world \<Rightarrow> election_nodes" where
  "UbseElectionNodeMgr_new module w =
     (let en = \<lparr>en_currentNode = \<lparr>node_id = [], node_ip = [], node_port = TCP_LISTEN_PORT, node_state = INIT\<rparr>,
            en_heartBeatTime = DEFAULT_HEART_BEAT_TIME, en_heartBeatLost = DEFAULT_HEART_BEAT_LOST,
            en_currentAllNodes = [], en_nodeIpMap = []\<rparr>
      in case module of
          None \<Rightarrow> en
        | Some c \<Rightarrow> snd (LoadConfig w (en\<lparr>en_heartBeatLost := loaded_lost c, en_heartBeatTime := loaded_time c\<rparr>)))"

section \<open>Queries\<close>

definition GetMyselfNode :: "election_nodes \<Rightarrow> node option" where
  \<comment> \<open>\<open>None\<close> is \<open>UBSE_ERROR\<close>\<close>
  "GetMyselfNode en =
     (if node_id (en_currentNode en) = [] \<or> node_ip (en_currentNode en) = [] \<or> node_port (en_currentNode en) = 0
      then None else Some (en_currentNode en))"

definition GetAllNode :: "election_nodes \<Rightarrow> node list option" where
  "GetAllNode en = (if en_currentAllNodes en = [] then None else Some (en_currentAllNodes en))"

definition GetAllNeighbourNode :: "election_nodes \<Rightarrow> node list option" where
  \<comment> \<open>nodes are compared by identifier\<close>
  "GetAllNeighbourNode en = (case GetAllNode en of
      None \<Rightarrow> None
    | Some neighbourNodes \<Rightarrow> (case GetMyselfNode en of
        None \<Rightarrow> None
      | Some myself \<Rightarrow>
          if node_id myself \<notin> node_id ` set neighbourNodes then None
          else Some (filter (\<lambda>n. node_id n \<noteq> node_id myself) neighbourNodes)))"

definition GetNodeInfoByID :: "election_nodes \<Rightarrow> NodeId \<Rightarrow> (string \<times> u16) option" where
  "GetNodeInfoByID en i =
     (if i = [] \<or> en_currentAllNodes en = [] then None
      else map_option (\<lambda>n. (node_ip n, node_port n)) (find (\<lambda>n. node_id n = i) (en_currentAllNodes en)))"

definition GetPortByIp :: "election_nodes \<Rightarrow> string \<Rightarrow> u16 option" where
  "GetPortByIp en ip =
     (if ip = [] \<or> en_currentAllNodes en = [] then None
      else map_option node_port (find (\<lambda>n. node_ip n = ip) (en_currentAllNodes en)))"

fun set_first_id :: "string \<Rightarrow> NodeId \<Rightarrow> node list \<Rightarrow> node list option" where
  "set_first_id ip i [] = None"
| "set_first_id ip i (n # ns) =
     (if node_ip n = ip then Some (n\<lparr>node_id := i\<rparr> # ns) else map_option ((#) n) (set_first_id ip i ns))"

definition UpdateNodeIdWithConnect :: "string \<Rightarrow> NodeId \<Rightarrow> election_nodes \<Rightarrow> UbseResult \<times> election_nodes" where
  "UpdateNodeIdWithConnect ip i en =
     (if ip = [] then (UBSE_ERROR, en)
      else if i = [] then (UBSE_ERROR, en)
      else if en_currentAllNodes en = [] then (UBSE_ERROR, en)
      else case set_first_id ip i (en_currentAllNodes en) of
          None \<Rightarrow> (UBSE_ERROR, en)
        | Some nodes \<Rightarrow> (UBSE_OK, en\<lparr>en_currentAllNodes := nodes, en_nodeIpMap := map_assign ip i (en_nodeIpMap en)\<rparr>))"

definition GetNodeIdByIp :: "election_nodes \<Rightarrow> string \<Rightarrow> NodeId option" where
  "GetNodeIdByIp en ip = (if ip = [] then None else map_of (en_nodeIpMap en) ip)"

definition GetNodeIpById :: "election_nodes \<Rightarrow> NodeId \<Rightarrow> string option" where
  "GetNodeIpById en i =
     (if i = [] then None else map_option fst (find (\<lambda>(ip, j). j = i) (en_nodeIpMap en)))"

definition GetNodeIpMap :: "election_nodes \<Rightarrow> (string \<times> NodeId) list option" where
  "GetNodeIpMap en = (if en_nodeIpMap en = [] then None else Some (en_nodeIpMap en))"

definition GetLocalNodeState :: "election_world \<Rightarrow> UbseNodeLocalState" where
  "GetLocalNodeState w = (if ew_curNode w = [] then UBSE_NODE_RESTORE else ew_localState w)"

definition IsMyselfInCandidateNodes :: "election_nodes \<Rightarrow> string list \<Rightarrow> bool" where
  "IsMyselfInCandidateNodes en candidateNodes = (case GetMyselfNode en of
      None \<Rightarrow> False
    | Some myself \<Rightarrow> node_id myself \<in> set candidateNodes)"

definition GetElectionCandidate :: "ElectionConfig \<Rightarrow> election_nodes \<Rightarrow> bool" where
  "GetElectionCandidate g en = (case GetElectionCandidateNodesFromConf g of
      Some candidateNodes \<Rightarrow> IsMyselfInCandidateNodes en candidateNodes
    | None \<Rightarrow> ec_electionCandidate g)"

section \<open>What an operation keeps\<close>

definition en_keys :: "election_nodes \<Rightarrow> string set" where
  "en_keys en = fst ` set (en_nodeIpMap en)"

text \<open>
  The address book: no address twice in the map, and the map knows exactly the addresses of
  the nodes.
\<close>

definition book_ok :: "election_nodes \<Rightarrow> bool" where
  "book_ok en \<longleftrightarrow> distinct (map fst (en_nodeIpMap en)) \<and> en_keys en = node_ip ` set (en_currentAllNodes en)"

lemma map_emplace_keys: "fst ` set (map_emplace ip i m) = insert ip (fst ` set m)"
  by (auto simp: map_emplace_def map_of_eq_None_iff dest: image_eqI map_of_SomeD)

lemma map_emplace_distinct: "distinct (map fst m) \<Longrightarrow> distinct (map fst (map_emplace ip i m))"
  by (auto simp: map_emplace_def map_of_eq_None_iff)

lemma map_assign_keys: "fst ` set (map_assign ip i m) = insert ip (fst ` set m)"
  by (induction ip i m rule: map_assign.induct) (simp_all add: insert_commute)

lemma map_assign_distinct: "distinct (map fst m) \<Longrightarrow> distinct (map fst (map_assign ip i m))"
  by (induction m) (use map_assign_keys in auto)

lemma map_of_assign: "map_of (map_assign ip i m) = (map_of m)(ip \<mapsto> i)"
  by (induction m) auto

lemma set_first_id_spec:
  "set_first_id ip i ns = Some ns' \<Longrightarrow> \<exists>xs n ys. ns = xs @ n # ys \<and> node_ip n = ip \<and>
     (\<forall>x \<in> set xs. node_ip x \<noteq> ip) \<and> ns' = xs @ n\<lparr>node_id := i\<rparr> # ys"
proof (induction ns arbitrary: ns')
  case (Cons m ns)
  show ?case
  proof (cases "node_ip m = ip")
    case True
    then show ?thesis using Cons.prems by (intro exI [of _ "[]"]) auto
  next
    case False
    then obtain ms where ms: "set_first_id ip i ns = Some ms" "ns' = m # ms" using Cons.prems by auto
    obtain xs n ys where "ns = xs @ n # ys" "node_ip n = ip" "\<forall>x \<in> set xs. node_ip x \<noteq> ip" "ms = xs @ n\<lparr>node_id := i\<rparr> # ys"
      using Cons.IH [OF ms(1)] by blast
    with ms(2) False show ?thesis by (intro exI [of _ "m # xs"]) auto
  qed
qed simp

lemma set_first_id_ips: "set_first_id ip i ns = Some ns' \<Longrightarrow> map node_ip ns' = map node_ip ns"
  by (auto dest!: set_first_id_spec)

lemma book_ok_fold:
  "(\<And>x en. book_ok en \<Longrightarrow> book_ok (f x en)) \<Longrightarrow> book_ok en \<Longrightarrow> book_ok (fold f xs en)"
  by (induction xs arbitrary: en) auto

lemma book_ok_add: "book_ok en \<Longrightarrow> node_ip n = ip \<Longrightarrow>
    book_ok (en\<lparr>en_currentAllNodes := en_currentAllNodes en @ [n], en_nodeIpMap := map_emplace ip i (en_nodeIpMap en)\<rparr>)"
  by (simp add: book_ok_def en_keys_def map_emplace_keys map_emplace_distinct)

lemma book_ok_parse: "book_ok en \<Longrightarrow> book_ok (ParseAllNodesVector w en)"
proof -
  have empty: "book_ok (en\<lparr>en_currentAllNodes := [], en_nodeIpMap := []\<rparr>)" by (simp add: book_ok_def en_keys_def)
  have static: "book_ok (add_static linked n e)" if "book_ok e" for linked n e
    using book_ok_add [OF that] that by (simp add: add_static_def)
  have ip: "book_ok (add_ip a e)" if "book_ok e" for a e
    using book_ok_add [OF that] by (simp add: add_ip_def Let_def)
  have ips: "book_ok (fold add_ip xs e)" if "book_ok e" for xs e using book_ok_fold [OF ip that] .
  show "book_ok en \<Longrightarrow> ?thesis"
    using book_ok_fold [OF static empty] ips book_ok_add [OF empty, of "en_currentNode en"]
    by (auto simp: ParseAllNodesVector_def Let_def UpdateCurrentNode_def split: option.split)
qed

lemma book_ok_load: "book_ok en \<Longrightarrow> book_ok (snd (LoadConfig w en))"
proof -
  have "book_ok (en\<lparr>en_currentNode := n\<rparr>) = book_ok en" for n by (simp add: book_ok_def en_keys_def)
  then show "book_ok en \<Longrightarrow> ?thesis"
    using book_ok_parse by (simp add: LoadConfig_def Let_def split: option.split)
qed

lemma book_ok_connect:
  assumes "book_ok en"
  shows "book_ok (snd (UpdateNodeIdWithConnect ip i en))"
proof (cases "set_first_id ip i (en_currentAllNodes en)")
  case (Some ns)
  then have ips: "node_ip ` set ns = node_ip ` set (en_currentAllNodes en)" using set_first_id_ips by (metis list.set_map)
  have "ip \<in> node_ip ` set (en_currentAllNodes en)" using set_first_id_spec [OF Some] by auto
  with ips Some assms show ?thesis
    by (auto simp: UpdateNodeIdWithConnect_def book_ok_def en_keys_def map_assign_keys map_assign_distinct)
qed (use assms in \<open>simp add: UpdateNodeIdWithConnect_def\<close>)

inductive nodes_step :: "election_nodes \<Rightarrow> election_nodes \<Rightarrow> bool" where
  parsed: "nodes_step en (ParseAllNodesVector w en)"
| loaded: "nodes_step en (snd (LoadConfig w en))"
| connected: "nodes_step en (snd (UpdateNodeIdWithConnect ip i en))"

lemma nodes_step_ok: "nodes_step en en' \<Longrightarrow> book_ok en \<Longrightarrow> book_ok en'"
  by (induction rule: nodes_step.induct) (simp_all add: book_ok_parse book_ok_load book_ok_connect)

definition beats_ok :: "election_nodes \<Rightarrow> bool" where
  "beats_ok en \<longleftrightarrow> 3 \<le> en_heartBeatLost en \<and> en_heartBeatLost en \<le> 20 \<and> 1000 \<le> en_heartBeatTime en \<and> en_heartBeatTime en \<le> 60000"

lemma fold_beats:
  "(\<And>x en. en_heartBeatLost (f x en) = en_heartBeatLost en \<and> en_heartBeatTime (f x en) = en_heartBeatTime en) \<Longrightarrow>
     en_heartBeatLost (fold f xs en) = en_heartBeatLost en \<and> en_heartBeatTime (fold f xs en) = en_heartBeatTime en"
  by (induction xs arbitrary: en) auto

lemma parse_beats:
  "en_heartBeatLost (ParseAllNodesVector w en) = en_heartBeatLost en \<and> en_heartBeatTime (ParseAllNodesVector w en) = en_heartBeatTime en"
  by (auto simp: ParseAllNodesVector_def UpdateCurrentNode_def Let_def fold_beats add_static_def add_ip_def split: option.split)

lemma step_beats: "nodes_step en en' \<Longrightarrow> beats_ok en' = beats_ok en"
  by (induction rule: nodes_step.induct)
    (auto simp: beats_ok_def parse_beats LoadConfig_def UpdateNodeIdWithConnect_def Let_def split: option.split)

lemma new_ok: "book_ok (UbseElectionNodeMgr_new module w)" "beats_ok (UbseElectionNodeMgr_new module w)"
proof -
  show "book_ok (UbseElectionNodeMgr_new module w)"
    by (auto simp: UbseElectionNodeMgr_new_def Let_def book_ok_def en_keys_def intro!: book_ok_load [unfolded book_ok_def en_keys_def] split: option.split)
  have "beats_ok (snd (LoadConfig w en)) = beats_ok en" for en by (rule step_beats) (rule loaded)
  then show "beats_ok (UbseElectionNodeMgr_new module w)"
    by (auto simp: UbseElectionNodeMgr_new_def Let_def beats_ok_def loaded_lost_def loaded_time_def DEFAULT_HEART_BEAT_LOST_def
        DEFAULT_HEART_BEAT_TIME_def MAX_HEART_BEAT_LOST_def not_less split: option.split)
qed

end
