(* ===== verification/ElectionRoles.thy ===== *)
theory ElectionRoles
  imports ElectionNodeMgr
begin

text \<open>
  The four roles of a node and the role manager (\<open>framework/ha/role/\<close>). A handler runs on the role
  object it fetched; by the time it has the object's \<open>roleMutex_\<close> another thread may have replaced
  it, so the manager counts its role objects (\<open>rm_gen\<close>) and a handler carries the number of its
  own: \<open>IsCurrentRole\<close> compares them. Timer work that sends election packets without the mutex is
  two steps, before and after the sending. Notifications, packets and disconnections are recorded
  in the order in which they are issued.
\<close>

section \<open>State\<close>

record initializer =
  in_startTimeMs :: u64
  in_lastTimeMs :: u64
  in_masterId :: NodeId
  in_myselfID :: NodeId
  in_turnId :: u64
  in_isStartTimeSet :: bool

record agent =
  ag_lastHeartTime :: u64
  ag_masterId :: NodeId
  ag_standbyId :: NodeId
  ag_agentIds :: "NodeId list"
  ag_myselfID :: NodeId
  ag_turnId :: u64
  ag_sequenceId :: u64
  ag_masterStatus :: u8
  ag_standbyStatus :: u8

record standby =
  sd_lastHeartTime :: u64
  sd_masterId :: NodeId
  sd_standbyId :: NodeId
  sd_agentIds :: "NodeId list"
  sd_turnId :: u64
  sd_sequenceId :: u64
  sd_masterStatus :: u8

record master =
  ma_masterId :: NodeId
  ma_standbyId :: NodeId
  ma_lastTimeMs :: u64
  ma_turnId :: u64
  ma_sequenceId :: u64
  ma_standbyStatus :: u8
  ma_heartBeatEnabled :: bool
  ma_broadcast :: "(NodeId, BroadcastStatus) omap"
  ma_preNodes :: "NodeId list"

datatype role = Initializer initializer | Agent agent | Standby standby | Master master

fun GetRoleType :: "role \<Rightarrow> RoleType" where
  "GetRoleType (Initializer r) = INITIALIZER"
| "GetRoleType (Agent r) = AGENT"
| "GetRoleType (Standby r) = STANDBY"
| "GetRoleType (Master r) = MASTER"

datatype UbseElectionEventType =
    CHANGE_TO_MASTER | CHANGE_TO_STANDBY | CHANGE_TO_AGENT | CHANGE_SWITCH_TO_STANDBY
  | STANDBY_CHANGE_TO_MASTER | CHANGE_TO_SWITCHOVER | MASTER_ONLINE_NOTIFICATION | NODE_UP | NODE_DOWN

record role_mgr =
  rm_role :: role
  rm_gen :: nat
  rm_conf :: ElectionConfig
  rm_nodes :: election_nodes
  rm_readiness :: u8
  rm_notified :: "(UbseElectionEventType \<times> NodeId) list"
  rm_disconnected :: "NodeId list"

text \<open>
  What a handler reads from outside: the \<open>k\<close>-th reading of the boot clock it makes (\<open>None\<close> if
  \<open>clock_gettime\<close> fails), the value an uninitialised local would have, the other modules, the
  connected nodes, and the global stop flag.
\<close>

record surroundings =
  su_clock :: "nat \<Rightarrow> (u64 \<times> u64) option"
  su_junk :: u64
  su_world :: election_world
  su_connected :: "NodeId list"
  su_globalStop :: bool

definition GetBootTime :: "surroundings \<Rightarrow> nat \<Rightarrow> u64 option" where
  "GetBootTime e k = (case su_clock e k of
      None \<Rightarrow> None
    | Some (seconds, nanoseconds) \<Rightarrow> Some (seconds * 1000 + nanoseconds div 1000000))"

definition GetHeartTimeInterval :: "role_mgr \<Rightarrow> u32" where
  "GetHeartTimeInterval rm = en_heartBeatTime (rm_nodes rm)"

definition GetHbLostTimes :: "role_mgr \<Rightarrow> u32" where
  "GetHbLostTimes rm = en_heartBeatLost (rm_nodes rm)"

definition myself_id :: "role_mgr \<Rightarrow> NodeId" where
  \<comment> \<open>\<open>Node myself; GetMyselfNode(myself); myself.id\<close>: empty if the local node is invalid\<close>
  "myself_id rm = (case GetMyselfNode (rm_nodes rm) of None \<Rightarrow> [] | Some n \<Rightarrow> node_id n)"

definition IsCurrentRole :: "nat \<Rightarrow> role_mgr \<Rightarrow> bool" where
  "IsCurrentRole g rm \<longleftrightarrow> g = rm_gen rm"

definition notify :: "UbseElectionEventType \<Rightarrow> NodeId \<Rightarrow> role_mgr \<Rightarrow> role_mgr" where
  \<comment> \<open>\<open>RoleChangeNotifyAsync\<close>: starts a thread that runs \<open>RoleChangeNotify\<close>\<close>
  "notify t i rm = rm\<lparr>rm_notified := rm_notified rm @ [(t, i)]\<rparr>"

section \<open>Creating roles\<close>

definition Initializer_new :: "surroundings \<Rightarrow> nat \<Rightarrow> role_mgr \<Rightarrow> initializer" where
  "Initializer_new e k rm =
     (let t = (case GetBootTime e k of None \<Rightarrow> su_junk e | Some t \<Rightarrow> t)
      in \<lparr>in_startTimeMs = t, in_lastTimeMs = t, in_masterId = [], in_myselfID = myself_id rm, in_turnId = 0,
          in_isStartTimeSet = False\<rparr>)"

definition Agent_new :: "surroundings \<Rightarrow> nat \<Rightarrow> RoleContext \<Rightarrow> role_mgr \<Rightarrow> agent" where
  "Agent_new e k ctx rm = \<lparr>ag_lastHeartTime = (case GetBootTime e k of None \<Rightarrow> 0 | Some t \<Rightarrow> t),
     ag_masterId = cx_masterId ctx, ag_standbyId = cx_standbyId ctx, ag_agentIds = [], ag_myselfID = myself_id rm,
     ag_turnId = 0, ag_sequenceId = 0, ag_masterStatus = 0, ag_standbyStatus = 0\<rparr>"

definition Standby_new :: "surroundings \<Rightarrow> nat \<Rightarrow> RoleContext \<Rightarrow> role_mgr \<Rightarrow> standby" where
  "Standby_new e k ctx rm = (case GetMyselfNode (rm_nodes rm) of
      None \<Rightarrow> \<lparr>sd_lastHeartTime = 0, sd_masterId = INVALID_NODE_ID, sd_standbyId = INVALID_NODE_ID, sd_agentIds = [],
        sd_turnId = 0, sd_sequenceId = 0, sd_masterStatus = 0\<rparr>
    | Some myself \<Rightarrow> \<lparr>sd_lastHeartTime = (case GetBootTime e k of None \<Rightarrow> 0 | Some t \<Rightarrow> t),
        sd_masterId = cx_masterId ctx, sd_standbyId = node_id myself, sd_agentIds = [], sd_turnId = cx_turnId ctx,
        sd_sequenceId = 0, sd_masterStatus = 0\<rparr>)"

definition InitNodesStatus :: "role_mgr \<Rightarrow> (NodeId, BroadcastStatus) omap \<Rightarrow> (NodeId, BroadcastStatus) omap" where
  "InitNodesStatus rm m = (case GetAllNeighbourNode (rm_nodes rm) of
      None \<Rightarrow> m
    | Some nodes \<Rightarrow> fold (\<lambda>n. om_put (node_id n) BroadcastStatus_Default) nodes m)"

definition Master_new :: "RoleContext \<Rightarrow> role_mgr \<Rightarrow> master" where
  "Master_new ctx rm =
     (let m = \<lparr>ma_masterId = [], ma_standbyId = INVALID_NODE_ID, ma_lastTimeMs = 0, ma_turnId = 0, ma_sequenceId = 0,
            ma_standbyStatus = 0, ma_heartBeatEnabled = True, ma_broadcast = [], ma_preNodes = []\<rparr>
      in case GetMyselfNode (rm_nodes rm) of
          None \<Rightarrow> m
        | Some myself \<Rightarrow> m\<lparr>ma_masterId := node_id myself, ma_standbyId := cx_standbyId ctx, ma_turnId := cx_turnId ctx + 1,
            ma_broadcast := InitNodesStatus rm []\<rparr>)"

definition make_role :: "surroundings \<Rightarrow> nat \<Rightarrow> RoleType \<Rightarrow> RoleContext \<Rightarrow> role_mgr \<Rightarrow> role" where
  "make_role e k t ctx rm = (case t of
      MASTER \<Rightarrow> Master (Master_new ctx rm)
    | STANDBY \<Rightarrow> Standby (Standby_new e k ctx rm)
    | AGENT \<Rightarrow> Agent (Agent_new e k ctx rm)
    | INITIALIZER \<Rightarrow> Initializer (Initializer_new e k rm))"

definition SwitchRole :: "surroundings \<Rightarrow> nat \<Rightarrow> RoleType \<Rightarrow> RoleContext \<Rightarrow> role_mgr \<Rightarrow> role_mgr" where
  \<comment> \<open>allocation failure is not modelled\<close>
  "SwitchRole e k t ctx rm =
     (let rm1 = rm\<lparr>rm_role := make_role e k t ctx rm, rm_gen := rm_gen rm + 1\<rparr>
      in case t of
          MASTER \<Rightarrow> notify MASTER_ONLINE_NOTIFICATION (cx_masterId ctx)
            (if GetRoleType (rm_role rm) \<noteq> STANDBY then notify CHANGE_TO_MASTER (cx_masterId ctx) rm1 else rm1)
        | STANDBY \<Rightarrow> notify CHANGE_TO_STANDBY (cx_standbyId ctx) rm1
        | AGENT \<Rightarrow> notify MASTER_ONLINE_NOTIFICATION (cx_masterId ctx) (notify CHANGE_TO_AGENT (cx_standbyId ctx) rm1)
        | INITIALIZER \<Rightarrow> rm1)"

definition RoleMgr_new :: "surroundings \<Rightarrow> ElectionConfig \<Rightarrow> election_nodes \<Rightarrow> role_mgr" where
  "RoleMgr_new e g en =
     (let rm = \<lparr>rm_role = Initializer \<lparr>in_startTimeMs = 0, in_lastTimeMs = 0, in_masterId = [], in_myselfID = [], in_turnId = 0,
            in_isStartTimeSet = False\<rparr>, rm_gen = 0, rm_conf = g, rm_nodes = en, rm_readiness = NOT_READY, rm_notified = [],
            rm_disconnected = []\<rparr>
      in rm\<lparr>rm_role := Initializer (Initializer_new e 0 rm)\<rparr>)"

section \<open>Sending election packets\<close>

type_synonym peers = "NodeId \<Rightarrow> ElectionPkt \<Rightarrow> (UbseResult \<times> ElectionReplyPkt)"

fun send_election :: "peers \<Rightarrow> NodeId \<Rightarrow> NodeId list \<Rightarrow> u32" where
  \<comment> \<open>a failed or unanswered packet counts as accepted, and so does a reply with another code\<close>
  "send_election peer myselfID [] = ELECTION_PKT_RESULT_ACCEPT"
| "send_election peer myselfID (i # is) =
     (case peer i (ElectionPkt_new\<lparr>pk_type := ELECTION_PKT_TYPE_SELECT, pk_masterId := myselfID\<rparr>) of (ret, reply) \<Rightarrow>
        if ret \<noteq> UBSE_OK then send_election peer myselfID is
        else if rp_replyResult reply = ELECTION_PKT_RESULT_ACCEPT then send_election peer myselfID is
        else if rp_replyResult reply = ELECTION_PKT_TYPE_REJECT then ELECTION_PKT_TYPE_REJECT
        else if rp_replyResult reply = ELECTION_PKT_TYPE_REJECT_HAS_MASTER then ELECTION_PKT_TYPE_REJECT_HAS_MASTER
        else send_election peer myselfID is)"

definition SendElectionPkt :: "surroundings \<Rightarrow> peers \<Rightarrow> NodeId \<Rightarrow> u32" where
  "SendElectionPkt e peer myselfID = send_election peer myselfID (su_connected e)"

definition ForceElection :: "surroundings \<Rightarrow> peers \<Rightarrow> NodeId \<Rightarrow> u32" where
  "ForceElection e peer myselfID =
     (if su_connected e = [] then ELECTION_PKT_RESULT_ACCEPT
      else if FindSmallestId (su_connected e) \<ge> myselfID \<and> SendElectionPkt e peer myselfID = ELECTION_PKT_RESULT_ACCEPT
      then ELECTION_PKT_RESULT_ACCEPT
      else ELECTION_PKT_TYPE_REJECT)"

section \<open>Heartbeat time-outs\<close>

definition heart_timeout :: "surroundings \<Rightarrow> nat \<Rightarrow> u32 \<Rightarrow> u64 \<Rightarrow> role_mgr \<Rightarrow> bool" where
  \<comment> \<open>\<open>IsAgentHeartBeatTimeout\<close> and \<open>IsStandbyHeartBeatTimeout\<close>, which differ in the object only\<close>
  "heart_timeout e k heartbeatMultiplier lastHeartTime rm = (case GetBootTime e k of
      None \<Rightarrow> False
    | Some bootTime \<Rightarrow>
        if bootTime < lastHeartTime then False
        else bootTime - lastHeartTime > ucast (heartbeatMultiplier * GetHeartTimeInterval rm))"

definition heard :: "surroundings \<Rightarrow> nat \<Rightarrow> u64 \<Rightarrow> u64" where
  \<comment> \<open>\<open>GetBootTime(lastHeartTime_)\<close>, which keeps the old value on failure\<close>
  "heard e k t = (case GetBootTime e k of None \<Rightarrow> t | Some t' \<Rightarrow> t')"

definition candidate :: "role_mgr \<Rightarrow> bool" where
  "candidate rm = GetElectionCandidate (rm_conf rm) (rm_nodes rm)"

definition may_lead :: "role_mgr \<Rightarrow> ElectionPkt \<Rightarrow> bool" where
  \<comment> \<open>the guard in front of every \<open>RecvPkt\<close>, negated\<close>
  "may_lead rm pkt \<longleftrightarrow> \<not> ((pk_type pkt = ELECTION_PKT_TYPE_HEART \<or> pk_type pkt = ELECTION_PKT_TYPE_SELECT) \<and>
     \<not> IsAllowedMasterNode (rm_conf rm) (pk_masterId pkt))"

definition ctx_of :: "ElectionPkt \<Rightarrow> RoleContext" where
  "ctx_of pkt = \<lparr>cx_turnId = pk_turnId pkt, cx_masterId = pk_masterId pkt, cx_standbyId = pk_standbyId pkt\<rparr>"

section \<open>Initializer\<close>

text \<open>An attempt to become master, between its start and its end.\<close>

datatype attempt =
    FromInitializer nat NodeId   \<comment> \<open>the object, and the identifier it elects\<close>
  | FromAgent nat bool NodeId    \<comment> \<open>the object, whether the node is a candidate, its identifier\<close>

definition election_phase :: "role_mgr \<Rightarrow> initializer \<Rightarrow> node \<Rightarrow> node list \<Rightarrow> bool" where
  \<comment> \<open>\<open>CheckAndSwitchMaster\<close>: whether the node sends election packets in this phase\<close>
  "election_phase rm r myself allNodes =
     (let passed = in_lastTimeMs r - in_startTimeMs r
      in if passed \<le> ucast (GetHeartTimeInterval rm * 2) then IsSmallestNode myself allNodes
         else if passed > ucast (GetHeartTimeInterval rm * 2) \<and> passed \<le> ucast (GetHeartTimeInterval rm * 4)
         then IsSecondSmallestNode myself allNodes
         else True)"

definition local_node :: "role_mgr \<Rightarrow> node" where
  \<comment> \<open>the local \<open>myself\<close> after \<open>GetMyselfNode\<close>; only its identifier is used\<close>
  "local_node rm = (case GetMyselfNode (rm_nodes rm) of
      None \<Rightarrow> \<lparr>node_id = [], node_ip = [], node_port = 0, node_state = UNCHANGED\<rparr>
    | Some n \<Rightarrow> n)"

definition all_nodes :: "role_mgr \<Rightarrow> node list" where
  "all_nodes rm = (case GetAllNode (rm_nodes rm) of None \<Rightarrow> [] | Some ns \<Rightarrow> ns)"

definition tick :: "surroundings \<Rightarrow> initializer \<Rightarrow> initializer" where
  "tick e r =
     (let r1 = (if in_isStartTimeSet r then r
            else r\<lparr>in_startTimeMs := heard e 0 (in_startTimeMs r), in_isStartTimeSet := True\<rparr>)
      in r1\<lparr>in_lastTimeMs := heard e 1 (in_lastTimeMs r1)\<rparr>)"

definition Initializer_begin :: "surroundings \<Rightarrow> initializer \<Rightarrow> role_mgr \<Rightarrow> role_mgr \<times> attempt option" where
  \<comment> \<open>\<open>ProcTimer\<close> and \<open>ProcRoleSwitch\<close> up to the sending\<close>
  "Initializer_begin e r rm =
     (if GetLocalNodeState (su_world e) = UBSE_NODE_READY then
        let r' = tick e r;
            rm' = rm\<lparr>rm_role := Initializer r'\<rparr>
        in (rm',
            if candidate rm \<and> ec_electionWait (rm_conf rm) then
              if election_phase rm r' (local_node rm) (all_nodes rm) then Some (FromInitializer (rm_gen rm) (in_myselfID r')) else None
            else if candidate rm \<and> \<not> ec_electionWait (rm_conf rm) then Some (FromInitializer (rm_gen rm) (in_myselfID r'))
            else None)
      else (rm, None))"

definition TrySwitchToMaster :: "surroundings \<Rightarrow> nat \<Rightarrow> RoleContext \<Rightarrow> role_mgr \<Rightarrow> role_mgr" where
  "TrySwitchToMaster e g ctx rm = (if \<not> IsCurrentRole g rm then rm else SwitchRole e 0 MASTER ctx rm)"

definition Initializer_RecvPkt :: "surroundings \<Rightarrow> initializer \<Rightarrow> ElectionPkt \<Rightarrow> ElectionReplyPkt \<Rightarrow> role_mgr \<Rightarrow> ElectionReplyPkt \<times> role_mgr" where
  "Initializer_RecvPkt e r pkt reply rm =
     (if \<not> may_lead rm pkt then
        (reply\<lparr>rp_replyId := in_myselfID r, rp_replyResult := ELECTION_PKT_TYPE_REJECT_HAS_MASTER\<rparr>, rm)
      else case GetLocalNodeState (su_world e) of
          UBSE_NODE_RESTORE \<Rightarrow>
            ((if pk_type pkt = ELECTION_PKT_TYPE_SELECT then reply\<lparr>rp_replyResult := ELECTION_PKT_RESULT_ACCEPT\<rparr>
              else if pk_type pkt = ELECTION_PKT_TYPE_HEART then reply\<lparr>rp_replyResult := ELECTION_PKT_TYPE_REJECT\<rparr>
              else reply)\<lparr>rp_replyId := in_myselfID r\<rparr>, rm)
        | UBSE_NODE_READY \<Rightarrow>
            if pk_type pkt = ELECTION_PKT_TYPE_SELECT \<and> candidate rm then
              (reply\<lparr>rp_replyResult := (if in_myselfID r < pk_masterId pkt then ELECTION_PKT_TYPE_REJECT else ELECTION_PKT_RESULT_ACCEPT),
                 rp_replyId := in_myselfID r\<rparr>, rm)
            else if pk_type pkt = ELECTION_PKT_TYPE_SELECT \<and> \<not> candidate rm then
              (reply\<lparr>rp_replyResult := ELECTION_PKT_RESULT_ACCEPT, rp_replyId := in_myselfID r\<rparr>, rm)
            else if pk_type pkt = ELECTION_PKT_TYPE_HEART then
              (reply\<lparr>rp_replyId := in_myselfID r, rp_replyResult := 0\<rparr>,
               SwitchRole e 0 (if pk_standbyId pkt = in_myselfID r then STANDBY else AGENT) (ctx_of pkt)
                 (rm\<lparr>rm_role := Initializer (r\<lparr>in_masterId := pk_masterId pkt, in_turnId := pk_turnId pkt\<rparr>)\<rparr>))
            else (reply, rm))"

end
