(* ===== verification/ElectionFollowers.thy ===== *)
theory ElectionFollowers
  imports ElectionRoles
begin

text \<open>
  The agent (\<open>ubse_election_role_agent.cpp\<close>) and the standby (\<open>ubse_election_role_standby.cpp\<close>):
  their time-outs and how they answer election packets and heartbeats.
\<close>

section \<open>Agent\<close>

definition Agent_begin :: "surroundings \<Rightarrow> agent \<Rightarrow> role_mgr \<Rightarrow> role_mgr \<times> attempt option" where
  \<comment> \<open>\<open>ProcTimer\<close> up to the sending\<close>
  "Agent_begin e r rm =
     (if \<not> heart_timeout e 0 (GetHbLostTimes rm + 2) (ag_lastHeartTime r) rm then (rm, None)
      else (rm, Some (FromAgent (rm_gen rm) (candidate rm) (ag_myselfID r))))"

definition Agent_end :: "surroundings \<Rightarrow> nat \<Rightarrow> NodeId \<Rightarrow> u32 \<Rightarrow> role_mgr \<Rightarrow> role_mgr" where
  \<comment> \<open>\<open>ProcTimer\<close> after the sending; \<open>turnId_\<close> is read now\<close>
  "Agent_end e g myselfID electionResult rm =
     (if \<not> IsCurrentRole g rm then rm
      else if electionResult = ELECTION_PKT_RESULT_ACCEPT then
        SwitchRole e 0 MASTER \<lparr>cx_turnId = (case rm_role rm of Agent r \<Rightarrow> ag_turnId r | _ \<Rightarrow> 0),
          cx_masterId = myselfID, cx_standbyId = INVALID_NODE_ID\<rparr> rm
      else SwitchRole e 0 INITIALIZER \<lparr>cx_turnId = su_junk e, cx_masterId = [], cx_standbyId = []\<rparr> rm)"

definition HandleMasterChange :: "surroundings \<Rightarrow> ElectionPkt \<Rightarrow> ElectionReplyPkt \<Rightarrow> agent \<Rightarrow> role_mgr \<Rightarrow> ElectionReplyPkt \<times> agent" where
  "HandleMasterChange e pkt reply r rm =
     (if heart_timeout e 0 (GetHbLostTimes rm - 1) (ag_lastHeartTime r) rm then
        (reply\<lparr>rp_replyId := ag_myselfID r, rp_replyResult := ELECTION_PKT_RESULT_ACCEPT\<rparr>,
         r\<lparr>ag_masterId := pk_masterId pkt, ag_standbyId := pk_standbyId pkt, ag_turnId := pk_turnId pkt,
           ag_lastHeartTime := heard e 1 (ag_lastHeartTime r)\<rparr>)
      else (reply\<lparr>rp_replyId := ag_myselfID r, rp_replyResult := ELECTION_PKT_TYPE_REJECT_HAS_MASTER\<rparr>, r))"

definition DisconnectAgents :: "surroundings \<Rightarrow> ElectionPkt \<Rightarrow> agent \<Rightarrow> NodeId list" where
  \<comment> \<open>the peers disconnected, in order\<close>
  "DisconnectAgents e pkt r =
     (if pk_standbyId pkt = [] \<or> pk_agentCount pkt \<le> 1 then []
      else filter (\<lambda>i. i \<noteq> ag_myselfID r) (pk_agentIds pkt) @
        filter (\<lambda>i. i \<noteq> ag_masterId r \<and> i \<noteq> ag_standbyId r \<and> i \<noteq> ag_myselfID r \<and> i \<notin> set (pk_agentIds pkt))
          (map st_nodeId (ew_static (su_world e))))"

definition Agent_RecvPktForHeart :: "surroundings \<Rightarrow> agent \<Rightarrow> ElectionPkt \<Rightarrow> ElectionReplyPkt \<Rightarrow> role_mgr \<Rightarrow> ElectionReplyPkt \<times> role_mgr" where
  "Agent_RecvPktForHeart e r0 pkt reply rm =
     (let r = r0\<lparr>ag_masterStatus := pk_masterStatus pkt, ag_standbyStatus := pk_standbyStatus pkt\<rparr>
      in if pk_masterId pkt = ag_masterId r then
           let r1 = r\<lparr>ag_lastHeartTime := heard e 0 (ag_lastHeartTime r), ag_sequenceId := pk_sequenceId pkt,
                 ag_masterId := pk_masterId pkt, ag_standbyId := pk_standbyId pkt,
                 ag_turnId := (if ag_turnId r < pk_turnId pkt then pk_turnId pkt else ag_turnId r),
                 ag_agentIds := pk_agentIds pkt\<rparr>;
               reply' = reply\<lparr>rp_replyId := ag_myselfID r1, rp_replyResult := ELECTION_PKT_RESULT_ACCEPT,
                 rp_broadcast := notify_num BROADCAST\<rparr>;
               rm1 = rm\<lparr>rm_role := Agent r1\<rparr>
           in if pk_standbyId pkt = ag_myselfID r1 then (reply', SwitchRole e 1 STANDBY (ctx_of pkt) rm1)
              else (reply', rm1\<lparr>rm_disconnected := rm_disconnected rm1 @ DisconnectAgents e pkt r1\<rparr>)
         else case HandleMasterChange e pkt reply r rm of (reply', r') \<Rightarrow> (reply', rm\<lparr>rm_role := Agent r'\<rparr>))"

definition Agent_RecvPktForSelect :: "surroundings \<Rightarrow> agent \<Rightarrow> ElectionReplyPkt \<Rightarrow> role_mgr \<Rightarrow> ElectionReplyPkt" where
  "Agent_RecvPktForSelect e r reply rm =
     (if heart_timeout e 0 (GetHbLostTimes rm - 1) (ag_lastHeartTime r) rm
      then reply\<lparr>rp_replyId := ag_myselfID r, rp_replyResult := ELECTION_PKT_RESULT_ACCEPT\<rparr>
      else reply\<lparr>rp_replyId := ag_myselfID r, rp_masterId := ag_masterId r,
        rp_replyResult := ELECTION_PKT_TYPE_REJECT_HAS_MASTER\<rparr>)"

definition Agent_RecvPkt :: "surroundings \<Rightarrow> agent \<Rightarrow> ElectionPkt \<Rightarrow> ElectionReplyPkt \<Rightarrow> role_mgr \<Rightarrow> ElectionReplyPkt \<times> role_mgr" where
  "Agent_RecvPkt e r pkt reply rm =
     (if \<not> may_lead rm pkt then
        (reply\<lparr>rp_replyId := ag_myselfID r, rp_masterId := ag_masterId r,
           rp_replyResult := ELECTION_PKT_TYPE_REJECT_HAS_MASTER\<rparr>, rm)
      else if pk_type pkt = ELECTION_PKT_TYPE_SELECT then (Agent_RecvPktForSelect e r reply rm, rm)
      else if pk_type pkt = ELECTION_PKT_TYPE_HEART then Agent_RecvPktForHeart e r pkt reply rm
      else (reply, rm))"

section \<open>Standby\<close>

definition Standby_SwitchMaster :: "surroundings \<Rightarrow> nat \<Rightarrow> standby \<Rightarrow> role_mgr \<Rightarrow> role_mgr" where
  "Standby_SwitchMaster e k r rm =
     (let ctx = \<lparr>cx_turnId = sd_turnId r + 1, cx_masterId = sd_standbyId r, cx_standbyId = INVALID_NODE_ID\<rparr>
      in notify STANDBY_CHANGE_TO_MASTER (cx_masterId ctx)
           (SwitchRole e k MASTER ctx (rm\<lparr>rm_readiness := NOT_READY\<rparr>)))"

definition Standby_ProcTimer :: "surroundings \<Rightarrow> standby \<Rightarrow> role_mgr \<Rightarrow> role_mgr" where
  \<comment> \<open>the clock is read again for the second condition\<close>
  "Standby_ProcTimer e r rm =
     (if heart_timeout e 0 (GetHbLostTimes rm) (sd_lastHeartTime r) rm \<and> candidate rm then Standby_SwitchMaster e 2 r rm
      else if heart_timeout e 1 (GetHbLostTimes rm) (sd_lastHeartTime r) rm \<and> \<not> candidate rm then
        SwitchRole e 2 INITIALIZER \<lparr>cx_turnId = su_junk e, cx_masterId = [], cx_standbyId = []\<rparr> rm
      else rm)"

definition HandleMasterOnlineNotification :: "ElectionPkt \<Rightarrow> ElectionReplyPkt \<Rightarrow> role_mgr \<Rightarrow> ElectionReplyPkt \<times> role_mgr" where
  "HandleMasterOnlineNotification pkt reply rm =
     (if pk_broadcast pkt = 0 then (reply\<lparr>rp_broadcast := 1\<rparr>, notify MASTER_ONLINE_NOTIFICATION (pk_masterId pkt) rm)
      else (reply, rm))"

definition Standby_RecvPktForHeart :: "surroundings \<Rightarrow> standby \<Rightarrow> ElectionPkt \<Rightarrow> ElectionReplyPkt \<Rightarrow> role_mgr \<Rightarrow> ElectionReplyPkt \<times> role_mgr" where
  "Standby_RecvPktForHeart e r pkt reply rm =
     (if pk_masterId pkt = sd_masterId r then
        if pk_standbyId pkt = sd_standbyId r then
          let r1 = r\<lparr>sd_turnId := pk_turnId pkt, sd_sequenceId := pk_sequenceId pkt,
                sd_lastHeartTime := heard e 0 (sd_lastHeartTime r), sd_masterStatus := pk_masterStatus pkt,
                sd_agentIds := pk_agentIds pkt\<rparr>
          in HandleMasterOnlineNotification pkt
               (reply\<lparr>rp_standbyStatus := rm_readiness rm, rp_replyId := sd_standbyId r, rp_replyResult := ELECTION_PKT_RESULT_ACCEPT\<rparr>)
               (rm\<lparr>rm_role := Standby r1\<rparr>)
        else (reply\<lparr>rp_replyResult := ELECTION_PKT_RESULT_ACCEPT\<rparr>, SwitchRole e 0 AGENT (ctx_of pkt) rm)
      else if heart_timeout e 0 (GetHbLostTimes rm - 1) (sd_lastHeartTime r) rm then
        (reply\<lparr>rp_replyResult := ELECTION_PKT_RESULT_ACCEPT\<rparr>, SwitchRole e 1 AGENT (ctx_of pkt) rm)
      else (reply\<lparr>rp_replyId := sd_standbyId r, rp_replyResult := ELECTION_PKT_TYPE_REJECT_HAS_MASTER\<rparr>, rm))"

definition Standby_RecvPkt :: "surroundings \<Rightarrow> standby \<Rightarrow> ElectionPkt \<Rightarrow> ElectionReplyPkt \<Rightarrow> role_mgr \<Rightarrow> ElectionReplyPkt \<times> role_mgr" where
  "Standby_RecvPkt e r pkt reply rm =
     (if \<not> may_lead rm pkt then
        (reply\<lparr>rp_replyId := sd_standbyId r, rp_masterId := sd_masterId r,
           rp_replyResult := ELECTION_PKT_TYPE_REJECT_HAS_MASTER\<rparr>, rm)
      else if pk_type pkt = ELECTION_PKT_TYPE_SELECT then
        (reply\<lparr>rp_replyId := sd_standbyId r, rp_masterId := sd_masterId r,
           rp_replyResult := ELECTION_PKT_TYPE_REJECT_HAS_MASTER\<rparr>, rm)
      else if pk_type pkt = ELECTION_PKT_TYPE_HEART then Standby_RecvPktForHeart e r pkt reply rm
      else (reply, rm))"

end
