(* ===== verification/ElectionMaster.thy ===== *)
theory ElectionMaster
  imports ElectionFollowers
begin

text \<open>
  The master (\<open>ubse_election_role_master.cpp\<close>): the record it keeps of every peer, the standby it
  appoints, its heartbeats, and the merge of two masters.
\<close>

section \<open>The record of the peers\<close>

definition bc_get :: "NodeId \<Rightarrow> master \<Rightarrow> BroadcastStatus" where
  "bc_get i m = (case map_of (ma_broadcast m) i of None \<Rightarrow> BroadcastStatus_Default | Some b \<Rightarrow> b)"

definition bc_upd :: "NodeId \<Rightarrow> (BroadcastStatus \<Rightarrow> BroadcastStatus) \<Rightarrow> master \<Rightarrow> master" where
  \<comment> \<open>\<open>broadcast_[id]\<close> inserts a missing entry\<close>
  "bc_upd i f m = m\<lparr>ma_broadcast := om_put i (f (bc_get i m)) (ma_broadcast m)\<rparr>"

definition GetActiveNodes :: "master \<Rightarrow> NodeId list" where
  "GetActiveNodes m = map fst (filter (\<lambda>(i, b). activeStatus b = ACTIVE) (ma_broadcast m))"

definition GetAllAgentIDs :: "master \<Rightarrow> NodeId list" where
  "GetAllAgentIDs m = map fst (filter (\<lambda>(i, b). activeStatus b = ACTIVE \<and> i \<noteq> ma_masterId m \<and> i \<noteq> ma_standbyId m) (ma_broadcast m))"

definition DealHbCnt :: "u32 \<Rightarrow> NodeId \<Rightarrow> master \<Rightarrow> master" where
  "DealHbCnt lost i m = bc_upd i (\<lambda>b.
     let b1 = b\<lparr>heartBeatLossCnt := heartBeatLossCnt b + 1\<rparr>
     in if heartBeatLossCnt b1 > lost
        then b1\<lparr>activeStatus := LOST, masterOnlineBcStatus := NOT_BROADCAST, masterOnlineBcTimes := 0\<rparr>
        else b1) m"

definition count_online :: "u8 \<Rightarrow> BroadcastStatus \<Rightarrow> BroadcastStatus" where
  "count_online broadcast b =
     (if broadcast = 1 then b\<lparr>masterOnlineBcStatus := BROADCAST\<rparr> else b\<lparr>masterOnlineBcTimes := masterOnlineBcTimes b + 1\<rparr>)"

definition DealBroadcast :: "u32 \<Rightarrow> ElectionReplyPkt \<Rightarrow> NodeId \<Rightarrow> master \<Rightarrow> master" where
  \<comment> \<open>the online status is kept under the replier's own identifier\<close>
  "DealBroadcast lost reply i m =
     (if rp_replyResult reply = ELECTION_PKT_RESULT_ACCEPT then
        bc_upd (rp_replyId reply) (count_online (rp_broadcast reply))
          (bc_upd i (\<lambda>b. b\<lparr>heartBeatLossCnt := 0, activeStatus := ACTIVE\<rparr>) m)
      else DealHbCnt lost i m)"

definition UpdateBroadcastStatus :: "NodeId \<Rightarrow> ElectionReplyPkt \<Rightarrow> master \<Rightarrow> master" where
  "UpdateBroadcastStatus i reply m =
     (let m1 = (if rp_replyResult reply = ELECTION_PKT_RESULT_ACCEPT
            then bc_upd i (\<lambda>b. count_online (rp_broadcast reply) (b\<lparr>heartBeatLossCnt := 0, activeStatus := ACTIVE\<rparr>)) m
            else bc_upd i (\<lambda>b. b) m)
      in m1\<lparr>ma_standbyStatus := rp_standbyStatus reply\<rparr>)"

definition ProcessReply :: "NodeId \<Rightarrow> ElectionReplyPkt option \<Rightarrow> master \<Rightarrow> master" where
  \<comment> \<open>\<open>AsyncDealReply\<close> of a master that is not stopping; \<open>None\<close>: the send or the decoding failed\<close>
  "ProcessReply i recv m = (case recv of
      None \<Rightarrow> m
    | Some reply \<Rightarrow> if rp_replyResult reply = ELECTION_PKT_REPLY_GLOBAL_STOP then m else UpdateBroadcastStatus i reply m)"

section \<open>The heartbeat\<close>

definition DealNodeUpdate :: "master \<Rightarrow> (UbseElectionEventType \<times> NodeId) list \<times> master" where
  "DealNodeUpdate m =
     (let currentNodes = sort (GetActiveNodes m); preNodes = sort (ma_preNodes m)
      in ((if currentNodes = preNodes then []
           else map (Pair NODE_UP) (filter (\<lambda>i. i \<notin> set preNodes) currentNodes) @
             map (Pair NODE_DOWN) (filter (\<lambda>i. i \<notin> set currentNodes) preNodes)),
          m\<lparr>ma_preNodes := preNodes\<rparr>))"

definition PrepareElectionPkt :: "u8 \<Rightarrow> master \<Rightarrow> ElectionPkt" where
  "PrepareElectionPkt readiness m = ElectionPkt_new\<lparr>pk_type := ELECTION_PKT_TYPE_HEART, pk_masterId := ma_masterId m,
     pk_standbyId := ma_standbyId m, pk_turnId := ma_turnId m, pk_sequenceId := ma_sequenceId m,
     pk_agentIds := GetAllAgentIDs m, pk_agentCount := of_nat (length (GetAllAgentIDs m)), pk_masterStatus := readiness,
     pk_standbyStatus := ma_standbyStatus m\<rparr>"

definition AppointStandby :: "master \<Rightarrow> (UbseElectionEventType \<times> NodeId) list \<times> master" where
  \<comment> \<open>the first block of \<open>ProcTimer\<close>\<close>
  "AppointStandby m =
     (if ma_standbyId m = INVALID_NODE_ID then
        let s = FindSmallestIdExcludingMaster (ma_masterId m) (GetActiveNodes m)
        in (if s \<noteq> INVALID_NODE_ID then [(CHANGE_SWITCH_TO_STANDBY, s)] else [], m\<lparr>ma_standbyId := s\<rparr>)
      else ([], m))"

definition ReplaceStandbyNode :: "u32 \<Rightarrow> ElectionPkt \<Rightarrow> master \<Rightarrow> ElectionPkt \<times> (UbseElectionEventType \<times> NodeId) list \<times> master" where
  "ReplaceStandbyNode lost pkt m =
     (if ma_standbyId m = INVALID_NODE_ID then (pkt, [], m)
      else
        let m1 = bc_upd (ma_standbyId m) (\<lambda>b. b) m
        in if heartBeatLossCnt (bc_get (ma_standbyId m) m) \<ge> lost then
             let s = FindSmallestIdExcludingMasterAndAgent (GetActiveNodes m1) (ma_masterId m1) (ma_standbyId m1)
             in (pkt\<lparr>pk_standbyId := s\<rparr>, if s \<noteq> INVALID_NODE_ID then [(CHANGE_SWITCH_TO_STANDBY, s)] else [],
                 m1\<lparr>ma_standbyId := s\<rparr>)
           else (pkt, [], m1))"

fun heart_loop :: "u32 \<Rightarrow> (NodeId \<Rightarrow> master \<Rightarrow> master) \<Rightarrow> ElectionPkt \<Rightarrow> NodeId list \<Rightarrow> master \<Rightarrow> (NodeId \<times> ElectionPkt) list \<times> master" where
  \<comment> \<open>\<open>mtx_\<close> is released while a packet is sent: \<open>cb\<close> is what the callbacks do meanwhile\<close>
  "heart_loop lost cb pkt [] m = ([], m)"
| "heart_loop lost cb pkt (i # is) m =
     (let pkt' = pkt\<lparr>pk_broadcast := notify_num (masterOnlineBcStatus (bc_get i m))\<rparr>;
          m1 = cb i (bc_upd i (\<lambda>b. b) m);
          m2 = DealHbCnt lost i m1
      in case heart_loop lost cb pkt' is m2 of (sent, m3) \<Rightarrow> ((i, pkt') # sent, m3))"

definition Master_ProcTimer :: "surroundings \<Rightarrow> (NodeId \<Rightarrow> master \<Rightarrow> master) \<Rightarrow> master \<Rightarrow> role_mgr \<Rightarrow> (NodeId \<times> ElectionPkt) list \<times> role_mgr" where
  "Master_ProcTimer e cb m rm =
     (let current = (case GetBootTime e 0 of None \<Rightarrow> su_junk e | Some t \<Rightarrow> t)
      in if current - ma_lastTimeMs m > ucast (GetHeartTimeInterval rm) \<and> ma_heartBeatEnabled m then
           (case AppointStandby m of (n1, m1) \<Rightarrow>
            case ReplaceStandbyNode (GetHbLostTimes rm) (PrepareElectionPkt (rm_readiness rm) m1) m1 of (pkt, n2, m2) \<Rightarrow>
            case heart_loop (GetHbLostTimes rm) cb pkt (su_connected e) m2 of (sent, m3) \<Rightarrow>
            case DealNodeUpdate m3 of (n3, m4) \<Rightarrow>
              (sent, rm\<lparr>rm_role := Master (m4\<lparr>ma_preNodes := GetActiveNodes m4, ma_sequenceId := ma_sequenceId m4 + 1,
                   ma_lastTimeMs := current\<rparr>),
                 rm_notified := rm_notified rm @ n1 @ n2 @ n3\<rparr>))
         else ([], rm))"

definition SetNodeDownStatus :: "NodeId \<Rightarrow> master \<Rightarrow> (UbseElectionEventType \<times> NodeId) list \<times> master" where
  "SetNodeDownStatus i m =
     (let m0 = bc_upd i (\<lambda>b. b) m;
          down = activeStatus (bc_get i m) = ACTIVE;
          m1 = (if down then (bc_upd i (\<lambda>b. b\<lparr>activeStatus := LOST, masterOnlineBcStatus := NOT_BROADCAST, masterOnlineBcTimes := 0\<rparr>) m0)
              \<lparr>ma_preNodes := remove1 i (ma_preNodes m0)\<rparr> else m0)
      in (if down then [(NODE_DOWN, i)] else [],
          if i = ma_standbyId m1 then m1\<lparr>ma_standbyId := INVALID_NODE_ID\<rparr> else m1))"

section \<open>Packets of another master\<close>

definition acceptNewMaster :: "surroundings \<Rightarrow> ElectionPkt \<Rightarrow> ElectionReplyPkt \<Rightarrow> NodeId \<Rightarrow> role_mgr \<Rightarrow> ElectionReplyPkt \<times> role_mgr" where
  "acceptNewMaster e pkt reply masterId rm =
     (reply\<lparr>rp_replyResult := ELECTION_PKT_RESULT_ACCEPT\<rparr>,
      if pk_standbyId pkt = masterId
      then SwitchRole e 0 STANDBY \<lparr>cx_turnId = pk_turnId pkt, cx_masterId = pk_masterId pkt, cx_standbyId = masterId\<rparr> rm
      else SwitchRole e 0 AGENT \<lparr>cx_turnId = pk_turnId pkt, cx_masterId = pk_masterId pkt, cx_standbyId = []\<rparr> rm)"

definition HandleSplitBrainMerge :: "surroundings \<Rightarrow> ElectionPkt \<Rightarrow> ElectionReplyPkt \<Rightarrow> master \<Rightarrow> role_mgr \<Rightarrow> ElectionReplyPkt \<times> role_mgr" where
  "HandleSplitBrainMerge e pkt reply m rm =
     (let newMasterId = (if ma_masterId m < pk_masterId pkt then ma_masterId m else pk_masterId pkt)
      in if newMasterId = ma_masterId m
         then (reply\<lparr>rp_replyResult := ELECTION_PKT_TYPE_REJECT_HAS_MASTER, rp_masterId := ma_masterId m\<rparr>, rm)
         else (reply\<lparr>rp_replyResult := ELECTION_PKT_RESULT_ACCEPT\<rparr>, SwitchRole e 0 AGENT (ctx_of pkt) rm))"

definition group_size :: "NodeId list \<Rightarrow> NodeId \<Rightarrow> nat" where
  \<comment> \<open>the agents, and the standby if there is one\<close>
  "group_size agentIds standbyId = length (agentIds @ (if standbyId \<noteq> INVALID_NODE_ID then [standbyId] else []))"

definition RecvPktHeart :: "surroundings \<Rightarrow> master \<Rightarrow> ElectionPkt \<Rightarrow> ElectionReplyPkt \<Rightarrow> role_mgr \<Rightarrow> ElectionReplyPkt \<times> role_mgr" where
  \<comment> \<open>the caller ignores the \<open>UBSE_ERROR\<close> of an unknown node list\<close>
  "RecvPktHeart e m pkt reply rm =
     (let mine = group_size (GetAllAgentIDs m) (ma_standbyId m);
          theirs = group_size (pk_agentIds pkt) (pk_standbyId pkt);
          hasMaster = (reply\<lparr>rp_replyResult := ELECTION_PKT_TYPE_REJECT_HAS_MASTER\<rparr>, rm)
      in case GetAllNode (rm_nodes rm) of
          None \<Rightarrow> (reply, rm)
        | Some allNodes \<Rightarrow>
            if mine + 1 > length allNodes div 2 then hasMaster
            else if mine > theirs then hasMaster
            else if mine < theirs then acceptNewMaster e pkt reply (ma_masterId m) rm
            else if pk_turnId pkt > ma_turnId m then acceptNewMaster e pkt reply (ma_masterId m) rm
            else if pk_turnId pkt = ma_turnId m then HandleSplitBrainMerge e pkt reply m rm
            else hasMaster)"

definition RecvPktElection :: "master \<Rightarrow> ElectionReplyPkt \<Rightarrow> ElectionReplyPkt" where
  "RecvPktElection m reply = reply\<lparr>rp_replyResult := ELECTION_PKT_TYPE_REJECT_HAS_MASTER, rp_replyId := ma_masterId m,
     rp_masterId := ma_masterId m, rp_turnId := ma_turnId m\<rparr>"

definition Master_RecvPkt :: "surroundings \<Rightarrow> master \<Rightarrow> ElectionPkt \<Rightarrow> ElectionReplyPkt \<Rightarrow> role_mgr \<Rightarrow> ElectionReplyPkt \<times> role_mgr" where
  "Master_RecvPkt e m pkt reply rm =
     (if su_globalStop e then (reply, rm)
      else if \<not> may_lead rm pkt then
        (reply\<lparr>rp_replyId := ma_masterId m, rp_masterId := ma_masterId m,
           rp_replyResult := ELECTION_PKT_TYPE_REJECT_HAS_MASTER\<rparr>, rm)
      else if pk_type pkt = ELECTION_PKT_TYPE_HEART \<and> ma_heartBeatEnabled m then RecvPktHeart e m pkt reply rm
      else if pk_type pkt = ELECTION_PKT_TYPE_SELECT then (RecvPktElection m reply, rm)
      else (reply, rm))"

end
