(* ===== verification/ElectionMgr.thy ===== *)
theory ElectionMgr
  imports ElectionMaster
begin

text \<open>
  The role manager as a whole: the dispatch of packets and timer ticks to the current role
  (\<open>ubse_election_role_mgr.cpp\<close>, \<open>ubse_election_pkt_handler.cpp\<close>), and the steps a node makes.
\<close>

section \<open>Dispatch\<close>

definition RecvPkt :: "surroundings \<Rightarrow> nat \<Rightarrow> ElectionPkt \<Rightarrow> ElectionReplyPkt \<Rightarrow> role_mgr \<Rightarrow> ElectionReplyPkt \<times> role_mgr" where
  \<comment> \<open>the second argument is the number of the role object that \<open>GetRole\<close> returned\<close>
  "RecvPkt e g pkt reply rm =
     (if \<not> IsCurrentRole g rm then (reply\<lparr>rp_replyResult := ELECTION_PKT_TYPE_REJECT\<rparr>, rm)
      else case rm_role rm of
          Initializer r \<Rightarrow> Initializer_RecvPkt e r pkt reply rm
        | Agent r \<Rightarrow> Agent_RecvPkt e r pkt reply rm
        | Standby r \<Rightarrow> Standby_RecvPkt e r pkt reply rm
        | Master r \<Rightarrow> Master_RecvPkt e r pkt reply rm)"

definition Handle :: "surroundings \<Rightarrow> nat \<Rightarrow> ElectionPkt \<Rightarrow> role_mgr \<Rightarrow> ElectionReplyPkt \<times> role_mgr" where
  "Handle e g pkt rm =
     RecvPkt e g pkt (if su_globalStop e then ElectionReplyPkt_new\<lparr>rp_replyResult := ELECTION_PKT_REPLY_GLOBAL_STOP\<rparr>
       else ElectionReplyPkt_new) rm"

definition timer_begin :: "surroundings \<Rightarrow> (NodeId \<Rightarrow> master \<Rightarrow> master) \<Rightarrow> role_mgr \<Rightarrow> role_mgr \<times> attempt option" where
  "timer_begin e cb rm = (case rm_role rm of
      Initializer r \<Rightarrow> Initializer_begin e r rm
    | Agent r \<Rightarrow> Agent_begin e r rm
    | Standby r \<Rightarrow> (Standby_ProcTimer e r rm, None)
    | Master r \<Rightarrow> (snd (Master_ProcTimer e cb r rm), None))"

fun timer_end :: "surroundings \<Rightarrow> peers \<Rightarrow> attempt \<Rightarrow> role_mgr \<Rightarrow> role_mgr" where
  "timer_end e peer (FromInitializer g myselfID) rm =
     (if SendElectionPkt e peer myselfID = ELECTION_PKT_RESULT_ACCEPT
      then TrySwitchToMaster e g \<lparr>cx_turnId = 0, cx_masterId = myselfID, cx_standbyId = []\<rparr> rm else rm)"
| "timer_end e peer (FromAgent g isCandidate myselfID) rm =
     Agent_end e g myselfID (if isCandidate then ForceElection e peer myselfID else ELECTION_PKT_TYPE_REJECT) rm"

definition on_master :: "(master \<Rightarrow> master) \<Rightarrow> role_mgr \<Rightarrow> role_mgr" where
  "on_master f rm = (case rm_role rm of Master m \<Rightarrow> rm\<lparr>rm_role := Master (f m)\<rparr> | _ \<Rightarrow> rm)"

definition node_down :: "NodeId \<Rightarrow> role_mgr \<Rightarrow> role_mgr" where
  \<comment> \<open>\<open>SetNodeDownStatus\<close> does nothing in the other roles\<close>
  "node_down i rm = (case rm_role rm of
      Master m \<Rightarrow> (case SetNodeDownStatus i m of (n, m') \<Rightarrow> rm\<lparr>rm_role := Master m', rm_notified := rm_notified rm @ n\<rparr>)
    | _ \<Rightarrow> rm)"

fun GetMasterNode :: "role_mgr \<Rightarrow> NodeId" where
  "GetMasterNode rm = (case rm_role rm of
      Initializer r \<Rightarrow> INVALID_NODE_ID
    | Agent r \<Rightarrow> ag_masterId r
    | Standby r \<Rightarrow> sd_masterId r
    | Master m \<Rightarrow> (case GetMyselfNode (rm_nodes rm) of None \<Rightarrow> INVALID_NODE_ID | Some myself \<Rightarrow> node_id myself))"

fun GetStandbyNode :: "role_mgr \<Rightarrow> NodeId" where
  "GetStandbyNode rm = (case rm_role rm of
      Initializer r \<Rightarrow> INVALID_NODE_ID
    | Agent r \<Rightarrow> ag_standbyId r
    | Standby r \<Rightarrow> sd_standbyId r
    | Master m \<Rightarrow> ma_standbyId m)"

fun GetAgentNodes :: "role_mgr \<Rightarrow> NodeId list" where
  "GetAgentNodes rm = (case rm_role rm of
      Initializer r \<Rightarrow> []
    | Agent r \<Rightarrow> ag_agentIds r
    | Standby r \<Rightarrow> sd_agentIds r
    | Master m \<Rightarrow> GetActiveNodes m)"

fun GetTurnId :: "role_mgr \<Rightarrow> u64" where
  "GetTurnId rm = (case rm_role rm of
      Initializer r \<Rightarrow> in_turnId r
    | Agent r \<Rightarrow> ag_turnId r
    | Standby r \<Rightarrow> sd_turnId r
    | Master m \<Rightarrow> ma_turnId m)"

section \<open>Steps of a node\<close>

text \<open>
  One timer thread drives \<open>ProcTimer\<close>, so at most one attempt is under way; packets, callbacks and
  node events interleave with it. The callbacks that run while the master sends its heartbeats
  are replies of peers.
\<close>

definition callbacks :: "(NodeId \<Rightarrow> master \<Rightarrow> master) \<Rightarrow> bool" where
  "callbacks cb \<longleftrightarrow> (\<forall>i m. \<exists>rs. cb i m = fold (\<lambda>(j, r). ProcessReply j r) rs m)"

inductive election_step :: "role_mgr \<times> attempt option \<Rightarrow> role_mgr \<times> attempt option \<Rightarrow> bool" where
  received: "election_step (rm, p) (snd (RecvPkt e g pkt reply rm), p)"
| timer: "callbacks cb \<Longrightarrow> election_step (rm, None) (timer_begin e cb rm)"
| sent: "election_step (rm, Some a) (timer_end e peer a rm, None)"
| replied: "election_step (rm, p) (on_master (ProcessReply i r) rm, p)"
| down: "election_step (rm, p) (node_down i rm, p)"
| nodes: "nodes_step (rm_nodes rm) en \<Longrightarrow> GetMyselfNode en = GetMyselfNode (rm_nodes rm) \<Longrightarrow>
     election_step (rm, p) (rm\<lparr>rm_nodes := en\<rparr>, p)"
| readiness: "election_step (rm, p) (rm\<lparr>rm_readiness := v\<rparr>, p)"

section \<open>What switching and handling keep\<close>

lemma notify_simps [simp]:
  "rm_role (notify t i rm) = rm_role rm" "rm_gen (notify t i rm) = rm_gen rm" "rm_conf (notify t i rm) = rm_conf rm"
  "rm_nodes (notify t i rm) = rm_nodes rm"
  by (simp_all add: notify_def)

lemma SwitchRole_simps [simp]:
  "rm_role (SwitchRole e k t ctx rm) = make_role e k t ctx rm" "rm_gen (SwitchRole e k t ctx rm) = rm_gen rm + 1"
  "rm_conf (SwitchRole e k t ctx rm) = rm_conf rm" "rm_nodes (SwitchRole e k t ctx rm) = rm_nodes rm"
  by (cases t; simp add: SwitchRole_def Let_def)+

lemma make_role_nodes:
  "rm_nodes rm' = rm_nodes rm \<Longrightarrow> make_role e k t ctx rm' = make_role e k t ctx rm"
  unfolding make_role_def Master_new_def Standby_new_def Agent_new_def Initializer_new_def InitNodesStatus_def myself_id_def
  by (simp only:)

lemma make_role_role [simp]:
  "make_role e k t ctx (rm\<lparr>rm_role := r\<rparr>) = make_role e k t ctx rm" "make_role e k t ctx (rm\<lparr>rm_readiness := v\<rparr>) = make_role e k t ctx rm"
  by (rule make_role_nodes; simp)+

definition same_master :: "master \<Rightarrow> master \<Rightarrow> bool" where
  \<comment> \<open>the identity of the master, and a standby that is not the master itself\<close>
  "same_master m m' \<longleftrightarrow> ma_masterId m' = ma_masterId m \<and> ma_turnId m' = ma_turnId m \<and>
     (ma_standbyId m \<noteq> ma_masterId m \<or> ma_standbyId m = [] \<longrightarrow> ma_standbyId m' \<noteq> ma_masterId m' \<or> ma_standbyId m' = [])"

lemma same_master_refl [simp]: "same_master m m"
  by (simp add: same_master_def)

lemma same_master_trans: "same_master a b \<Longrightarrow> same_master b c \<Longrightarrow> same_master a c"
  by (auto simp: same_master_def)

lemma bc_upd_simps [simp]:
  "ma_masterId (bc_upd i f m) = ma_masterId m" "ma_standbyId (bc_upd i f m) = ma_standbyId m" "ma_turnId (bc_upd i f m) = ma_turnId m"
  "ma_preNodes (bc_upd i f m) = ma_preNodes m" "ma_sequenceId (bc_upd i f m) = ma_sequenceId m"
  by (simp_all add: bc_upd_def)

lemma same_master_ProcessReply: "same_master m (ProcessReply i r m)"
  by (auto simp: ProcessReply_def UpdateBroadcastStatus_def same_master_def Let_def split: option.split)

lemma same_master_callbacks: "callbacks cb \<Longrightarrow> same_master m (cb i m)"
proof -
  have "same_master m (fold (\<lambda>(j, r). ProcessReply j r) rs m)" for rs m
    by (induction rs arbitrary: m) (auto intro: same_master_trans same_master_ProcessReply)
  then show "callbacks cb \<Longrightarrow> ?thesis" by (metis callbacks_def)
qed

lemma least_id_excludes: "least_id ok ns s = s \<or> ok (least_id ok ns s)"
proof (induction ns arbitrary: s)
  case (Cons x ns)
  from Cons.IH [of "if ok x \<and> (s = [] \<or> x < s) then x else s"] show ?case by (auto split: if_splits)
qed simp

lemma same_master_heart_loop: "callbacks cb \<Longrightarrow> same_master m (snd (heart_loop lost cb pkt is m))"
proof (induction lost cb pkt "is" m rule: heart_loop.induct)
  case (2 lost cb pkt i "is" m)
  have "same_master m (bc_upd i (\<lambda>b. b) m)" by (simp add: same_master_def)
  then have "same_master m (cb i (bc_upd i (\<lambda>b. b) m))"
    using same_master_trans same_master_callbacks [OF 2(2)] by blast
  moreover have "same_master x (DealHbCnt lost i x)" for x by (simp add: DealHbCnt_def same_master_def)
  ultimately have "same_master m (DealHbCnt lost i (cb i (bc_upd i (\<lambda>b. b) m)))" using same_master_trans by blast
  then show ?case
    using 2 same_master_trans by (auto simp: Let_def split: prod.splits)
qed simp

lemma same_master_timer:
  "callbacks cb \<Longrightarrow> rm_role rm = Master m \<Longrightarrow>
     \<exists>m'. rm_role (snd (Master_ProcTimer e cb m rm)) = Master m' \<and> same_master m m'"
proof -
  assume cb: "callbacks cb" and r: "rm_role rm = Master m"
  let ?lost = "GetHbLostTimes rm"
  obtain n1 m1 where 1: "AppointStandby m = (n1, m1)" by fastforce
  have s1: "same_master m m1"
    using 1 least_id_excludes [of "\<lambda>i. i \<noteq> ma_masterId m" "GetActiveNodes m" "[]"]
    by (auto simp: AppointStandby_def same_master_def FindSmallestIdExcludingMaster_def INVALID_NODE_ID_def Let_def split: if_splits)
  obtain pkt n2 m2 where 2: "ReplaceStandbyNode ?lost (PrepareElectionPkt (rm_readiness rm) m1) m1 = (pkt, n2, m2)"
    using prod_cases3 by blast
  have s2: "same_master m1 m2"
    using 2 least_id_excludes [of "\<lambda>i. i \<noteq> ma_masterId m1 \<and> i \<noteq> ma_standbyId m1" "GetActiveNodes (bc_upd (ma_standbyId m1) (\<lambda>b. b) m1)" "[]"]
    by (auto simp: ReplaceStandbyNode_def same_master_def FindSmallestIdExcludingMasterAndAgent_def INVALID_NODE_ID_def Let_def split: if_splits)
  obtain sent m3 where 3: "heart_loop ?lost cb pkt (su_connected e) m2 = (sent, m3)" by fastforce
  have s3: "same_master m2 m3" using same_master_heart_loop [OF cb, of m2 ?lost pkt "su_connected e"] 3 by simp
  obtain n4 m4 where 4: "DealNodeUpdate m3 = (n4, m4)" by fastforce
  have "same_master m3 m4" using 4 by (auto simp: DealNodeUpdate_def same_master_def Let_def)
  then have s4: "same_master m m4" using s1 s2 s3 same_master_trans by blast
  show ?thesis
    using r s4 by (auto simp: Master_ProcTimer_def Let_def 1 2 3 4 same_master_def)
qed

end
