(* ===== verification/ElectionLaws.thy ===== *)
theory ElectionLaws
  imports ElectionMgr
begin

text \<open>
  What the role election guarantees: who may lead and be followed, when a vote is granted, the
  order of the time-outs, the merge of two masters, the bookkeeping of peers, and the address
  book of the nodes.
\<close>

section \<open>Reachable states of a node\<close>

definition role_ok :: "role_mgr \<Rightarrow> bool" where
  "role_ok rm \<longleftrightarrow> (\<exists>me. GetMyselfNode (rm_nodes rm) = Some me \<and> (case rm_role rm of
      Initializer r \<Rightarrow> in_myselfID r = node_id me
    | Agent r \<Rightarrow> ag_myselfID r = node_id me \<and> IsAllowedMasterNode (rm_conf rm) (ag_masterId r)
    | Standby r \<Rightarrow> sd_standbyId r = node_id me \<and> IsAllowedMasterNode (rm_conf rm) (sd_masterId r)
    | Master m \<Rightarrow> candidate rm \<and> ma_masterId m = node_id me \<and> (ma_standbyId m \<noteq> ma_masterId m \<or> ma_standbyId m = [])))"

fun attempt_ok :: "role_mgr \<Rightarrow> attempt option \<Rightarrow> bool" where
  "attempt_ok rm None = True"
| "attempt_ok rm (Some (FromInitializer g i)) \<longleftrightarrow> g \<le> rm_gen rm \<and> (g = rm_gen rm \<longrightarrow> candidate rm)"
| "attempt_ok rm (Some (FromAgent g c i)) \<longleftrightarrow> g \<le> rm_gen rm \<and> (c \<longrightarrow> candidate rm)"

lemma node_id_known: "GetMyselfNode en = Some me \<Longrightarrow> node_id me \<noteq> []"
  by (auto simp: GetMyselfNode_def split: if_splits)

lemma candidate_allowed: "GetElectionCandidate g en \<Longrightarrow> GetMyselfNode en = Some me \<Longrightarrow> IsAllowedMasterNode g (node_id me)"
  by (auto simp: GetElectionCandidate_def IsAllowedMasterNode_def IsMyselfInCandidateNodes_def split: option.splits)

lemma candidate_cong: "rm_conf rm' = rm_conf rm \<Longrightarrow> GetMyselfNode (rm_nodes rm') = GetMyselfNode (rm_nodes rm) \<Longrightarrow> candidate rm' = candidate rm"
  by (simp add: candidate_def GetElectionCandidate_def IsMyselfInCandidateNodes_def cong: option.case_cong)

lemma role_ok_switch:
  assumes "role_ok rm" and "t = MASTER \<Longrightarrow> candidate rm \<and> cx_standbyId ctx = []"
    and "t = STANDBY \<or> t = AGENT \<Longrightarrow> IsAllowedMasterNode (rm_conf rm) (cx_masterId ctx)"
  shows "role_ok (SwitchRole e k t ctx rm)"
proof -
  obtain me where me: "GetMyselfNode (rm_nodes rm) = Some me" using assms(1) by (auto simp: role_ok_def)
  have "candidate (SwitchRole e k t ctx rm) = candidate rm" by (rule candidate_cong) simp_all
  then show ?thesis
    using assms(2,3) me
    by (cases t) (simp_all add: role_ok_def make_role_def Master_new_def Standby_new_def Agent_new_def Initializer_new_def
        myself_id_def INVALID_NODE_ID_def Let_def)
qed

lemma role_ok_cong:
  "rm_role rm' = rm_role rm \<Longrightarrow> rm_conf rm' = rm_conf rm \<Longrightarrow> GetMyselfNode (rm_nodes rm') = GetMyselfNode (rm_nodes rm) \<Longrightarrow>
     role_ok rm' = role_ok rm"
  using candidate_cong [of rm' rm] by (simp add: role_ok_def split: role.split)

text \<open>What every step keeps: the settings, the identity, and the order of the role objects.\<close>

definition evolves :: "role_mgr \<Rightarrow> role_mgr \<Rightarrow> bool" where
  "evolves rm rm' \<longleftrightarrow> rm_conf rm' = rm_conf rm \<and> GetMyselfNode (rm_nodes rm') = GetMyselfNode (rm_nodes rm) \<and> rm_gen rm \<le> rm_gen rm' \<and>
     (rm_gen rm' = rm_gen rm \<longrightarrow> GetRoleType (rm_role rm') = GetRoleType (rm_role rm)) \<and> (role_ok rm \<longrightarrow> role_ok rm')"

lemma evolves_refl [simp]: "evolves rm rm"
  by (simp add: evolves_def)

lemma evolves_trans: "evolves a b \<Longrightarrow> evolves b c \<Longrightarrow> evolves a c"
  by (auto simp: evolves_def)

lemma evolves_switch:
  assumes "role_ok rm \<Longrightarrow> t = MASTER \<Longrightarrow> candidate rm \<and> cx_standbyId ctx = []"
    and "t = STANDBY \<or> t = AGENT \<Longrightarrow> IsAllowedMasterNode (rm_conf rm) (cx_masterId ctx)"
  shows "evolves rm (SwitchRole e k t ctx rm)"
  using assms role_ok_switch [of rm t ctx e k] by (auto simp: evolves_def)

lemma evolves_same_role:
  "rm_role rm' = rm_role rm \<Longrightarrow> rm_gen rm' = rm_gen rm \<Longrightarrow> rm_conf rm' = rm_conf rm \<Longrightarrow>
     GetMyselfNode (rm_nodes rm') = GetMyselfNode (rm_nodes rm) \<Longrightarrow> evolves rm rm'"
  using role_ok_cong [of rm' rm] by (simp add: evolves_def)

lemma evolves_role:
  \<comment> \<open>the object changes in place\<close>
  assumes "GetRoleType r = GetRoleType (rm_role rm)" and "role_ok rm \<Longrightarrow> role_ok (rm\<lparr>rm_role := r\<rparr>)"
  shows "evolves rm (rm\<lparr>rm_role := r\<rparr>)"
  using assms by (simp add: evolves_def)

lemma role_ok_Agent:
  "rm_role rm = Agent r \<Longrightarrow> ag_myselfID r' = ag_myselfID r \<Longrightarrow>
     ag_masterId r' = ag_masterId r \<or> IsAllowedMasterNode (rm_conf rm) (ag_masterId r') \<Longrightarrow> role_ok rm \<Longrightarrow> role_ok (rm\<lparr>rm_role := Agent r'\<rparr>)"
  by (auto simp: role_ok_def)

lemma role_ok_Standby:
  "rm_role rm = Standby r \<Longrightarrow> sd_standbyId r' = sd_standbyId r \<Longrightarrow> sd_masterId r' = sd_masterId r \<Longrightarrow> role_ok rm \<Longrightarrow>
     role_ok (rm\<lparr>rm_role := Standby r'\<rparr>)"
  by (auto simp: role_ok_def)

lemma role_ok_Master:
  assumes "rm_role rm = Master m" and "same_master m m'" and "role_ok rm"
  shows "role_ok (rm\<lparr>rm_role := Master m'\<rparr>)"
proof -
  have "candidate (rm\<lparr>rm_role := Master m'\<rparr>) = candidate rm" by (rule candidate_cong) simp_all
  with assms show ?thesis by (auto simp: role_ok_def same_master_def)
qed

lemma evolves_notify: "evolves rm rm' \<Longrightarrow> evolves rm (notify t i rm')"
  using evolves_trans evolves_same_role by (metis notify_simps)

lemma evolves_init_recv:
  assumes "rm_role rm = Initializer r"
  shows "evolves rm (snd (Initializer_RecvPkt e r pkt reply rm))"
proof -
  let ?rm = "rm\<lparr>rm_role := Initializer (r\<lparr>in_masterId := pk_masterId pkt, in_turnId := pk_turnId pkt\<rparr>)\<rparr>"
  have 1: "evolves rm ?rm" using assms by (intro evolves_role) (auto simp: role_ok_def)
  have "evolves rm (SwitchRole e k t (ctx_of pkt) ?rm)" if "may_lead rm pkt" "pk_type pkt = ELECTION_PKT_TYPE_HEART" "t = STANDBY \<or> t = AGENT" for k t
    using that by (intro evolves_trans [OF 1] evolves_switch) (auto simp: may_lead_def ctx_of_def)
  then show ?thesis by (auto simp: Initializer_RecvPkt_def split: UbseNodeLocalState.split)
qed

lemma evolves_agent_recv:
  assumes a: "rm_role rm = Agent r"
  shows "evolves rm (snd (Agent_RecvPkt e r pkt reply rm))"
proof (cases "may_lead rm pkt \<and> pk_type pkt = ELECTION_PKT_TYPE_HEART")
  case True
  then have ok: "IsAllowedMasterNode (rm_conf rm) (pk_masterId pkt)" by (auto simp: may_lead_def)
  have upd: "evolves rm (rm\<lparr>rm_role := Agent r'\<rparr>)"
    if "ag_myselfID r' = ag_myselfID r" "ag_masterId r' = ag_masterId r \<or> ag_masterId r' = pk_masterId pkt" for r'
    using that ok a by (intro evolves_role role_ok_Agent) auto
  have sw: "evolves rm (SwitchRole e k STANDBY (ctx_of pkt) (rm\<lparr>rm_role := Agent r'\<rparr>))"
    if "ag_myselfID r' = ag_myselfID r" "ag_masterId r' = ag_masterId r \<or> ag_masterId r' = pk_masterId pkt" for r' k
  proof -
    have "evolves (rm\<lparr>rm_role := Agent r'\<rparr>) (SwitchRole e k STANDBY (ctx_of pkt) (rm\<lparr>rm_role := Agent r'\<rparr>))"
      using ok by (intro evolves_switch) (simp_all add: ctx_of_def)
    with upd [OF that] show ?thesis by (rule evolves_trans)
  qed
  have dis: "evolves rm (rm\<lparr>rm_role := Agent r', rm_disconnected := ds\<rparr>)"
    if "ag_myselfID r' = ag_myselfID r" "ag_masterId r' = ag_masterId r \<or> ag_masterId r' = pk_masterId pkt" for r' ds
    using that by (intro evolves_trans [OF upd [OF that]] evolves_same_role) simp_all
  show ?thesis
    using True by (auto simp: Agent_RecvPkt_def Agent_RecvPktForHeart_def HandleMasterChange_def Let_def intro!: upd sw dis)
qed (auto simp: Agent_RecvPkt_def)

lemma evolves_standby_recv:
  assumes s: "rm_role rm = Standby r"
  shows "evolves rm (snd (Standby_RecvPkt e r pkt reply rm))"
proof (cases "may_lead rm pkt \<and> pk_type pkt = ELECTION_PKT_TYPE_HEART")
  case True
  then have ok: "IsAllowedMasterNode (rm_conf rm) (pk_masterId pkt)" by (auto simp: may_lead_def)
  have upd: "evolves rm (rm\<lparr>rm_role := Standby r'\<rparr>)" if "sd_standbyId r' = sd_standbyId r" "sd_masterId r' = sd_masterId r" for r'
    using that s by (intro evolves_role role_ok_Standby) auto
  have sw: "evolves rm (SwitchRole e k AGENT (ctx_of pkt) rm)" for k
    using ok by (intro evolves_switch) (auto simp: ctx_of_def)
  show ?thesis
    using True by (auto simp: Standby_RecvPkt_def Standby_RecvPktForHeart_def HandleMasterOnlineNotification_def Let_def intro!: upd sw evolves_notify)
qed (auto simp: Standby_RecvPkt_def)

lemma evolves_master_recv:
  assumes "rm_role rm = Master m"
  shows "evolves rm (snd (Master_RecvPkt e m pkt reply rm))"
proof (cases "may_lead rm pkt \<and> pk_type pkt = ELECTION_PKT_TYPE_HEART")
  case True
  then have "IsAllowedMasterNode (rm_conf rm) (pk_masterId pkt)" by (auto simp: may_lead_def)
  then have "evolves rm (SwitchRole e 0 t ctx rm)" if "t = STANDBY \<or> t = AGENT" "cx_masterId ctx = pk_masterId pkt" for t ctx
    using that by (intro evolves_switch) auto
  then show ?thesis
    by (auto simp: Master_RecvPkt_def RecvPktHeart_def acceptNewMaster_def HandleSplitBrainMerge_def ctx_of_def Let_def split: option.split)
qed (auto simp: Master_RecvPkt_def)

lemma evolves_RecvPkt: "evolves rm (snd (RecvPkt e g pkt reply rm))"
  using evolves_init_recv evolves_agent_recv evolves_standby_recv evolves_master_recv
  by (auto simp: RecvPkt_def split: role.split)

lemma evolves_timer:
  assumes cb: "callbacks cb" and ok: "role_ok rm"
  shows "evolves rm (fst (timer_begin e cb rm)) \<and> attempt_ok (fst (timer_begin e cb rm)) (snd (timer_begin e cb rm))"
proof (cases "rm_role rm")
  case (Initializer r)
  have "in_myselfID (tick e r) = in_myselfID r" by (simp add: tick_def Let_def)
  then have "evolves rm (rm\<lparr>rm_role := role.Initializer (tick e r)\<rparr>)" using Initializer by (intro evolves_role) (auto simp: role_ok_def)
  moreover have "candidate (rm\<lparr>rm_role := x\<rparr>) = candidate rm" for x by (rule candidate_cong) simp_all
  ultimately show ?thesis using Initializer by (simp add: timer_begin_def Initializer_begin_def Let_def)
next
  case (Agent r)
  then show ?thesis by (simp add: timer_begin_def Agent_begin_def)
next
  case (Standby r)
  have sw: "evolves rm (SwitchRole e 2 INITIALIZER ctx rm)" for ctx by (intro evolves_switch) simp_all
  have "evolves rm (Standby_SwitchMaster e 2 r rm)" if "candidate rm"
  proof -
    let ?rm = "rm\<lparr>rm_readiness := NOT_READY\<rparr>"
    have "candidate ?rm = candidate rm" by (rule candidate_cong) simp_all
    then have "evolves ?rm (SwitchRole e 2 MASTER \<lparr>cx_turnId = sd_turnId r + 1, cx_masterId = sd_standbyId r, cx_standbyId = INVALID_NODE_ID\<rparr> ?rm)"
      using that by (intro evolves_switch) (simp_all add: INVALID_NODE_ID_def)
    moreover have "evolves rm ?rm" by (rule evolves_same_role) simp_all
    ultimately show ?thesis by (auto simp: Standby_SwitchMaster_def Let_def intro!: evolves_notify elim: evolves_trans)
  qed
  with sw Standby show ?thesis by (simp add: timer_begin_def Standby_ProcTimer_def)
next
  case (Master m)
  obtain m' where m': "rm_role (snd (Master_ProcTimer e cb m rm)) = role.Master m'" "same_master m m'"
    using same_master_timer [OF cb Master] by blast
  have keep: "rm_gen (snd (Master_ProcTimer e cb m rm)) = rm_gen rm" "rm_conf (snd (Master_ProcTimer e cb m rm)) = rm_conf rm"
    "rm_nodes (snd (Master_ProcTimer e cb m rm)) = rm_nodes rm"
    by (auto simp: Master_ProcTimer_def Let_def split: prod.split)
  have "role_ok (snd (Master_ProcTimer e cb m rm)) = role_ok (rm\<lparr>rm_role := role.Master m'\<rparr>)"
    by (rule role_ok_cong) (simp_all add: m' keep)
  with role_ok_Master [OF Master m'(2)] keep Master m'(1) show ?thesis by (auto simp: timer_begin_def evolves_def)
qed

lemma evolves_sent:
  assumes "attempt_ok rm (Some a)"
  shows "evolves rm (timer_end e peer a rm)"
proof (cases a)
  case (FromInitializer g i)
  with assms show ?thesis
    by (auto simp: TrySwitchToMaster_def IsCurrentRole_def intro!: evolves_switch)
next
  case (FromAgent g c i)
  with assms show ?thesis
    by (auto simp: Agent_end_def IsCurrentRole_def INVALID_NODE_ID_def intro!: evolves_switch)
qed

lemma attempt_ok_evolves: "evolves rm rm' \<Longrightarrow> attempt_ok rm p \<Longrightarrow> attempt_ok rm' p"
  using candidate_cong [of rm' rm] by (cases "(rm, p)" rule: attempt_ok.cases) (auto simp: evolves_def)

lemma evolves_step:
  assumes "election_step (rm, p) (rm', p')" and "role_ok rm" and "attempt_ok rm p"
  shows "evolves rm rm' \<and> attempt_ok rm' p'"
  using assms(1)
proof (cases rule: election_step.cases)
  case (received e g pkt reply)
  then show ?thesis using evolves_RecvPkt attempt_ok_evolves assms(3) by blast
next
  case (timer cb e)
  then show ?thesis using evolves_timer [OF timer(3) assms(2), of e] by (metis fst_conv snd_conv)
next
  case (sent a e peer)
  then show ?thesis using evolves_sent assms(3) by simp
next
  case (replied i r)
  have "evolves rm (on_master (ProcessReply i r) rm)"
  proof (cases "rm_role rm")
    case (Master m)
    then show ?thesis
      using role_ok_Master [OF Master same_master_ProcessReply [of m i r]] by (auto simp: on_master_def intro!: evolves_role)
  qed (simp_all add: on_master_def)
  then show ?thesis using replied attempt_ok_evolves assms(3) by blast
next
  case (down i)
  have "evolves rm (node_down i rm)"
  proof (cases "rm_role rm")
    case (Master m)
    obtain n m' where d: "SetNodeDownStatus i m = (n, m')" by fastforce
    then have "same_master m m'" by (auto simp: SetNodeDownStatus_def same_master_def INVALID_NODE_ID_def Let_def split: if_splits)
    then have "evolves rm (rm\<lparr>rm_role := role.Master m'\<rparr>)" using role_ok_Master [OF Master] Master by (intro evolves_role) auto
    moreover have "evolves (rm\<lparr>rm_role := role.Master m'\<rparr>) (rm\<lparr>rm_role := role.Master m', rm_notified := rm_notified rm @ n\<rparr>)"
      by (rule evolves_same_role) simp_all
    ultimately show ?thesis using Master d evolves_trans by (simp add: node_down_def)
  qed (simp_all add: node_down_def)
  then show ?thesis using down attempt_ok_evolves assms(3) by blast
next
  case (nodes en)
  have "evolves rm (rm\<lparr>rm_nodes := en\<rparr>)" using nodes by (intro evolves_same_role) simp_all
  then show ?thesis using nodes attempt_ok_evolves assms(3) by blast
next
  case (readiness v)
  have "evolves rm (rm\<lparr>rm_readiness := v\<rparr>)" by (intro evolves_same_role) simp_all
  then show ?thesis using readiness attempt_ok_evolves assms(3) by blast
qed

lemma evolves_run:
  assumes "election_step\<^sup>*\<^sup>* (rm, p) (rm', p')" and "role_ok rm" and "attempt_ok rm p"
  shows "evolves rm rm' \<and> attempt_ok rm' p'"
  using assms(1)
proof (induction rule: rtranclp_induct2)
  case refl
  then show ?case using assms(3) by simp
next
  case (step rm1 p1 rm2 p2)
  then show ?case using evolves_step [OF step(2)] assms(2) evolves_trans by (metis evolves_def)
qed

lemma role_ok_new: "GetMyselfNode en = Some me \<Longrightarrow> role_ok (RoleMgr_new e g en)"
  by (simp add: role_ok_def RoleMgr_new_def Initializer_new_def myself_id_def Let_def)

text \<open>
  C20: Only candidates lead, and only candidates are followed. From the creation of the role
  manager, along every interleaving of packets, timer ticks, the end of election rounds, replies
  to heartbeats and node events: a node that is master is a candidate by its configuration, and
  whichever master a node names (itself or the one it follows) is allowed by the candidate list;
  a master never appoints itself as its standby.
\<close>

theorem only_candidates_lead:
  assumes "GetMyselfNode en = Some me" and "election_step\<^sup>*\<^sup>* (RoleMgr_new e g en, None) (rm, p)"
  shows "(GetRoleType (rm_role rm) = MASTER \<longrightarrow> GetElectionCandidate g (rm_nodes rm) \<and> GetMasterNode rm = node_id me \<and>
      GetStandbyNode rm \<noteq> GetMasterNode rm) \<and>
    (GetRoleType (rm_role rm) \<noteq> INITIALIZER \<longrightarrow> IsAllowedMasterNode g (GetMasterNode rm))"
proof -
  have "evolves (RoleMgr_new e g en) rm" using evolves_run [OF assms(2)] role_ok_new [OF assms(1)] by simp
  moreover have "rm_conf (RoleMgr_new e g en) = g" "rm_nodes (RoleMgr_new e g en) = en" by (simp_all add: RoleMgr_new_def Let_def)
  ultimately have ok: "role_ok rm" and g: "rm_conf rm = g" and me: "GetMyselfNode (rm_nodes rm) = Some me"
    using assms(1) role_ok_new by (auto simp: evolves_def)
  show ?thesis
    using ok me g candidate_allowed [of g "rm_nodes rm" me] node_id_known [OF me]
    by (cases "rm_role rm") (auto simp: role_ok_def candidate_def)
qed

text \<open>
  C21: An election that was overtaken changes nothing. If between the start of an election round
  and its end the node's role has changed (a heartbeat has made it a follower, say), the end of the
  round leaves the node as it is, whatever the peers have answered.
\<close>

theorem overtaken_election_void:
  assumes "GetMyselfNode en = Some me" and "election_step\<^sup>*\<^sup>* (RoleMgr_new e0 g en, None) (rm0, None)" and "callbacks cb"
    and "timer_begin e cb rm0 = (rm1, Some a)"
    and "election_step\<^sup>*\<^sup>* (rm1, Some a) (rm2, Some a)" and "GetRoleType (rm_role rm2) \<noteq> GetRoleType (rm_role rm0)"
  shows "timer_end e' peer a rm2 = rm2"
proof -
  have ok: "role_ok rm0" using evolves_run [OF assms(2)] role_ok_new [OF assms(1)] by (simp add: evolves_def)
  have b: "evolves rm0 rm1" "attempt_ok rm1 (Some a)" using evolves_timer [OF assms(3) ok, of e] assms(4) by simp_all
  have gen: "rm_gen rm1 = rm_gen rm0" "(\<exists>i. a = FromInitializer (rm_gen rm0) i) \<or> (\<exists>c i. a = FromAgent (rm_gen rm0) c i)"
    using assms(4) by (auto simp: timer_begin_def Initializer_begin_def Agent_begin_def Let_def split: role.splits if_splits)
  have "evolves rm1 rm2" using evolves_run [OF assms(5)] b ok by (simp add: evolves_def)
  with b(1) gen(1) assms(6) have "rm_gen rm2 \<noteq> rm_gen rm0" by (auto simp: evolves_def)
  with gen(2) show ?thesis by (auto simp: TrySwitchToMaster_def Agent_end_def IsCurrentRole_def)
qed

text \<open>A node on its own, which elects itself unless a heartbeat arrives first.\<close>

definition demo_self :: node where
  "demo_self = \<lparr>node_id = ''1'', node_ip = ''10.0.0.1'', node_port = TCP_LISTEN_PORT, node_state = INIT\<rparr>"

definition demo_nodes :: election_nodes where
  "demo_nodes = \<lparr>en_currentNode = demo_self, en_heartBeatTime = 2000, en_heartBeatLost = 3, en_currentAllNodes = [demo_self],
     en_nodeIpMap = [(''10.0.0.1'', ''1'')]\<rparr>"

definition demo_around :: surroundings where
  "demo_around = \<lparr>su_clock = (\<lambda>k. Some (100, 0)), su_junk = 0, su_world = \<lparr>ew_curNode = ''1'', ew_curEid = ''10.0.0.1'',
     ew_localState = UBSE_NODE_READY, ew_ubEnable = Some True, ew_localIp = None, ew_static = [], ew_topo = None, ew_clusterIps = []\<rparr>,
     su_connected = [], su_globalStop = False\<rparr>"

definition demo_heart :: ElectionPkt where
  "demo_heart = ElectionPkt_new\<lparr>pk_type := ELECTION_PKT_TYPE_HEART, pk_masterId := ''0'', pk_standbyId := ''2'', pk_turnId := 7\<rparr>"

definition demo_start :: role_mgr where
  "demo_start = RoleMgr_new demo_around ElectionConfig_new demo_nodes"

definition demo_ticked :: role_mgr where
  "demo_ticked = fst (timer_begin demo_around (\<lambda>i m. m) demo_start)"

definition demo_led :: role_mgr where
  "demo_led = timer_end demo_around (\<lambda>i pkt. (UBSE_OK, ElectionReplyPkt_new)) (FromInitializer 0 ''1'') demo_ticked"

definition demo_adopted :: role_mgr where
  "demo_adopted = snd (RecvPkt demo_around 0 demo_heart ElectionReplyPkt_new demo_ticked)"

lemma no_callbacks: "callbacks (\<lambda>i m. m)"
  unfolding callbacks_def by (intro allI exI [of _ "[]"]) simp

lemma demo_known: "GetMyselfNode demo_nodes = Some demo_self"
  by (simp add: GetMyselfNode_def demo_nodes_def demo_self_def TCP_LISTEN_PORT_def)

lemma demo_candidate: "GetElectionCandidate ElectionConfig_new en"
  by (simp add: GetElectionCandidate_def GetElectionCandidateNodesFromConf_def ElectionConfig_new_def)

lemma demo_begun_parts: "rm_gen demo_ticked = 0" "rm_conf demo_ticked = ElectionConfig_new" "rm_nodes demo_ticked = demo_nodes"
  "\<exists>r. rm_role demo_ticked = role.Initializer r \<and> in_myselfID r = ''1''"
  using demo_known
  by (simp_all add: demo_ticked_def demo_start_def timer_begin_def Initializer_begin_def RoleMgr_new_def Initializer_new_def tick_def
      myself_id_def Let_def)
    (simp_all add: demo_self_def)

lemma demo_timer: "timer_begin demo_around (\<lambda>i m. m) demo_start = (demo_ticked, Some (FromInitializer 0 ''1''))"
proof -
  have ready: "GetLocalNodeState (su_world demo_around) = UBSE_NODE_READY" by (simp add: GetLocalNodeState_def demo_around_def)
  have nodes: "rm_nodes demo_start = demo_nodes" "rm_conf demo_start = ElectionConfig_new" "rm_gen demo_start = 0"
    by (simp_all add: demo_start_def RoleMgr_new_def Let_def)
  have cand: "candidate demo_start" by (simp add: candidate_def nodes demo_candidate)
  have all: "all_nodes demo_start = [demo_self]" by (simp add: all_nodes_def GetAllNode_def nodes) (simp add: demo_nodes_def)
  obtain r where r: "rm_role demo_start = role.Initializer r" "in_myselfID r = ''1''"
    using demo_known by (simp add: demo_start_def RoleMgr_new_def Initializer_new_def myself_id_def Let_def) (simp add: demo_self_def)
  have "in_lastTimeMs (tick demo_around r) - in_startTimeMs (tick demo_around r) = (if in_isStartTimeSet r then 100000 - in_startTimeMs r else 0)"
    by (simp add: tick_def heard_def GetBootTime_def demo_around_def Let_def)
  moreover have "\<not> in_isStartTimeSet r" using r by (auto simp: demo_start_def RoleMgr_new_def Initializer_new_def Let_def)
  ultimately have phase: "election_phase demo_start (tick demo_around r) (local_node demo_start) [demo_self]"
    by (simp add: election_phase_def IsSmallestNode_def)
  have "in_myselfID (tick demo_around r) = ''1''" using r by (simp add: tick_def Let_def)
  then show ?thesis
    using phase by (simp add: demo_ticked_def timer_begin_def r Initializer_begin_def ready cand all nodes Let_def)
qed

lemma demo_begun: "election_step (demo_start, None) (demo_ticked, Some (FromInitializer 0 ''1''))"
  by (subst demo_timer [symmetric]) (rule election_step.timer [OF no_callbacks])

theorem only_candidates_lead_witness:
  "GetRoleType (rm_role demo_led) = MASTER \<and> IsAllowedMasterNode ElectionConfig_new (GetMasterNode demo_led) \<and> GetMasterNode demo_led = ''1''"
proof -
  have "SendElectionPkt demo_around peer i = ELECTION_PKT_RESULT_ACCEPT" for peer i
    by (simp add: SendElectionPkt_def demo_around_def)
  then have m: "GetRoleType (rm_role demo_led) = MASTER"
    by (simp add: demo_led_def TrySwitchToMaster_def IsCurrentRole_def demo_begun_parts make_role_def)
  have "election_step (demo_ticked, Some (FromInitializer 0 ''1'')) (demo_led, None)"
    unfolding demo_led_def by (rule election_step.sent)
  with demo_begun have "election_step\<^sup>*\<^sup>* (demo_start, None) (demo_led, None)" by simp
  from only_candidates_lead [OF demo_known this [unfolded demo_start_def]] m show ?thesis
    by (auto simp: demo_self_def simp del: GetMasterNode.simps GetStandbyNode.simps)
qed

theorem overtaken_election_void_witness:
  "GetRoleType (rm_role demo_adopted) = AGENT \<and>
   timer_end demo_around (\<lambda>i pkt. (UBSE_OK, ElectionReplyPkt_new)) (FromInitializer 0 ''1'') demo_adopted = demo_adopted"
proof -
  obtain r where r: "rm_role demo_ticked = role.Initializer r" "in_myselfID r = ''1''" using demo_begun_parts(4) by blast
  have a: "GetRoleType (rm_role demo_adopted) = AGENT"
    by (simp add: demo_adopted_def RecvPkt_def IsCurrentRole_def demo_begun_parts(1) r Initializer_RecvPkt_def may_lead_def demo_begun_parts(2)
        IsAllowedMasterNode_def GetElectionCandidateNodesFromConf_def)
      (simp add: demo_heart_def ElectionConfig_new_def GetLocalNodeState_def demo_around_def make_role_def ElectionPkt_new_def
        ELECTION_PKT_TYPE_HEART_def ELECTION_PKT_TYPE_SELECT_def)
  have "election_step (demo_ticked, Some (FromInitializer 0 ''1'')) (demo_adopted, Some (FromInitializer 0 ''1''))"
    unfolding demo_adopted_def by (rule election_step.received)
  then have run: "election_step\<^sup>*\<^sup>* (demo_ticked, Some (FromInitializer 0 ''1'')) (demo_adopted, Some (FromInitializer 0 ''1''))" by simp
  have "GetRoleType (rm_role demo_adopted) \<noteq> GetRoleType (rm_role demo_start)" using a by (simp add: demo_start_def RoleMgr_new_def Let_def)
  from overtaken_election_void [OF demo_known rtranclp.rtrancl_refl no_callbacks demo_timer [unfolded demo_start_def] run this [unfolded demo_start_def]] a show ?thesis by simp
qed

end
