(* ===== verification/ElectionProps.thy ===== *)
theory ElectionProps
  imports ElectionLaws
begin

text \<open>
  The rules of the election in detail: when a vote is granted, the order of the time-outs, the
  merge of two masters, and the master's bookkeeping of its peers.
\<close>

section \<open>Votes\<close>

text \<open>
  C23: When a vote is granted. A node answers an election packet with \<open>ACCEPT\<close> exactly when
  the candidate list allows the sender and the node is an initializer that is restoring, or no
  candidate itself, or not smaller than the sender, or it is an agent whose master has been
  silent for one heartbeat less than the loss threshold; a standby and a master never grant it,
  nor does a role object that has been replaced. The packet changes nothing else.
\<close>

theorem vote_rule:
  assumes "pk_type pkt = ELECTION_PKT_TYPE_SELECT"
  shows "(rp_replyResult (fst (Handle e g pkt rm)) = ELECTION_PKT_RESULT_ACCEPT \<longleftrightarrow>
      g = rm_gen rm \<and> IsAllowedMasterNode (rm_conf rm) (pk_masterId pkt) \<and>
      (case rm_role rm of
        Initializer r \<Rightarrow> GetLocalNodeState (su_world e) = UBSE_NODE_RESTORE \<or> \<not> candidate rm \<or> pk_masterId pkt \<le> in_myselfID r
      | Agent r \<Rightarrow> heart_timeout e 0 (GetHbLostTimes rm - 1) (ag_lastHeartTime r) rm
      | Standby r \<Rightarrow> False
      | Master m \<Rightarrow> False)) \<and>
    snd (Handle e g pkt rm) = rm"
  using assms
  by (auto simp: Handle_def RecvPkt_def IsCurrentRole_def Initializer_RecvPkt_def Agent_RecvPkt_def Agent_RecvPktForSelect_def
      Standby_RecvPkt_def Master_RecvPkt_def RecvPktElection_def may_lead_def not_less pkt_codes ElectionReplyPkt_new_def
      split: role.split UbseNodeLocalState.split)

definition demo_select :: ElectionPkt where
  "demo_select = ElectionPkt_new\<lparr>pk_type := ELECTION_PKT_TYPE_SELECT, pk_masterId := ''0''\<rparr>"

lemma demo_ticked_allowed: "IsAllowedMasterNode (rm_conf demo_ticked) i"
  by (simp add: IsAllowedMasterNode_def GetElectionCandidateNodesFromConf_def demo_begun_parts ElectionConfig_new_def)

theorem vote_rule_witness:
  "rp_replyResult (fst (Handle demo_around 0 demo_select demo_ticked)) = ELECTION_PKT_RESULT_ACCEPT \<and>
   snd (Handle demo_around 0 demo_select demo_ticked) = demo_ticked"
proof -
  obtain r where r: "rm_role demo_ticked = role.Initializer r" "in_myselfID r = ''1''" using demo_begun_parts(4) by blast
  have s: "pk_type demo_select = ELECTION_PKT_TYPE_SELECT" "pk_masterId demo_select = ''0''" by (simp_all add: demo_select_def)
  have "''0'' \<le> (''1'' :: string)" by (simp add: less_eq_char_def)
  then show ?thesis
    using vote_rule [OF s(1), of demo_around 0 demo_ticked] demo_ticked_allowed by (simp add: r s demo_begun_parts)
qed

section \<open>Time-outs\<close>

text \<open>
  The order of the time-outs. With the heartbeat settings that the node manager loads, the
  32-bit product of loss count and interval does not wrap: a follower has timed out at a multiple
  exactly when more than that many intervals have passed since the last heartbeat. So a follower
  first accepts another master (one interval early), then a standby takes over, and only two
  intervals later does an agent start an election.
\<close>

theorem timeout_order:
  assumes "beats_ok (rm_nodes rm)" and "GetBootTime e k = Some now"
  shows "(\<forall>c. c \<le> GetHbLostTimes rm + 2 \<longrightarrow> (heart_timeout e k c t rm \<longleftrightarrow>
      t \<le> now \<and> unat c * unat (GetHeartTimeInterval rm) < unat now - unat t)) \<and>
    (heart_timeout e k (GetHbLostTimes rm + 2) t rm \<longrightarrow> heart_timeout e k (GetHbLostTimes rm) t rm) \<and>
    (heart_timeout e k (GetHbLostTimes rm) t rm \<longrightarrow> heart_timeout e k (GetHbLostTimes rm - 1) t rm)"
proof -
  let ?l = "GetHbLostTimes rm" and ?i = "GetHeartTimeInterval rm"
  have l: "3 \<le> unat ?l" "unat ?l \<le> 20" and i: "unat ?i \<le> 60000"
    using assms(1) by (simp_all add: beats_ok_def GetHbLostTimes_def GetHeartTimeInterval_def word_le_nat_alt)
  have l2: "unat (?l + 2) = unat ?l + 2" using l by (simp add: unat_word_ariths)
  have l1: "unat (?l - 1) = unat ?l - 1" using l by (simp add: unat_sub word_le_nat_alt)
  have exact: "heart_timeout e k c t rm \<longleftrightarrow> t \<le> now \<and> unat c * unat ?i < unat now - unat t" if c: "unat c \<le> 22" for c
  proof -
    have "unat c * unat ?i \<le> 22 * 60000" using c i by (rule mult_le_mono)
    then have "unat (c * ?i) = unat c * unat ?i" by (simp add: unat_word_ariths)
    then have p: "unat (ucast (c * ?i) :: u64) = unat c * unat ?i" by (simp add: unat_ucast_u32_u64)
    show ?thesis
    proof (cases "t \<le> now")
      case True
      then have "unat (now - t) = unat now - unat t" by (rule unat_sub)
      with p True show ?thesis by (simp add: heart_timeout_def assms(2) word_less_nat_alt not_less)
    qed (simp add: heart_timeout_def assms(2) flip: not_le)
  qed
  have "unat c \<le> 22" if "c \<le> ?l + 2" for c using that l l2 by (simp add: word_le_nat_alt)
  moreover have "(unat ?l - 1) * unat ?i < x" if "unat ?l * unat ?i < x" for x
    by (rule le_less_trans [OF _ that]) simp
  ultimately show ?thesis using exact l l1 l2 by auto
qed

theorem timeout_order_witness:
  "beats_ok (rm_nodes demo_ticked) \<and> heart_timeout demo_around 0 (GetHbLostTimes demo_ticked - 1) 0 demo_ticked"
proof -
  have b: "beats_ok (rm_nodes demo_ticked)" by (simp add: demo_begun_parts beats_ok_def demo_nodes_def)
  have t: "GetBootTime demo_around 0 = Some 100000" by (simp add: GetBootTime_def demo_around_def)
  have "heart_timeout demo_around 0 (GetHbLostTimes demo_ticked) 0 demo_ticked"
    by (simp add: heart_timeout_def t GetHbLostTimes_def GetHeartTimeInterval_def demo_begun_parts demo_nodes_def)
  with timeout_order [OF b t, of 0] b show ?thesis by blast
qed

section \<open>Two masters\<close>

definition follows :: "master \<Rightarrow> nat" where
  \<comment> \<open>how many nodes a master counts as its own\<close>
  "follows m = group_size (GetAllAgentIDs m) (ma_standbyId m)"

definition outranks :: "master \<Rightarrow> master \<Rightarrow> bool" where
  \<comment> \<open>more followers, then the later turn, then the smaller identifier\<close>
  "outranks a b \<longleftrightarrow> follows a > follows b \<or> follows a = follows b \<and>
     (ma_turnId a > ma_turnId b \<or> ma_turnId a = ma_turnId b \<and> ma_masterId a < ma_masterId b)"

lemma outranks_total: "ma_masterId a \<noteq> ma_masterId b \<Longrightarrow> outranks a b \<noteq> outranks b a"
  by (auto simp: outranks_def)

definition lone_master :: "role_mgr \<Rightarrow> master \<Rightarrow> node list \<Rightarrow> bool" where
  \<comment> \<open>a running master that knows itself and the nodes of the cluster\<close>
  "lone_master rm m ns \<longleftrightarrow> rm_role rm = Master m \<and> ma_heartBeatEnabled m \<and> GetAllNode (rm_nodes rm) = Some ns \<and>
     GetMyselfNode (rm_nodes rm) \<noteq> None"

text \<open>What a master does with the heartbeat of another one.\<close>

lemma hears_master:
  assumes a: "lone_master rm a ns" and ok: "IsAllowedMasterNode (rm_conf rm) (ma_masterId b)" and run: "\<not> su_globalStop e"
  shows "GetRoleType (rm_role (snd (RecvPkt e (rm_gen rm) (PrepareElectionPkt v b) reply rm))) = MASTER \<longleftrightarrow>
      follows a + 1 > length ns div 2 \<or> \<not> outranks b a" (is ?stays)
    and "GetRoleType (rm_role (snd (RecvPkt e (rm_gen rm) (PrepareElectionPkt v b) reply rm))) \<noteq> MASTER \<Longrightarrow>
      GetMasterNode (snd (RecvPkt e (rm_gen rm) (PrepareElectionPkt v b) reply rm)) = ma_masterId b"
proof -
  have pkt: "pk_type (PrepareElectionPkt v b) = ELECTION_PKT_TYPE_HEART" "pk_masterId (PrepareElectionPkt v b) = ma_masterId b"
    "pk_agentIds (PrepareElectionPkt v b) = GetAllAgentIDs b" "pk_standbyId (PrepareElectionPkt v b) = ma_standbyId b"
    "pk_turnId (PrepareElectionPkt v b) = ma_turnId b"
    by (simp_all add: PrepareElectionPkt_def)
  have r: "RecvPkt e (rm_gen rm) (PrepareElectionPkt v b) reply rm = RecvPktHeart e a (PrepareElectionPkt v b) reply rm"
    using a ok run by (simp add: RecvPkt_def IsCurrentRole_def lone_master_def Master_RecvPkt_def may_lead_def pkt)
  show ?stays
    unfolding r using a
    by (auto simp: RecvPktHeart_def lone_master_def acceptNewMaster_def HandleSplitBrainMerge_def make_role_def pkt outranks_def
        follows_def Let_def)
  show "GetMasterNode (snd (RecvPkt e (rm_gen rm) (PrepareElectionPkt v b) reply rm)) = ma_masterId b"
    if "GetRoleType (rm_role (snd (RecvPkt e (rm_gen rm) (PrepareElectionPkt v b) reply rm))) \<noteq> MASTER"
    using that a unfolding r
    by (auto simp: RecvPktHeart_def lone_master_def acceptNewMaster_def HandleSplitBrainMerge_def make_role_def pkt follows_def
        Standby_new_def Agent_new_def ctx_of_def Let_def split: if_splits)
qed


definition demo_master :: "NodeId \<Rightarrow> NodeId list \<Rightarrow> master" where
  "demo_master i peers = \<lparr>ma_masterId = i, ma_standbyId = [], ma_lastTimeMs = 0, ma_turnId = 1, ma_sequenceId = 0, ma_standbyStatus = 0,
     ma_heartBeatEnabled = True, ma_broadcast = map (\<lambda>j. (j, BroadcastStatus_Default\<lparr>activeStatus := ACTIVE\<rparr>)) peers,
     ma_preNodes = []\<rparr>"

definition demo_split :: "NodeId \<Rightarrow> NodeId list \<Rightarrow> role_mgr" where
  "demo_split i peers = demo_start\<lparr>rm_role := Master (demo_master i peers), rm_nodes := demo_nodes\<lparr>en_currentAllNodes :=
     map (\<lambda>j. demo_self\<lparr>node_id := j\<rparr>) [''1'', ''2'', ''3'', ''4'', ''5'']\<rparr>\<rparr>"

lemma demo_split_lone: "lone_master (demo_split i peers) (demo_master i peers) (map (\<lambda>j. demo_self\<lparr>node_id := j\<rparr>) [''1'', ''2'', ''3'', ''4'', ''5''])"
  "IsAllowedMasterNode (rm_conf (demo_split i peers)) j"
  by (simp_all add: lone_master_def demo_split_def demo_master_def GetAllNode_def GetMyselfNode_def demo_nodes_def demo_self_def TCP_LISTEN_PORT_def
      demo_start_def RoleMgr_new_def Let_def IsAllowedMasterNode_def GetElectionCandidateNodesFromConf_def ElectionConfig_new_def)


section \<open>Peers\<close>

definition missed :: "u32 \<Rightarrow> BroadcastStatus \<Rightarrow> BroadcastStatus" where
  \<comment> \<open>what an unanswered heartbeat does to the record of a peer\<close>
  "missed lost b =
     (let b1 = b\<lparr>heartBeatLossCnt := heartBeatLossCnt b + 1\<rparr>
      in if heartBeatLossCnt b1 > lost
         then b1\<lparr>activeStatus := LOST, masterOnlineBcStatus := NOT_BROADCAST, masterOnlineBcTimes := 0\<rparr> else b1)"

lemma map_of_put_any: "map_of (om_put k v m) = (map_of m)(k \<mapsto> v)"
  by (induction k v m rule: om_put.induct) auto

lemma bc_get_upd: "bc_get j (bc_upd i f m) = (if j = i then f (bc_get i m) else bc_get j m)"
  by (simp add: bc_get_def bc_upd_def map_of_put_any)

lemma bc_get_DealHbCnt: "bc_get j (DealHbCnt lost i m) = (if j = i then missed lost (bc_get i m) else bc_get j m)"
  unfolding DealHbCnt_def bc_get_upd missed_def ..

lemma heart_loop_records:
  assumes "distinct is"
  shows "map fst (fst (heart_loop lost (\<lambda>i m. m) pkt is m)) = is" (is ?dests)
    and "bc_get j (snd (heart_loop lost (\<lambda>i m. m) pkt is m)) = (if j \<in> set is then missed lost (bc_get j m) else bc_get j m)" (is ?rec)
proof -
  have "?dests \<and> ?rec"
    using assms
  proof (induction "is" arbitrary: pkt m)
    case (Cons i "is")
    let ?m = "DealHbCnt lost i (bc_upd i (\<lambda>b. b) m)"
    have g: "bc_get k ?m = (if k = i then missed lost (bc_get i m) else bc_get k m)" for k
      by (simp add: bc_get_DealHbCnt bc_get_upd)
    from Cons show ?case by (auto simp: Let_def case_prod_beta' g)
  qed simp
  then show ?dests ?rec by simp_all
qed

lemma missed_step:
  "unat (heartBeatLossCnt b + 1) = Suc n \<Longrightarrow> unat (heartBeatLossCnt (missed lost b)) = Suc n \<and>
     (activeStatus (missed lost b) = ACTIVE \<longleftrightarrow> activeStatus b = ACTIVE \<and> Suc n \<le> unat lost)"
  by (simp add: missed_def Let_def word_less_nat_alt not_less)

lemma missed_run:
  assumes "n < 2 ^ 32" and "heartBeatLossCnt b = 0" and "activeStatus b = ACTIVE"
  shows "unat (heartBeatLossCnt ((missed lost ^^ n) b)) = n \<and> (activeStatus ((missed lost ^^ n) b) = ACTIVE \<longleftrightarrow> n \<le> unat lost)"
  using assms(1)
proof (induction n)
  case (Suc n)
  let ?b = "(missed lost ^^ n) b"
  have IH: "unat (heartBeatLossCnt ?b) = n" "activeStatus ?b = ACTIVE \<longleftrightarrow> n \<le> unat lost" using Suc by simp_all
  have "unat (heartBeatLossCnt ?b + 1) = Suc n" using Suc.prems IH(1) by (simp add: unat_word_ariths)
  from missed_step [OF this, of lost] show ?case using IH(2) by auto
qed (use assms in auto)

text \<open>
  C24: A silent peer is given up after exactly the loss threshold. In a run of heartbeat rounds to
  the same connected nodes in which no reply arrives, every packet goes out once per round, and
  a peer that was active and had nothing outstanding counts as active after \<open>n\<close> rounds exactly if
  \<open>n\<close> does not exceed the threshold.
\<close>

theorem silent_peer_lost:
  assumes "distinct is" and "j \<in> set is" and "n < 2 ^ 32"
    and "heartBeatLossCnt (bc_get j m) = 0" and "activeStatus (bc_get j m) = ACTIVE"
  shows "map fst (fst (heart_loop lost (\<lambda>i m. m) pkt is m)) = is \<and>
    (activeStatus (bc_get j (((\<lambda>m. snd (heart_loop lost (\<lambda>i m. m) pkt is m)) ^^ n) m)) = ACTIVE \<longleftrightarrow> n \<le> unat lost)"
proof -
  have "bc_get j (((\<lambda>m. snd (heart_loop lost (\<lambda>i m. m) pkt is m)) ^^ n) m) = (missed lost ^^ n) (bc_get j m)"
    using heart_loop_records(2) [OF assms(1)] assms(2) by (induction n) auto
  then show ?thesis
    using missed_run [OF assms(3-5), of lost] heart_loop_records(1) [OF assms(1)] by simp
qed

theorem silent_peer_lost_witness:
  "activeStatus (bc_get ''2'' (((\<lambda>m. snd (heart_loop 3 (\<lambda>i m. m) demo_heart [''2''] m)) ^^ 4) (demo_master ''1'' [''2'']))) = LOST"
proof -
  have b: "heartBeatLossCnt (bc_get ''2'' (demo_master ''1'' [''2''])) = 0" "activeStatus (bc_get ''2'' (demo_master ''1'' [''2''])) = ACTIVE"
    by (simp_all add: bc_get_def demo_master_def BroadcastStatus_Default_def)
  have "activeStatus (bc_get ''2'' (((\<lambda>m. snd (heart_loop 3 (\<lambda>i m. m) demo_heart [''2''] m)) ^^ 4) (demo_master ''1'' [''2'']))) \<noteq> ACTIVE"
    using silent_peer_lost [of "[''2'']" "''2''" 4 "demo_master ''1'' [''2'']" 3 demo_heart] b by simp
  then show ?thesis using HeartBeatState.exhaust by blast
qed



text \<open>
  Who becomes the standby. A master without a standby appoints the active peer with the
  smallest identifier, other than itself, and reports it; without such a peer it stays without.
\<close>

theorem standby_least:
  assumes "ma_standbyId m = INVALID_NODE_ID" and "[] \<notin> set (GetActiveNodes m)"
  shows "let s = ma_standbyId (snd (AppointStandby m)); peers = set (GetActiveNodes m) - {ma_masterId m}
    in if peers = {} then s = INVALID_NODE_ID \<and> fst (AppointStandby m) = []
       else s \<in> peers \<and> (\<forall>i \<in> peers. s \<le> i) \<and> fst (AppointStandby m) = [(CHANGE_SWITCH_TO_STANDBY, s)]"
proof -
  have set: "{i \<in> set (GetActiveNodes m). i \<noteq> ma_masterId m} = set (GetActiveNodes m) - {ma_masterId m}" by auto
  show ?thesis
    using least_id_spec [OF assms(2), of "[]" "\<lambda>i. i \<noteq> ma_masterId m"] assms
    by (auto simp: AppointStandby_def FindSmallestIdExcludingMaster_def INVALID_NODE_ID_def Let_def set split: if_splits)
qed

theorem standby_least_witness:
  "ma_standbyId (snd (AppointStandby (demo_master ''1'' [''1'', ''2'', ''3'']))) = ''2''"
proof -
  have m: "ma_standbyId (demo_master ''1'' [''1'', ''2'', ''3'']) = INVALID_NODE_ID" "ma_masterId (demo_master ''1'' [''1'', ''2'', ''3'']) = ''1''"
    "GetActiveNodes (demo_master ''1'' [''1'', ''2'', ''3'']) = [''1'', ''2'', ''3'']"
    by (simp_all add: demo_master_def GetActiveNodes_def INVALID_NODE_ID_def)
  have "\<not> ''3'' \<le> (''2'' :: string)" by (simp add: less_eq_char_def)
  then show ?thesis
    using standby_least [OF m(1)] by (auto simp: m Let_def insert_Diff_if)
qed

end
