(* ===== verification/ElectionHandlers.thy ===== *)
theory ElectionHandlers
  imports ElectionProps
begin

text \<open>
  The registry of role-change handlers (\<open>RoleChangeAttach\<close>, \<open>RoleChangeDeAttach\<close>,
  \<open>RoleChangeNotify\<close> and the checks of \<open>ubse_election.cpp\<close> in front of them). The manager owns the
  handler objects in one list, \<open>active_handlers_\<close>; the lists per event hold weak references to them.
  An object is a serial number here; \<open>std::sort\<close> and the handler functions are parameters.
\<close>

section \<open>State and operations\<close>

datatype handler_error = UbseElectionOk | UbseElectionError | UbseElectionTypeError | UbseElectionHandlerError
  | UbseElectionNameError | UbseElectionDupNameError

datatype UbseElectionHandlerPriority = HIGH | MEDIUM | LOW

fun priority_num :: "UbseElectionHandlerPriority \<Rightarrow> nat" where
  "priority_num HIGH = 0"
| "priority_num MEDIUM = 1"
| "priority_num LOW = 2"

record handler =
  hn_name :: string
  hn_priority :: UbseElectionHandlerPriority
  hn_sequenceId :: int

record safe_handler =
  sf_object :: nat
  sf_name :: string
  sf_priority :: UbseElectionHandlerPriority
  sf_sequenceId :: int

record registry =
  rg_handlers :: "UbseElectionEventType \<Rightarrow> safe_handler list option"
  rg_active :: "(nat \<times> string) list"
  rg_next :: nat

definition registry_new :: registry where
  "registry_new = \<lparr>rg_handlers = Map.empty, rg_active = [], rg_next = 0\<rparr>"

definition handlers_of :: "UbseElectionEventType \<Rightarrow> registry \<Rightarrow> safe_handler list" where
  "handlers_of t rg = (case rg_handlers rg t of None \<Rightarrow> [] | Some hs \<Rightarrow> hs)"

definition runs_before :: "safe_handler \<Rightarrow> safe_handler \<Rightarrow> bool" where
  "runs_before a b \<longleftrightarrow>
     (if sf_priority a \<noteq> sf_priority b then priority_num (sf_priority a) < priority_num (sf_priority b)
      else sf_sequenceId a < sf_sequenceId b)"

type_synonym sorter = "(safe_handler \<Rightarrow> safe_handler \<Rightarrow> bool) \<Rightarrow> safe_handler list \<Rightarrow> safe_handler list"

definition RoleChangeAttach :: "sorter \<Rightarrow> UbseElectionEventType \<Rightarrow> handler \<Rightarrow> registry \<Rightarrow> handler_error \<times> registry" where
  "RoleChangeAttach srt t h rg =
     (let handlers = handlers_of t rg
      in if \<exists>s \<in> set handlers. sf_name s = hn_name h
         then (UbseElectionDupNameError, rg\<lparr>rg_handlers := (rg_handlers rg)(t \<mapsto> handlers)\<rparr>)
         else (UbseElectionOk, rg\<lparr>rg_active := rg_active rg @ [(rg_next rg, hn_name h)], rg_next := rg_next rg + 1,
           rg_handlers := (rg_handlers rg)(t \<mapsto> srt runs_before (handlers @ [\<lparr>sf_object = rg_next rg, sf_name = hn_name h,
             sf_priority = hn_priority h, sf_sequenceId = hn_sequenceId h\<rparr>]))\<rparr>))"

definition RoleChangeDeAttach :: "UbseElectionEventType \<Rightarrow> handler \<Rightarrow> registry \<Rightarrow> handler_error \<times> registry" where
  "RoleChangeDeAttach t h rg = (case rg_handlers rg t of
      None \<Rightarrow> (UbseElectionTypeError, rg)
    | Some handlers \<Rightarrow>
        if \<not> (\<exists>s \<in> set handlers. sf_name s = hn_name h) then (UbseElectionHandlerError, rg)
        else let kept = filter (\<lambda>s. sf_name s \<noteq> hn_name h) handlers
             in (if length kept \<noteq> length handlers then UbseElectionOk else UbseElectionHandlerError,
                 rg\<lparr>rg_active := filter (\<lambda>(n, name). name \<noteq> hn_name h) (rg_active rg),
                    rg_handlers := (rg_handlers rg)(t \<mapsto> kept)\<rparr>))"

definition ELECTION_HANDLER_NAME_MAX_SIZE :: nat where "ELECTION_HANDLER_NAME_MAX_SIZE = 128"

definition UbseElectionChangeAttachHandler :: "sorter \<Rightarrow> UbseElectionEventType \<Rightarrow> handler \<Rightarrow> registry \<Rightarrow> handler_error \<times> registry" where
  \<comment> \<open>every value of the type is a valid event type\<close>
  "UbseElectionChangeAttachHandler srt t h rg =
     (if length (hn_name h) > ELECTION_HANDLER_NAME_MAX_SIZE \<or> length (hn_name h) \<le> 0 then (UbseElectionNameError, rg)
      else RoleChangeAttach srt t h rg)"

definition alive :: "registry \<Rightarrow> safe_handler \<Rightarrow> bool" where
  \<comment> \<open>\<open>weak_handler.lock()\<close>\<close>
  "alive rg s \<longleftrightarrow> sf_object s \<in> fst ` set (rg_active rg)"

type_synonym handler_call = "nat \<Rightarrow> UbseElectionEventType \<Rightarrow> NodeId \<Rightarrow> handler_error"

fun notify_loop :: "handler_call \<Rightarrow> registry \<Rightarrow> UbseElectionEventType \<Rightarrow> NodeId \<Rightarrow> safe_handler list \<Rightarrow> handler_error \<Rightarrow>
    handler_error \<times> nat list" where
  \<comment> \<open>the result so far, and the handlers called\<close>
  "notify_loop call rg t newId [] ret = (ret, [])"
| "notify_loop call rg t newId (s # ss) ret =
     (if \<not> alive rg s then notify_loop call rg t newId ss ret
      else let ret' = call (sf_object s) t newId
           in if ret' = UbseElectionError \<and> t = CHANGE_TO_SWITCHOVER then (ret', [sf_object s])
              else case notify_loop call rg t newId ss ret' of (r, called) \<Rightarrow> (r, sf_object s # called))"

definition RoleChangeNotify :: "handler_call \<Rightarrow> registry \<Rightarrow> UbseElectionEventType \<Rightarrow> NodeId \<Rightarrow> u8 \<Rightarrow> handler_error \<times> nat list \<times> u8" where
  \<comment> \<open>the last argument is the work readiness\<close>
  "RoleChangeNotify call rg t newId readiness =
     (case notify_loop call rg t newId (handlers_of t rg) UbseElectionOk of (ret, called) \<Rightarrow>
        (ret, called, if ret = UbseElectionOk then IS_READY else readiness))"

section \<open>The registry over time\<close>

definition registry_ok :: "registry \<Rightarrow> bool" where
  "registry_ok rg \<longleftrightarrow> distinct (map fst (rg_active rg)) \<and> (\<forall>n \<in> fst ` set (rg_active rg). n < rg_next rg) \<and>
     (\<forall>t. distinct (map sf_name (handlers_of t rg)) \<and> sorted_wrt (\<lambda>a b. \<not> runs_before b a) (handlers_of t rg) \<and>
        (\<forall>s \<in> set (handlers_of t rg). sf_object s < rg_next rg \<and> (\<forall>name. (sf_object s, name) \<in> set (rg_active rg) \<longrightarrow> name = sf_name s)))"

lemma priority_num_inj: "priority_num p = priority_num q \<Longrightarrow> p = q"
  by (cases p; cases q) simp_all

lemma runs_before_weak: "strict_weak runs_before"
  unfolding strict_weak_def runs_before_def using priority_num_inj by (auto split: if_splits simp: not_less)

inductive registry_step :: "registry \<Rightarrow> registry \<Rightarrow> bool" where
  attached: "std_sort srt \<Longrightarrow> registry_step rg (snd (UbseElectionChangeAttachHandler srt t h rg))"
| detached: "registry_step rg (snd (RoleChangeDeAttach t h rg))"

lemma handlers_of_put [simp]: "handlers_of t' (rg\<lparr>rg_handlers := (rg_handlers rg)(t \<mapsto> hs)\<rparr>) = (if t' = t then hs else handlers_of t' rg)"
  by (simp add: handlers_of_def)

lemma registry_ok_attach:
  assumes srt: "std_sort srt" and ok: "registry_ok rg"
  shows "registry_ok (snd (RoleChangeAttach srt t h rg))"
proof (cases "\<exists>s \<in> set (handlers_of t rg). sf_name s = hn_name h")
  case True
  then have "snd (RoleChangeAttach srt t h rg) = rg\<lparr>rg_handlers := (rg_handlers rg)(t \<mapsto> handlers_of t rg)\<rparr>"
    by (simp add: RoleChangeAttach_def Let_def)
  then show ?thesis using ok by (simp add: registry_ok_def)
next
  case False
  define new where "new = \<lparr>sf_object = rg_next rg, sf_name = hn_name h, sf_priority = hn_priority h, sf_sequenceId = hn_sequenceId h\<rparr>"
  define rg' where "rg' = rg\<lparr>rg_active := rg_active rg @ [(rg_next rg, hn_name h)], rg_next := rg_next rg + 1,
    rg_handlers := (rg_handlers rg)(t \<mapsto> srt runs_before (handlers_of t rg @ [new]))\<rparr>"
  have r: "snd (RoleChangeAttach srt t h rg) = rg'" using False by (simp add: RoleChangeAttach_def Let_def rg'_def new_def)
  have hs: "handlers_of t' rg' = (if t' = t then srt runs_before (handlers_of t rg @ [new]) else handlers_of t' rg)" for t'
    by (simp add: rg'_def handlers_of_def)
  have set: "set (srt runs_before xs) = set xs" for xs by (rule std_sort.set_srt [OF srt runs_before_weak])
  have "distinct (map sf_name (handlers_of t rg @ [new]))" using ok False by (auto simp: registry_ok_def new_def)
  moreover have "mset (map sf_name (srt runs_before (handlers_of t rg @ [new]))) = mset (map sf_name (handlers_of t rg @ [new]))"
    by (simp only: mset_map std_sort.srt_perm [OF srt runs_before_weak])
  ultimately have "distinct (map sf_name (srt runs_before (handlers_of t rg @ [new])))" using mset_eq_imp_distinct_iff by blast
  then have names: "distinct (map sf_name (handlers_of t' rg'))" for t' using ok by (simp add: hs registry_ok_def)
  have sorted: "sorted_wrt (\<lambda>a b. \<not> runs_before b a) (handlers_of t' rg')" for t'
    using ok std_sort.srt_ordered [OF srt runs_before_weak] by (simp add: hs registry_ok_def)
  have old: "sf_object s < rg_next rg \<and> (\<forall>name. (sf_object s, name) \<in> set (rg_active rg) \<longrightarrow> name = sf_name s)"
    if "s \<in> set (handlers_of t' rg)" for s t'
    using ok that by (simp add: registry_ok_def)
  have lt: "n < rg_next rg" if "(n, name) \<in> set (rg_active rg)" for n name
    using ok that by (force simp: registry_ok_def)
  have obj: "sf_object s < rg_next rg' \<and> (\<forall>name. (sf_object s, name) \<in> set (rg_active rg') \<longrightarrow> name = sf_name s)"
    if "s \<in> set (handlers_of t' rg')" for s t'
  proof -
    have "s = new \<or> s \<in> set (handlers_of t' rg)" using that by (auto simp: hs set split: if_splits)
    then show ?thesis using old [of s t'] by (auto simp: rg'_def new_def dest: lt)
  qed
  have "distinct (map fst (rg_active rg'))" "\<forall>n \<in> fst ` set (rg_active rg'). n < rg_next rg'"
    using ok by (auto simp: registry_ok_def rg'_def)
  with names sorted obj show ?thesis by (simp add: r registry_ok_def)
qed

lemma registry_ok_detach:
  assumes ok: "registry_ok rg"
  shows "registry_ok (snd (RoleChangeDeAttach t h rg))"
proof (cases "rg_handlers rg t")
  case (Some handlers)
  let ?rg = "rg\<lparr>rg_active := filter (\<lambda>(n, name). name \<noteq> hn_name h) (rg_active rg),
    rg_handlers := (rg_handlers rg)(t \<mapsto> filter (\<lambda>s. sf_name s \<noteq> hn_name h) handlers)\<rparr>"
  have hs: "handlers_of t' ?rg = (if t' = t then filter (\<lambda>s. sf_name s \<noteq> hn_name h) handlers else handlers_of t' rg)" for t'
    by (simp add: handlers_of_def)
  have h: "handlers = handlers_of t rg" by (simp add: handlers_of_def Some)
  have "distinct (map sf_name (handlers_of t' ?rg)) \<and> sorted_wrt (\<lambda>a b. \<not> runs_before b a) (handlers_of t' ?rg) \<and>
      (\<forall>s \<in> set (handlers_of t' ?rg). sf_object s < rg_next ?rg \<and> (\<forall>name. (sf_object s, name) \<in> set (rg_active ?rg) \<longrightarrow> name = sf_name s))" for t'
  proof -
    have "distinct (map sf_name (handlers_of t' rg))" "sorted_wrt (\<lambda>a b. \<not> runs_before b a) (handlers_of t' rg)"
      "\<forall>s \<in> set (handlers_of t' rg). sf_object s < rg_next rg \<and> (\<forall>name. (sf_object s, name) \<in> set (rg_active rg) \<longrightarrow> name = sf_name s)"
      using ok by (simp_all add: registry_ok_def)
    then show ?thesis unfolding hs by (auto simp: h distinct_map_filter sorted_wrt_filter)
  qed
  moreover have "distinct (map fst (rg_active ?rg))" "\<forall>n \<in> fst ` set (rg_active ?rg). n < rg_next ?rg"
    using ok by (auto simp: registry_ok_def distinct_map_filter)
  ultimately have "registry_ok ?rg" unfolding registry_ok_def by blast
  then show ?thesis using ok Some by (simp add: RoleChangeDeAttach_def Let_def)
qed (use ok in \<open>simp add: RoleChangeDeAttach_def\<close>)

lemma registry_ok_run: "registry_step\<^sup>*\<^sup>* registry_new rg \<Longrightarrow> registry_ok rg"
proof (induction rule: rtranclp_induct)
  case base
  then show ?case by (simp add: registry_ok_def registry_new_def handlers_of_def)
next
  case (step rg1 rg2)
  from step(2,3) show ?case
    by (induction rule: registry_step.induct)
      (auto simp: UbseElectionChangeAttachHandler_def intro: registry_ok_attach registry_ok_detach)
qed

lemma notify_all: "t \<noteq> CHANGE_TO_SWITCHOVER \<Longrightarrow> snd (notify_loop call rg t i ss ret) = map sf_object (filter (alive rg) ss)"
  by (induction ss arbitrary: ret) (auto simp: Let_def case_prod_beta')


definition demo_handler :: "string \<Rightarrow> UbseElectionHandlerPriority \<Rightarrow> handler" where
  "demo_handler name p = \<lparr>hn_name = name, hn_priority = p, hn_sequenceId = 0\<rparr>"

definition demo_attach :: "UbseElectionEventType \<Rightarrow> handler \<Rightarrow> registry \<Rightarrow> registry" where
  "demo_attach t h rg = snd (UbseElectionChangeAttachHandler isort_by t h rg)"

definition demo_registry :: registry where
  "demo_registry = demo_attach CHANGE_TO_STANDBY (demo_handler ''node'' LOW) (demo_attach CHANGE_TO_STANDBY (demo_handler ''mem'' HIGH)
     (demo_attach CHANGE_TO_MASTER (demo_handler ''node'' LOW) registry_new))"

lemma demo_registry_run: "registry_step\<^sup>*\<^sup>* registry_new demo_registry"
proof -
  have "registry_step rg (demo_attach t h rg)" for t h rg
    unfolding demo_attach_def by (rule registry_step.attached) (rule isort.std_sort_axioms)
  then show ?thesis
    unfolding demo_registry_def by (intro rtranclp.rtrancl_into_rtrancl [OF rtranclp.rtrancl_into_rtrancl [OF r_into_rtranclp]])
qed

lemma demo_registry_value:
  "handlers_of CHANGE_TO_STANDBY demo_registry = [\<lparr>sf_object = 1, sf_name = ''mem'', sf_priority = HIGH, sf_sequenceId = 0\<rparr>,
     \<lparr>sf_object = 2, sf_name = ''node'', sf_priority = LOW, sf_sequenceId = 0\<rparr>]"
  "rg_active demo_registry = [(0, ''node''), (1, ''mem''), (2, ''node'')]"
  "rg_handlers demo_registry CHANGE_TO_MASTER = Some [\<lparr>sf_object = 0, sf_name = ''node'', sf_priority = LOW, sf_sequenceId = 0\<rparr>]"
  by (simp_all add: demo_registry_def demo_attach_def UbseElectionChangeAttachHandler_def RoleChangeAttach_def demo_handler_def
      registry_new_def handlers_of_def ELECTION_HANDLER_NAME_MAX_SIZE_def isort_by_def runs_before_def)


text \<open>
  C25: Detaching silences the other events. The manager drops every object with the detached
  handler's name, not only the one of the event: afterwards no handler of that name, of whatever
  event, is alive, so no notification calls it any more, while its entry stays in the list of the
  event and makes attaching it again fail as a duplicate.
\<close>

theorem detach_silences_name:
  assumes "registry_step\<^sup>*\<^sup>* registry_new rg" and "RoleChangeDeAttach t h rg = (UbseElectionOk, rg')"
    and "s \<in> set (handlers_of t' rg)" and "t' \<noteq> t" and "sf_name s = hn_name h"
  shows "s \<in> set (handlers_of t' rg') \<and> \<not> alive rg' s \<and> fst (RoleChangeAttach srt t' h rg') = UbseElectionDupNameError"
proof -
  obtain handlers where "rg_handlers rg t = Some handlers" and
    rg': "rg' = rg\<lparr>rg_active := filter (\<lambda>(n, name). name \<noteq> hn_name h) (rg_active rg),
      rg_handlers := (rg_handlers rg)(t \<mapsto> filter (\<lambda>s. sf_name s \<noteq> hn_name h) handlers)\<rparr>"
    using assms(2) by (auto simp: RoleChangeDeAttach_def Let_def split: option.splits if_splits)
  have s: "s \<in> set (handlers_of t' rg')" using assms(3,4) by (simp add: rg' handlers_of_def)
  have "\<not> alive rg' s"
    using registry_ok_run [OF assms(1)] assms(3,5) by (fastforce simp: rg' alive_def registry_ok_def)
  with s assms(5) show ?thesis by (auto simp: RoleChangeAttach_def Let_def)
qed

theorem detach_silences_name_witness:
  "\<exists>rg'. RoleChangeDeAttach CHANGE_TO_MASTER (demo_handler ''node'' LOW) demo_registry = (UbseElectionOk, rg') \<and>
     fst (RoleChangeAttach isort_by CHANGE_TO_STANDBY (demo_handler ''node'' LOW) rg') = UbseElectionDupNameError"
proof -
  obtain rg' where d: "RoleChangeDeAttach CHANGE_TO_MASTER (demo_handler ''node'' LOW) demo_registry = (UbseElectionOk, rg')"
    by (simp add: RoleChangeDeAttach_def demo_registry_value demo_handler_def)
  have "\<lparr>sf_object = 2, sf_name = ''node'', sf_priority = LOW, sf_sequenceId = 0\<rparr> \<in> set (handlers_of CHANGE_TO_STANDBY demo_registry)"
    by (simp add: demo_registry_value)
  from detach_silences_name [OF demo_registry_run d this, of isort_by] d show ?thesis by (simp add: demo_handler_def)
qed

end
