(* ===== verification/SerialUtil.thy ===== *)
theory SerialUtil
  imports Prelude "HOL-Library.Monad_Syntax"
begin

text \<open>
  The serialiser and deserialiser of \<open>framework/serde/\<close>. A buffer is the list of the bytes that were
  allocated for it, \<open>None\<close> the null pointer; an object of a C++ type is its bytes. Reading or writing
  outside the allocated bytes, or through a null pointer, is undefined behaviour: the operation is
  \<open>None\<close> then, and also when the capacity loop does not end. \<open>alloc n\<close> tells whether
  \<open>new (std::nothrow)\<close> finds \<open>n\<close> bytes. Integers are little-endian and \<open>long\<close> has eight bytes, as on
  the platforms the engine runs on; a serialiser is not nested into itself.
\<close>

unbundle bit_operations_syntax

section \<open>Type identifiers (\<open>ubse_type_util.cpp\<close>)\<close>

datatype ctype =
    C_char | C_bool | C_short | C_int | C_long | C_long_long | C_signed_char | C_float | C_double
  | C_unsigned_char | C_unsigned_short | C_unsigned_int | C_unsigned_long | C_unsigned_long_long
  | C_wchar_t | C_char16_t | C_char32_t

fun sizeof :: "ctype \<Rightarrow> nat" where
  "sizeof C_char = 1" | "sizeof C_bool = 1" | "sizeof C_short = 2" | "sizeof C_int = 4" | "sizeof C_long = 8"
| "sizeof C_long_long = 8" | "sizeof C_signed_char = 1" | "sizeof C_float = 4" | "sizeof C_double = 8"
| "sizeof C_unsigned_char = 1" | "sizeof C_unsigned_short = 2" | "sizeof C_unsigned_int = 4"
| "sizeof C_unsigned_long = 8" | "sizeof C_unsigned_long_long = 8" | "sizeof C_wchar_t = 4" | "sizeof C_char16_t = 2"
| "sizeof C_char32_t = 4"

fun GetTypeId :: "ctype \<Rightarrow> u8" where
  "GetTypeId C_char = 0" | "GetTypeId C_bool = 1" | "GetTypeId C_short = 2" | "GetTypeId C_int = 3" | "GetTypeId C_long = 4"
| "GetTypeId C_long_long = 5" | "GetTypeId C_signed_char = 6" | "GetTypeId C_float = 7" | "GetTypeId C_double = 8"
| "GetTypeId C_unsigned_char = 9" | "GetTypeId C_unsigned_short = 10" | "GetTypeId C_unsigned_int = 11"
| "GetTypeId C_unsigned_long = 12" | "GetTypeId C_unsigned_long_long = 13" | "GetTypeId C_wchar_t = 14"
| "GetTypeId C_char16_t = 15" | "GetTypeId C_char32_t = 16"

fun GetTypePointerId :: "ctype \<Rightarrow> u8" where
  "GetTypePointerId C_short = 17" | "GetTypePointerId C_int = 18" | "GetTypePointerId C_long = 19"
| "GetTypePointerId C_long_long = 20" | "GetTypePointerId C_unsigned_short = 21" | "GetTypePointerId C_unsigned_int = 22"
| "GetTypePointerId C_unsigned_long = 23" | "GetTypePointerId C_unsigned_long_long = 24" | "GetTypePointerId C_char = 25"
| "GetTypePointerId C_signed_char = 26" | "GetTypePointerId C_unsigned_char = 27" | "GetTypePointerId C_wchar_t = 28"
| "GetTypePointerId C_char16_t = 29" | "GetTypePointerId C_char32_t = 30" | "GetTypePointerId C_bool = 31"
| "GetTypePointerId C_float = 32" | "GetTypePointerId C_double = 33"

definition STRING_ID :: u8 where "STRING_ID = 34"         \<comment> \<open>\<open>GetTypePointerId<std::string>\<close>\<close>
definition BIT_REFERENCE_ID :: u8 where "BIT_REFERENCE_ID = 35"  \<comment> \<open>\<open>GetTypePointerId<std::_Bit_reference>\<close>\<close>
definition ARRAY_CTRL_CODE :: u8 where "ARRAY_CTRL_CODE = 65"
definition NEST_CTRL_CODE :: u8 where "NEST_CTRL_CODE = 66"
definition HEAD_CTRL_CODE :: u8 where "HEAD_CTRL_CODE = 255"

section \<open>Bytes\<close>

fun le_bytes :: "nat \<Rightarrow> nat \<Rightarrow> u8 list" where
  "le_bytes 0 v = []"
| "le_bytes (Suc n) v = of_nat v # le_bytes n (v div 256)"

fun le_nat :: "u8 list \<Rightarrow> nat" where
  "le_nat [] = 0"
| "le_nat (b # bs) = unat b + 256 * le_nat bs"

definition load :: "u8 list option \<Rightarrow> nat \<Rightarrow> nat \<Rightarrow> u8 list option" where
  \<comment> \<open>\<open>n\<close> bytes at an offset\<close>
  "load buf off n = (case buf of None \<Rightarrow> None | Some bs \<Rightarrow> if off + n \<le> length bs then Some (take n (drop off bs)) else None)"

definition store :: "nat \<Rightarrow> u8 list \<Rightarrow> u8 list option \<Rightarrow> u8 list option option" where
  "store off xs buf = (case buf of None \<Rightarrow> None
    | Some bs \<Rightarrow> if off + length xs \<le> length bs then Some (Some (take off bs @ xs @ drop (off + length xs) bs)) else None)"

definition memcpy_s :: "u8 list option \<Rightarrow> nat \<Rightarrow> u64 \<Rightarrow> u8 list option \<Rightarrow> u64 \<Rightarrow> (bool \<times> u8 list option) option" where
  \<comment> \<open>the documented behaviour of the bounds-checking library: an invalid call zeroes the destination\<close>
  "memcpy_s dest off destMax src n =
     (if destMax = 0 \<or> destMax > 0x7fffffff then Some (False, dest)
      else case src of
          None \<Rightarrow> map_option (Pair False) (store off (replicate (unat destMax) 0) dest)
        | Some bs \<Rightarrow>
            if n > destMax then map_option (Pair False) (store off (replicate (unat destMax) 0) dest)
            else if unat n > length bs then None
            else map_option (Pair True) (store off (take (unat n) bs) dest))"

section \<open>Heads of blocks\<close>

definition LEN_CTRL_OFFSET :: nat where "LEN_CTRL_OFFSET = 24"
definition LEN_CTRL_MASK :: u32 where "LEN_CTRL_MASK = push_bit LEN_CTRL_OFFSET 1 - 1"
definition INIT_CAPACITY :: u64 where "INIT_CAPACITY = 256"
definition MAX_CAPACITY :: u64 where "MAX_CAPACITY = push_bit LEN_CTRL_OFFSET 1"
definition ONCE_LIMIT_LEN :: u64 where "ONCE_LIMIT_LEN = drop_bit 8 MAX_CAPACITY"

definition head_of :: "u8 \<Rightarrow> u32 \<Rightarrow> u32" where
  \<comment> \<open>\<open>writeTypeAndLen\<close>\<close>
  "head_of t len = push_bit LEN_CTRL_OFFSET (ucast t) OR len"

definition len_of_head :: "u8 \<Rightarrow> u32 \<Rightarrow> u32 option" where
  \<comment> \<open>\<open>readLenByType\<close>\<close>
  "len_of_head t head = (if ucast (drop_bit LEN_CTRL_OFFSET head) = t then Some (head AND LEN_CTRL_MASK) else None)"

definition align_to :: "u64 \<Rightarrow> u64 \<Rightarrow> u64" where
  "align_to alignOffset l = (l + alignOffset) AND NOT alignOffset"

definition isValidAlign :: "u32 \<Rightarrow> bool" where
  "isValidAlign a \<longleftrightarrow> a = 1 \<or> a = 2 \<or> a = 4 \<or> a = 8"

section \<open>The serialiser\<close>

record serializer =
  se_buf :: "u8 list option"
  se_alignOffset :: u64
  se_len :: u64
  se_cap :: u64
  se_flag :: bool

abbreviation se_align :: "serializer \<Rightarrow> u64 \<Rightarrow> u64" where
  "se_align s \<equiv> align_to (se_alignOffset s)"

definition se_fail :: "serializer \<Rightarrow> serializer" where
  "se_fail s = s\<lparr>se_flag := False\<rparr>"

definition new_buffer :: "(u64 \<Rightarrow> bool) \<Rightarrow> serializer \<Rightarrow> serializer" where
  "new_buffer alloc s = (if alloc (se_cap s) then s\<lparr>se_buf := Some (replicate (unat (se_cap s)) 0)\<rparr> else se_fail s)"

definition UbseSerialization_new :: "(u64 \<Rightarrow> bool) \<Rightarrow> serializer" where
  "UbseSerialization_new alloc =
     (let off = 4 - 1; len = align_to off (4 * 3)
      in new_buffer alloc \<lparr>se_buf = None, se_alignOffset = off, se_len = len, se_cap = max (align_to off INIT_CAPACITY) len,
           se_flag = True\<rparr>)"

definition UbseSerialization_align :: "(u64 \<Rightarrow> bool) \<Rightarrow> u32 \<Rightarrow> serializer" where
  \<comment> \<open>\<open>UbseSerialization(ALIGN_BASE)\<close>\<close>
  "UbseSerialization_align alloc a =
     (let off = ucast a - 1; len = align_to off (4 * 3);
          s = \<lparr>se_buf = None, se_alignOffset = off, se_len = len, se_cap = max (align_to off INIT_CAPACITY) len, se_flag = True\<rparr>
      in if \<not> isValidAlign a then se_fail s else new_buffer alloc s)"

definition UbseSerialization_cap :: "(u64 \<Rightarrow> bool) \<Rightarrow> u64 \<Rightarrow> u32 \<Rightarrow> serializer" where
  \<comment> \<open>\<open>UbseSerialization(common_len, ALIGN_BASE)\<close>\<close>
  "UbseSerialization_cap alloc cap a =
     (let off = ucast a - 1; len = align_to off (4 * 3);
          s = \<lparr>se_buf = None, se_alignOffset = off, se_len = len, se_cap = align_to off cap + len, se_flag = True\<rparr>
      in if \<not> isValidAlign a then se_fail s
         else if se_cap s \<ge> MAX_CAPACITY then se_fail s
         else new_buffer alloc s)"

definition se_move :: "serializer \<Rightarrow> serializer \<times> serializer" where
  \<comment> \<open>the move constructor: the new object, and what is left of the other\<close>
  "se_move other = (other, other\<lparr>se_buf := None, se_len := 0, se_flag := True\<rparr>)"

definition SetCode :: "nat \<Rightarrow> u32 \<Rightarrow> u8 list option \<Rightarrow> u8 list option option" where
  "SetCode idx v buf = store (idx * 4) (le_bytes 4 (unat v)) buf"

definition GetBuffer :: "bool \<Rightarrow> serializer \<Rightarrow> (u8 list option \<times> serializer) option" where
  "GetBuffer bGetCtrl s = (case se_buf s of
      None \<Rightarrow> Some (None, s)
    | Some _ \<Rightarrow> do {
        b1 \<leftarrow> SetCode 0 (ucast HEAD_CTRL_CODE) (se_buf s);
        b2 \<leftarrow> SetCode 1 (ucast (se_alignOffset s)) b1;
        b3 \<leftarrow> SetCode 2 (ucast (se_len s)) b2;
        Some (b3, if bGetCtrl then s\<lparr>se_flag := False, se_buf := None\<rparr> else s\<lparr>se_buf := b3\<rparr>)})"

partial_function (option) grow :: "u64 \<Rightarrow> u64 \<Rightarrow> u64 option" where
  \<comment> \<open>the loop of \<open>expandCapacity\<close>\<close>
  "grow need cap =
     (if cap < need then grow need (if push_bit 1 cap \<ge> MAX_CAPACITY then MAX_CAPACITY - 1 else push_bit 1 cap)
      else Some cap)"

declare grow.simps [code]

definition expandCapacity :: "(u64 \<Rightarrow> bool) \<Rightarrow> u64 \<Rightarrow> serializer \<Rightarrow> (bool \<times> serializer) option" where
  "expandCapacity alloc len s =
     (if se_len s + len \<ge> MAX_CAPACITY then Some (False, se_fail s)
      else do {
        cap \<leftarrow> grow (se_len s + len) (se_cap s);
        if \<not> se_cap s < se_len s + len then Some (True, s)
        else if \<not> alloc cap then Some (False, se_fail (s\<lparr>se_cap := cap\<rparr>))
        else do {
          (ok, newBuf) \<leftarrow> memcpy_s (Some (replicate (unat cap) 0)) 0 cap (se_buf s) (se_len s);
          Some (if ok then (True, s\<lparr>se_cap := cap, se_buf := newBuf\<rparr>) else (False, se_fail (s\<lparr>se_cap := cap\<rparr>)))}})"

definition put_head :: "u8 \<Rightarrow> u32 \<Rightarrow> serializer \<Rightarrow> serializer option" where
  \<comment> \<open>\<open>writeTypeAndLen(mBuf_ + mLen_, ..)\<close> and \<open>mLen_ += alignedHeadLen\<close>\<close>
  "put_head t len s = map_option (\<lambda>b. s\<lparr>se_buf := b, se_len := se_len s + se_align s 4\<rparr>)
     (store (unat (se_len s)) (le_bytes 4 (unat (head_of t len))) (se_buf s))"

definition put_base :: "(u64 \<Rightarrow> bool) \<Rightarrow> ctype \<Rightarrow> u8 list \<Rightarrow> serializer \<Rightarrow> serializer option" where
  \<comment> \<open>\<open>operator<<(const T&)\<close> for a basic type; the value is its \<open>sizeof T\<close> bytes\<close>
  "put_base alloc t param s =
     (if \<not> se_flag s then Some s
      else do {
        (ok, s1) \<leftarrow> expandCapacity alloc (se_align s 4 + se_align s (of_nat (sizeof t))) s;
        if \<not> ok then Some s1
        else do {
          s2 \<leftarrow> put_head (GetTypeId t) (of_nat (sizeof t)) s1;
          b \<leftarrow> store (unat (se_len s2)) param (se_buf s2);
          Some (s2\<lparr>se_buf := b, se_len := se_len s2 + se_align s (of_nat (sizeof t))\<rparr>)}})"

definition put_copy :: "u8 \<Rightarrow> u8 list option \<Rightarrow> u64 \<Rightarrow> serializer \<Rightarrow> serializer option" where
  \<comment> \<open>head and content of a block once there is room, as in \<open>add\<close> and in nesting\<close>
  "put_copy t addr len s = do {
     s1 \<leftarrow> put_head t (ucast len) s;
     (ok, b) \<leftarrow> memcpy_s (se_buf s1) (unat (se_len s1)) (se_cap s1 - se_len s1) addr len;
     Some (if ok then s1\<lparr>se_buf := b, se_len := se_len s1 + se_align s1 len\<rparr> else se_fail (s1\<lparr>se_buf := b\<rparr>))}"

definition se_add :: "(u64 \<Rightarrow> bool) \<Rightarrow> u8 list option \<Rightarrow> u64 \<Rightarrow> u8 \<Rightarrow> serializer \<Rightarrow> serializer option" where
  \<comment> \<open>\<open>add\<close>\<close>
  "se_add alloc addr len t s =
     (if \<not> se_flag s then Some s
      else if addr = None \<or> len = 0 \<or> len \<ge> ONCE_LIMIT_LEN - se_alignOffset s then Some (se_fail s)
      else do {
        (ok, s1) \<leftarrow> expandCapacity alloc (se_align s 4 + se_align s len) s;
        if \<not> ok then Some s1 else put_copy t addr len s1})"

definition put_array_len :: "(u64 \<Rightarrow> bool) \<Rightarrow> u64 \<Rightarrow> serializer \<Rightarrow> serializer option" where
  \<comment> \<open>\<open>operator<<(array_len_insert)\<close>\<close>
  "put_array_len alloc n s =
     (if \<not> se_flag s then Some s
      else if n \<ge> ONCE_LIMIT_LEN then Some (se_fail s)
      else do {
        (ok, s1) \<leftarrow> expandCapacity alloc (se_align s 4) s;
        if \<not> ok then Some s1 else put_head ARRAY_CTRL_CODE (ucast n) s1})"

definition bytes_of :: "string \<Rightarrow> u8 list" where "bytes_of str = map of_char str"
definition string_of :: "u8 list \<Rightarrow> string" where "string_of bs = map (\<lambda>b. char_of (unat b)) bs"

definition put_string :: "(u64 \<Rightarrow> bool) \<Rightarrow> string \<Rightarrow> serializer \<Rightarrow> serializer option" where
  "put_string alloc str s = se_add alloc (Some (bytes_of str @ [0])) (of_nat (length str) + 1) STRING_ID s"

definition put_c_str :: "(u64 \<Rightarrow> bool) \<Rightarrow> u8 list option \<Rightarrow> serializer \<Rightarrow> serializer option" where
  \<comment> \<open>\<open>operator<<(const char*)\<close>; the bytes before the terminating zero\<close>
  "put_c_str alloc str s = (case str of
      None \<Rightarrow> Some (se_fail s)
    | Some bs \<Rightarrow> se_add alloc (Some (bs @ [0])) (of_nat (length bs) + 1) STRING_ID s)"

definition put_addr_len :: "(u64 \<Rightarrow> bool) \<Rightarrow> ctype \<Rightarrow> u8 list option \<Rightarrow> u64 \<Rightarrow> serializer \<Rightarrow> serializer option" where
  \<comment> \<open>\<open>operator<<(addr_len<T>)\<close>; the constructor of \<open>addr_len\<close> multiplies by \<open>sizeof(T)\<close>\<close>
  "put_addr_len alloc t ptr l s = se_add alloc ptr (l * of_nat (sizeof t)) (GetTypePointerId t) s"

definition put_base_vector :: "(u64 \<Rightarrow> bool) \<Rightarrow> ctype \<Rightarrow> u8 list list \<Rightarrow> serializer \<Rightarrow> serializer option" where
  \<comment> \<open>\<open>operator<<(const std::vector<T>&)\<close> for a basic type\<close>
  "put_base_vector alloc t vec s = do {
     s1 \<leftarrow> put_array_len alloc (of_nat (length vec)) s;
     if vec = [] then Some s1 else put_addr_len alloc t (Some (concat vec)) (of_nat (length vec)) s1}"

definition put_bool_vector :: "(u64 \<Rightarrow> bool) \<Rightarrow> bool list \<Rightarrow> serializer \<Rightarrow> serializer option" where
  "put_bool_vector alloc vec s = do {
     s1 \<leftarrow> put_array_len alloc (of_nat (length vec)) s;
     if vec = [] then Some s1
     else se_add alloc (Some (map (\<lambda>b. if b then 1 else 0) vec)) (of_nat (length vec)) BIT_REFERENCE_ID s1}"

fun put_each :: "('a \<Rightarrow> serializer \<Rightarrow> serializer option) \<Rightarrow> 'a list \<Rightarrow> serializer \<Rightarrow> serializer option" where
  "put_each put [] s = Some s"
| "put_each put (x # xs) s = do { s1 \<leftarrow> put x s; put_each put xs s1 }"

definition put_vector :: "(u64 \<Rightarrow> bool) \<Rightarrow> ('a \<Rightarrow> serializer \<Rightarrow> serializer option) \<Rightarrow> 'a list \<Rightarrow> serializer \<Rightarrow> serializer option" where
  \<comment> \<open>vectors of other types, \<open>std::map\<close> (its entries in order) and \<open>std::unordered_set\<close>\<close>
  "put_vector alloc put vec s = do { s1 \<leftarrow> put_array_len alloc (of_nat (length vec)) s; put_each put vec s1 }"

definition put_kid :: "(u64 \<Rightarrow> bool) \<Rightarrow> serializer \<Rightarrow> serializer \<Rightarrow> (serializer \<times> serializer) option" where
  \<comment> \<open>\<open>operator<<(UbseSerialization& kid)\<close>: the object, and the kid with its head filled in\<close>
  "put_kid alloc kid s =
     (if \<not> se_flag kid then Some (se_fail s, kid)
      else let len = se_len kid in
      if len \<ge> ONCE_LIMIT_LEN then Some (se_fail s, kid)
      else do {
        (ok, s1) \<leftarrow> expandCapacity alloc (se_align s 4 + se_align s len) s;
        if \<not> ok then Some (s1, kid)
        else do {
          (buf, kid') \<leftarrow> GetBuffer False kid;
          s2 \<leftarrow> put_copy NEST_CTRL_CODE buf len s1;
          Some (s2, kid')}})"

section \<open>The deserialiser\<close>

text \<open>\<open>mPos_\<close> is its distance from \<open>mBuf_\<close>; with no buffer both pointers are null.\<close>

record deserializer =
  de_buf :: "u8 list option"
  de_pos :: u64
  de_len :: u64
  de_flag :: bool
  de_owned :: bool
  de_alignOffset :: u64

abbreviation de_align :: "deserializer \<Rightarrow> u64 \<Rightarrow> u64" where
  "de_align d \<equiv> align_to (de_alignOffset d)"

definition de_fail :: "deserializer \<Rightarrow> deserializer" where
  "de_fail d = d\<lparr>de_flag := False\<rparr>"

definition UbseDeSerialization_new :: deserializer where
  "UbseDeSerialization_new = \<lparr>de_buf = None, de_pos = 0, de_len = 0, de_flag = True, de_owned = False, de_alignOffset = 4 - 1\<rparr>"

definition GetCode :: "u8 list option \<Rightarrow> nat \<Rightarrow> u32 option" where
  "GetCode buf idx = map_option (\<lambda>bs. of_nat (le_nat bs)) (load buf (idx * 4) 4)"

definition de_Set :: "(u64 \<Rightarrow> bool) \<Rightarrow> u8 list option \<Rightarrow> u64 \<Rightarrow> bool \<Rightarrow> deserializer \<Rightarrow> (bool \<times> deserializer) option" where
  "de_Set alloc buf len bNew d =
     (if de_buf d \<noteq> None \<or> buf = None \<or> len < 4 * 3 \<or> len \<ge> MAX_CAPACITY then Some (False, de_fail d)
      else do {
        code \<leftarrow> GetCode buf 0;
        if code \<noteq> ucast HEAD_CTRL_CODE then Some (False, de_fail d)
        else do {
          off \<leftarrow> GetCode buf 1;
          let d1 = d\<lparr>de_alignOffset := ucast off\<rparr>;
          let alignBase = (ucast off + 1 :: u64);
          if \<not> isValidAlign (ucast alignBase) then Some (False, de_fail d1)
          else do {
            l \<leftarrow> GetCode buf 2;
            if ucast l \<noteq> len \<or> (ucast l :: u64) mod alignBase \<noteq> 0 then Some (False, de_fail d1)
            else do {
              (ok, own) \<leftarrow> (if \<not> bNew then Some (True, buf)
                else if \<not> alloc len then Some (False, None)
                else memcpy_s (Some (replicate (unat len) 0)) 0 len buf len);
              Some (if \<not> ok then (False, de_fail d1)
                else (True, d1\<lparr>de_buf := own, de_pos := de_align d1 (4 * 3), de_len := len, de_owned := bNew\<rparr>))}}}})"

definition UbseDeSerialization_buf :: "(u64 \<Rightarrow> bool) \<Rightarrow> u8 list option \<Rightarrow> u64 \<Rightarrow> bool \<Rightarrow> deserializer option" where
  "UbseDeSerialization_buf alloc buf len bNew = map_option snd (de_Set alloc buf len bNew UbseDeSerialization_new)"

definition de_GetBuffer :: "bool \<Rightarrow> deserializer \<Rightarrow> u8 list option \<times> deserializer" where
  "de_GetBuffer bGetCtrl d =
     (if \<not> bGetCtrl then (de_buf d, d)
      else if de_owned d then (de_buf d, d\<lparr>de_buf := None\<rparr>)
      else (None, d))"

definition checkValid :: "u64 \<Rightarrow> deserializer \<Rightarrow> bool \<times> deserializer" where
  "checkValid expectLen d =
     (if \<not> de_flag d then (False, d)
      else if expectLen = 0 \<or> de_pos d + expectLen > de_len d then (False, de_fail d)
      else (True, d))"

definition read_head :: "u8 \<Rightarrow> deserializer \<Rightarrow> u32 option option" where
  \<comment> \<open>\<open>readLenByType(mPos_, type)\<close>\<close>
  "read_head t d = map_option (\<lambda>bs. len_of_head t (of_nat (le_nat bs))) (load (de_buf d) (unat (de_pos d)) 4)"

definition get_base :: "ctype \<Rightarrow> u8 list \<Rightarrow> deserializer \<Rightarrow> (u8 list \<times> deserializer) option" where
  \<comment> \<open>\<open>operator>>(T&)\<close> for a basic type; the second argument is the old value\<close>
  "get_base t param d =
     (case checkValid (de_align d 4 + de_align d (of_nat (sizeof t))) d of (ok, d1) \<Rightarrow>
      if \<not> ok then Some (param, d1)
      else do {
        hb \<leftarrow> read_head (GetTypeId t) d1;
        if hb \<noteq> Some (of_nat (sizeof t)) then Some (param, de_fail d1)
        else do {
          let d2 = d1\<lparr>de_pos := de_pos d1 + de_align d1 4\<rparr>;
          v \<leftarrow> load (de_buf d2) (unat (de_pos d2)) (sizeof t);
          Some (v, d2\<lparr>de_pos := de_pos d2 + de_align d2 (of_nat (sizeof t))\<rparr>)}})"

definition get_array_len :: "deserializer \<Rightarrow> (u64 \<times> deserializer) option" where
  \<comment> \<open>\<open>operator>>(array_len_capture<uint64_t>&&)\<close>: the length is 0 on failure\<close>
  "get_array_len d =
     (case checkValid (de_align d 4) d of (ok, d1) \<Rightarrow>
      if \<not> ok then Some (0, d1)
      else do {
        hb \<leftarrow> read_head ARRAY_CTRL_CODE d1;
        Some (case hb of None \<Rightarrow> (0, de_fail d1) | Some n \<Rightarrow> (ucast n, d1\<lparr>de_pos := de_pos d1 + de_align d1 4\<rparr>))})"

definition de_get :: "u8 \<Rightarrow> deserializer \<Rightarrow> ((u64 \<times> u64) option \<times> deserializer) option" where
  \<comment> \<open>\<open>get\<close>: where the content is and how long, if it is there\<close>
  "de_get t d =
     (case checkValid (de_align d 4) d of (ok, d1) \<Rightarrow>
      if \<not> ok then Some (None, de_fail d1)
      else do {
        hb \<leftarrow> read_head t d1;
        Some (case hb of
            None \<Rightarrow> (None, de_fail d1)
          | Some len \<Rightarrow>
              (let addr = de_pos d1 + de_align d1 4;
                   d2 = d1\<lparr>de_pos := addr + de_align d1 (ucast len)\<rparr>
               in if de_pos d2 > de_len d2 then (None, de_fail d2) else (Some (addr, ucast len), d2)))})"

definition get_string :: "string \<Rightarrow> deserializer \<Rightarrow> (string \<times> deserializer) option" where
  "get_string str d = do {
     (r, d1) \<leftarrow> de_get STRING_ID d;
     (case r of
         None \<Rightarrow> Some (str, d1)
       | Some (addr, len) \<Rightarrow>
           if len = 0 then Some (str, de_fail d1)
           else map_option (\<lambda>bs. (string_of bs, d1)) (load (de_buf d1) (unat addr) (unat (len - 1))))}"

definition get_c_str :: "(u64 \<Rightarrow> bool) \<Rightarrow> u8 list option \<Rightarrow> deserializer \<Rightarrow> (u8 list option \<times> deserializer) option" where
  \<comment> \<open>\<open>operator>>(char*&)\<close>: a new buffer with the bytes and the terminating zero\<close>
  "get_c_str alloc str d = do {
     (r, d1) \<leftarrow> de_get STRING_ID d;
     (case r of
         None \<Rightarrow> Some (str, d1)
       | Some (addr, len) \<Rightarrow>
           if len = 0 then Some (str, de_fail d1)
           else if \<not> alloc len then Some (None, de_fail d1)
           else map_option (\<lambda>bs. (Some bs, d1)) (load (de_buf d1) (unat addr) (unat len)))}"

definition get_addr_len :: "ctype \<Rightarrow> u8 list \<Rightarrow> deserializer \<Rightarrow> (u8 list \<times> deserializer) option" where
  \<comment> \<open>\<open>operator>>(addr_len<T>)\<close> into the memory the caller gives, whose first bytes are replaced\<close>
  "get_addr_len t mem d = do {
     (r, d1) \<leftarrow> de_get (GetTypePointerId t) d;
     (case r of
         None \<Rightarrow> Some (mem, d1)
       | Some (addr, len) \<Rightarrow>
           if unat len mod sizeof t \<noteq> 0 \<or> length mem < unat len then Some (mem, de_fail d1)
           else map_option (\<lambda>bs. (bs @ drop (unat len) mem, d1)) (load (de_buf d1) (unat addr) (unat len)))}"

definition get_alloc :: "(u64 \<Rightarrow> bool) \<Rightarrow> ctype \<Rightarrow> u8 list option \<Rightarrow> deserializer \<Rightarrow> (u8 list option \<times> deserializer) option" where
  \<comment> \<open>\<open>operator>>(alloc_addr_len_<T>&)\<close>: the bytes of the new array\<close>
  "get_alloc alloc t ptr d = do {
     (r, d1) \<leftarrow> de_get (GetTypePointerId t) d;
     (case r of
         None \<Rightarrow> Some (ptr, d1)
       | Some (addr, len) \<Rightarrow>
           if unat len mod sizeof t \<noteq> 0 then Some (ptr, de_fail d1)
           else if \<not> alloc len then Some (None, de_fail d1)
           else map_option (\<lambda>bs. (Some bs, d1)) (load (de_buf d1) (unat addr) (unat len)))}"

fun chunks :: "nat \<Rightarrow> nat \<Rightarrow> u8 list \<Rightarrow> u8 list list" where
  "chunks w 0 bs = []"
| "chunks w (Suc n) bs = take w bs # chunks w n (drop w bs)"

definition get_base_vector :: "ctype \<Rightarrow> u8 list list \<Rightarrow> deserializer \<Rightarrow> (u8 list list \<times> deserializer) option" where
  "get_base_vector t vec d = do {
     (len, d1) \<leftarrow> get_array_len d;
     if len = 0 then Some ([], d1)
     else do {
       (r, d2) \<leftarrow> de_get (GetTypePointerId t) d1;
       (case r of
           None \<Rightarrow> Some (vec, d2)
         | Some (addr, n) \<Rightarrow>
             if n = 0 \<or> unat n mod sizeof t \<noteq> 0 \<or> unat n div sizeof t \<noteq> unat len then Some (vec, de_fail d2)
             else map_option (\<lambda>bs. (chunks (sizeof t) (unat len) bs, d2)) (load (de_buf d2) (unat addr) (unat len * sizeof t)))}}"

definition get_bool_vector :: "bool list \<Rightarrow> deserializer \<Rightarrow> (bool list \<times> deserializer) option" where
  "get_bool_vector vec d = do {
     (len, d1) \<leftarrow> get_array_len d;
     if len = 0 then Some ([], d1)
     else do {
       (r, d2) \<leftarrow> de_get BIT_REFERENCE_ID d1;
       (case r of
           None \<Rightarrow> Some (vec, d2)
         | Some (addr, n) \<Rightarrow>
             if n = 0 \<or> len \<noteq> n then Some (vec, de_fail d2)
             else map_option (\<lambda>bs. (map (\<lambda>b. b \<noteq> 0) bs, d2)) (load (de_buf d2) (unat addr) (unat len)))}}"

fun get_each :: "('a \<Rightarrow> deserializer \<Rightarrow> ('a \<times> deserializer) option) \<Rightarrow> 'a list \<Rightarrow> deserializer \<Rightarrow> ('a list \<times> deserializer) option" where
  "get_each get [] d = Some ([], d)"
| "get_each get (x # xs) d = do { (y, d1) \<leftarrow> get x d; (ys, d2) \<leftarrow> get_each get xs d1; Some (y # ys, d2) }"

definition resize :: "'a \<Rightarrow> nat \<Rightarrow> 'a list \<Rightarrow> 'a list" where
  "resize x n xs = take n xs @ replicate (n - length xs) x"

definition get_vector :: "('a \<Rightarrow> deserializer \<Rightarrow> ('a \<times> deserializer) option) \<Rightarrow> 'a \<Rightarrow> 'a list \<Rightarrow> deserializer \<Rightarrow> ('a list \<times> deserializer) option" where
  \<comment> \<open>\<open>operator>>(std::vector<T>&)\<close> for other types; the second argument is \<open>T\<close>'s default value\<close>
  "get_vector get dflt vec d = do {
     (len, d1) \<leftarrow> get_array_len d;
     if len = 0 then Some ([], d1)
     else
       let alignedHeadLen = de_align d1 4; remaining = de_len d1 - de_pos d1
       in if alignedHeadLen = 0 \<or> len > remaining div alignedHeadLen then Some (vec, de_fail d1)
          else get_each get (resize dflt (unat len) vec) d1}"

fun get_entries :: "('k \<Rightarrow> deserializer \<Rightarrow> ('k \<times> deserializer) option) \<Rightarrow> 'k \<Rightarrow> ('v \<Rightarrow> deserializer \<Rightarrow> ('v \<times> deserializer) option) \<Rightarrow> 'v \<Rightarrow>
    nat \<Rightarrow> ('k::linorder, 'v) omap \<Rightarrow> deserializer \<Rightarrow> (('k, 'v) omap \<times> deserializer) option" where
  "get_entries getk k0 getv v0 0 m d = Some (m, d)"
| "get_entries getk k0 getv v0 (Suc n) m d =
     (if \<not> de_flag d then Some (m, d)
      else do {
        (k, d1) \<leftarrow> getk k0 d;
        (v, d2) \<leftarrow> getv (case map_of m k of None \<Rightarrow> v0 | Some v \<Rightarrow> v) d1;
        get_entries getk k0 getv v0 n (om_put k v m) d2})"

definition get_map :: "('k \<Rightarrow> deserializer \<Rightarrow> ('k \<times> deserializer) option) \<Rightarrow> 'k \<Rightarrow> ('v \<Rightarrow> deserializer \<Rightarrow> ('v \<times> deserializer) option) \<Rightarrow> 'v \<Rightarrow>
    ('k::linorder, 'v) omap \<Rightarrow> deserializer \<Rightarrow> (('k, 'v) omap \<times> deserializer) option" where
  \<comment> \<open>\<open>operator>>(std::map&)\<close>\<close>
  "get_map getk k0 getv v0 m d = do {
     (len, d1) \<leftarrow> get_array_len d;
     get_entries getk k0 getv v0 (unat len) m d1}"

definition get_kid :: "(u64 \<Rightarrow> bool) \<Rightarrow> deserializer \<Rightarrow> deserializer \<Rightarrow> (deserializer \<times> deserializer) option" where
  \<comment> \<open>\<open>operator>>(UbseDeSerialization& kid)\<close>: the object and the kid\<close>
  "get_kid alloc kid d = do {
     (r, d1) \<leftarrow> de_get NEST_CTRL_CODE d;
     (case r of
         None \<Rightarrow> Some (d1, kid)
       | Some (addr, len) \<Rightarrow> do {
           (ok, kid') \<leftarrow> de_Set alloc (map_option (drop (unat addr)) (de_buf d1)) len True kid;
           Some (if \<not> de_flag kid' then de_fail d1 else d1, kid')})}"

end
