(* ===== verification/SerialLaws.thy ===== *)
theory SerialLaws
  imports SerialUtil
begin

text \<open>
  What the operations of the serialiser and the deserialiser do, over lists of bytes: a block is the
  head and the content, each filled up with zeros to the alignment; a successful operation appends
  a block or takes one off.
\<close>

section \<open>Bytes and alignment\<close>

lemma length_le_bytes [simp]: "length (le_bytes n v) = n"
  by (induction n arbitrary: v) simp_all

lemma le_nat_le_bytes: "le_nat (le_bytes n v) = v mod 256 ^ n"
proof (induction n arbitrary: v)
  case (Suc n)
  have "unat (of_nat v :: u8) = v mod 256" by (simp add: unat_of_nat)
  then show ?case using mod_mult2_eq [of v 256 "256 ^ n"] by (simp add: Suc)
qed simp

lemma le_nat_word: "(of_nat (le_nat (le_bytes 4 (unat w))) :: u32) = w"
  using unsigned_less [of w, where ?'a = nat] by (simp add: le_nat_le_bytes)

definition ok_off :: "u64 \<Rightarrow> bool" where
  "ok_off off \<longleftrightarrow> off \<in> {0, 1, 3, 7}"

definition up :: "u64 \<Rightarrow> nat \<Rightarrow> nat" where
  "up off l = (l + unat off) div (unat off + 1) * (unat off + 1)"

lemma and_not_mask: "unat (x AND NOT (mask k)) = unat x div 2 ^ k * 2 ^ k" for x :: u64
proof -
  have "x AND NOT (mask k) = push_bit k (drop_bit k x)"
    by (rule bit_word_eqI) (auto simp: bit_simps)
  moreover have "unat x div 2 ^ k * 2 ^ k < 2 ^ 64"
    using order.strict_trans1 [OF div_times_less_eq_dividend [of "unat x" "2 ^ k"] unsigned_less [of x, where ?'a = nat]] by simp
  moreover have "unat (push_bit k (drop_bit k x)) = unat x div 2 ^ k * 2 ^ k mod 2 ^ 64"
    by (simp only: unsigned_push_bit_eq unsigned_drop_bit_eq push_bit_eq_mult [where ?'a = nat] drop_bit_eq_div [where ?'a = nat]
        take_bit_eq_mod [where ?'a = nat] mod_less [OF unsigned_less [of x, where ?'a = nat]]) simp
  ultimately show ?thesis by (simp only: mod_less)
qed

lemma off_mask: "ok_off off \<Longrightarrow> \<exists>k. off = mask k \<and> unat off = 2 ^ k - 1 \<and> k \<le> 3"
proof -
  assume "ok_off off"
  then consider "off = mask 0" | "off = mask 1" | "off = mask 2" | "off = mask 3"
    by (auto simp: ok_off_def mask_eq_exp_minus_1)
  then show ?thesis
  proof cases
    case 1 then show ?thesis by (intro exI [of _ 0]) simp
  next
    case 2 then show ?thesis by (intro exI [of _ 1]) (simp add: mask_eq_exp_minus_1)
  next
    case 3 then show ?thesis by (intro exI [of _ 2]) (simp add: mask_eq_exp_minus_1)
  next
    case 4 then show ?thesis by (intro exI [of _ 3]) (simp add: mask_eq_exp_minus_1)
  qed
qed

lemma off_le: "ok_off off \<Longrightarrow> unat off \<le> 7"
  by (auto simp: ok_off_def)

lemma align_to_up: "unat (align_to off l) = up off (unat l)" if "ok_off off" "unat l < 2 ^ 32"
proof -
  obtain k where k: "off = mask k" "unat off = 2 ^ k - 1" using off_mask [OF \<open>ok_off off\<close>] by blast
  have "unat (l + off) = unat l + unat off"
    using that(2) off_le [OF \<open>ok_off off\<close>] by (simp add: unat_word_ariths(1))
  then show ?thesis using and_not_mask [of "l + off" k] k by (simp add: align_to_def up_def)
qed

lemma up_bounds: "n \<le> up off n \<and> up off n \<le> n + unat off"
proof -
  let ?m = "unat off + 1"
  have "(n + unat off) div ?m * ?m + (n + unat off) mod ?m = n + unat off" by (rule div_mult_mod_eq)
  moreover have "(n + unat off) mod ?m \<le> unat off" using mod_less_divisor [of ?m "n + unat off"] by simp
  ultimately show ?thesis unfolding up_def by linarith
qed

lemma up_dvd: "unat off + 1 dvd up off n" unfolding up_def by (rule dvd_triv_right)

lemma up_idem: "unat off + 1 dvd n \<Longrightarrow> up off n = n"
proof (elim dvdE)
  fix k assume n: "n = (unat off + 1) * k"
  have "(unat off + k * (unat off + 1)) div (unat off + 1) = k + unat off div (unat off + 1)"
    by (rule div_mult_self1) simp
  then have "(n + unat off) div (unat off + 1) = k" by (simp add: n mult.commute add.commute)
  then show ?thesis unfolding up_def by (simp add: n mult.commute)
qed

definition pad :: "u64 \<Rightarrow> u8 list \<Rightarrow> u8 list" where
  "pad off xs = xs @ replicate (up off (length xs) - length xs) 0"

lemma length_pad [simp]: "length (pad off xs) = up off (length xs)"
  using up_bounds [of "length xs" off] by (simp add: pad_def)

definition block :: "u64 \<Rightarrow> u8 \<Rightarrow> nat \<Rightarrow> u8 list \<Rightarrow> u8 list" where
  "block off t n xs = pad off (le_bytes 4 (unat (head_of t (of_nat n)))) @ pad off xs"

lemma length_block [simp]: "length (block off t n xs) = up off 4 + up off (length xs)"
  by (simp add: block_def)

lemma len_of_head: "len_of_head t (head_of t' n) = (if t = t' then Some n else None)" if "unat n < 2 ^ 24"
proof -
  have n: "\<not> bit n i" if "i \<ge> 24" for i
  proof -
    have "n = take_bit 24 n" using \<open>unat n < 2 ^ 24\<close>
      by (intro word_unat_eq_iff [THEN iffD2]) (simp only: unsigned_take_bit_eq take_bit_eq_mod [where ?'a = nat] mod_less)
    then show ?thesis using that by (metis bit_take_bit_iff leD)
  qed
  have "ucast (drop_bit 24 (push_bit 24 (ucast t') OR n)) = t'" for t' :: u8
    by (rule bit_word_eqI) (use n in \<open>auto simp: bit_simps\<close>)
  moreover have "(push_bit 24 (ucast t') OR n) AND (push_bit 24 1 - 1) = n" for t' :: u8
  proof -
    have m: "(push_bit 24 1 - 1 :: u32) = mask 24" by (simp add: mask_eq_exp_minus_1 push_bit_eq_mult)
    have "(push_bit 24 (ucast t') OR n) AND mask 24 = n"
      by (rule bit_word_eqI) (use n in \<open>auto simp: bit_simps not_le simp flip: not_le\<close>)
    then show ?thesis by (simp only: m)
  qed
  ultimately show ?thesis
    by (auto simp: len_of_head_def head_of_def LEN_CTRL_OFFSET_def LEN_CTRL_MASK_def)
qed

section \<open>The state of a serialiser\<close>

lemmas limits = MAX_CAPACITY_def ONCE_LIMIT_LEN_def INIT_CAPACITY_def LEN_CTRL_OFFSET_def

definition holds :: "serializer \<Rightarrow> u8 list \<Rightarrow> bool" where
  \<comment> \<open>the bytes written so far, head included; the rest of the buffer is zero\<close>
  "holds s A \<longleftrightarrow> ok_off (se_alignOffset s) \<and> se_buf s = Some (A @ replicate (unat (se_cap s) - length A) 0) \<and>
     unat (se_len s) = length A \<and> length A \<le> unat (se_cap s) \<and> unat (se_cap s) < 2 ^ 24 \<and>
     up (se_alignOffset s) 12 \<le> length A \<and> unat (se_alignOffset s) + 1 dvd length A"

definition broken :: "serializer \<Rightarrow> bool" where
  "broken s \<longleftrightarrow> \<not> se_flag s \<and> (\<exists>b. se_buf s = Some b \<and> 12 \<le> length b)"

definition writes :: "(serializer \<Rightarrow> serializer option) \<Rightarrow> (u64 \<Rightarrow> u8 list) \<Rightarrow> bool" where
  \<comment> \<open>what a successful operation appends; a failed object stays as it is\<close>
  "writes f w \<longleftrightarrow> (\<forall>s. (\<not> se_flag s \<longrightarrow> f s = Some s) \<and>
     (\<forall>A. se_flag s \<and> holds s A \<longrightarrow> (\<exists>s'. f s = Some s' \<and> se_alignOffset s' = se_alignOffset s \<and>
        (if se_flag s' then holds s' (A @ w (se_alignOffset s)) else broken s'))))"

lemma store_end:
  "length xs \<le> k \<Longrightarrow> store (length A) xs (Some (A @ replicate k 0)) = Some (Some (A @ xs @ replicate (k - length xs) 0))"
  by (simp add: store_def)

lemma pad_zeros:
  "up off (length xs) \<le> k \<Longrightarrow> A @ xs @ replicate (k - length xs) 0 = (A @ pad off xs) @ replicate (k - up off (length xs)) 0"
  using up_bounds [of "length xs" off] by (simp add: pad_def flip: replicate_add)

lemma grow_spec:
  "\<lbrakk> 0 < unat cap; unat need < 2 ^ 24; unat cap < 2 ^ 24 \<rbrakk> \<Longrightarrow>
     \<exists>c. grow need cap = Some c \<and> need \<le> c \<and> cap \<le> c \<and> unat c < 2 ^ 24"
proof (induction "2 ^ 24 - unat cap" arbitrary: cap rule: less_induct)
  case less
  show ?case
  proof (cases "cap < need")
    case False then show ?thesis using less.prems by (subst grow.simps) auto
  next
    case True
    define cap' where "cap' = (if push_bit 1 cap \<ge> MAX_CAPACITY then MAX_CAPACITY - 1 else push_bit 1 cap)"
    have d: "unat (push_bit 1 cap) = 2 * unat cap"
      using less.prems by (simp add: push_bit_eq_mult unat_word_ariths(2))
    have m: "unat MAX_CAPACITY = 2 ^ 24" "unat (MAX_CAPACITY - 1) = 2 ^ 24 - 1" by (simp_all add: limits push_bit_eq_mult)
    have c: "unat cap < unat cap'" "unat cap' < 2 ^ 24"
      using True less.prems d m unfolding cap'_def word_le_nat_alt word_less_nat_alt by (auto simp only: split: if_splits)
    have "2 ^ 24 - unat cap' < 2 ^ 24 - unat cap" "0 < unat cap'" using c less.prems(3) by linarith+
    then obtain c where g: "grow need cap' = Some c" "need \<le> c" "cap' \<le> c" "unat c < 2 ^ 24"
      using less.hyps [of cap'] less.prems(2) c(2) by blast
    moreover have "cap \<le> c" using g(3) c(1) unfolding word_le_nat_alt by linarith
    ultimately show ?thesis using True by (subst grow.simps) (auto simp only: cap'_def [symmetric] if_True)
  qed
qed

lemma holds_room:
  assumes "holds s A" and "unat n < 2 ^ 32"
  shows "\<exists>ok s'. expandCapacity alloc n s = Some (ok, s') \<and> se_alignOffset s' = se_alignOffset s \<and> se_len s' = se_len s \<and>
    (if ok then holds s' A \<and> se_flag s' = se_flag s \<and> length A + unat n \<le> unat (se_cap s') else broken s') \<and>
    ((\<forall>k. alloc k) \<and> length A + unat n < 2 ^ 24 \<longrightarrow> ok)"
proof -
  note h = assms(1) [unfolded holds_def]
  have sum: "unat (se_len s + n) = length A + unat n" using h assms(2) by (simp add: unat_word_ariths(1))
  have m: "unat MAX_CAPACITY = 2 ^ 24" by (simp add: limits push_bit_eq_mult)
  have l12: "12 \<le> length A" using h up_bounds [of 12 "se_alignOffset s"] by linarith
  show ?thesis
  proof (cases "length A + unat n < 2 ^ 24")
    case False
    then have "se_len s + n \<ge> MAX_CAPACITY" by (simp add: word_le_nat_alt sum m)
    then show ?thesis using h l12 False by (auto simp: expandCapacity_def se_fail_def broken_def)
  next
    case True
    then have lt: "\<not> se_len s + n \<ge> MAX_CAPACITY" by (simp add: word_le_nat_alt sum m)
    obtain c where c: "grow (se_len s + n) (se_cap s) = Some c" "se_len s + n \<le> c" "se_cap s \<le> c" "unat c < 2 ^ 24"
      using grow_spec [of "se_cap s" "se_len s + n"] h l12 True by (auto simp: sum)
    consider "\<not> se_cap s < se_len s + n" | "se_cap s < se_len s + n" "\<not> alloc c" | "se_cap s < se_len s + n" "alloc c" by blast
    then show ?thesis
    proof cases
      case 1
      then show ?thesis using lt c(1) assms(1) by (auto simp: expandCapacity_def word_less_nat_alt sum)
    next
      case 2
      then show ?thesis using lt c(1) h l12 by (auto simp: expandCapacity_def se_fail_def broken_def)
    next
      case 3
      have cl: "length A + unat n \<le> unat c" using c(2) by (simp add: word_le_nat_alt sum)
      have m: "memcpy_s (Some (replicate (unat c) 0)) 0 c (se_buf s) (se_len s) = Some (True, Some (A @ replicate (unat c - length A) 0))"
      proof -
        have b: "se_buf s = Some (A @ replicate (unat (se_cap s) - length A) 0)" and l: "unat (se_len s) = length A"
          using h by blast+
        have "unat c \<noteq> 0" "unat (se_len s) \<le> unat c" using cl l12 l by linarith+
        moreover have "unat c \<le> unat (0x7fffffff :: u64)" using c(4) by simp
        ultimately have "c \<noteq> 0" "\<not> c > 0x7fffffff" "\<not> se_len s > c" unfolding word_less_nat_alt not_less by auto
        moreover have "take (unat (se_len s)) (A @ replicate (unat (se_cap s) - length A) 0) = A" by (simp add: l)
        moreover have "store 0 A (Some (replicate (unat c) 0)) = Some (Some (A @ replicate (unat c - length A) 0))"
          using cl by (simp add: store_def)
        ultimately show ?thesis by (simp add: memcpy_s_def b l)
      qed
      let ?s' = "s\<lparr>se_cap := c, se_buf := Some (A @ replicate (unat c - length A) 0)\<rparr>"
      have "expandCapacity alloc n s = Some (True, ?s')"
        using 3 lt by (simp add: expandCapacity_def c(1) m)
      moreover have "holds ?s' A"
      proof -
        have "length A \<le> unat c" using cl by linarith
        then show ?thesis using h c(4) by (simp add: holds_def)
      qed
      ultimately show ?thesis using cl by auto
    qed
  qed
qed

lemma room:
  assumes "holds s A" and "unat n < 2 ^ 32"
  obtains (full) s1 where "expandCapacity alloc n s = Some (False, s1)" "broken s1" "se_alignOffset s1 = se_alignOffset s"
      "\<not> ((\<forall>k. alloc k) \<and> length A + unat n < 2 ^ 24)"
  | (room) s1 where "expandCapacity alloc n s = Some (True, s1)" "holds s1 A" "se_alignOffset s1 = se_alignOffset s"
      "se_flag s1 = se_flag s" "length A + unat n \<le> unat (se_cap s1)"
proof -
  obtain ok s1 where e: "expandCapacity alloc n s = Some (ok, s1)" "se_alignOffset s1 = se_alignOffset s"
      "if ok then holds s1 A \<and> se_flag s1 = se_flag s \<and> length A + unat n \<le> unat (se_cap s1) else broken s1"
      "(\<forall>k. alloc k) \<and> length A + unat n < 2 ^ 24 \<longrightarrow> ok"
    using holds_room [OF assms, of alloc] by blast
  show thesis
  proof (cases ok)
    case True then show thesis using e room [of s1] by simp
  next
    case False
    show thesis by (rule full [of s1]) (use False e in auto)
  qed
qed

lemma put_head_holds:
  assumes "holds s A" and "length A + up (se_alignOffset s) 4 \<le> unat (se_cap s)" and "n < 2 ^ 24"
  shows "\<exists>s'. put_head t (of_nat n) s = Some s' \<and> se_alignOffset s' = se_alignOffset s \<and> se_cap s' = se_cap s \<and> se_flag s' = se_flag s \<and>
    holds s' (A @ pad (se_alignOffset s) (le_bytes 4 (unat (head_of t (of_nat n)))))"
proof -
  note h = assms(1) [unfolded holds_def]
  let ?off = "se_alignOffset s" and ?hd = "le_bytes 4 (unat (head_of t (of_nat n)))"
  have u4: "4 \<le> up ?off 4" using up_bounds [of 4 ?off] by simp
  have a: "unat (align_to ?off 4) = up ?off 4" using align_to_up [of ?off 4] h by simp
  have l: "unat (se_len s + align_to ?off 4) = length A + up ?off 4"
    using h assms(2) by (simp add: unat_word_ariths(1) a)
  have st: "store (unat (se_len s)) ?hd (se_buf s) =
      Some (Some ((A @ pad ?off ?hd) @ replicate (unat (se_cap s) - length A - up ?off 4) 0))"
    using h assms(2) u4 store_end [of ?hd "unat (se_cap s) - length A" A] pad_zeros [of ?off ?hd "unat (se_cap s) - length A" A]
    by simp
  have "unat ?off + 1 dvd length A + up ?off 4" using h up_dvd by (metis dvd_add)
  then show ?thesis
    unfolding put_head_def st using h assms(2) l by (simp add: holds_def)
qed

lemma content_holds:
  assumes "holds s A" and "length A + up (se_alignOffset s) (length xs) \<le> unat (se_cap s)" and "unat n = length xs"
  shows "store (unat (se_len s)) xs (se_buf s) =
      Some (Some ((A @ pad (se_alignOffset s) xs) @ replicate (unat (se_cap s) - length (A @ pad (se_alignOffset s) xs)) 0)) \<and>
    holds (s\<lparr>se_buf := Some ((A @ pad (se_alignOffset s) xs) @ replicate (unat (se_cap s) - length (A @ pad (se_alignOffset s) xs)) 0),
        se_len := se_len s + se_align s n\<rparr>) (A @ pad (se_alignOffset s) xs)"
proof -
  note h = assms(1) [unfolded holds_def]
  let ?off = "se_alignOffset s"
  have ux: "length xs \<le> up ?off (length xs)" using up_bounds by blast
  have lx: "unat n < 2 ^ 24" using assms(2,3) h ux by linarith
  have a: "unat (align_to ?off n) = up ?off (length xs)" using align_to_up [of ?off n] h lx assms(3) by simp
  have l: "unat (se_len s + align_to ?off n) = length A + up ?off (length xs)"
    using h assms(2) by (simp add: unat_word_ariths(1) a)
  have "unat ?off + 1 dvd length A + up ?off (length xs)" using h up_dvd by (metis dvd_add)
  then show ?thesis
    using h assms(2) ux l store_end [of xs "unat (se_cap s) - length A" A] pad_zeros [of ?off xs "unat (se_cap s) - length A" A]
    by (simp add: holds_def)
qed

lemma up4: "ok_off off \<Longrightarrow> unat (align_to off 4) = up off 4"
  using align_to_up [of off 4] by simp

lemma sum_align: "unat (align_to off 4 + align_to off n) = up off 4 + up off (unat n)" if "ok_off off" "unat n < 2 ^ 25"
proof -
  have "up off 4 + up off (unat n) < 2 ^ 26"
    using up_bounds [of 4 off] up_bounds [of "unat n" off] off_le [OF that(1)] that(2) by auto
  then show ?thesis using that by (simp add: unat_word_ariths(1) up4 align_to_up)
qed

lemma small_block: "up off 4 + up off n < 2 ^ 32" if "ok_off off" "n < 2 ^ 25"
  using up_bounds [of 4 off] up_bounds [of n off] off_le [OF that(1)] that(2) by auto

lemma writesI:
  assumes "\<And>s. \<not> se_flag s \<Longrightarrow> f s = Some s"
    and "\<And>s A. \<lbrakk> se_flag s; holds s A; ok_off (se_alignOffset s) \<rbrakk> \<Longrightarrow> \<exists>s'. f s = Some s' \<and> se_alignOffset s' = se_alignOffset s \<and>
      (if se_flag s' then holds s' (A @ w (se_alignOffset s)) else broken s')"
  shows "writes f w"
  using assms by (auto simp: writes_def holds_def)

lemma sizeof_bounds: "0 < sizeof t \<and> sizeof t \<le> 8"
  by (cases t) simp_all

lemma sizeof_word [simp]: "unat (of_nat (sizeof t) :: u64) = sizeof t" "unat (of_nat (sizeof t) :: u32) = sizeof t"
  by (cases t; simp)+

lemma writes_put_base: "writes (put_base alloc t v) (\<lambda>off. block off (GetTypeId t) (sizeof t) v)" if v: "length v = sizeof t"
proof (rule writesI, goal_cases)
  case (1 s) then show ?case by (simp add: put_base_def)
next
  case (2 s A)
  let ?off = "se_alignOffset s"
  have sum: "unat (align_to ?off 4 + align_to ?off (of_nat (sizeof t))) = up ?off 4 + up ?off (sizeof t)"
    using sum_align [OF 2(3), of "of_nat (sizeof t)"] sizeof_bounds [of t] by simp
  have lim: "sizeof t < 2 ^ 24" "sizeof t < 2 ^ 25" using sizeof_bounds [of t] by auto
  have sm: "unat (align_to ?off 4 + align_to ?off (of_nat (sizeof t))) < 2 ^ 32" using small_block [OF 2(3) lim(2)] sum by simp
  show ?case
  proof (rule room [OF 2(2) sm, of alloc], goal_cases full room)
    case (full s1) then show ?thesis using 2(1) by (auto simp: put_base_def broken_def)
  next
    case (room s1)
    then have r: "length A + up ?off 4 + up ?off (sizeof t) \<le> unat (se_cap s1)" using sum by simp
    then obtain s2 where p: "put_head (GetTypeId t) (of_nat (sizeof t)) s1 = Some s2" "se_alignOffset s2 = ?off" "se_cap s2 = se_cap s1"
        "se_flag s2" "holds s2 (A @ pad ?off (le_bytes 4 (unat (head_of (GetTypeId t) (of_nat (sizeof t))))))"
      using put_head_holds [OF room(2), of "sizeof t" "GetTypeId t"] room 2(1) lim by auto
    have "length (A @ pad ?off (le_bytes 4 (unat (head_of (GetTypeId t) (of_nat (sizeof t)))))) + up ?off (length v) \<le> unat (se_cap s2)"
      using r by (simp add: v p(3))
    from content_holds [OF p(5), unfolded p(2), OF this, of "of_nat (sizeof t)"]
    show ?thesis using 2(1) room(1) p v by (simp add: put_base_def block_def)
  qed
qed

lemma broken_fail: "holds s A \<Longrightarrow> broken (se_fail s)"
  using up_bounds [of 12 "se_alignOffset s"] by (auto simp: holds_def broken_def se_fail_def)

lemma fail_simps [simp]: "se_alignOffset (se_fail s) = se_alignOffset s" "\<not> se_flag (se_fail s)"
  by (simp_all add: se_fail_def)

lemma put_copy_holds:
  assumes "holds s A" and "length A + up (se_alignOffset s) 4 + up (se_alignOffset s) (length xs) \<le> unat (se_cap s)"
    and "unat len = length xs" and "length xs \<noteq> 0" and "length xs \<le> length ys" and "take (length xs) ys = xs"
  shows "\<exists>s'. put_copy t (Some ys) len s = Some s' \<and> se_alignOffset s' = se_alignOffset s \<and> se_flag s' = se_flag s \<and>
    holds s' (A @ block (se_alignOffset s) t (length xs) xs)"
proof -
  let ?off = "se_alignOffset s"
  have cap: "unat (se_cap s) < 2 ^ 24" using assms(1) by (simp add: holds_def)
  have lx: "length xs < 2 ^ 24" using assms(2) cap up_bounds [of "length xs" ?off] by linarith
  have len: "(ucast len :: u32) = of_nat (length xs)" by (simp flip: assms(3))
  obtain s2 where p: "put_head t (of_nat (length xs)) s = Some s2" "se_alignOffset s2 = ?off" "se_cap s2 = se_cap s"
      "se_flag s2 = se_flag s" "holds s2 (A @ pad ?off (le_bytes 4 (unat (head_of t (of_nat (length xs))))))"
    using put_head_holds [OF assms(1), of "length xs" t] assms(2) lx by auto
  let ?A = "A @ pad ?off (le_bytes 4 (unat (head_of t (of_nat (length xs)))))"
  have room: "length ?A + up ?off (length xs) \<le> unat (se_cap s2)" using assms(2) by (simp add: p(3))
  have l2: "unat (se_len s2) = length ?A" using p(5) by (simp only: holds_def)
  have d: "unat (se_cap s2 - se_len s2) = unat (se_cap s2) - length ?A"
    using room l2 by (subst unat_sub) (simp_all add: word_le_nat_alt)
  have ux: "length xs \<le> up ?off (length xs)" using up_bounds by blast
  have "memcpy_s (se_buf s2) (unat (se_len s2)) (se_cap s2 - se_len s2) (Some ys) len =
      map_option (Pair True) (store (unat (se_len s2)) xs (se_buf s2))"
  proof -
    have "unat (se_cap s2 - se_len s2) \<noteq> 0" using d room ux assms(4) by linarith
    moreover have "unat (se_cap s2 - se_len s2) \<le> unat (0x7fffffff :: u64)" using d cap p(3) by simp
    moreover have "unat len \<le> unat (se_cap s2 - se_len s2)" using d room ux assms(3) by linarith
    ultimately have "se_cap s2 - se_len s2 \<noteq> 0" "\<not> se_cap s2 - se_len s2 > 0x7fffffff" "\<not> len > se_cap s2 - se_len s2"
      unfolding word_less_nat_alt not_less by auto
    then show ?thesis using assms(3,5,6) by (simp add: memcpy_s_def)
  qed
  with content_holds [OF p(5), unfolded p(2), OF room assms(3)] show ?thesis
    by (simp add: put_copy_def len p(1,2,4) block_def)
qed

lemma once_limit: "unat ONCE_LIMIT_LEN = 2 ^ 16"
  by (simp add: limits push_bit_eq_mult drop_bit_eq_div)

lemma writes_add: "writes (se_add alloc (Some ys) len t) (\<lambda>off. block off t (length ys) ys)" if len: "unat len = length ys"
proof (rule writesI, goal_cases)
  case (1 s) then show ?case by (simp add: se_add_def)
next
  case (2 s A)
  let ?off = "se_alignOffset s"
  have lo: "unat (ONCE_LIMIT_LEN - ?off) \<le> 2 ^ 16"
    using once_limit off_le [OF 2(3)] by (subst unat_sub) (auto simp: word_le_nat_alt)
  show ?case
  proof (cases "len = 0 \<or> len \<ge> ONCE_LIMIT_LEN - ?off")
    case True then show ?thesis using 2 broken_fail by (auto simp: se_add_def)
  next
    case False
    then have l: "length ys < 2 ^ 16" "length ys \<noteq> 0" using lo len by (auto simp: word_le_nat_alt unat_eq_0)
    have sum: "unat (align_to ?off 4 + align_to ?off len) = up ?off 4 + up ?off (length ys)"
      using sum_align [OF 2(3), of len] l by (simp add: len)
    have sm: "unat (align_to ?off 4 + align_to ?off len) < 2 ^ 32" using small_block [OF 2(3), of "length ys"] l sum by simp
    show ?thesis
    proof (rule room [OF 2(2) sm, of alloc], goal_cases full room)
      case (full s1) then show ?thesis using 2(1) False by (auto simp: se_add_def broken_def)
    next
      case (room s1)
      then show ?thesis using put_copy_holds [OF room(2), of ys len ys t] 2(1) False l len sum
        by (auto simp: se_add_def)
    qed
  qed
qed

lemma writes_array_len: "writes (put_array_len alloc n) (\<lambda>off. pad off (le_bytes 4 (unat (head_of ARRAY_CTRL_CODE (ucast n)))))"
proof (rule writesI, goal_cases)
  case (1 s) then show ?case by (simp add: put_array_len_def)
next
  case (2 s A)
  let ?off = "se_alignOffset s"
  show ?case
  proof (cases "n \<ge> ONCE_LIMIT_LEN")
    case True then show ?thesis using 2 broken_fail by (auto simp: put_array_len_def)
  next
    case False
    then have n: "unat n < 2 ^ 16" using once_limit by (simp add: word_le_nat_alt)
    have c: "(ucast n :: u32) = of_nat (unat n)" by simp
    have sm: "unat (align_to ?off 4) < 2 ^ 32" using up4 [OF 2(3)] up_bounds [of 4 ?off] off_le [OF 2(3)] by auto
    show ?thesis
    proof (rule room [OF 2(2) sm, of alloc], goal_cases full room)
      case (full s1) then show ?thesis using 2(1) False by (auto simp: put_array_len_def broken_def)
    next
      case (room s1)
      then show ?thesis using put_head_holds [OF room(2), of "unat n" ARRAY_CTRL_CODE] 2(1) False n up4 [OF 2(3)]
        by (auto simp: put_array_len_def c simp del: of_nat_unat)
    qed
  qed
qed

lemma writes_bind:
  assumes "writes f w" and "writes g v"
  shows "writes (\<lambda>s. Option.bind (f s) g) (\<lambda>off. w off @ v off)"
  unfolding writes_def
proof (intro allI conjI impI, goal_cases)
  case (1 s) then show ?case using assms by (simp add: writes_def)
next
  case (2 s A)
  then obtain s1 where 1: "f s = Some s1" "se_alignOffset s1 = se_alignOffset s"
      "if se_flag s1 then holds s1 (A @ w (se_alignOffset s)) else broken s1"
    using assms(1) unfolding writes_def by blast
  show ?case
  proof (cases "se_flag s1")
    case True
    then obtain s2 where "g s1 = Some s2" "se_alignOffset s2 = se_alignOffset s1"
        "if se_flag s2 then holds s2 ((A @ w (se_alignOffset s)) @ v (se_alignOffset s1)) else broken s2"
      using assms(2) 1(3) unfolding writes_def by (metis (no_types, lifting))
    then show ?thesis using 1 by auto
  next
    case False then show ?thesis using 1 assms(2) by (auto simp: writes_def)
  qed
qed

lemma writes_skip: "writes Some (\<lambda>off. [])"
  by (simp add: writes_def)

lemma writes_each: "(\<And>x. x \<in> set xs \<Longrightarrow> writes (put x) (w x)) \<Longrightarrow> writes (put_each put xs) (\<lambda>off. concat (map (\<lambda>x. w x off) xs))"
proof (induction xs)
  case Nil then show ?case using writes_skip by simp
next
  case (Cons x xs)
  then have "writes (\<lambda>s. Option.bind (put x s) (put_each put xs)) (\<lambda>off. w x off @ concat (map (\<lambda>x. w x off) xs))"
    by (intro writes_bind) auto
  then show ?case by simp
qed

section \<open>The state of a deserialiser\<close>

definition de_ok :: "deserializer \<Rightarrow> bool" where
  "de_ok d \<longleftrightarrow> (de_flag d \<longrightarrow> ok_off (de_alignOffset d) \<and> unat (de_len d) < 2 ^ 24 \<and> unat (de_pos d) \<le> unat (de_len d) \<and>
     (case de_buf d of None \<Rightarrow> de_len d = 0 | Some b \<Rightarrow> unat (de_len d) \<le> length b))"

definition rest :: "deserializer \<Rightarrow> u8 list" where
  "rest d = (case de_buf d of None \<Rightarrow> [] | Some b \<Rightarrow> drop (unat (de_pos d)) (take (unat (de_len d)) b))"

definition safe_get :: "(deserializer \<Rightarrow> ('a \<times> deserializer) option) \<Rightarrow> bool" where
  "safe_get g \<longleftrightarrow> (\<forall>d. de_ok d \<longrightarrow> (\<exists>x d'. g d = Some (x, d') \<and> de_ok d' \<and> (de_flag d' \<longrightarrow> de_flag d)))"

definition recovers :: "(deserializer \<Rightarrow> ('a \<times> deserializer) option) \<Rightarrow> (u64 \<Rightarrow> u8 list) \<Rightarrow> 'a \<Rightarrow> bool" where
  "recovers g w x \<longleftrightarrow> (\<forall>d r. de_ok d \<and> de_flag d \<and> rest d = w (de_alignOffset d) @ r \<longrightarrow>
     (\<exists>d'. g d = Some (x, d') \<and> de_flag d' \<and> de_ok d' \<and> de_alignOffset d' = de_alignOffset d \<and> rest d' = r))"

lemma length_rest: "de_ok d \<Longrightarrow> de_flag d \<Longrightarrow> length (rest d) = unat (de_len d) - unat (de_pos d)"
  by (auto simp: de_ok_def rest_def split: option.splits)

lemma de_fail_simps [simp]: "de_alignOffset (de_fail d) = de_alignOffset d" "\<not> de_flag (de_fail d)" "de_ok (de_fail d)"
    "de_buf (de_fail d) = de_buf d"
  by (simp_all add: de_fail_def de_ok_def)

lemma de_ok_failed: "\<not> de_flag d \<Longrightarrow> de_ok d"
  by (simp add: de_ok_def)

lemma checkValid_cases:
  assumes "de_ok d" and "unat n < 2 ^ 30" and "unat n \<noteq> 0"
  shows "checkValid n d = (if \<not> de_flag d then (False, d) else if unat n \<le> length (rest d) then (True, d) else (False, de_fail d))"
proof -
  have "n \<noteq> 0" using assms(3) by auto
  moreover have "de_pos d + n > de_len d \<longleftrightarrow> unat n > length (rest d)" if "de_flag d"
  proof -
    have b: "unat (de_pos d) \<le> unat (de_len d)" "unat (de_len d) < 2 ^ 24" using assms(1) that by (simp_all add: de_ok_def)
    have "unat (de_pos d + n) = unat (de_pos d) + unat n" using b assms(2) by (simp add: unat_word_ariths(1))
    then show ?thesis using b length_rest [OF assms(1) that] by (simp add: word_less_nat_alt) linarith
  qed
  ultimately show ?thesis by (auto simp: checkValid_def)
qed

lemma load_rest:
  assumes "de_ok d" and "de_flag d" and "n \<noteq> 0" and "k + n \<le> length (rest d)"
  shows "load (de_buf d) (unat (de_pos d) + k) n = Some (take n (drop k (rest d)))"
proof -
  obtain b where b: "de_buf d = Some b" using assms by (cases "de_buf d") (auto simp: rest_def)
  have "unat (de_len d) \<le> length b" "unat (de_pos d) \<le> unat (de_len d)" using assms(1,2) b by (auto simp: de_ok_def)
  then show ?thesis using assms(3,4) length_rest [OF assms(1,2)]
    by (auto simp: load_def b rest_def take_drop add.commute min_def)
qed

definition moved :: "nat \<Rightarrow> deserializer \<Rightarrow> deserializer \<Rightarrow> bool" where
  "moved k d d' \<longleftrightarrow> de_buf d' = de_buf d \<and> de_len d' = de_len d \<and> de_flag d' = de_flag d \<and> de_alignOffset d' = de_alignOffset d \<and>
     unat (de_pos d') = unat (de_pos d) + k"

lemma moved_ok:
  assumes "de_ok d" and "de_flag d" and "k \<le> length (rest d)" and "moved k d d'"
  shows "de_ok d' \<and> rest d' = drop k (rest d)"
proof -
  have "unat (de_pos d) + k \<le> unat (de_len d)" using length_rest [OF assms(1,2)] assms(1,2,3) by (auto simp: de_ok_def)
  then show ?thesis using assms by (auto simp: moved_def de_ok_def rest_def add.commute split: option.splits)
qed

lemma moved_pos:
  assumes "de_ok d" and "de_flag d" and "unat n < 2 ^ 30"
  shows "moved (unat n) d (d\<lparr>de_pos := de_pos d + n\<rparr>)"
proof -
  have "unat (de_pos d) < 2 ^ 24" using assms(1,2) by (auto simp: de_ok_def)
  then show ?thesis using assms(3) by (simp add: moved_def unat_word_ariths(1))
qed

lemma read_head_rest:
  assumes "de_ok d" and "de_flag d" and "4 \<le> length (rest d)"
  shows "read_head t d = Some (len_of_head t (of_nat (le_nat (take 4 (rest d)))))"
  using load_rest [OF assms(1,2), of 4 0] assms(3) by (simp add: read_head_def)

lemma take_head: "take 4 (pad off (le_bytes 4 v) @ r) = le_bytes 4 v"
  by (simp add: pad_def)

lemma le_nat_less: "le_nat bs < 256 ^ length bs"
proof (induction bs)
  case (Cons b bs)
  have "unat b < 256" using unsigned_less [of b, where ?'a = nat] by simp
  with Cons show ?case by simp
qed simp

lemma len_of_head_less: "len_of_head t h = Some n \<Longrightarrow> unat n < 2 ^ 24"
proof -
  assume "len_of_head t h = Some n"
  then have n: "n = h AND mask 24"
    by (auto simp: len_of_head_def LEN_CTRL_MASK_def LEN_CTRL_OFFSET_def mask_eq_exp_minus_1 push_bit_eq_mult split: if_splits)
  have "n = take_bit 24 h" by (simp only: n take_bit_eq_mask)
  then have "unat n = unat h mod 2 ^ 24"
    by (simp only: unsigned_take_bit_eq take_bit_eq_mod [where ?'a = nat])
  then show ?thesis by simp
qed

lemma small_up: "ok_off off \<Longrightarrow> n < 2 ^ 25 \<Longrightarrow> up off n < 2 ^ 30 \<and> up off 4 \<noteq> 0 \<and> up off 4 < 2 ^ 30"
  using up_bounds [of n off] up_bounds [of 4 off] off_le [of off] by auto

lemma de_flag_ok: "de_ok d \<Longrightarrow> de_flag d \<Longrightarrow> ok_off (de_alignOffset d)"
  by (simp add: de_ok_def)

text \<open>What \<open>get\<close> answers, and what it leaves.\<close>

lemma de_get_cases:
  assumes "de_ok d"
  obtains (failed) d1 where "de_get t d = Some (None, d1)" "\<not> de_flag d1"
  | (found) addr len d1 where "de_get t d = Some (Some (addr, len), d1)" "de_flag d" "de_flag d1" "de_ok d1"
      "de_alignOffset d1 = de_alignOffset d" "unat len < 2 ^ 24"
      "up (de_alignOffset d) 4 + up (de_alignOffset d) (unat len) \<le> length (rest d)"
      "rest d1 = drop (up (de_alignOffset d) 4 + up (de_alignOffset d) (unat len)) (rest d)"
      "len_of_head t (of_nat (le_nat (take 4 (rest d)))) = Some (ucast len)"
      "\<And>k. k \<le> unat len \<Longrightarrow> load (de_buf d1) (unat addr) k = Some (take k (drop (up (de_alignOffset d) 4) (rest d)))"
proof (cases "de_flag d")
  case False then show thesis using failed by (simp add: de_get_def checkValid_def)
next
  case f: True
  let ?off = "de_alignOffset d"
  have ok: "ok_off ?off" using de_flag_ok [OF assms f] .
  have u4: "4 \<le> up ?off 4" "up ?off 4 < 2 ^ 30" using up_bounds [of 4 ?off] small_up [OF ok, of 4] by auto
  have cv: "checkValid (align_to ?off 4) d = (if up ?off 4 \<le> length (rest d) then (True, d) else (False, de_fail d))"
    using checkValid_cases [OF assms, of "align_to ?off 4"] f u4 by (simp add: up4 [OF ok])
  show thesis
  proof (cases "up ?off 4 \<le> length (rest d)")
    case False then show thesis using failed cv by (simp add: de_get_def)
  next
    case True
    have rh: "read_head t d = Some (len_of_head t (of_nat (le_nat (take 4 (rest d)))))"
      using read_head_rest [OF assms f] True u4(1) by simp
    show thesis
    proof (cases "len_of_head t (of_nat (le_nat (take 4 (rest d))))")
      case None then show thesis using failed cv True rh by (simp add: de_get_def)
    next
      case (Some n)
      then have n: "unat n < 2 ^ 24" by (rule len_of_head_less)
      then have n': "unat (ucast n :: u64) = unat n" by (simp add: unsigned_ucast_eq take_bit_nat_eq_self)
      have n'': "(ucast (ucast n :: u64) :: u32) = n" by (rule bit_word_eqI) (auto simp: bit_simps)
      define addr where "addr = de_pos d + align_to ?off 4"
      have un: "up ?off (unat n) < 2 ^ 30" using small_up [OF ok, of "unat n"] n by auto
      have al: "unat (align_to ?off (ucast n)) = up ?off (unat n)" using align_to_up [OF ok, of "ucast n"] n n' by simp
      have m1: "moved (up ?off 4) d (d\<lparr>de_pos := addr\<rparr>)"
        using moved_pos [OF assms f, of "align_to ?off 4"] u4(2) by (simp add: addr_def up4 [OF ok])
      note ok1 = moved_ok [OF assms f True m1]
      let ?d2 = "d\<lparr>de_pos := addr + align_to ?off (ucast n)\<rparr>"
      have m2: "moved (up ?off (unat n)) (d\<lparr>de_pos := addr\<rparr>) ?d2"
        using moved_pos [of "d\<lparr>de_pos := addr\<rparr>" "align_to ?off (ucast n)"] ok1 f un by (simp add: al)
      have past: "de_pos ?d2 > de_len ?d2 \<longleftrightarrow> up ?off 4 + up ?off (unat n) > length (rest d)"
      proof -
        have p: "unat (de_pos ?d2) = unat (de_pos d) + up ?off 4 + up ?off (unat n)" using m1 m2 by (simp add: moved_def)
        have "unat (de_pos d) \<le> unat (de_len d)" using assms f by (auto simp: de_ok_def)
        then show ?thesis using p length_rest [OF assms f] by (simp add: word_less_nat_alt) linarith
      qed
      have g: "de_get t d = Some (if de_pos ?d2 > de_len ?d2 then (None, de_fail ?d2) else (Some (addr, ucast n), ?d2))"
        using cv True rh Some by (simp add: de_get_def addr_def Let_def)
      show thesis
      proof (cases "de_pos ?d2 > de_len ?d2")
        case out: True
        show thesis by (rule failed [of "de_fail ?d2"]) (use g out in simp_all)
      next
        case False
        then have fit: "up ?off 4 + up ?off (unat n) \<le> length (rest d)" using past by simp
        then have fit1: "up ?off (unat n) \<le> length (rest (d\<lparr>de_pos := addr\<rparr>))" using ok1 by simp
        note ok2 = moved_ok [OF conjunct1 [OF ok1] _ fit1 m2]
        have ld: "load (de_buf ?d2) (unat addr) k = Some (take k (drop (up ?off 4) (rest d)))" if "k \<le> unat (ucast n :: u64)" for k
        proof (cases "k = 0")
          case True
          obtain b where b: "de_buf d = Some b" using fit u4(1) by (cases "de_buf d") (auto simp: rest_def)
          have "unat addr \<le> length b"
            using m1 fit length_rest [OF assms f] assms f b by (auto simp: moved_def de_ok_def)
          then show ?thesis by (simp add: load_def b True)
        next
          case False
          have "k \<le> length (rest (d\<lparr>de_pos := addr\<rparr>))"
            using that n' fit1 up_bounds [of "unat n" ?off] by linarith
          then show ?thesis using load_rest [OF conjunct1 [OF ok1], of k 0] f False ok1 by simp
        qed
        show thesis
          by (rule found [of addr "ucast n" ?d2]) (use g False f ok1 ok2 n n' n'' fit ld Some in \<open>simp_all add: add.commute\<close>)
      qed
    qed
  qed
qed

lemma de_get_block:
  assumes "de_ok d" and "de_flag d" and "rest d = block (de_alignOffset d) t (length xs) xs @ r" and "length xs < 2 ^ 24"
  obtains addr len d1 where "de_get t d = Some (Some (addr, len), d1)" "de_flag d1" "de_ok d1"
    "de_alignOffset d1 = de_alignOffset d" "unat len = length xs" "rest d1 = r"
    "\<And>k. k \<le> length xs \<Longrightarrow> load (de_buf d1) (unat addr) k = Some (take k xs)"
proof -
  let ?off = "de_alignOffset d"
  have n: "unat (of_nat (length xs) :: u32) = length xs" using assms(4) by (simp add: unat_of_nat)
  have hd: "take 4 (rest d) = le_bytes 4 (unat (head_of t (of_nat (length xs))))"
    using take_head [of ?off _ "pad ?off xs @ r"] by (simp add: assms(3) block_def)
  have loh: "len_of_head t (of_nat (le_nat (take 4 (rest d)))) = Some (of_nat (length xs))"
    using len_of_head [of "of_nat (length xs)" t t] assms(4) n by (simp add: hd le_nat_word)
  have dr: "drop (up ?off 4) (rest d) = pad ?off xs @ r" by (simp add: assms(3) block_def)
  show thesis
  proof (rule de_get_cases [OF assms(1), of t], goal_cases failed found)
    case (failed d1)
    have ok: "ok_off ?off" using de_flag_ok [OF assms(1,2)] .
    have cv: "checkValid (align_to ?off 4) d = (True, d)"
      using checkValid_cases [OF assms(1), of "align_to ?off 4"] assms(2,3) small_up [OF ok, of 4] by (simp add: up4 [OF ok])
    have rh: "read_head t d = Some (Some (of_nat (length xs)))"
      using read_head_rest [OF assms(1,2), of t] loh assms(3) up_bounds [of 4 ?off] by simp
    have al: "unat (align_to ?off (ucast (of_nat (length xs) :: u32))) = up ?off (length xs)"
    proof -
      have "unat (ucast (of_nat (length xs) :: u32) :: u64) = length xs"
        using assms(4) n by (simp add: unsigned_ucast_eq take_bit_nat_eq_self)
      then show ?thesis using align_to_up [OF ok, of "ucast (of_nat (length xs) :: u32)"] assms(4) by simp
    qed
    let ?d2 = "d\<lparr>de_pos := de_pos d + align_to ?off 4 + align_to ?off (ucast (of_nat (length xs) :: u32))\<rparr>"
    have "unat (de_pos ?d2) \<le> unat (de_len d)"
    proof -
      have p: "unat (de_pos d) \<le> unat (de_len d)" "unat (de_len d) < 2 ^ 24" using assms(1,2) by (auto simp: de_ok_def)
      have l: "unat (de_pos d) + (up ?off 4 + up ?off (length xs)) \<le> unat (de_len d)"
        using length_rest [OF assms(1,2)] p assms(3) by simp
      have "unat (de_pos d + align_to ?off 4) = unat (de_pos d) + up ?off 4"
        using l p by (simp add: unat_word_ariths(1) up4 [OF ok])
      then have "unat (de_pos ?d2) = unat (de_pos d) + up ?off 4 + up ?off (length xs)"
        using l p by (simp add: unat_word_ariths(1) al)
      then show ?thesis using l by simp
    qed
    then have "\<not> de_pos ?d2 > de_len d" by (simp add: word_less_nat_alt)
    then have "fst (the (de_get t d)) \<noteq> None" using cv rh by (simp add: de_get_def Let_def)
    then show ?case using failed by simp
  next
    case (found addr len d1)
    then have len: "unat len = length xs"
    proof -
      have "ucast len = (of_nat (length xs) :: u32)" using found(9) loh by simp
      then have "unat (ucast len :: u32) = length xs" using n by simp
      then show ?thesis using found(6) by (simp add: unsigned_ucast_eq take_bit_nat_eq_self)
    qed
    have "rest d1 = r" using found(8) len by (simp add: assms(3))
    moreover have "load (de_buf d1) (unat addr) k = Some (take k xs)" if "k \<le> length xs" for k
    proof -
      have "take k (drop (up ?off 4) (rest d)) = take k xs" using that by (simp add: dr pad_def)
      then show ?thesis using found(10) [of k] that len by simp
    qed
    ultimately show ?case by (rule that [OF found(1,3,4,5) len])
  qed
qed

end
