(* ===== verification/SerialCodec.thy ===== *)
theory SerialCodec
  imports SerialLaws
begin

text \<open>
  The contract between writing and reading a type, its instances for the types the serialiser
  supports, and what follows for whole messages.
\<close>

section \<open>Reading operations\<close>

lemma safe_getI: "(\<And>d. de_ok d \<Longrightarrow> \<exists>x d'. g d = Some (x, d') \<and> de_ok d' \<and> (de_flag d' \<longrightarrow> de_flag d)) \<Longrightarrow> safe_get g"
  by (simp add: safe_get_def)

lemma safe_bind: "safe_get g \<Longrightarrow> (\<And>x. safe_get (h x)) \<Longrightarrow> safe_get (\<lambda>d. Option.bind (g d) (\<lambda>(x, d1). h x d1))"
  unfolding safe_get_def by (fastforce simp: bind_eq_Some_conv)

lemma safe_return: "safe_get (\<lambda>d. Some (x, d))"
  by (simp add: safe_get_def)

lemma recovers_bind:
  assumes "recovers g w x" and "recovers (h x) v y"
  shows "recovers (\<lambda>d. Option.bind (g d) (\<lambda>(x, d1). h x d1)) (\<lambda>off. w off @ v off) y"
  unfolding recovers_def
proof (intro allI impI, goal_cases)
  case (1 d r)
  then obtain d1 where "g d = Some (x, d1)" "de_flag d1" "de_ok d1" "de_alignOffset d1 = de_alignOffset d"
      "rest d1 = v (de_alignOffset d) @ r"
    using assms(1) unfolding recovers_def by (metis append_assoc)
  then show ?case using assms(2) unfolding recovers_def by (metis bind.bind_lunit case_prod_conv)
qed

lemma recovers_bind_return:
  "recovers g w x \<Longrightarrow> recovers (\<lambda>d. Option.bind (g d) (\<lambda>(x, d1). Some (f x, d1))) w (f x)"
  unfolding recovers_def by (metis (mono_tags, lifting) bind.bind_lunit case_prod_conv)

lemma recovers_return: "recovers (\<lambda>d. Some (x, d)) (\<lambda>off. []) x"
  by (simp add: recovers_def)

lemma safe_map: "safe_get g \<Longrightarrow> (\<And>x d. snd (f (x, d)) = d) \<Longrightarrow> safe_get (\<lambda>d. map_option f (g d))"
  unfolding safe_get_def by (metis (no_types, lifting) option.simps(9) prod.collapse)

lemma recovers_map:
  assumes "recovers g w x" and "\<And>d. de_flag d \<Longrightarrow> f (x, d) = (y, d)"
  shows "recovers (\<lambda>d. map_option f (g d)) w y"
  using assms unfolding recovers_def by (metis (no_types, lifting) option.simps(9))

lemma le_word: "n < 256 ^ k \<Longrightarrow> le_nat (le_bytes k n) = n"
  by (simp add: le_nat_le_bytes)

lemma get_base_cases:
  assumes "de_ok d"
  obtains (failed) d1 where "get_base t old d = Some (old, d1)" "\<not> de_flag d1"
    "\<not> (de_flag d \<and> up (de_alignOffset d) 4 + up (de_alignOffset d) (sizeof t) \<le> length (rest d) \<and>
      len_of_head (GetTypeId t) (of_nat (le_nat (take 4 (rest d)))) = Some (of_nat (sizeof t)))"
  | (found) d1 where "get_base t old d = Some (take (sizeof t) (drop (up (de_alignOffset d) 4) (rest d)), d1)" "de_flag d" "de_flag d1"
      "de_ok d1" "de_alignOffset d1 = de_alignOffset d"
      "rest d1 = drop (up (de_alignOffset d) 4 + up (de_alignOffset d) (sizeof t)) (rest d)"
proof (cases "de_flag d")
  case False then show thesis using failed by (simp add: get_base_def checkValid_def)
next
  case f: True
  let ?off = "de_alignOffset d" and ?sz = "of_nat (sizeof t) :: u64"
  have off: "ok_off ?off" using de_flag_ok [OF assms f] .
  have sum: "unat (align_to ?off 4 + align_to ?off ?sz) = up ?off 4 + up ?off (sizeof t)"
    using sum_align [OF off, of ?sz] sizeof_bounds [of t] by simp
  have sm: "up ?off 4 + up ?off (sizeof t) < 2 ^ 30" "up ?off 4 \<noteq> 0" "4 \<le> up ?off 4" "sizeof t \<le> up ?off (sizeof t)"
    using up_bounds [of 4 ?off] up_bounds [of "sizeof t" ?off] off_le [OF off] sizeof_bounds [of t] by auto
  have cv: "checkValid (align_to ?off 4 + align_to ?off ?sz) d =
      (if up ?off 4 + up ?off (sizeof t) \<le> length (rest d) then (True, d) else (False, de_fail d))"
    using checkValid_cases [OF assms, of "align_to ?off 4 + align_to ?off ?sz"] f sm by (simp add: sum)
  show thesis
  proof (cases "up ?off 4 + up ?off (sizeof t) \<le> length (rest d)")
    case False
    show thesis by (rule failed [of "de_fail d"]) (use cv False in \<open>simp_all add: get_base_def\<close>)
  next
    case fit: True
    have rh: "read_head (GetTypeId t) d = Some (len_of_head (GetTypeId t) (of_nat (le_nat (take 4 (rest d)))))"
      using read_head_rest [OF assms f] fit sm by simp
    show thesis
    proof (cases "len_of_head (GetTypeId t) (of_nat (le_nat (take 4 (rest d)))) = Some (of_nat (sizeof t))")
      case False
      show thesis by (rule failed [of "de_fail d"]) (use cv fit rh False in \<open>simp_all add: get_base_def\<close>)
    next
      case True
      define d1 where "d1 = d\<lparr>de_pos := de_pos d + align_to ?off 4\<rparr>"
      define d2 where "d2 = d1\<lparr>de_pos := de_pos d1 + align_to ?off ?sz\<rparr>"
      have m1: "moved (up ?off 4) d d1"
        using moved_pos [OF assms f, of "align_to ?off 4"] sm by (simp add: up4 [OF off] d1_def)
      have ok1: "de_ok d1" "rest d1 = drop (up ?off 4) (rest d)" using moved_ok [OF assms f _ m1] fit by auto
      have f1: "de_flag d1" "de_alignOffset d1 = ?off" "de_buf d1 = de_buf d" using f by (simp_all add: d1_def)
      have al: "unat (align_to ?off ?sz) = up ?off (sizeof t)" using align_to_up [OF off, of ?sz] sizeof_bounds [of t] by simp
      have m2: "moved (up ?off (sizeof t)) d1 d2"
        using moved_pos [OF ok1(1) f1(1), of "align_to ?off ?sz"] sm by (simp add: al d2_def)
      have ok2: "de_ok d2 \<and> rest d2 = drop (up ?off (sizeof t)) (rest d1)"
        by (rule moved_ok [OF ok1(1) f1(1) _ m2]) (use fit ok1(2) in simp)
      have "sizeof t \<le> length (rest d1)" using ok1(2) fit sm by simp
      then have ld: "load (de_buf d1) (unat (de_pos d1)) (sizeof t) = Some (take (sizeof t) (drop (up ?off 4) (rest d)))"
        using load_rest [OF ok1(1) f1(1), of "sizeof t" 0] sizeof_bounds [of t] by (simp add: ok1(2))
      have g: "get_base t old d = Some (take (sizeof t) (drop (up ?off 4) (rest d)), d2)"
        unfolding get_base_def cv using fit True ld by (simp add: rh Let_def d2_def d1_def)
      show thesis
        by (rule found [OF g f]) (use ok2 ok1 f1 in \<open>simp_all add: d2_def add.commute\<close>)
    qed
  qed
qed

lemma get_array_len_cases:
  assumes "de_ok d"
  obtains (failed) d1 where "get_array_len d = Some (0, d1)" "\<not> de_flag d1"
    "\<not> (de_flag d \<and> up (de_alignOffset d) 4 \<le> length (rest d) \<and>
      len_of_head ARRAY_CTRL_CODE (of_nat (le_nat (take 4 (rest d)))) \<noteq> None)"
  | (found) n d1 where "get_array_len d = Some (ucast n, d1)" "de_flag d" "de_flag d1" "unat n < 2 ^ 24"
      "len_of_head ARRAY_CTRL_CODE (of_nat (le_nat (take 4 (rest d)))) = Some n"
      "de_ok d1" "de_alignOffset d1 = de_alignOffset d" "rest d1 = drop (up (de_alignOffset d) 4) (rest d)"
proof (cases "de_flag d")
  case False then show thesis using failed by (simp add: get_array_len_def checkValid_def)
next
  case f: True
  let ?off = "de_alignOffset d"
  have off: "ok_off ?off" using de_flag_ok [OF assms f] .
  have sm: "up ?off 4 < 2 ^ 30" "up ?off 4 \<noteq> 0" "4 \<le> up ?off 4" using up_bounds [of 4 ?off] small_up [OF off, of 4] by auto
  have cv: "checkValid (align_to ?off 4) d = (if up ?off 4 \<le> length (rest d) then (True, d) else (False, de_fail d))"
    using checkValid_cases [OF assms, of "align_to ?off 4"] f sm by (simp add: up4 [OF off])
  show thesis
  proof (cases "up ?off 4 \<le> length (rest d)")
    case False
    show thesis by (rule failed [of "de_fail d"]) (use cv False in \<open>simp_all add: get_array_len_def\<close>)
  next
    case fit: True
    have rh: "read_head ARRAY_CTRL_CODE d = Some (len_of_head ARRAY_CTRL_CODE (of_nat (le_nat (take 4 (rest d)))))"
      using read_head_rest [OF assms f] fit sm by simp
    show thesis
    proof (cases "len_of_head ARRAY_CTRL_CODE (of_nat (le_nat (take 4 (rest d))))")
      case None
      show thesis by (rule failed [of "de_fail d"]) (use cv fit rh None in \<open>simp_all add: get_array_len_def\<close>)
    next
      case (Some n)
      define d1 where "d1 = d\<lparr>de_pos := de_pos d + align_to ?off 4\<rparr>"
      have m1: "moved (up ?off 4) d d1"
        using moved_pos [OF assms f, of "align_to ?off 4"] sm by (simp add: up4 [OF off] d1_def)
      have ok1: "de_ok d1" "rest d1 = drop (up ?off 4) (rest d)" using moved_ok [OF assms f _ m1] fit by auto
      have g: "get_array_len d = Some (ucast n, d1)"
        unfolding get_array_len_def cv using fit rh by (simp add: Some d1_def)
      show thesis
        by (rule found [OF g f _ len_of_head_less [OF Some] Some ok1(1) _ ok1(2)]) (use f in \<open>simp_all add: d1_def\<close>)
    qed
  qed
qed

lemma safe_base: "safe_get (get_base t old)"
proof (rule safe_getI)
  fix d assume ok: "de_ok d"
  show "\<exists>x d'. get_base t old d = Some (x, d') \<and> de_ok d' \<and> (de_flag d' \<longrightarrow> de_flag d)"
    by (rule get_base_cases [OF ok, of t old]) (auto simp: de_ok_failed)
qed

lemma safe_array_len: "safe_get get_array_len"
proof (rule safe_getI)
  fix d assume ok: "de_ok d"
  show "\<exists>x d'. get_array_len d = Some (x, d') \<and> de_ok d' \<and> (de_flag d' \<longrightarrow> de_flag d)"
    by (rule get_array_len_cases [OF ok]) (auto simp: de_ok_failed)
qed

lemma recovers_base: "recovers (get_base t old) (\<lambda>off. block off (GetTypeId t) (sizeof t) v) v" if v: "length v = sizeof t"
  unfolding recovers_def
proof (intro allI impI, elim conjE, goal_cases)
  case (1 d r)
  let ?off = "de_alignOffset d"
  have hd: "take 4 (rest d) = le_bytes 4 (unat (head_of (GetTypeId t) (of_nat (sizeof t))))"
    using take_head [of ?off _ "pad ?off v @ r"] by (simp add: 1(3) block_def)
  have loh: "len_of_head (GetTypeId t) (of_nat (le_nat (take 4 (rest d)))) = Some (of_nat (sizeof t))"
    using len_of_head [of "of_nat (sizeof t)" "GetTypeId t" "GetTypeId t"] sizeof_bounds [of t] by (simp add: hd le_nat_word)
  show ?case
  proof (rule get_base_cases [OF 1(1), of t old], goal_cases failed found)
    case (failed d1) then show ?case using 1(2) loh by (simp add: 1(3) v)
  next
    case (found d1)
    have "take (sizeof t) (drop (up ?off 4) (rest d)) = v"
      using v up_bounds [of "sizeof t" ?off] by (simp add: 1(3) block_def) (simp add: pad_def)
    then show ?case using found by (simp add: 1(3) v)
  qed
qed

lemma recovers_array_len:
  "recovers get_array_len (\<lambda>off. pad off (le_bytes 4 (unat (head_of ARRAY_CTRL_CODE (ucast n))))) n" if n: "unat n < 2 ^ 24"
  unfolding recovers_def
proof (intro allI impI, elim conjE, goal_cases)
  case (1 d r)
  have un: "unat (ucast n :: u32) = unat n" using n by (simp add: unsigned_ucast_eq take_bit_nat_eq_self)
  have hd: "take 4 (rest d) = le_bytes 4 (unat (head_of ARRAY_CTRL_CODE (ucast n)))" by (simp only: 1(3) take_head)
  have loh: "len_of_head ARRAY_CTRL_CODE (of_nat (le_nat (take 4 (rest d)))) = Some (ucast n)"
    using len_of_head [of "ucast n" ARRAY_CTRL_CODE ARRAY_CTRL_CODE] n un by (simp add: hd le_nat_word)
  have u: "(ucast (ucast n :: u32) :: u64) = n"
  proof -
    have "unat (ucast (ucast n :: u32) :: u64) = unat n"
      by (subst unsigned_ucast_eq) (use n un in \<open>simp add: take_bit_nat_eq_self\<close>)
    then show ?thesis by (rule word_unat_eq_iff [THEN iffD2])
  qed
  show ?case
  proof (rule get_array_len_cases [OF 1(1)], goal_cases failed found)
    case (failed d1) then show ?case using 1(2) loh by (simp add: 1(3))
  next
    case (found m d1) then show ?case using loh u by (simp add: 1(3))
  qed
qed

lemma get_safeI:
  assumes "\<And>r d1. de_ok d1 \<Longrightarrow> (r = None \<Longrightarrow> \<not> de_flag d1) \<Longrightarrow>
      (\<And>addr len. r = Some (addr, len) \<Longrightarrow> \<forall>k \<le> unat len. load (de_buf d1) (unat addr) k \<noteq> None) \<Longrightarrow>
      \<exists>x d'. h (r, d1) = Some (x, d') \<and> de_ok d' \<and> (de_flag d' \<longrightarrow> de_flag d1)"
  shows "safe_get (\<lambda>d. Option.bind (de_get t d) h)"
proof (rule safe_getI)
  fix d assume ok: "de_ok d"
  show "\<exists>x d'. Option.bind (de_get t d) h = Some (x, d') \<and> de_ok d' \<and> (de_flag d' \<longrightarrow> de_flag d)"
  proof (rule de_get_cases [OF ok, of t], goal_cases failed found)
    case (failed d1) then show ?case using assms [of d1 None] de_ok_failed by fastforce
  next
    case (found addr len d1) then show ?case using assms [of d1 "Some (addr, len)"] by force
  qed
qed

lemma block_less:
  assumes "de_ok d" and "de_flag d" and "rest d = block (de_alignOffset d) t n xs @ r"
  shows "length xs < 2 ^ 24"
proof -
  have "length (rest d) < 2 ^ 24" using length_rest [OF assms(1,2)] assms(1,2) by (auto simp: de_ok_def)
  moreover have "length xs \<le> length (rest d)" using up_bounds [of "length xs" "de_alignOffset d"] by (simp add: assms(3))
  ultimately show ?thesis by linarith
qed

lemma recovers_getI:
  assumes "\<And>addr len d1. \<lbrakk> unat len = length xs; length xs < 2 ^ 24; \<And>k. k \<le> length xs \<Longrightarrow> load (de_buf d1) (unat addr) k = Some (take k xs) \<rbrakk> \<Longrightarrow>
      h (Some (addr, len), d1) = Some (x, d1)"
  shows "recovers (\<lambda>d. Option.bind (de_get t d) h) (\<lambda>off. block off t (length xs) xs) x"
  unfolding recovers_def
proof (intro allI impI, elim conjE, goal_cases)
  case (1 d r)
  note l = block_less [OF 1]
  show ?case by (rule de_get_block [OF 1 l]) (use assms l in fastforce)
qed

section \<open>Strings and blocks of memory\<close>

lemma char_byte: "char_of (unat (of_char c :: u8)) = c"
proof -
  have "unat (of_char c :: u8) = of_char c mod 256"
    by (subst of_nat_of_char [symmetric]) (simp add: unat_of_nat del: of_nat_of_char)
  then show ?thesis by simp
qed

lemma bytes_string [simp]: "string_of (bytes_of str) = str"
  by (simp add: string_of_def bytes_of_def o_def char_byte)

lemma unat_Suc_length: "length xs < 2 ^ 63 \<Longrightarrow> unat (of_nat (length xs) + 1 :: u64) = length xs + 1"
  by (simp add: unat_word_ariths(1) unat_of_nat)

lemma safe_string: "safe_get (get_string old)"
  unfolding get_string_def
proof (rule get_safeI, goal_cases)
  case (1 r d1)
  show ?case
  proof (cases r)
    case (Some p)
    obtain addr len where p: "p = (addr, len)" by fastforce
    have "unat (len - 1) \<le> unat len" if "len \<noteq> 0" using that by (simp add: unat_minus_one)
    then have "len \<noteq> 0 \<Longrightarrow> \<exists>bs. load (de_buf d1) (unat addr) (unat (len - 1)) = Some bs" using 1(3) Some p by blast
    then show ?thesis using 1(1) by (auto simp: Some p)
  qed (use 1 in auto)
qed

definition string_wire :: "string \<Rightarrow> u64 \<Rightarrow> u8 list" where
  "string_wire str off = block off STRING_ID (length str + 1) (bytes_of str @ [0])"

lemma recovers_string: "recovers (get_string old) (string_wire str) str"
proof -
  have "recovers (get_string old) (\<lambda>off. block off STRING_ID (length (bytes_of str @ [0])) (bytes_of str @ [0])) str"
    unfolding get_string_def
  proof (rule recovers_getI, goal_cases)
    case (1 addr len d1)
    then have "len \<noteq> 0" by auto
    moreover from this have "unat (len - 1) = length str" using 1(1) by (simp add: unat_minus_one bytes_of_def)
    moreover have "take (length str) (bytes_of str @ [0]) = bytes_of str" by (simp add: bytes_of_def)
    ultimately show ?case using 1(3) [of "length str"] by (simp add: bytes_of_def) (simp flip: bytes_of_def)
  qed
  then show ?thesis unfolding string_wire_def [abs_def] by (simp add: bytes_of_def)
qed

lemma writes_string: "length str < 2 ^ 63 \<Longrightarrow> writes (put_string alloc str) (string_wire str)"
  using writes_add [of "of_nat (length str) + 1" "bytes_of str @ [0]" alloc STRING_ID] unat_Suc_length [of str]
  unfolding put_string_def [abs_def] string_wire_def [abs_def] by (simp add: bytes_of_def)

lemma safe_addr_len: "safe_get (get_addr_len t mem)"
  unfolding get_addr_len_def
proof (rule get_safeI, goal_cases)
  case (1 r d1)
  show ?case
  proof (cases r)
    case (Some p)
    obtain addr len where p: "p = (addr, len)" by fastforce
    obtain bs where "load (de_buf d1) (unat addr) (unat len) = Some bs" using 1(3) Some p by blast
    then show ?thesis using 1(1) by (auto simp: Some p)
  qed (use 1 in auto)
qed

lemma recovers_addr_len:
  "recovers (get_addr_len t mem) (\<lambda>off. block off (GetTypePointerId t) (length xs) xs) xs"
  if "length mem = length xs" and "sizeof t dvd length xs"
  unfolding get_addr_len_def
  by (rule recovers_getI) (use that in \<open>auto simp: mod_eq_0_iff_dvd\<close>)

lemma writes_addr_len:
  "unat (n * of_nat (sizeof t)) = length xs \<Longrightarrow> writes (put_addr_len alloc t (Some xs) n) (\<lambda>off. block off (GetTypePointerId t) (length xs) xs)"
  unfolding put_addr_len_def [abs_def] by (rule writes_add)

lemma safe_alloc: "safe_get (get_alloc alloc t ptr)"
  unfolding get_alloc_def
proof (rule get_safeI, goal_cases)
  case (1 r d1)
  show ?case
  proof (cases r)
    case (Some p)
    obtain addr len where p: "p = (addr, len)" by fastforce
    obtain bs where "load (de_buf d1) (unat addr) (unat len) = Some bs" using 1(3) Some p by blast
    then show ?thesis using 1(1) by (auto simp: Some p)
  qed (use 1 in auto)
qed

lemma safe_c_str: "safe_get (get_c_str alloc str)"
  unfolding get_c_str_def
proof (rule get_safeI, goal_cases)
  case (1 r d1)
  show ?case
  proof (cases r)
    case (Some p)
    obtain addr len where p: "p = (addr, len)" by fastforce
    obtain bs where "load (de_buf d1) (unat addr) (unat len) = Some bs" using 1(3) Some p by blast
    then show ?thesis using 1(1) by (auto simp: Some p)
  qed (use 1 in auto)
qed

section \<open>Vectors of basic values\<close>

definition array_wire :: "nat \<Rightarrow> u64 \<Rightarrow> u8 list" where
  "array_wire n off = pad off (le_bytes 4 (unat (head_of ARRAY_CTRL_CODE (of_nat n))))"

lemma length_array_wire [simp]: "length (array_wire n off) = up off 4"
  by (simp add: array_wire_def)

lemma writes_array: "writes (put_array_len alloc (of_nat n)) (array_wire n)" if "n < 2 ^ 64"
proof -
  have "(ucast (of_nat n :: u64) :: u32) = of_nat n"
    by (rule word_unat_eq_iff [THEN iffD2]) (simp add: unsigned_ucast_eq unat_of_nat take_bit_eq_mod mod_mod_cancel)
  then show ?thesis using writes_array_len [of alloc "of_nat n"] unfolding array_wire_def [abs_def] by simp
qed

lemma recovers_array: "recovers get_array_len (array_wire n) (of_nat n)" if "n < 2 ^ 24"
proof -
  have "unat (of_nat n :: u64) < 2 ^ 24" using that by (simp add: unat_of_nat)
  moreover have "(ucast (of_nat n :: u64) :: u32) = of_nat n"
    by (rule word_unat_eq_iff [THEN iffD2]) (simp add: unsigned_ucast_eq unat_of_nat take_bit_eq_mod mod_mod_cancel)
  ultimately show ?thesis using recovers_array_len [of "of_nat n"] unfolding array_wire_def [abs_def] by simp
qed

lemma rest_less: "de_ok d \<Longrightarrow> de_flag d \<Longrightarrow> length (rest d) < 2 ^ 24"
  using length_rest [of d] by (auto simp: de_ok_def)

definition base_vector_wire :: "ctype \<Rightarrow> u8 list list \<Rightarrow> u64 \<Rightarrow> u8 list" where
  "base_vector_wire t vec off = array_wire (length vec) off @
     (if vec = [] then [] else block off (GetTypePointerId t) (length (concat vec)) (concat vec))"

definition base_vector_fits :: "ctype \<Rightarrow> u8 list list \<Rightarrow> bool" where
  "base_vector_fits t vec \<longleftrightarrow> (\<forall>v \<in> set vec. length v = sizeof t) \<and> length vec < 2 ^ 60"

lemma length_concat_const: "\<forall>v \<in> set vec. length v = n \<Longrightarrow> length (concat vec) = length vec * n"
  by (induction vec) simp_all

lemma chunks_concat: "\<forall>v \<in> set vec. length v = n \<Longrightarrow> chunks n (length vec) (concat vec) = vec"
  by (induction vec) simp_all

lemma writes_base_vector: "base_vector_fits t vec \<Longrightarrow> writes (put_base_vector alloc t vec) (base_vector_wire t vec)"
proof -
  assume f: "base_vector_fits t vec"
  have l: "length (concat vec) = length vec * sizeof t" using f by (simp add: base_vector_fits_def length_concat_const)
  have "unat (of_nat (length vec) :: u64) = length vec" using f by (simp add: base_vector_fits_def unat_of_nat)
  moreover have "length vec * sizeof t < 2 ^ 64"
  proof -
    have "length vec * sizeof t \<le> length vec * 8" using sizeof_bounds [of t] by simp
    also have "\<dots> < 2 ^ 64" using f by (simp add: base_vector_fits_def)
    finally show ?thesis .
  qed
  ultimately have n: "unat (of_nat (length vec) * of_nat (sizeof t) :: u64) = length (concat vec)"
    by (simp add: unat_word_ariths(2) l)
  have 1: "writes (put_array_len alloc (of_nat (length vec))) (array_wire (length vec))"
    by (rule writes_array) (use f in \<open>simp add: base_vector_fits_def\<close>)
  show ?thesis
  proof (cases "vec = []")
    case True
    then show ?thesis using writes_bind [OF 1 writes_skip]
      by (simp add: put_base_vector_def [abs_def] base_vector_wire_def [abs_def])
  next
    case False
    then show ?thesis using writes_bind [OF 1 writes_addr_len [OF n, of alloc]]
      by (simp add: put_base_vector_def [abs_def] base_vector_wire_def [abs_def])
  qed
qed

lemma safe_then_get:
  assumes "\<And>len r d1. de_ok d1 \<Longrightarrow> (r = None \<Longrightarrow> \<not> de_flag d1) \<Longrightarrow>
      (\<And>addr n. r = Some (addr, n) \<Longrightarrow> \<forall>k \<le> unat n. load (de_buf d1) (unat addr) k \<noteq> None) \<Longrightarrow>
      \<exists>x d'. h len (r, d1) = Some (x, d') \<and> de_ok d' \<and> (de_flag d' \<longrightarrow> de_flag d1)"
  shows "safe_get (\<lambda>d. Option.bind (get_array_len d) (\<lambda>(len, d1). if len = 0 then Some (y, d1) else Option.bind (de_get t d1) (h len)))"
proof (rule safe_bind [OF safe_array_len])
  fix len :: u64
  have "safe_get (\<lambda>d1. Option.bind (de_get t d1) (h len))" by (rule get_safeI) (use assms in blast)
  then show "safe_get (\<lambda>d1. if len = 0 then Some (y, d1) else Option.bind (de_get t d1) (h len))"
    using safe_return [of y] by (cases "len = 0") (simp_all only: if_True if_False simp_thms)
qed

lemma recovers_then_get:
  assumes "n < 2 ^ 24" and "n = 0 \<Longrightarrow> y = x" and "n \<noteq> 0 \<Longrightarrow> recovers (\<lambda>d1. Option.bind (de_get t d1) (h (of_nat n))) w x"
  shows "recovers (\<lambda>d. Option.bind (get_array_len d) (\<lambda>(len, d1). if len = 0 then Some (y, d1) else Option.bind (de_get t d1) (h len)))
    (\<lambda>off. array_wire n off @ (if n = 0 then [] else w off)) x"
proof -
  have z: "(of_nat n :: u64) = 0 \<longleftrightarrow> n = 0" using assms(1) by (simp add: word_unat_eq_iff unat_of_nat)
  have "recovers (\<lambda>d1. if (of_nat n :: u64) = 0 then Some (y, d1) else Option.bind (de_get t d1) (h (of_nat n)))
      (\<lambda>off. if n = 0 then [] else w off) x"
  proof (cases "n = 0")
    case True
    show ?thesis unfolding z if_P [OF True] assms(2) [OF True] by (rule recovers_return)
  next
    case False
    show ?thesis unfolding z if_not_P [OF False] by (rule assms(3) [OF False])
  qed
  then show ?thesis by (rule recovers_bind [OF recovers_array [OF assms(1)]])
qed

lemma recovers_short:
  assumes "length (w 0) < 2 ^ 24 \<or> (\<exists>off. ok_off off \<and> length (w off) < 2 ^ 24) \<Longrightarrow> recovers g w x"
  shows "recovers g w x"
  unfolding recovers_def
proof (intro allI impI, elim conjE, goal_cases)
  case (1 d r)
  then have "length (w (de_alignOffset d)) < 2 ^ 24" using rest_less [OF 1(1,2)] by simp
  then have "recovers g w x" using assms de_flag_ok [OF 1(1,2)] by blast
  then show ?case using 1 unfolding recovers_def by blast
qed

lemma safe_base_vector: "safe_get (get_base_vector t old)"
  unfolding get_base_vector_def
proof (rule safe_then_get, goal_cases)
  case (1 len r d1)
  show ?case
  proof (cases r)
    case (Some p)
    obtain addr n where p: "p = (addr, n)" by fastforce
    have "\<exists>bs. load (de_buf d1) (unat addr) (unat len * sizeof t) = Some bs" if "unat n mod sizeof t = 0" "unat n div sizeof t = unat len"
    proof -
      have "unat len * sizeof t \<le> unat n" using that by (metis div_times_less_eq_dividend)
      then show ?thesis using 1(3) [of addr n] Some p by blast
    qed
    then show ?thesis using 1(1) by (auto simp: Some p)
  qed (use 1 in auto)
qed

lemma recovers_base_vector: "base_vector_fits t vec \<Longrightarrow> recovers (get_base_vector t old) (base_vector_wire t vec) vec"
proof -
  assume f: "base_vector_fits t vec"
  have l: "length (concat vec) = length vec * sizeof t" using f by (simp add: base_vector_fits_def length_concat_const)
  have sz: "length vec \<le> length (concat vec)" using sizeof_bounds [of t] by (simp add: l)
  show ?thesis
  proof (rule recovers_short)
    assume "length (base_vector_wire t vec 0) < 2 ^ 24 \<or> (\<exists>off. ok_off off \<and> length (base_vector_wire t vec off) < 2 ^ 24)"
    then obtain off where "length (base_vector_wire t vec off) < 2 ^ 24" by blast
    then have "length (concat vec) < 2 ^ 24"
      using up_bounds [of "length (concat vec)" off] by (auto simp: base_vector_wire_def split: if_splits)
    then have n: "length vec < 2 ^ 24" using sz by linarith
    have "recovers (get_base_vector t old)
        (\<lambda>off. array_wire (length vec) off @ (if length vec = 0 then [] else block off (GetTypePointerId t) (length (concat vec)) (concat vec))) vec"
      unfolding get_base_vector_def
    proof (rule recovers_then_get [OF n], simp, rule recovers_getI, goal_cases)
      case (1 addr len d1)
      have "unat (of_nat (length vec) :: u64) = length vec" using n by (simp add: unat_of_nat)
      moreover have "chunks (sizeof t) (length vec) (concat vec) = vec"
        using chunks_concat f unfolding base_vector_fits_def by blast
      moreover have "length vec * sizeof t div sizeof t = length vec" using sizeof_bounds [of t] by simp
      moreover have "len \<noteq> 0" using 1(1,2) sizeof_bounds [of t] by (auto simp: l)
      ultimately show ?case using 1(2) 1(4) [of "length (concat vec)"] by (simp add: l)
    qed
    then show "recovers (get_base_vector t old) (base_vector_wire t vec) vec"
      unfolding base_vector_wire_def [abs_def] by simp
  qed
qed

lemma safe_bool_vector: "safe_get (get_bool_vector old)"
  unfolding get_bool_vector_def
proof (rule safe_then_get, goal_cases)
  case (1 len r d1)
  show ?case
  proof (cases r)
    case (Some p)
    obtain addr n where p: "p = (addr, n)" by fastforce
    have "\<exists>bs. load (de_buf d1) (unat addr) (unat n) = Some bs" using 1(3) [of addr n] Some p by blast
    then show ?thesis using 1(1) by (auto simp: Some p)
  qed (use 1 in auto)
qed

definition bool_vector_wire :: "bool list \<Rightarrow> u64 \<Rightarrow> u8 list" where
  "bool_vector_wire vec off = array_wire (length vec) off @
     (if length vec = 0 then [] else block off BIT_REFERENCE_ID (length vec) (map (\<lambda>b. if b then 1 else 0) vec))"

lemma writes_bool_vector: "length vec < 2 ^ 63 \<Longrightarrow> writes (put_bool_vector alloc vec) (bool_vector_wire vec)"
proof -
  assume l: "length vec < 2 ^ 63"
  have 1: "writes (put_array_len alloc (of_nat (length vec))) (array_wire (length vec))" by (rule writes_array) (use l in simp)
  have n: "unat (of_nat (length vec) :: u64) = length (map (\<lambda>b. if b then 1 else 0 :: u8) vec)" using l by (simp add: unat_of_nat)
  show ?thesis
  proof (cases "vec = []")
    case True
    then show ?thesis using writes_bind [OF 1 writes_skip]
      by (simp add: put_bool_vector_def [abs_def] bool_vector_wire_def [abs_def])
  next
    case False
    then show ?thesis using writes_bind [OF 1 writes_add [OF n, of alloc BIT_REFERENCE_ID]]
      by (simp add: put_bool_vector_def [abs_def] bool_vector_wire_def [abs_def])
  qed
qed

lemma recovers_bool_vector: "recovers (get_bool_vector old) (bool_vector_wire vec) vec"
proof (rule recovers_short)
  let ?bs = "map (\<lambda>b. if b then 1 else 0 :: u8) vec"
  assume "length (bool_vector_wire vec 0) < 2 ^ 24 \<or> (\<exists>off. ok_off off \<and> length (bool_vector_wire vec off) < 2 ^ 24)"
  then obtain off where "length (bool_vector_wire vec off) < 2 ^ 24" by blast
  then have n: "length vec < 2 ^ 24"
    using up_bounds [of "length vec" off] by (auto simp: bool_vector_wire_def split: if_splits)
  have "recovers (get_bool_vector old)
      (\<lambda>off. array_wire (length vec) off @ (if length vec = 0 then [] else block off BIT_REFERENCE_ID (length ?bs) ?bs)) vec"
    unfolding get_bool_vector_def
  proof (rule recovers_then_get [OF n], simp, rule recovers_getI, goal_cases)
    case (1 addr len d1)
    have "unat (of_nat (length vec) :: u64) = length vec" using n by (simp add: unat_of_nat)
    then have "of_nat (length vec) = len" "len \<noteq> 0" using 1(1,2) by (auto simp: word_unat_eq_iff)
    moreover have "map (\<lambda>b. b \<noteq> 0) ?bs = vec" by (induction vec) simp_all
    ultimately show ?case using 1(2) 1(4) [of "length ?bs"] by (simp add: o_def)
  qed
  then show "recovers (get_bool_vector old) (bool_vector_wire vec) vec"
    unfolding bool_vector_wire_def [abs_def] length_map .
qed

section \<open>The contract of a type\<close>

lemma om_put_sorted: "om_ok (m @ (k, v) # m') \<Longrightarrow> om_put k v m = m @ [(k, v)]"
  by (induction m) (auto simp: om_ok_def)

locale codec =
  fixes put :: "(u64 \<Rightarrow> bool) \<Rightarrow> 'a \<Rightarrow> serializer \<Rightarrow> serializer option"
    and get :: "'a \<Rightarrow> deserializer \<Rightarrow> ('a \<times> deserializer) option"
    and wire :: "'a \<Rightarrow> u64 \<Rightarrow> u8 list"
    and fits :: "'a \<Rightarrow> bool"
  assumes put_writes: "fits x \<Longrightarrow> writes (put alloc x) (wire x)"
    and get_safe: "safe_get (get old)"
    and get_recovers: "fits x \<Longrightarrow> recovers (get old) (wire x) x"
    and wire_long: "up off 4 \<le> length (wire x off)"
begin

lemma each_safe: "safe_get (get_each get olds)"
proof (induction olds)
  case Nil then show ?case by (simp add: safe_return)
next
  case (Cons y ys)
  show ?case unfolding get_each.simps by (intro safe_bind get_safe Cons safe_return)
qed

lemma each_recovers: "\<lbrakk> \<forall>x \<in> set xs. fits x; length olds = length xs \<rbrakk> \<Longrightarrow>
    recovers (get_each get olds) (\<lambda>off. concat (map (\<lambda>x. wire x off) xs)) xs"
proof (induction xs arbitrary: olds)
  case Nil then show ?case by (simp add: recovers_return)
next
  case (Cons x xs)
  then obtain y ys where o: "olds = y # ys" "length ys = length xs" by (cases olds) auto
  have "recovers (get_each get (y # ys)) (\<lambda>off. wire x off @ concat (map (\<lambda>x. wire x off) xs) @ []) (x # xs)"
    unfolding get_each.simps
    by (intro recovers_bind [OF get_recovers] recovers_bind [OF Cons.IH] recovers_return) (use Cons.prems o in auto)
  then show ?case by (simp add: o del: get_each.simps)
qed

lemma each_long: "length xs * up off 4 \<le> length (concat (map (\<lambda>x. wire x off) xs))"
proof (induction xs)
  case (Cons x xs) then show ?case using wire_long [of off x] by simp
qed simp

end

definition vector_wire :: "('a \<Rightarrow> u64 \<Rightarrow> u8 list) \<Rightarrow> 'a list \<Rightarrow> u64 \<Rightarrow> u8 list" where
  "vector_wire wire vec off = array_wire (length vec) off @ concat (map (\<lambda>x. wire x off) vec)"

lemma vector_wire_long: "up off 4 \<le> length (vector_wire wire vec off)"
  by (simp add: vector_wire_def)

context codec
begin

lemma vector_writes: "\<lbrakk> \<forall>x \<in> set vec. fits x; length vec < 2 ^ 64 \<rbrakk> \<Longrightarrow>
    writes (put_vector alloc (put alloc) vec) (vector_wire wire vec)"
  unfolding put_vector_def [abs_def] vector_wire_def [abs_def]
  by (intro writes_bind writes_array writes_each put_writes) auto

lemma vector_safe: "safe_get (get_vector get dflt olds)"
  unfolding get_vector_def Let_def
proof (rule safe_bind [OF safe_array_len])
  fix len :: u64
  show "safe_get (\<lambda>d1. if len = 0 then Some ([], d1)
      else if de_align d1 4 = 0 \<or> (de_len d1 - de_pos d1) div de_align d1 4 < len then Some (olds, de_fail d1)
      else get_each get (resize dflt (unat len) olds) d1)"
    using each_safe [of "resize dflt (unat len) olds"] safe_return [of "[]"]
    by (cases "len = 0") (auto simp: safe_get_def)
qed

lemma vector_recovers: "\<forall>x \<in> set vec. fits x \<Longrightarrow> recovers (get_vector get dflt olds) (vector_wire wire vec) vec"
proof (rule recovers_short)
  assume f: "\<forall>x \<in> set vec. fits x"
  assume "length (vector_wire wire vec 0) < 2 ^ 24 \<or> (\<exists>off. ok_off off \<and> length (vector_wire wire vec off) < 2 ^ 24)"
  then obtain off where off: "length (vector_wire wire vec off) < 2 ^ 24" by blast
  have "4 \<le> up off 4" using up_bounds by blast
  then have "length vec * 4 \<le> length (vector_wire wire vec off)"
    using each_long [of vec off] mult_le_mono2 [of 4 "up off 4" "length vec"] unfolding vector_wire_def length_append by linarith
  then have n: "length vec < 2 ^ 24" using off by linarith
  have un: "unat (of_nat (length vec) :: u64) = length vec" using n by (simp add: unat_of_nat)
  show "recovers (get_vector get dflt olds) (vector_wire wire vec) vec"
    unfolding get_vector_def vector_wire_def [abs_def] Let_def
  proof (rule recovers_bind [OF recovers_array [OF n]], unfold recovers_def, intro allI impI, elim conjE, goal_cases)
    case (1 d r)
    show ?case
    proof (cases "vec = []")
      case True then show ?thesis using 1 by simp
    next
      case False
      let ?off = "de_alignOffset d"
      have off: "ok_off ?off" using de_flag_ok [OF 1(1,2)] .
      have p: "unat (de_pos d) \<le> unat (de_len d)" using 1(1,2) by (auto simp: de_ok_def)
      have rem: "unat (de_len d - de_pos d) = length (rest d)"
        using p length_rest [OF 1(1,2)] by (subst unat_sub) (auto simp: word_le_nat_alt)
      have "length vec * up ?off 4 \<le> length (rest d)" using each_long [of vec ?off] by (simp add: 1(3))
      moreover have pos: "0 < up ?off 4" using up_bounds [of 4 ?off] by linarith
      ultimately have "length vec \<le> length (rest d) div up ?off 4" by (simp add: less_eq_div_iff_mult_less_eq)
      then have "\<not> (de_len d - de_pos d) div align_to ?off 4 < of_nat (length vec)"
        by (simp add: word_less_nat_alt unat_div rem up4 [OF off] un del: of_nat_unat)
      moreover have "align_to ?off 4 \<noteq> 0" using pos up4 [OF off] by auto
      moreover have "(of_nat (length vec) :: u64) \<noteq> 0" using False un by (metis length_0_conv unat_0)
      moreover have "length (resize dflt (length vec) olds) = length vec" by (simp add: resize_def)
      then have "\<exists>d'. get_each get (resize dflt (length vec) olds) d = Some (vec, d') \<and> de_flag d' \<and> de_ok d' \<and>
          de_alignOffset d' = ?off \<and> rest d' = r"
        using each_recovers [OF f] 1 unfolding recovers_def by blast
      ultimately show ?thesis by (simp add: un)
    qed
  qed
qed

end

text \<open>The types the operators take one by one; the lists of them follow from the contract.\<close>

interpretation base: codec "\<lambda>alloc. put_base alloc t" "get_base t" "\<lambda>v off. block off (GetTypeId t) (sizeof t) v" "\<lambda>v. length v = sizeof t"
  for t
  by unfold_locales (simp_all add: writes_put_base safe_base recovers_base)

interpretation str: codec put_string get_string string_wire "\<lambda>str. length str < 2 ^ 63"
  by unfold_locales (simp_all add: writes_string safe_string recovers_string string_wire_def)

interpretation base_vector: codec "\<lambda>alloc. put_base_vector alloc t" "get_base_vector t" "base_vector_wire t" "base_vector_fits t" for t
  by unfold_locales (simp_all add: writes_base_vector safe_base_vector recovers_base_vector base_vector_wire_def)

interpretation bool_vector: codec put_bool_vector get_bool_vector bool_vector_wire "\<lambda>vec. length vec < 2 ^ 63"
  by unfold_locales (simp_all add: writes_bool_vector safe_bool_vector recovers_bool_vector bool_vector_wire_def)

text \<open>Integers, by value.\<close>

definition put_int :: "(u64 \<Rightarrow> bool) \<Rightarrow> ctype \<Rightarrow> 'a::len word \<Rightarrow> serializer \<Rightarrow> serializer option" where
  "put_int alloc t v = put_base alloc t (le_bytes (sizeof t) (unat v))"

definition get_int :: "ctype \<Rightarrow> 'a::len word \<Rightarrow> deserializer \<Rightarrow> ('a word \<times> deserializer) option" where
  "get_int t old d = map_option (apfst (\<lambda>bs. of_nat (le_nat bs))) (get_base t (le_bytes (sizeof t) (unat old)) d)"

definition int_wire :: "ctype \<Rightarrow> 'a::len word \<Rightarrow> u64 \<Rightarrow> u8 list" where
  "int_wire t v off = block off (GetTypeId t) (sizeof t) (le_bytes (sizeof t) (unat v))"

lemma le_int: "LENGTH('a) = 8 * sizeof t \<Longrightarrow> of_nat (le_nat (le_bytes (sizeof t) (unat v))) = (v :: 'a::len word)"
proof -
  assume l: "LENGTH('a) = 8 * sizeof t"
  have "(256 :: nat) ^ sizeof t = 2 ^ LENGTH('a)" by (simp add: l power_mult)
  then have "unat v < 256 ^ sizeof t" using unsigned_less [of v, where ?'a = nat] by simp
  then show ?thesis by (simp add: le_word)
qed

lemma recovers_int: "LENGTH('a) = 8 * sizeof t \<Longrightarrow> recovers (get_int t old) (int_wire t v) (v :: 'a::len word)"
  unfolding get_int_def [abs_def] int_wire_def [abs_def]
  by (rule recovers_map [OF recovers_base]) (simp_all add: le_int)

interpretation int: codec "\<lambda>alloc. put_int alloc t" "get_int t" "int_wire t" "\<lambda>_ :: 'a::len word. LENGTH('a) = 8 * sizeof t" for t
proof (unfold_locales, goal_cases)
  case (1 x alloc) then show ?case by (simp add: put_int_def int_wire_def [abs_def] writes_put_base)
next
  case (2 old) then show ?case unfolding get_int_def [abs_def] by (rule safe_map [OF safe_base]) auto
next
  case (3 x old) then show ?case by (rule recovers_int)
next
  case (4 off x) then show ?case by (simp add: int_wire_def)
qed

end
