(* ===== verification/SerialMessage.thy ===== *)
theory SerialMessage
  imports SerialCodec
begin

text \<open>
  Whole messages: what the constructors give, the head \<open>GetBuffer\<close> fills in, what the deserialiser accepts
  of arbitrary bytes, and messages nested in messages.
\<close>

definition started :: "serializer \<Rightarrow> u8 list \<Rightarrow> bool" where
  \<comment> \<open>what was written after the head of the message\<close>
  "started s P \<longleftrightarrow> (\<exists>H. length H = up (se_alignOffset s) 12 \<and> holds s (H @ P))"

lemma started_writes:
  assumes "started s P" and "se_flag s" and "writes f w" and "f s = Some s'" and "se_flag s'"
  shows "started s' (P @ w (se_alignOffset s)) \<and> se_alignOffset s' = se_alignOffset s"
proof -
  obtain H where H: "length H = up (se_alignOffset s) 12" "holds s (H @ P)" using assms(1) by (auto simp: started_def)
  then obtain s1 where "f s = Some s1" "se_alignOffset s1 = se_alignOffset s"
      "if se_flag s1 then holds s1 ((H @ P) @ w (se_alignOffset s)) else broken s1"
    using assms(2,3) unfolding writes_def by blast
  then show ?thesis using assms(4,5) H(1) by (auto simp: started_def)
qed

lemma started_total:
  assumes "started s P" and "se_flag s" and "writes f w"
  obtains s' where "f s = Some s'" "se_alignOffset s' = se_alignOffset s" "if se_flag s' then started s' (P @ w (se_alignOffset s)) else broken s'"
proof -
  obtain H where H: "length H = up (se_alignOffset s) 12" "holds s (H @ P)" using assms(1) by (auto simp: started_def)
  then obtain s1 where "f s = Some s1" "se_alignOffset s1 = se_alignOffset s"
      "if se_flag s1 then holds s1 ((H @ P) @ w (se_alignOffset s)) else broken s1"
    using assms(2,3) unfolding writes_def by blast
  moreover have "if se_flag s1 then started s1 (P @ w (se_alignOffset s)) else broken s1"
    using calculation H(1) by (auto simp: started_def)
  ultimately show thesis using that by blast
qed

lemma new_started:
  assumes "ok_off (se_alignOffset s)" and "unat (se_len s) = up (se_alignOffset s) 12" and "se_len s \<le> se_cap s"
    and "unat (se_cap s) < 2 ^ 24" and "se_flag (new_buffer alloc s)"
  shows "started (new_buffer alloc s) []"
proof -
  have a: "alloc (se_cap s)" using assms(5) by (auto simp: new_buffer_def split: if_splits)
  let ?H = "replicate (up (se_alignOffset s) 12) 0 :: u8 list"
  have le: "up (se_alignOffset s) 12 \<le> unat (se_cap s)" using assms(2,3) by (simp add: word_le_nat_alt)
  have "holds (new_buffer alloc s) ?H"
    using assms(1,2,4) a le up_dvd by (simp add: new_buffer_def holds_def flip: replicate_add)
  then show ?thesis using a by (auto simp: started_def new_buffer_def intro!: exI [of _ ?H])
qed

lemma start_new: "se_flag (UbseSerialization_new alloc) \<Longrightarrow> started (UbseSerialization_new alloc) [] \<and> se_alignOffset (UbseSerialization_new alloc) = 3"
proof -
  assume f: "se_flag (UbseSerialization_new alloc)"
  let ?s = "\<lparr>se_buf = None, se_alignOffset = 3, se_len = align_to 3 12, se_cap = max (align_to 3 INIT_CAPACITY) (align_to 3 12), se_flag = True\<rparr>"
  have n: "UbseSerialization_new alloc = new_buffer alloc ?s" by (simp add: UbseSerialization_new_def Let_def)
  have c: "align_to 3 INIT_CAPACITY = 256" "align_to 3 12 = 12" by (simp_all add: align_to_def INIT_CAPACITY_def)
  have "started (new_buffer alloc ?s) []"
    by (rule new_started) (use f in \<open>simp_all add: c n ok_off_def up_def\<close>)
  then show ?thesis by (simp add: n new_buffer_def)
qed

lemma valid_align: "isValidAlign a \<Longrightarrow> ok_off (ucast a - 1)"
  by (auto simp: isValidAlign_def ok_off_def)

lemma start_align: "se_flag (UbseSerialization_align alloc a) \<Longrightarrow>
    started (UbseSerialization_align alloc a) [] \<and> se_alignOffset (UbseSerialization_align alloc a) = ucast a - 1"
proof -
  assume f: "se_flag (UbseSerialization_align alloc a)"
  then have a: "isValidAlign a" by (auto simp: UbseSerialization_align_def Let_def split: if_splits)
  let ?off = "ucast a - 1 :: u64"
  let ?s = "\<lparr>se_buf = None, se_alignOffset = ?off, se_len = align_to ?off 12, se_cap = max (align_to ?off INIT_CAPACITY) (align_to ?off 12), se_flag = True\<rparr>"
  have n: "UbseSerialization_align alloc a = new_buffer alloc ?s" using a by (simp add: UbseSerialization_align_def Let_def)
  have off: "ok_off ?off" using valid_align [OF a] .
  have "unat (max (align_to ?off INIT_CAPACITY) (align_to ?off 12)) < 2 ^ 24"
    using align_to_up [OF off, of INIT_CAPACITY] align_to_up [OF off, of 12] up_bounds [of 256 ?off] up_bounds [of 12 ?off] off_le [OF off]
    by (auto simp: max_def INIT_CAPACITY_def)
  then have "started (new_buffer alloc ?s) []"
    by (intro new_started) (use f off align_to_up [OF off, of 12] in \<open>simp_all add: n\<close>)
  then show ?thesis by (simp add: n new_buffer_def)
qed

lemma start_cap: "se_flag (UbseSerialization_cap alloc cap a) \<Longrightarrow> unat cap < 2 ^ 32 \<Longrightarrow>
    started (UbseSerialization_cap alloc cap a) [] \<and> se_alignOffset (UbseSerialization_cap alloc cap a) = ucast a - 1"
proof -
  assume f: "se_flag (UbseSerialization_cap alloc cap a)" and cap: "unat cap < 2 ^ 32"
  let ?off = "ucast a - 1 :: u64"
  let ?s = "\<lparr>se_buf = None, se_alignOffset = ?off, se_len = align_to ?off 12, se_cap = align_to ?off cap + align_to ?off 12, se_flag = True\<rparr>"
  have a: "isValidAlign a" and lim: "\<not> se_cap ?s \<ge> MAX_CAPACITY"
    using f by (auto simp: UbseSerialization_cap_def Let_def split: if_splits)
  have n: "UbseSerialization_cap alloc cap a = new_buffer alloc ?s" using a lim by (simp add: UbseSerialization_cap_def Let_def)
  have off: "ok_off ?off" using valid_align [OF a] .
  have "unat (align_to ?off cap + align_to ?off 12) = up ?off (unat cap) + up ?off 12"
    using align_to_up [OF off cap] align_to_up [OF off, of 12] up_bounds [of "unat cap" ?off] up_bounds [of 12 ?off] off_le [OF off] cap
    by (simp add: unat_word_ariths(1))
  moreover have "unat (se_cap ?s) < 2 ^ 24"
    using lim unfolding not_le word_less_nat_alt by (simp add: limits push_bit_eq_mult)
  ultimately have "started (new_buffer alloc ?s) []"
    by (intro new_started) (use f off align_to_up [OF off, of 12] in \<open>simp_all add: n word_le_nat_alt\<close>)
  then show ?thesis by (simp add: n new_buffer_def)
qed

section \<open>The head of a message\<close>

definition head_bytes :: "serializer \<Rightarrow> nat \<Rightarrow> u8 list" where
  "head_bytes s n = le_bytes 4 255 @ le_bytes 4 (unat (se_alignOffset s)) @ le_bytes 4 n"

lemma length_head_bytes [simp]: "length (head_bytes s n) = 12"
  by (simp add: head_bytes_def)

lemma store_front: "length xs \<le> length bs \<Longrightarrow> store 0 xs (Some bs) = Some (Some (xs @ drop (length xs) bs))"
  by (simp add: store_def)

lemma three_codes:
  assumes "12 \<le> length bs"
  obtains b1 b2 where "SetCode 0 x (Some bs) = Some b1" "SetCode 1 y b1 = Some b2"
    "SetCode 2 z b2 = Some (Some (le_bytes 4 (unat x) @ le_bytes 4 (unat y) @ le_bytes 4 (unat z) @ drop 12 bs))"
proof -
  define X Y Z where "X = le_bytes 4 (unat x)" and "Y = le_bytes 4 (unat y)" and "Z = le_bytes 4 (unat z)"
  have l: "length X = 4" "length Y = 4" "length Z = 4" by (simp_all only: X_def Y_def Z_def length_le_bytes)
  show thesis
    by (rule that [of "Some (X @ drop 4 bs)" "Some (X @ Y @ drop 8 bs)"])
      (use assms l in \<open>simp_all add: SetCode_def store_def flip: X_def Y_def Z_def\<close>)
qed

lemma unat_ucast_small: "unat (w :: u64) < 2 ^ 32 \<Longrightarrow> unat (ucast w :: u32) = unat w"
  by (simp add: unsigned_ucast_eq take_bit_nat_eq_self)

lemma GetBuffer_started:
  assumes "started s P"
  obtains bs where "GetBuffer b s = Some (Some bs, if b then s\<lparr>se_flag := False, se_buf := None\<rparr> else s\<lparr>se_buf := Some bs\<rparr>)"
    "take 12 bs = head_bytes s (unat (se_len s))" "drop (up (se_alignOffset s) 12) (take (unat (se_len s)) bs) = P"
    "unat (se_len s) = up (se_alignOffset s) 12 + length P" "unat (se_len s) \<le> length bs"
    "ok_off (se_alignOffset s)" "unat (se_len s) < 2 ^ 24" "unat (se_alignOffset s) + 1 dvd unat (se_len s)"
    "started (s\<lparr>se_buf := Some bs\<rparr>) P"
proof -
  obtain H where H: "length H = up (se_alignOffset s) 12" "holds s (H @ P)" using assms by (auto simp: started_def)
  note h = H(2) [unfolded holds_def]
  let ?Z = "replicate (unat (se_cap s) - length (H @ P)) 0 :: u8 list"
  have H12: "12 \<le> length H" using up_bounds [of 12 "se_alignOffset s"] H(1) by linarith
  let ?hd = "head_bytes s (unat (se_len s))"
  let ?bs = "?hd @ drop 12 (H @ P @ ?Z)"
  have off: "ok_off (se_alignOffset s)" using h by blast
  have l: "unat (se_len s) < 2 ^ 24" "unat (se_len s) = up (se_alignOffset s) 12 + length P" using h H(1) by auto
  have "unat (ucast (se_alignOffset s) :: u32) = unat (se_alignOffset s)" "unat (ucast (se_len s) :: u32) = unat (se_len s)"
    by (rule unat_ucast_small, use off_le [OF off] l in simp)+
  moreover have "unat (ucast HEAD_CTRL_CODE :: u32) = 255" by (simp add: HEAD_CTRL_CODE_def)
  ultimately have u: "unat (ucast HEAD_CTRL_CODE :: u32) = 255" "unat (ucast (se_alignOffset s) :: u32) = unat (se_alignOffset s)"
    "unat (ucast (se_len s) :: u32) = unat (se_len s)" by blast+
  have buf: "se_buf s = Some (H @ P @ ?Z)" using h by simp
  have "12 \<le> length (H @ P @ ?Z)" using H12 by simp
  then obtain b1 b2 where "SetCode 0 (ucast HEAD_CTRL_CODE) (Some (H @ P @ ?Z)) = Some b1" "SetCode 1 (ucast (se_alignOffset s)) b1 = Some b2"
      "SetCode 2 (ucast (se_len s)) b2 = Some (Some ?bs)"
    by (rule three_codes [where x = "ucast HEAD_CTRL_CODE" and y = "ucast (se_alignOffset s)" and z = "ucast (se_len s)", unfolded u])
      (simp only: head_bytes_def append_assoc)
  then have g: "GetBuffer b s = Some (Some ?bs, if b then s\<lparr>se_flag := False, se_buf := None\<rparr> else s\<lparr>se_buf := Some ?bs\<rparr>)"
    by (simp only: GetBuffer_def buf option.case bind.bind_lunit)
  have bs: "?bs = (?hd @ drop 12 H) @ P @ ?Z" using H12 by simp
  have lh: "length (?hd @ drop 12 H) = up (se_alignOffset s) 12" using H(1) H12 by simp
  have ll: "unat (se_len s) = length ((?hd @ drop 12 H) @ P)" using l(2) lh by simp
  show thesis
  proof (rule that [OF g])
    show "take 12 ?bs = ?hd" by simp
    have "drop n (take m (X @ P @ Z)) = P" if "n = length X" "m = length (X @ P)" for n m and X Z :: "u8 list"
      using that by simp
    from this [OF lh [symmetric] ll] show "drop (up (se_alignOffset s) 12) (take (unat (se_len s)) ?bs) = P"
      by (simp only: bs)
    have "holds (s\<lparr>se_buf := Some ?bs\<rparr>) ((?hd @ drop 12 H) @ P)"
      using h H12 H(1) by (simp add: holds_def)
    with lh show "started (s\<lparr>se_buf := Some ?bs\<rparr>) P"
      unfolding started_def by (intro exI [of _ "?hd @ drop 12 H"] conjI) simp_all
    show "unat (se_len s) \<le> length ?bs" using h H12 by simp
    show "unat (se_alignOffset s) + 1 dvd unat (se_len s)" using h by simp
  qed (use off l in simp_all)
qed

lemma le_nat_append: "le_nat (xs @ ys) = le_nat xs + 256 ^ length xs * le_nat ys"
  by (induction xs) (simp_all add: algebra_simps)

lemma GetCode_bytes: "GetCode (Some bs) k = Some w" if "take 4 (drop (4 * k) bs) = le_bytes 4 (unat w)"
proof -
  have "length (take 4 (drop (4 * k) bs)) = 4" by (simp only: that length_le_bytes)
  then have "k * 4 + 4 \<le> length bs" by simp
  then show ?thesis using that le_nat_word [of w] by (simp add: GetCode_def load_def mult.commute)
qed

definition opened :: "serializer \<Rightarrow> deserializer \<Rightarrow> u8 list \<Rightarrow> bool" where
  \<comment> \<open>a deserialiser at the beginning of a message's content\<close>
  "opened s d P \<longleftrightarrow> de_flag d \<and> de_ok d \<and> de_alignOffset d = se_alignOffset s \<and> rest d = P"

lemma de_Set_opens:
  assumes "de_buf d0 = None" and "de_flag d0"
    and "take 12 bs = head_bytes s (unat n)" "drop (up (se_alignOffset s) 12) (take (unat n) bs) = P"
    and n: "unat n = up (se_alignOffset s) 12 + length P" "unat n \<le> length bs" "unat n < 2 ^ 24"
    and off: "ok_off (se_alignOffset s)" "unat (se_alignOffset s) + 1 dvd unat n"
    and "bNew \<Longrightarrow> alloc n"
  shows "\<exists>d. de_Set alloc (Some bs) n bNew d0 = Some (True, d) \<and> opened s d P"
proof -
  let ?off = "se_alignOffset s"
  have n12: "12 \<le> unat n" using n up_bounds [of 12 ?off] by linarith
  have lim: "\<not> n < 4 * 3" "\<not> n \<ge> MAX_CAPACITY"
    using n12 n(3) by (simp_all add: word_less_nat_alt word_le_nat_alt limits push_bit_eq_mult)
  have t: "take 4 (drop (4 * k) bs) = take 4 (drop (4 * k) (head_bytes s (unat n)))" if "k < 3" for k
  proof -
    have "take 4 (drop (4 * k) bs) = take 4 (drop (4 * k) (take 12 bs))" using that by (simp add: drop_take min_def)
    then show ?thesis by (simp add: assms(3))
  qed
  have c0: "GetCode (Some bs) 0 = Some (ucast HEAD_CTRL_CODE)"
    by (rule GetCode_bytes) (use t [of 0] in \<open>simp add: head_bytes_def HEAD_CTRL_CODE_def\<close>)
  have u: "unat (ucast ?off :: u32) = unat ?off" "unat (ucast n :: u32) = unat n"
    by (rule unat_ucast_small, use off_le [OF off(1)] n(3) in simp)+
  have c1: "GetCode (Some bs) 1 = Some (ucast ?off)"
    by (rule GetCode_bytes) (use t [of 1] u in \<open>simp add: head_bytes_def\<close>)
  have c2: "GetCode (Some bs) 2 = Some (ucast n)"
    by (rule GetCode_bytes) (use t [of 2] u in \<open>simp add: head_bytes_def\<close>)
  have w: "(ucast (ucast w :: u32) :: u64) = w" if "unat w < 2 ^ 32" for w :: u64
  proof -
    have "unat (ucast (ucast w :: u32) :: u64) = unat w"
      by (subst unsigned_ucast_eq) (use that unat_ucast_small [OF that] in \<open>simp add: take_bit_nat_eq_self\<close>)
    then show ?thesis by (rule word_unat_eq_iff [THEN iffD2])
  qed
  have w': "(ucast (ucast ?off :: u32) :: u64) = ?off" "(ucast (ucast n :: u32) :: u64) = n"
    by (rule w, use off_le [OF off(1)] n(3) in simp)+
  have va: "isValidAlign (ucast (?off + 1))" using off(1) by (auto simp: isValidAlign_def ok_off_def)
  have "unat (?off + 1) = unat ?off + 1" using off_le [OF off(1)] by (simp add: unat_word_ariths(1))
  then have md: "n mod (?off + 1) = 0" using off(2) by (simp add: word_unat_eq_iff unat_mod mod_eq_0_iff_dvd)
  have al: "unat (align_to ?off 12) = up ?off 12" using align_to_up [OF off(1), of 12] by simp
  have m: "bNew \<Longrightarrow> memcpy_s (Some (replicate (unat n) 0)) 0 n (Some bs) n = Some (True, Some (take (unat n) bs))"
  proof -
    have "n \<noteq> 0" using n12 by auto
    moreover have "\<not> n > 0x7fffffff" using n(3) by (simp add: word_less_nat_alt)
    ultimately show ?thesis using n(2) by (simp add: memcpy_s_def store_def)
  qed
  define d where "d = d0\<lparr>de_alignOffset := ?off, de_buf := Some (if bNew then take (unat n) bs else bs), de_pos := align_to ?off 12, de_len := n, de_owned := bNew\<rparr>"
  have "de_Set alloc (Some bs) n bNew d0 = Some (True, d)"
    using assms(1,10) lim va md m by (cases bNew) (simp_all add: de_Set_def c0 c1 c2 w' Let_def d_def del: One_nat_def)
  moreover have "opened s d P"
    using assms(2,4) n off(1) al by (auto simp: opened_def de_ok_def rest_def d_def)
  ultimately show ?thesis by blast
qed

lemma started_opens:
  assumes "started s P" and "bNew \<Longrightarrow> alloc (se_len s)"
  obtains bs s' d where "GetBuffer b s = Some (Some bs, s')" "UbseDeSerialization_buf alloc (Some bs) (se_len s) bNew = Some d" "opened s d P"
proof (rule GetBuffer_started [OF assms(1), of b], goal_cases)
  case (1 bs)
  have "\<exists>d. de_Set alloc (Some bs) (se_len s) bNew UbseDeSerialization_new = Some (True, d) \<and> opened s d P"
    by (rule de_Set_opens [OF _ _ 1(3) 1(4) 1(5) 1(6) 1(8) 1(7) 1(9)]) (simp_all add: UbseDeSerialization_new_def assms(2))
  then show thesis using that [OF 1(2)] by (auto simp: UbseDeSerialization_buf_def)
qed

context codec
begin

lemma message:
  assumes "started s []" and "se_flag s" and "fits x" and "put alloc x s = Some s1" and "se_flag s1"
    and "bNew \<Longrightarrow> alloc' (se_len s1)"
  shows "\<exists>bs s2 d d'. GetBuffer b s1 = Some (Some bs, s2) \<and> UbseDeSerialization_buf alloc' (Some bs) (se_len s1) bNew = Some d \<and>
    de_flag d \<and> get old d = Some (x, d') \<and> de_flag d' \<and> rest d' = []"
proof -
  have "started s1 (wire x (se_alignOffset s))" "se_alignOffset s1 = se_alignOffset s"
    using started_writes [OF assms(1,2) put_writes [OF assms(3)] assms(4,5)] by simp_all
  then obtain bs s2 d where m: "GetBuffer b s1 = Some (Some bs, s2)" "UbseDeSerialization_buf alloc' (Some bs) (se_len s1) bNew = Some d"
      "opened s1 d (wire x (se_alignOffset s1))"
    using started_opens [of s1 "wire x (se_alignOffset s)" bNew alloc' b] assms(6) by metis
  then have "\<exists>d'. get old d = Some (x, d') \<and> de_flag d' \<and> de_ok d' \<and> de_alignOffset d' = de_alignOffset d \<and> rest d' = []"
    using get_recovers [OF assms(3), of old] unfolding recovers_def opened_def by (metis append_Nil2)
  then show ?thesis using m by (auto simp: opened_def)
qed

end

section \<open>Any bytes\<close>

lemma GetCode_some: "length bs \<ge> 12 \<Longrightarrow> k < 3 \<Longrightarrow> \<exists>w. GetCode (Some bs) k = Some w"
  by (simp add: GetCode_def load_def)

lemma mod_off: "unat off + 1 dvd unat n" if "n mod (off + 1) = 0" and "ok_off off"
proof -
  have "unat (off + 1) = unat off + 1" using off_le [OF that(2)] by (simp add: unat_word_ariths(1))
  then show ?thesis using that(1) by (metis mod_0_imp_dvd unat_mod unsigned_0)
qed

lemma valid_off: "isValidAlign (ucast (ucast (off :: u32) + 1 :: u64)) \<Longrightarrow> ok_off (ucast off)"
proof -
  assume v: "isValidAlign (ucast (ucast off + 1 :: u64))"
  have k: "unat off < 2 ^ 32" using unsigned_less [of off, where ?'a = nat] by simp
  have u: "unat (ucast off :: u64) = unat off" using k by (simp add: unsigned_ucast_eq take_bit_nat_eq_self)
  then have "unat (ucast off + 1 :: u64) = unat off + 1" using k by (simp add: unat_word_ariths(1))
  then have "unat (ucast (ucast off + 1 :: u64) :: u32) = (unat off + 1) mod 2 ^ 32"
    by (simp add: unsigned_ucast_eq take_bit_eq_mod del: of_nat_unat)
  moreover have "unat (ucast (ucast off + 1 :: u64) :: u32) \<in> {1, 2, 4, 8}" using v by (auto simp: isValidAlign_def)
  ultimately have "(unat off + 1) mod 2 ^ 32 \<in> {1, 2, 4, 8}" by simp
  then have "unat off \<in> {0, 1, 3, 7}"
    using k by (cases "unat off + 1 = 2 ^ 32") auto
  then have "unat (ucast off :: u64) \<in> {0, 1, 3, 7}" by (simp only: u)
  then show "ok_off (ucast off)" unfolding ok_off_def by (auto simp: word_unat_eq_iff)
qed

lemma memcpy_whole:
  "\<lbrakk> unat n < 2 ^ 24; 0 < unat n; unat n \<le> length bs \<rbrakk> \<Longrightarrow>
    memcpy_s (Some (replicate (unat n) 0)) 0 n (Some bs) n = Some (True, Some (take (unat n) bs))"
  by (auto simp: memcpy_s_def store_def word_less_nat_alt)

lemma de_Set_safe:
  assumes "\<And>bs. buf = Some bs \<Longrightarrow> unat len \<le> length bs" and "de_ok d"
  shows "\<exists>ok d'. de_Set alloc buf len bNew d = Some (ok, d') \<and> de_ok d' \<and> (de_flag d' \<longrightarrow> ok \<and> de_flag d)"
proof (cases "de_buf d \<noteq> None \<or> buf = None \<or> len < 4 * 3 \<or> len \<ge> MAX_CAPACITY")
  case True then show ?thesis by (auto simp: de_Set_def)
next
  case False
  then obtain bs where bs: "buf = Some bs" by auto
  have n: "12 \<le> unat len" "unat len < 2 ^ 24"
    using False by (simp_all add: word_less_nat_alt word_le_nat_alt limits push_bit_eq_mult)
  have ln: "unat len \<le> length bs" using assms(1) bs by simp
  have "length bs \<ge> 12" using n ln by linarith
  from GetCode_some [OF this, of 0] GetCode_some [OF this, of 1] GetCode_some [OF this, of 2]
  obtain c0 off l where c: "GetCode buf 0 = Some c0" "GetCode buf 1 = Some off" "GetCode buf 2 = Some l"
    by (auto simp: bs)
  show ?thesis
  proof (cases "c0 = ucast HEAD_CTRL_CODE \<and> isValidAlign (ucast (ucast off + 1 :: u64)) \<and> ucast l = len \<and> len mod (ucast off + 1) = 0 \<and> (bNew \<longrightarrow> alloc len)")
    case bad: False
    then show ?thesis using False c by (auto simp: de_Set_def Let_def simp del: One_nat_def)
  next
    case good: True
    then have off: "ok_off (ucast off)" using valid_off by blast
    define own where "own = Some (if bNew then take (unat len) bs else bs)"
    have mc: "bNew \<Longrightarrow> memcpy_s (Some (replicate (unat len) 0)) 0 len buf len = Some (True, own)"
      using memcpy_whole [of len bs] n ln by (simp add: bs own_def)
    let ?d = "d\<lparr>de_alignOffset := ucast off, de_buf := own, de_pos := align_to (ucast off) 12, de_len := len, de_owned := bNew\<rparr>"
    have "de_Set alloc buf len bNew d = Some (True, ?d)"
      using good False c mc by (cases bNew) (simp_all add: de_Set_def Let_def own_def bs del: One_nat_def)
    moreover have "de_ok ?d"
    proof -
      have "unat (align_to (ucast off) 12) = up (ucast off) 12" using align_to_up [OF off, of 12] by simp
      moreover have "up (ucast off) 12 \<le> unat len"
      proof -
        have "unat (ucast off :: u64) + 1 dvd unat len" by (rule mod_off [OF _ off]) (use good in simp)
        then have "up (ucast off) (unat len) = unat len" by (rule up_idem)
        moreover have "up (ucast off) 12 \<le> up (ucast off) (unat len)"
          unfolding up_def by (intro mult_le_mono1 div_le_mono) (use n in simp)
        ultimately show ?thesis by simp
      qed
      ultimately show ?thesis using off n ln by (auto simp: de_ok_def own_def)
    qed
    ultimately show ?thesis by auto
  qed
qed

lemma UbseDeSerialization_buf_safe:
  assumes "\<And>bs. buf = Some bs \<Longrightarrow> unat len \<le> length bs"
  shows "\<exists>d. UbseDeSerialization_buf alloc buf len bNew = Some d \<and> de_ok d"
proof -
  have "de_ok UbseDeSerialization_new" by (simp add: UbseDeSerialization_new_def de_ok_def ok_off_def)
  then show ?thesis
    using de_Set_safe [where buf = buf and len = len and d = UbseDeSerialization_new and alloc = alloc and bNew = bNew, OF assms] by (auto simp: UbseDeSerialization_buf_def)
qed

section \<open>Messages in messages\<close>

definition kid_wire :: "u64 \<Rightarrow> u8 list \<Rightarrow> u8 list \<Rightarrow> bool" where
  \<comment> \<open>the bytes of a whole message with the content \<open>P\<close>\<close>
  "kid_wire koff P xs \<longleftrightarrow> take 12 xs = le_bytes 4 255 @ le_bytes 4 (unat koff) @ le_bytes 4 (length xs) \<and>
     drop (up koff 12) xs = P \<and> length xs = up koff 12 + length P \<and> ok_off koff \<and> unat koff + 1 dvd length xs"

lemma put_kid_holds:
  assumes "se_flag s" and "holds s A" and "se_flag kid" and "started kid P"
  shows "\<exists>s' kid'. put_kid alloc kid s = Some (s', kid') \<and> se_alignOffset s' = se_alignOffset s \<and> started kid' P \<and> se_flag kid' \<and>
    (if se_flag s' then \<exists>xs. kid_wire (se_alignOffset kid) P xs \<and> holds s' (A @ block (se_alignOffset s) NEST_CTRL_CODE (length xs) xs)
     else broken s')"
proof (cases "se_len kid \<ge> ONCE_LIMIT_LEN")
  case True then show ?thesis using assms broken_fail by (auto simp: put_kid_def Let_def)
next
  case False
  let ?off = "se_alignOffset s"
  have off: "ok_off ?off" using assms(2) by (simp add: holds_def)
  have l: "unat (se_len kid) < 2 ^ 16" using False once_limit by (simp add: word_le_nat_alt)
  have sum: "unat (align_to ?off 4 + align_to ?off (se_len kid)) = up ?off 4 + up ?off (unat (se_len kid))"
    using sum_align [OF off, of "se_len kid"] l by simp
  have sm: "unat (align_to ?off 4 + align_to ?off (se_len kid)) < 2 ^ 32" using small_block [OF off, of "unat (se_len kid)"] l sum by simp
  show ?thesis
  proof (rule room [OF assms(2) sm, of alloc], goal_cases full room)
    case (full s1) then show ?thesis using assms False by (auto simp: put_kid_def Let_def broken_def)
  next
    case (room s1)
    show ?thesis
    proof (rule GetBuffer_started [OF assms(4), of False], goal_cases)
      case (1 bs)
      let ?xs = "take (unat (se_len kid)) bs"
      have lx: "length ?xs = unat (se_len kid)" using 1 by simp
      have "kid_wire (se_alignOffset kid) P ?xs"
      proof -
        have "12 \<le> unat (se_len kid)" using 1 up_bounds [of 12 "se_alignOffset kid"] by linarith
        then have "take 12 ?xs = take 12 bs" by (simp add: min_def)
        then show ?thesis using 1 lx by (simp add: kid_wire_def head_bytes_def)
      qed
      moreover have "up (se_alignOffset kid) 12 \<noteq> 0" using up_bounds [of 12 "se_alignOffset kid"] by linarith
      then have "length ?xs \<noteq> 0" using 1 lx by simp
      then obtain s2 where "put_copy NEST_CTRL_CODE (Some bs) (se_len kid) s1 = Some s2" "se_alignOffset s2 = ?off" "se_flag s2"
          "holds s2 (A @ block ?off NEST_CTRL_CODE (length ?xs) ?xs)"
        using put_copy_holds [OF room(2), of ?xs "se_len kid" bs NEST_CTRL_CODE] room sum lx assms(1) by auto
      ultimately show ?thesis
        using assms False 1 room by (auto simp: put_kid_def Let_def)
    qed
  qed
qed

lemma load_bytes: "load (Some b) a n = Some v \<Longrightarrow> a + n \<le> length b \<and> take n (drop a b) = v"
  by (auto simp: load_def split: if_splits)

lemma get_kid_block:
  assumes "de_ok d" and "de_flag d" and "rest d = block (de_alignOffset d) NEST_CTRL_CODE (length xs) xs @ r"
    and "kid_wire (se_alignOffset k) P xs" and "\<forall>n. alloc n" and "de_buf d0 = None" "de_flag d0"
  shows "\<exists>d' kid. get_kid alloc d0 d = Some (d', kid) \<and> de_flag d' \<and> de_ok d' \<and> de_alignOffset d' = de_alignOffset d \<and> rest d' = r \<and>
    opened k kid P"
proof (rule de_get_block [OF assms(1,2,3) block_less [OF assms(1,2,3)]], goal_cases)
  case (1 addr len d1)
  note w = assms(4) [unfolded kid_wire_def]
  obtain b where b: "de_buf d1 = Some b" using 1(7) [of 0] by (cases "de_buf d1") (auto simp: load_def)
  have lb: "unat addr + length xs \<le> length b" "take (length xs) (drop (unat addr) b) = xs"
    using load_bytes [of b "unat addr" "length xs" xs] 1(7) [of "length xs"] b by auto
  let ?bs = "drop (unat addr) b"
  have len: "unat len = length xs" by (rule 1)
  have "12 \<le> length xs" using w up_bounds [of 12 "se_alignOffset k"] by linarith
  then have "take 12 (take (length xs) ?bs) = take 12 ?bs" by (simp only: take_take min_absorb1)
  then have "take 12 xs = take 12 ?bs" by (simp only: lb(2))
  then have t: "take 12 ?bs = head_bytes k (unat len)" using w unfolding head_bytes_def len by metis
  have dvd: "unat (se_alignOffset k) + 1 dvd unat len" using w len by metis
  have "\<exists>d. de_Set alloc (Some ?bs) len True d0 = Some (True, d) \<and> opened k d P"
    by (rule de_Set_opens [OF assms(6,7) t _ _ _ _ _ dvd]) (use w lb len assms(5) block_less [OF assms(1,2,3)] in simp_all)
  then show ?case using 1 b by (auto simp: get_kid_def opened_def)
qed

lemma get_kid_safe:
  assumes "de_ok d" and "de_ok d0"
  shows "\<exists>d' kid. get_kid alloc d0 d = Some (d', kid) \<and> de_ok d' \<and> de_ok kid \<and> (de_flag d' \<longrightarrow> de_flag d)"
proof (rule de_get_cases [OF assms(1), of NEST_CTRL_CODE], goal_cases failed found)
  case (failed d1) then show ?case using assms(2) by (auto simp: get_kid_def de_ok_failed)
next
  case (found addr len d1)
  let ?buf = "map_option (drop (unat addr)) (de_buf d1)"
  have "unat len \<le> length bs" if eq: "?buf = Some bs" for bs
  proof -
    obtain b where b: "de_buf d1 = Some b" "bs = drop (unat addr) b" using eq by auto
    then show ?thesis using load_bytes [of b "unat addr" "unat len"] found(10) [of "unat len"] by fastforce
  qed
  then obtain ok kid where "de_Set alloc ?buf len True d0 = Some (ok, kid)" "de_ok kid"
    using de_Set_safe [where buf = ?buf and len = len and d = d0 and alloc = alloc and bNew = True] assms(2) by blast
  then show ?case using found by (auto simp: get_kid_def)
qed

end
