(* ===== verification/AutoSerial.thy ===== *)
theory AutoSerial
  imports SerialMessage
begin

text \<open>
  The automatic serialisation of registered structures (\<open>framework/misc/ubse_auto_serial_util.hpp\<close>) and the
  messages that carry them (\<open>framework/misc/ubse_auto_simpo.hpp\<close>). A \<open>shape\<close> is a C++ type the templates accept,
  a \<open>field\<close> a value of it; a tuple, an array of constant length and a registered class are the list of their parts (a base
  class first). A hash container is the list of its elements in the order it iterates. The registered types themselves
  are the subject of the theory MemSerial.
\<close>

section \<open>Values\<close>

text \<open>The one type that is packed into sixteen bits (\<open>ubse_mmi_def.h\<close>); a bit field of one bit is a Boolean.\<close>

record UbseMemPrivData =
  onePth :: bool
  wrDelayComp :: bool
  reduceDelayComp :: bool
  cmoDelayComp :: bool
  so :: bool
  adTrOchip :: bool
  cacheableFlag :: bool
  marId :: "3 word"
  rsv0 :: "6 word"

definition pack :: "UbseMemPrivData \<Rightarrow> u16" where
  "pack p = push_bit 0 (of_bool (onePth p)) OR push_bit 1 (of_bool (wrDelayComp p)) OR push_bit 2 (of_bool (reduceDelayComp p))
     OR push_bit 3 (of_bool (cmoDelayComp p)) OR push_bit 4 (of_bool (so p)) OR push_bit 5 (of_bool (adTrOchip p))
     OR push_bit 6 (of_bool (cacheableFlag p)) OR push_bit 7 (ucast (marId p)) OR push_bit 10 (ucast (rsv0 p))"

definition unpack :: "u16 \<Rightarrow> UbseMemPrivData" where
  "unpack v = \<lparr>onePth = (drop_bit 0 v AND 1 \<noteq> 0), wrDelayComp = (drop_bit 1 v AND 1 \<noteq> 0), reduceDelayComp = (drop_bit 2 v AND 1 \<noteq> 0),
     cmoDelayComp = (drop_bit 3 v AND 1 \<noteq> 0), so = (drop_bit 4 v AND 1 \<noteq> 0), adTrOchip = (drop_bit 5 v AND 1 \<noteq> 0),
     cacheableFlag = (drop_bit 6 v AND 1 \<noteq> 0), marId = ucast (drop_bit 7 v AND 7), rsv0 = ucast (drop_bit 10 v AND 0x3F)\<rparr>"

datatype shape =
    S_basic ctype
  | S_string
  | S_enum ctype             \<comment> \<open>with its underlying type\<close>
  | S_raw nat                \<comment> \<open>copied as so many bytes\<close>
  | S_bits                   \<comment> \<open>\<open>UbseMemPrivData\<close>\<close>
  | S_vector shape
  | S_umap shape shape
  | S_uset shape
  | S_members "shape list"

datatype field =
    F_basic "u8 list"
  | F_string string
  | F_enum u32               \<comment> \<open>\<open>static_cast<int>\<close> of the enumerator\<close>
  | F_raw "u8 list"
  | F_bits UbseMemPrivData
  | F_vector "field list"
  | F_umap "(field \<times> field) list"
  | F_uset "field list"
  | F_members "field list"

definition enum_cast :: "ctype \<Rightarrow> u32 \<Rightarrow> u32" where
  \<comment> \<open>\<open>static_cast<T>(int)\<close> for an enumeration with that underlying type, as an \<open>int\<close> again\<close>
  "enum_cast t v = (case t of
      C_unsigned_char \<Rightarrow> ucast (ucast v :: u8)
    | C_signed_char \<Rightarrow> scast (ucast v :: u8)
    | C_unsigned_short \<Rightarrow> ucast (ucast v :: u16)
    | C_short \<Rightarrow> scast (ucast v :: u16)
    | _ \<Rightarrow> v)"

primrec default_of :: "shape \<Rightarrow> field" where
  \<comment> \<open>\<open>T{}\<close>\<close>
  "default_of (S_basic t) = F_basic (replicate (sizeof t) 0)"
| "default_of S_string = F_string []"
| "default_of (S_enum t) = F_enum 0"
| "default_of (S_raw n) = F_raw (replicate n 0)"
| "default_of S_bits = F_bits (unpack 0)"
| "default_of (S_vector s) = F_vector []"
| "default_of (S_umap k v) = F_umap []"
| "default_of (S_uset s) = F_uset []"
| "default_of (S_members ss) = F_members (map default_of ss)"

section \<open>Writing\<close>

type_synonym 'a writer = "'a \<Rightarrow> serializer \<Rightarrow> (bool \<times> serializer) option"
type_synonym 'a reader = "'a \<Rightarrow> deserializer \<Rightarrow> ((bool \<times> 'a) \<times> deserializer) option"

definition checked :: "(serializer \<Rightarrow> serializer option) \<Rightarrow> serializer \<Rightarrow> (bool \<times> serializer) option" where
  \<comment> \<open>\<open>out << ..; return out.Check()\<close>\<close>
  "checked f s = map_option (\<lambda>s. (se_flag s, s)) (f s)"

fun write_items :: "'a writer \<Rightarrow> 'a list \<Rightarrow> serializer \<Rightarrow> (bool \<times> serializer) option" where
  \<comment> \<open>the loops over the elements; \<open>false\<close> on the first failure\<close>
  "write_items f [] s = Some (True, s)"
| "write_items f (x # xs) s = do { (ok, s1) \<leftarrow> f x s; if \<not> ok then Some (False, s1) else write_items f xs s1 }"

fun write_members :: "field writer list \<Rightarrow> field list \<Rightarrow> serializer \<Rightarrow> (bool \<times> serializer) option" where
  \<comment> \<open>the fold over \<open>&&\<close>\<close>
  "write_members (f # fs) (x # xs) s = do { (ok, s1) \<leftarrow> f x s; if \<not> ok then Some (False, s1) else write_members fs xs s1 }"
| "write_members _ _ s = Some (True, s)"

definition write_pair :: "field writer \<Rightarrow> field writer \<Rightarrow> (field \<times> field) writer" where
  "write_pair f g = (\<lambda>(k, v) s. do { (ok, s1) \<leftarrow> f k s; if \<not> ok then Some (False, s1) else g v s1 })"

definition write_size :: "(u64 \<Rightarrow> bool) \<Rightarrow> nat \<Rightarrow> serializer \<Rightarrow> (bool \<times> serializer) option" where
  \<comment> \<open>\<open>SerializeField(out, v.size())\<close>\<close>
  "write_size alloc n = checked (put_base alloc C_unsigned_long (le_bytes 8 n))"

primrec SerializeField :: "(u64 \<Rightarrow> bool) \<Rightarrow> shape \<Rightarrow> field writer" where
  "SerializeField alloc (S_basic t) = (\<lambda>v s. case v of F_basic bs \<Rightarrow> checked (put_base alloc t bs) s | _ \<Rightarrow> None)"
| "SerializeField alloc S_string = (\<lambda>v s. case v of F_string str \<Rightarrow> checked (put_string alloc str) s | _ \<Rightarrow> None)"
| "SerializeField alloc (S_enum t) = (\<lambda>v s. case v of F_enum e \<Rightarrow> checked (put_base alloc C_int (le_bytes 4 (unat e))) s | _ \<Rightarrow> None)"
| "SerializeField alloc (S_raw n) = (\<lambda>v s. case v of
      F_raw bs \<Rightarrow> checked (put_addr_len alloc C_unsigned_char (Some bs) (of_nat n)) s | _ \<Rightarrow> None)"
| "SerializeField alloc S_bits = (\<lambda>v s. case v of
      F_bits p \<Rightarrow> checked (put_base alloc C_unsigned_short (le_bytes 2 (unat (pack p)))) s | _ \<Rightarrow> None)"
| "SerializeField alloc (S_vector sh) = (\<lambda>v s. case v of
      F_vector xs \<Rightarrow> do {
        s1 \<leftarrow> put_array_len alloc (of_nat (length xs)) s;
        (ok, s2) \<leftarrow> write_items (SerializeField alloc sh) xs s1;
        Some (ok \<and> se_flag s2, s2) }
    | _ \<Rightarrow> None)"
| "SerializeField alloc (S_umap k v) = (\<lambda>x s. case x of
      F_umap es \<Rightarrow> do {
        (ok, s1) \<leftarrow> write_size alloc (length es) s;
        if \<not> ok then Some (False, s1) else write_items (write_pair (SerializeField alloc k) (SerializeField alloc v)) es s1 }
    | _ \<Rightarrow> None)"
| "SerializeField alloc (S_uset sh) = (\<lambda>v s. case v of
      F_uset xs \<Rightarrow> do {
        (ok, s1) \<leftarrow> write_size alloc (length xs) s;
        if \<not> ok then Some (False, s1) else write_items (SerializeField alloc sh) xs s1 }
    | _ \<Rightarrow> None)"
| "SerializeField alloc (S_members shs) = (\<lambda>v s. case v of
      F_members xs \<Rightarrow> write_members (map (SerializeField alloc) shs) xs s | _ \<Rightarrow> None)"

section \<open>Reading\<close>

definition de_checked :: "(deserializer \<Rightarrow> ('a \<times> deserializer) option) \<Rightarrow> deserializer \<Rightarrow> ((bool \<times> 'a) \<times> deserializer) option" where
  "de_checked g d = map_option (\<lambda>(x, d). ((de_flag d, x), d)) (g d)"

fun read_items :: "'a reader \<Rightarrow> 'a list \<Rightarrow> deserializer \<Rightarrow> ((bool \<times> 'a list) \<times> deserializer) option" where
  \<comment> \<open>into the elements that are there\<close>
  "read_items g [] d = Some ((True, []), d)"
| "read_items g (x # xs) d = do {
     ((ok, y), d1) \<leftarrow> g x d;
     if \<not> ok then Some ((False, y # xs), d1)
     else do { ((ok, ys), d2) \<leftarrow> read_items g xs d1; Some ((ok, y # ys), d2) }}"

fun read_members :: "field reader list \<Rightarrow> field list \<Rightarrow> deserializer \<Rightarrow> ((bool \<times> field list) \<times> deserializer) option" where
  "read_members (g # gs) (x # xs) d = do {
     ((ok, y), d1) \<leftarrow> g x d;
     if \<not> ok then Some ((False, y # xs), d1)
     else do { ((ok, ys), d2) \<leftarrow> read_members gs xs d1; Some ((ok, y # ys), d2) }}"
| "read_members _ xs d = Some ((True, xs), d)"

definition emplace :: "'k \<Rightarrow> 'v \<Rightarrow> ('k \<times> 'v) list \<Rightarrow> ('k \<times> 'v) list" where
  "emplace k v m = (if k \<in> fst ` set m then m else m @ [(k, v)])"

definition uset_insert :: "'k \<Rightarrow> 'k list \<Rightarrow> 'k list" where
  "uset_insert x xs = (if x \<in> set xs then xs else xs @ [x])"

fun read_entries :: "'k reader \<Rightarrow> 'k \<Rightarrow> 'v reader \<Rightarrow> 'v \<Rightarrow> nat \<Rightarrow> ('k \<times> 'v) list \<Rightarrow> deserializer \<Rightarrow>
    ((bool \<times> ('k \<times> 'v) list) \<times> deserializer) option" where
  "read_entries gk k0 gv v0 0 m d = Some ((True, m), d)"
| "read_entries gk k0 gv v0 (Suc n) m d = do {
     ((ok, k), d1) \<leftarrow> gk k0 d;
     if \<not> ok then Some ((False, m), d1)
     else do {
       ((ok, v), d2) \<leftarrow> gv v0 d1;
       if \<not> ok then Some ((False, m), d2) else read_entries gk k0 gv v0 n (emplace k v m) d2 }}"

fun read_elements :: "'k reader \<Rightarrow> 'k \<Rightarrow> nat \<Rightarrow> 'k list \<Rightarrow> deserializer \<Rightarrow> ((bool \<times> 'k list) \<times> deserializer) option" where
  "read_elements g x0 0 m d = Some ((True, m), d)"
| "read_elements g x0 (Suc n) m d = do {
     ((ok, x), d1) \<leftarrow> g x0 d;
     if \<not> ok then Some ((False, m), d1) else read_elements g x0 n (uset_insert x m) d1 }"

definition read_size :: "deserializer \<Rightarrow> ((bool \<times> u64) \<times> deserializer) option" where
  \<comment> \<open>\<open>DeSerializeField(in, n) || n > ONCE_LIMIT_LEN\<close>; \<open>n\<close> is not initialised, but it is only used once read\<close>
  "read_size d = map_option (\<lambda>((ok, bs), d). ((ok \<and> \<not> of_nat (le_nat bs) > ONCE_LIMIT_LEN, of_nat (le_nat bs)), d))
     (de_checked (get_base C_unsigned_long (replicate 8 0)) d)"

primrec DeSerializeField :: "shape \<Rightarrow> field reader" where
  "DeSerializeField (S_basic t) = (\<lambda>v d. case v of
      F_basic bs \<Rightarrow> map_option (apfst (apsnd F_basic)) (de_checked (get_base t bs) d) | _ \<Rightarrow> None)"
| "DeSerializeField S_string = (\<lambda>v d. case v of
      F_string str \<Rightarrow> map_option (apfst (apsnd F_string)) (de_checked (get_string str) d) | _ \<Rightarrow> None)"
| "DeSerializeField (S_enum t) = (\<lambda>v d. case v of
      F_enum e \<Rightarrow> map_option (\<lambda>((ok, bs), d). ((ok, F_enum (if ok then enum_cast t (of_nat (le_nat bs)) else e)), d))
        (de_checked (get_base C_int (replicate 4 0)) d) | _ \<Rightarrow> None)"
| "DeSerializeField (S_raw n) = (\<lambda>v d. case v of
      F_raw bs \<Rightarrow> map_option (apfst (apsnd F_raw)) (de_checked (get_addr_len C_unsigned_char bs) d) | _ \<Rightarrow> None)"
| "DeSerializeField S_bits = (\<lambda>v d. case v of
      F_bits p \<Rightarrow> map_option (\<lambda>((ok, bs), d). ((ok, F_bits (if ok then unpack (of_nat (le_nat bs)) else p)), d))
        (de_checked (get_base C_unsigned_short (replicate 2 0)) d) | _ \<Rightarrow> None)"
| "DeSerializeField (S_vector sh) = (\<lambda>v d. case v of
      F_vector olds \<Rightarrow> do {
        (n, d1) \<leftarrow> get_array_len d;
        if \<not> de_flag d1 \<or> n > ONCE_LIMIT_LEN then Some ((False, v), d1)
        else map_option (apfst (apsnd F_vector)) (read_items (DeSerializeField sh) (resize (default_of sh) (unat n) olds) d1) }
    | _ \<Rightarrow> None)"
| "DeSerializeField (S_umap k v) = (\<lambda>x d. case x of
      F_umap _ \<Rightarrow> do {
        ((ok, n), d1) \<leftarrow> read_size d;
        if \<not> ok then Some ((False, x), d1)
        else map_option (apfst (apsnd F_umap))
          (read_entries (DeSerializeField k) (default_of k) (DeSerializeField v) (default_of v) (unat n) [] d1) }
    | _ \<Rightarrow> None)"
| "DeSerializeField (S_uset sh) = (\<lambda>x d. case x of
      F_uset _ \<Rightarrow> do {
        ((ok, n), d1) \<leftarrow> read_size d;
        if \<not> ok then Some ((False, x), d1)
        else map_option (apfst (apsnd F_uset)) (read_elements (DeSerializeField sh) (default_of sh) (unat n) [] d1) }
    | _ \<Rightarrow> None)"
| "DeSerializeField (S_members shs) = (\<lambda>v d. case v of
      F_members xs \<Rightarrow> map_option (apfst (apsnd F_members)) (read_members (map DeSerializeField shs) xs d) | _ \<Rightarrow> None)"

section \<open>Messages (\<open>UbseAutoSimpo\<close>, \<open>UbseBaseMessage\<close>)\<close>

record 'm message =
  mInputRawData :: "u8 list option"
  mInputRawDataSize :: u32
  mOutputRawData :: "u8 list option"
  mOutputRawDataSize :: u32
  mErrCode :: u32
  simpoMesg :: 'm

definition MAX_IPC_DATA_PACKAGE_LEN :: u32 where "MAX_IPC_DATA_PACKAGE_LEN = 10485760"

definition SetInputRawDataFromShared :: "u8 list option \<Rightarrow> u32 \<Rightarrow> 'm message \<Rightarrow> bool \<times> 'm message" where
  "SetInputRawDataFromShared data sz m =
     (if data = None \<or> sz = 0 \<or> sz > MAX_IPC_DATA_PACKAGE_LEN then (False, m)
      else (True, m\<lparr>mInputRawData := data, mInputRawDataSize := sz\<rparr>))"

definition SetInputRawData :: "(u64 \<Rightarrow> bool) \<Rightarrow> u8 list option \<Rightarrow> u32 \<Rightarrow> 'm message \<Rightarrow> (bool \<times> 'm message) option" where
  "SetInputRawData alloc rawData sz m =
     (if rawData = None then Some (False, m)
      else if sz = 0 \<or> sz > MAX_IPC_DATA_PACKAGE_LEN then Some (False, m)
      else if \<not> alloc (ucast sz) then Some (False, m)
      else do {
        (ok, buffer) \<leftarrow> memcpy_s (Some (replicate (unat sz) 0)) 0 (ucast sz) rawData (ucast sz);
        Some (if ok then SetInputRawDataFromShared buffer sz m else (False, m)) })"

definition UbseAutoSimpo_Serialize :: "(u64 \<Rightarrow> bool) \<Rightarrow> shape \<Rightarrow> field message \<Rightarrow> (bool \<times> field message) option" where
  "UbseAutoSimpo_Serialize alloc sh m = do {
     (ok, s1) \<leftarrow> SerializeField alloc (S_basic C_unsigned_int) (F_basic (le_bytes 4 (unat (mErrCode m)))) (UbseSerialization_new alloc);
     if \<not> ok then Some (False, m)
     else do {
       (ok, s2) \<leftarrow> SerializeField alloc sh (simpoMesg m) s1;
       if \<not> ok then Some (False, m)
       else do {
         (buf, _) \<leftarrow> GetBuffer True s2;
         Some (True, m\<lparr>mOutputRawDataSize := ucast (se_len s2), mOutputRawData := buf\<rparr>) }}}"

definition UbseAutoSimpo_Deserialize :: "(u64 \<Rightarrow> bool) \<Rightarrow> shape \<Rightarrow> field message \<Rightarrow> (bool \<times> field message) option" where
  "UbseAutoSimpo_Deserialize alloc sh m =
     (if mInputRawData m = None then Some (False, m)
      else do {
        d \<leftarrow> UbseDeSerialization_buf alloc (mInputRawData m) (ucast (mInputRawDataSize m)) False;
        ((ok, e), d1) \<leftarrow> de_checked (get_base C_unsigned_int (le_bytes 4 (unat (mErrCode m)))) d;
        let m1 = m\<lparr>mErrCode := of_nat (le_nat e)\<rparr>;
        if \<not> ok then Some (False, m1)
        else do {
          ((ok, x), d2) \<leftarrow> DeSerializeField sh (simpoMesg m1) d1;
          Some (ok, m1\<lparr>simpoMesg := x\<rparr>) }})"

end
