(* ===== verification/AutoSerialLaws.thy ===== *)
theory AutoSerialLaws
  imports AutoSerial
begin

text \<open>
  What is written for a value of a registered type, that reading it back gives the value, and that reading
  any bytes at a registered type stays inside the buffer.
\<close>

section \<open>Values of a type\<close>

primrec shaped :: "shape \<Rightarrow> field \<Rightarrow> bool" where
  "shaped (S_basic t) = (\<lambda>v. case v of F_basic bs \<Rightarrow> length bs = sizeof t | _ \<Rightarrow> False)"
| "shaped S_string = (\<lambda>v. case v of F_string _ \<Rightarrow> True | _ \<Rightarrow> False)"
| "shaped (S_enum t) = (\<lambda>v. case v of F_enum e \<Rightarrow> enum_cast t e = e | _ \<Rightarrow> False)"
| "shaped (S_raw n) = (\<lambda>v. case v of F_raw bs \<Rightarrow> length bs = n | _ \<Rightarrow> False)"
| "shaped S_bits = (\<lambda>v. case v of F_bits _ \<Rightarrow> True | _ \<Rightarrow> False)"
| "shaped (S_vector sh) = (\<lambda>v. case v of F_vector xs \<Rightarrow> list_all (shaped sh) xs | _ \<Rightarrow> False)"
| "shaped (S_umap k v) = (\<lambda>x. case x of
      F_umap es \<Rightarrow> list_all (shaped k) (map fst es) \<and> list_all (shaped v) (map snd es) \<and> distinct (map fst es) | _ \<Rightarrow> False)"
| "shaped (S_uset sh) = (\<lambda>v. case v of F_uset xs \<Rightarrow> list_all (shaped sh) xs \<and> distinct xs | _ \<Rightarrow> False)"
| "shaped (S_members shs) = (\<lambda>v. case v of F_members xs \<Rightarrow> list_all2 (\<lambda>p x. p x) (map shaped shs) xs | _ \<Rightarrow> False)"

primrec sized :: "shape \<Rightarrow> field \<Rightarrow> bool" where
  \<comment> \<open>objects the memory can hold, with no more elements than the reader accepts\<close>
  "sized (S_basic t) = (\<lambda>v. True)"
| "sized S_string = (\<lambda>v. case v of F_string str \<Rightarrow> length str < 2 ^ 63 | _ \<Rightarrow> False)"
| "sized (S_enum t) = (\<lambda>v. True)"
| "sized (S_raw n) = (\<lambda>v. n < 2 ^ 63)"
| "sized S_bits = (\<lambda>v. True)"
| "sized (S_vector sh) = (\<lambda>v. case v of F_vector xs \<Rightarrow> length xs \<le> 2 ^ 16 \<and> list_all (sized sh) xs | _ \<Rightarrow> False)"
| "sized (S_umap k v) = (\<lambda>x. case x of
      F_umap es \<Rightarrow> length es \<le> 2 ^ 16 \<and> list_all (sized k) (map fst es) \<and> list_all (sized v) (map snd es) | _ \<Rightarrow> False)"
| "sized (S_uset sh) = (\<lambda>v. case v of F_uset xs \<Rightarrow> length xs \<le> 2 ^ 16 \<and> list_all (sized sh) xs | _ \<Rightarrow> False)"
| "sized (S_members shs) = (\<lambda>v. case v of F_members xs \<Rightarrow> list_all2 (\<lambda>p x. p x) (map sized shs) xs | _ \<Rightarrow> False)"

lemma shaped_default: "shaped sh (default_of sh)"
proof (induction sh)
  case (S_members shs) then show ?case by (auto simp: list_all2_conv_all_nth)
next
  case (S_enum t) show ?case by (cases t) (simp_all add: enum_cast_def)
qed simp_all

definition size_wire :: "nat \<Rightarrow> u64 \<Rightarrow> u8 list" where
  "size_wire n off = block off (GetTypeId C_unsigned_long) 8 (le_bytes 8 n)"

primrec wire_of :: "shape \<Rightarrow> field \<Rightarrow> u64 \<Rightarrow> u8 list" where
  "wire_of (S_basic t) = (\<lambda>v off. case v of F_basic bs \<Rightarrow> block off (GetTypeId t) (sizeof t) bs | _ \<Rightarrow> [])"
| "wire_of S_string = (\<lambda>v off. case v of F_string str \<Rightarrow> string_wire str off | _ \<Rightarrow> [])"
| "wire_of (S_enum t) = (\<lambda>v off. case v of F_enum e \<Rightarrow> block off (GetTypeId C_int) 4 (le_bytes 4 (unat e)) | _ \<Rightarrow> [])"
| "wire_of (S_raw n) = (\<lambda>v off. case v of F_raw bs \<Rightarrow> block off (GetTypePointerId C_unsigned_char) (length bs) bs | _ \<Rightarrow> [])"
| "wire_of S_bits = (\<lambda>v off. case v of F_bits p \<Rightarrow> block off (GetTypeId C_unsigned_short) 2 (le_bytes 2 (unat (pack p))) | _ \<Rightarrow> [])"
| "wire_of (S_vector sh) = (\<lambda>v off. case v of F_vector xs \<Rightarrow> array_wire (length xs) off @ concat (map (\<lambda>x. wire_of sh x off) xs) | _ \<Rightarrow> [])"
| "wire_of (S_umap k v) = (\<lambda>x off. case x of
      F_umap es \<Rightarrow> size_wire (length es) off @ concat (map (\<lambda>(a, b). wire_of k a off @ wire_of v b off) es) | _ \<Rightarrow> [])"
| "wire_of (S_uset sh) = (\<lambda>v off. case v of F_uset xs \<Rightarrow> size_wire (length xs) off @ concat (map (\<lambda>x. wire_of sh x off) xs) | _ \<Rightarrow> [])"
| "wire_of (S_members shs) = (\<lambda>v off. case v of F_members xs \<Rightarrow> concat (map2 (\<lambda>w x. w x off) (map wire_of shs) xs) | _ \<Rightarrow> [])"

section \<open>Writing\<close>

definition serializes :: "(serializer \<Rightarrow> (bool \<times> serializer) option) \<Rightarrow> (u64 \<Rightarrow> u8 list) \<Rightarrow> bool" where
  "serializes f w \<longleftrightarrow> (\<forall>s. (\<not> se_flag s \<longrightarrow> (\<exists>ok. f s = Some (ok, s))) \<and>
     (\<forall>A. se_flag s \<and> holds s A \<longrightarrow> (\<exists>s'. f s = Some (se_flag s', s') \<and> se_alignOffset s' = se_alignOffset s \<and>
        (if se_flag s' then holds s' (A @ w (se_alignOffset s)) else broken s'))))"

lemma serializes_checked: "writes f w \<Longrightarrow> serializes (checked f) w"
  unfolding serializes_def writes_def checked_def by fastforce

lemma serializes_true: "serializes (\<lambda>s. Some (True, s)) (\<lambda>off. [])"
  by (auto simp: serializes_def)

lemma serializes_and:
  assumes "serializes f w" and "serializes g v"
  shows "serializes (\<lambda>s. Option.bind (f s) (\<lambda>(ok, s1). if \<not> ok then Some (False, s1) else g s1)) (\<lambda>off. w off @ v off)"
  unfolding serializes_def
proof (intro allI conjI impI, goal_cases)
  case (1 s)
  obtain ok where "f s = Some (ok, s)" using assms(1) 1 unfolding serializes_def by blast
  then show ?case using assms(2) 1 by (auto simp: serializes_def)
next
  case (2 s A)
  then obtain s1 where 1: "f s = Some (se_flag s1, s1)" "se_alignOffset s1 = se_alignOffset s"
      "if se_flag s1 then holds s1 (A @ w (se_alignOffset s)) else broken s1"
    using assms(1) unfolding serializes_def by blast
  show ?case
  proof (cases "se_flag s1")
    case True
    then have "holds s1 (A @ w (se_alignOffset s))" using 1(3) by simp
    then obtain s2 where "g s1 = Some (se_flag s2, s2)" "se_alignOffset s2 = se_alignOffset s1"
        "if se_flag s2 then holds s2 ((A @ w (se_alignOffset s)) @ v (se_alignOffset s1)) else broken s2"
      using assms(2) True unfolding serializes_def by blast
    then show ?thesis using 1 True by auto
  next
    case False then show ?thesis using 1 by auto
  qed
qed

lemma serializes_then:
  assumes "writes f w" and "serializes g v"
  shows "serializes (\<lambda>s. Option.bind (f s) (\<lambda>s1. Option.bind (g s1) (\<lambda>(ok, s2). Some (ok \<and> se_flag s2, s2)))) (\<lambda>off. w off @ v off)"
  unfolding serializes_def
proof (intro allI conjI impI, goal_cases)
  case (1 s)
  obtain ok where "g s = Some (ok, s)" using assms(2) 1 unfolding serializes_def by blast
  then show ?case using assms(1) 1 by (auto simp: writes_def)
next
  case (2 s A)
  then obtain s1 where 1: "f s = Some s1" "se_alignOffset s1 = se_alignOffset s"
      "if se_flag s1 then holds s1 (A @ w (se_alignOffset s)) else broken s1"
    using assms(1) unfolding writes_def by blast
  show ?case
  proof (cases "se_flag s1")
    case True
    then have "holds s1 (A @ w (se_alignOffset s))" using 1(3) by simp
    then obtain s2 where "g s1 = Some (se_flag s2, s2)" "se_alignOffset s2 = se_alignOffset s1"
        "if se_flag s2 then holds s2 ((A @ w (se_alignOffset s)) @ v (se_alignOffset s1)) else broken s2"
      using assms(2) True unfolding serializes_def by blast
    then show ?thesis using 1 True by auto
  next
    case False
    then obtain ok where "g s1 = Some (ok, s1)" using assms(2) unfolding serializes_def by blast
    then show ?thesis using 1 False by auto
  qed
qed

lemma serializes_items:
  "(\<And>x. x \<in> set xs \<Longrightarrow> serializes (f x) (w x)) \<Longrightarrow> serializes (write_items f xs) (\<lambda>off. concat (map (\<lambda>x. w x off) xs))"
proof (induction xs)
  case Nil then show ?case by (simp add: serializes_true)
next
  case (Cons x xs)
  then show ?case using serializes_and [of "f x" "w x" "write_items f xs"] by simp
qed

lemma serializes_members:
  "list_all2 (\<lambda>f x. serializes (f x) (ws f x)) fs xs \<Longrightarrow> serializes (write_members fs xs) (\<lambda>off. concat (map2 (\<lambda>f x. ws f x off) fs xs))"
proof (induction rule: list_all2_induct)
  case Nil then show ?case by (simp add: serializes_true)
next
  case (Cons f fs x xs)
  then show ?case using serializes_and [of "f x" "ws f x" "write_members fs xs"] by simp
qed

lemma serializes_pair: "\<lbrakk> serializes (f a) v; serializes (g b) w \<rbrakk> \<Longrightarrow> serializes (write_pair f g (a, b)) (\<lambda>off. v off @ w off)"
  unfolding write_pair_def by (simp add: serializes_and)

lemma serializes_size: "serializes (write_size alloc n) (size_wire n)"
  using serializes_checked [OF writes_put_base [of "le_bytes 8 n" C_unsigned_long alloc]]
  by (simp add: write_size_def [abs_def] size_wire_def [abs_def])

lemma unat_raw: "n < 2 ^ 63 \<Longrightarrow> unat (of_nat n * of_nat (sizeof C_unsigned_char) :: u64) = n"
  by (simp add: unat_of_nat)

lemma serializes_members_of:
  assumes "\<And>sh v. sh \<in> set shs \<Longrightarrow> shaped sh v \<Longrightarrow> sized sh v \<Longrightarrow> serializes (SerializeField alloc sh v) (wire_of sh v)"
    and "list_all2 (\<lambda>p x. p x) (map shaped shs) xs" and "list_all2 (\<lambda>p x. p x) (map sized shs) xs"
  shows "serializes (write_members (map (SerializeField alloc) shs) xs) (\<lambda>off. concat (map2 (\<lambda>w x. w x off) (map wire_of shs) xs))"
  using assms
proof (induction shs arbitrary: xs)
  case Nil then show ?case by (simp add: serializes_true)
next
  case (Cons sh shs)
  then obtain y ys where xs: "xs = y # ys" by (cases xs) auto
  have h: "shaped sh y" "sized sh y" using Cons.prems(2,3) by (simp_all add: xs)
  have t: "serializes (write_members (map (SerializeField alloc) shs) ys) (\<lambda>off. concat (map2 (\<lambda>w x. w x off) (map wire_of shs) ys))"
    by (rule Cons.IH) (use Cons.prems xs in auto)
  show ?case using serializes_and [OF Cons.prems(1) [of sh y] t] h by (simp add: xs)
qed

lemma serializes_field:
  "shaped sh v \<Longrightarrow> sized sh v \<Longrightarrow> serializes (SerializeField alloc sh v) (wire_of sh v)"
proof (induction sh arbitrary: v)
  case (S_basic t)
  then obtain bs where v: "v = F_basic bs" "length bs = sizeof t" by (cases v) auto
  show ?case using serializes_checked [OF writes_put_base [OF v(2), of alloc]] by (simp add: v)
next
  case S_string
  then obtain str where v: "v = F_string str" "length str < 2 ^ 63" by (cases v) auto
  have "wire_of S_string v = string_wire str" by (simp add: v fun_eq_iff)
  then show ?case using serializes_checked [OF writes_string [OF v(2), of alloc]] by (simp add: v)
next
  case (S_enum t)
  then obtain e where v: "v = F_enum e" by (cases v) auto
  show ?case using serializes_checked [OF writes_put_base [of "le_bytes 4 (unat e)" C_int alloc]] by (simp add: v)
next
  case (S_raw n)
  then obtain bs where v: "v = F_raw bs" "length bs = n" "n < 2 ^ 63" by (cases v) auto
  show ?case using serializes_checked [OF writes_addr_len [of "of_nat n" C_unsigned_char bs alloc]] v by (simp add: unat_of_nat)
next
  case S_bits
  then obtain p where v: "v = F_bits p" by (cases v) auto
  show ?case using serializes_checked [OF writes_put_base [of "le_bytes 2 (unat (pack p))" C_unsigned_short alloc]] by (simp add: v)
next
  case (S_vector sh)
  then obtain xs where v: "v = F_vector xs" by (cases v) auto
  have "serializes (write_items (SerializeField alloc sh) xs) (\<lambda>off. concat (map (\<lambda>x. wire_of sh x off) xs))"
    by (rule serializes_items) (use S_vector v in \<open>auto simp: list_all_iff\<close>)
  moreover have "writes (put_array_len alloc (of_nat (length xs))) (array_wire (length xs))"
    by (rule writes_array) (use S_vector.prems v in simp)
  ultimately show ?case using serializes_then v by fastforce
next
  case (S_umap k sh)
  then obtain es where v: "v = F_umap es" by (cases v) auto
  have "serializes (write_pair (SerializeField alloc k) (SerializeField alloc sh) x) (\<lambda>off. wire_of k (fst x) off @ wire_of sh (snd x) off)"
    if "x \<in> set es" for x
  proof (cases x)
    case (Pair a b)
    have "serializes (SerializeField alloc k a) (wire_of k a)" "serializes (SerializeField alloc sh b) (wire_of sh b)"
      by (rule S_umap.IH, use that S_umap.prems v Pair in \<open>auto simp: list_all_iff\<close>)+
    then show ?thesis by (simp add: Pair serializes_pair)
  qed
  from serializes_and [OF serializes_size serializes_items [OF this]] show ?case using v by (simp add: case_prod_beta')
next
  case (S_uset sh)
  then obtain xs where v: "v = F_uset xs" by (cases v) auto
  have "serializes (write_items (SerializeField alloc sh) xs) (\<lambda>off. concat (map (\<lambda>x. wire_of sh x off) xs))"
    by (rule serializes_items) (use S_uset v in \<open>auto simp: list_all_iff\<close>)
  from serializes_and [OF serializes_size this] show ?case using v by simp
next
  case (S_members shs)
  then obtain xs where v: "v = F_members xs" by (cases v) auto
  show ?case using serializes_members_of [of shs alloc xs] S_members v by simp
qed

section \<open>Reading\<close>

lemma safe_checked: "safe_get g \<Longrightarrow> safe_get (de_checked g)"
  unfolding de_checked_def [abs_def] by (rule safe_map) auto

lemma safe_apfst: "safe_get g \<Longrightarrow> safe_get (\<lambda>d. map_option (apfst f) (g d))"
  by (rule safe_map) auto

lemma recovers_checked: "recovers g w x \<Longrightarrow> recovers (de_checked g) w (True, x)"
  unfolding de_checked_def [abs_def] by (rule recovers_map) auto

lemma safe_read_if:
  assumes "safe_get g" and "\<And>y. safe_get (h y)" and "\<And>y. safe_get (e y)"
  shows "safe_get (\<lambda>d. Option.bind (g d) (\<lambda>((ok, y), d1). if \<not> ok then e y d1 else h y d1))"
proof (rule safe_bind [OF assms(1), where h = "\<lambda>(ok, y) d1. if \<not> ok then e y d1 else h y d1"])
  fix x show "safe_get (case x of (ok, y) \<Rightarrow> \<lambda>d1. if \<not> ok then e y d1 else h y d1)"
    using assms(2,3) by (cases x, cases "fst x") auto
qed

lemma recovers_read:
  assumes "recovers g w (True, x)" and "recovers (h x) v y"
  shows "recovers (\<lambda>d. Option.bind (g d) (\<lambda>((ok, x), d1). if \<not> ok then e x d1 else h x d1)) (\<lambda>off. w off @ v off) y"
  by (rule recovers_bind [OF assms(1), where h = "\<lambda>(ok, x) d1. if \<not> ok then e x d1 else h x d1"]) (use assms(2) in simp)

lemma safe_read_items: "(\<And>x. x \<in> set xs \<Longrightarrow> safe_get (g x)) \<Longrightarrow> safe_get (read_items g xs)"
proof (induction xs)
  case Nil then show ?case by (simp add: safe_return)
next
  case (Cons x xs)
  show ?case unfolding read_items.simps
    by (intro safe_read_if safe_return safe_bind [where h = "\<lambda>(ok, ys) d2. Some ((ok, _ # ys), d2)"])
      (use Cons in \<open>auto simp: safe_return\<close>)
qed

lemma recovers_read_items:
  "\<lbrakk> list_all2 (\<lambda>x y. recovers (g x) (w y) (True, y)) xs ys \<rbrakk> \<Longrightarrow>
    recovers (read_items g xs) (\<lambda>off. concat (map (\<lambda>y. w y off) ys)) (True, ys)"
proof (induction rule: list_all2_induct)
  case Nil then show ?case by (simp add: recovers_return)
next
  case (Cons x xs y ys)
  have "recovers (\<lambda>d1. Option.bind (read_items g xs d1) (\<lambda>((ok, ys), d2). Some ((ok, y # ys), d2)))
      (\<lambda>off. concat (map (\<lambda>y. w y off) ys) @ []) (True, y # ys)"
    by (rule recovers_bind [OF Cons(3), where h = "\<lambda>(ok, ys) d2. Some ((ok, y # ys), d2)"]) (simp add: recovers_return)
  then have "recovers (read_items g (x # xs)) (\<lambda>off. w y off @ concat (map (\<lambda>y. w y off) ys) @ []) (True, y # ys)"
    unfolding read_items.simps by (rule recovers_read [OF Cons(1)])
  then show ?case by (simp del: read_items.simps)
qed

lemma safe_read_members: "list_all2 (\<lambda>g x. safe_get (g x)) gs xs \<Longrightarrow> safe_get (read_members gs xs)"
proof (induction rule: list_all2_induct)
  case Nil then show ?case by (simp add: safe_return)
next
  case (Cons g gs x xs)
  show ?case unfolding read_members.simps
    by (intro safe_read_if safe_return safe_bind [where h = "\<lambda>(ok, ys) d2. Some ((ok, _ # ys), d2)"])
      (use Cons in \<open>auto simp: safe_return\<close>)
qed

lemma recovers_read_members:
  "list_all2 (\<lambda>g (x, w, y). recovers (g x) (w y) (True, y)) gs (zip xs (zip ws ys)) \<Longrightarrow> length xs = length gs \<Longrightarrow>
    length ws = length gs \<Longrightarrow> length ys = length gs \<Longrightarrow>
    recovers (read_members gs xs) (\<lambda>off. concat (map2 (\<lambda>w y. w y off) ws ys)) (True, ys)"
proof (induction gs arbitrary: xs ws ys)
  case Nil then show ?case by (simp add: recovers_return)
next
  case (Cons g gs)
  then obtain x xs' w ws' y ys' where l: "xs = x # xs'" "ws = w # ws'" "ys = y # ys'"
    by (cases xs; cases ws; cases ys) auto
  have "recovers (\<lambda>d1. Option.bind (read_members gs xs' d1) (\<lambda>((ok, ys), d2). Some ((ok, y # ys), d2)))
      (\<lambda>off. concat (map2 (\<lambda>w y. w y off) ws' ys') @ []) (True, y # ys')"
    by (rule recovers_bind [where h = "\<lambda>(ok, ys) d2. Some ((ok, y # ys), d2)"], rule Cons.IH)
      (use Cons.prems l in \<open>auto simp: recovers_return\<close>)
  then have "recovers (read_members (g # gs) (x # xs')) (\<lambda>off. w y off @ concat (map2 (\<lambda>w y. w y off) ws' ys') @ []) (True, y # ys')"
    unfolding read_members.simps by (rule recovers_read [rotated]) (use Cons.prems l in simp)
  then show ?case by (simp add: l del: read_members.simps)
qed

lemma safe_entries: "\<lbrakk> safe_get (gk k0); safe_get (gv v0) \<rbrakk> \<Longrightarrow> safe_get (read_entries gk k0 gv v0 n m)"
proof (induction n arbitrary: m)
  case 0 then show ?case by (simp add: safe_return)
next
  case (Suc n)
  show ?case unfolding read_entries.simps by (intro safe_read_if Suc safe_return)
qed

lemma safe_elements: "safe_get (g x0) \<Longrightarrow> safe_get (read_elements g x0 n m)"
proof (induction n arbitrary: m)
  case 0 then show ?case by (simp add: safe_return)
next
  case (Suc n)
  show ?case unfolding read_elements.simps by (intro safe_read_if Suc safe_return)
qed

lemma recovers_entries:
  "\<lbrakk> \<forall>(k, v) \<in> set es. recovers (gk k0) (wk k) (True, k) \<and> recovers (gv v0) (wv v) (True, v); distinct (map fst (m @ es)) \<rbrakk> \<Longrightarrow>
    recovers (read_entries gk k0 gv v0 (length es) m) (\<lambda>off. concat (map (\<lambda>(k, v). wk k off @ wv v off) es)) (True, m @ es)"
proof (induction es arbitrary: m)
  case Nil then show ?case by (simp add: recovers_return)
next
  case (Cons e es)
  obtain k v where e: "e = (k, v)" by fastforce
  have em: "emplace k v m = m @ [(k, v)]" using Cons.prems(2) by (auto simp: emplace_def e)
  have "recovers (read_entries gk k0 gv v0 (length es) (emplace k v m))
      (\<lambda>off. concat (map (\<lambda>(k, v). wk k off @ wv v off) es)) (True, m @ e # es)"
    using Cons.IH [of "m @ [(k, v)]"] Cons.prems by (simp add: em e)
  then have "recovers (\<lambda>d1. Option.bind (gv v0 d1) (\<lambda>((ok, v), d2). if \<not> ok then Some ((False, m), d2)
        else read_entries gk k0 gv v0 (length es) (emplace k v m) d2))
      (\<lambda>off. wv v off @ concat (map (\<lambda>(k, v). wk k off @ wv v off) es)) (True, m @ e # es)"
    by (rule recovers_read [rotated]) (use Cons.prems e in auto)
  then have "recovers (read_entries gk k0 gv v0 (Suc (length es)) m)
      (\<lambda>off. wk k off @ (wv v off @ concat (map (\<lambda>(k, v). wk k off @ wv v off) es))) (True, m @ e # es)"
    unfolding read_entries.simps by (rule recovers_read [rotated]) (use Cons.prems e in auto)
  then show ?case by (simp add: e del: read_entries.simps)
qed

lemma recovers_elements:
  "\<lbrakk> \<forall>x \<in> set xs. recovers (g x0) (w x) (True, x); distinct (m @ xs) \<rbrakk> \<Longrightarrow>
    recovers (read_elements g x0 (length xs) m) (\<lambda>off. concat (map (\<lambda>x. w x off) xs)) (True, m @ xs)"
proof (induction xs arbitrary: m)
  case Nil then show ?case by (simp add: recovers_return)
next
  case (Cons x xs)
  have em: "uset_insert x m = m @ [x]" using Cons.prems(2) by (auto simp: uset_insert_def)
  have "recovers (read_elements g x0 (length xs) (uset_insert x m)) (\<lambda>off. concat (map (\<lambda>x. w x off) xs)) (True, m @ x # xs)"
    using Cons.IH [of "m @ [x]"] Cons.prems by (simp add: em)
  then have "recovers (read_elements g x0 (Suc (length xs)) m) (\<lambda>off. w x off @ concat (map (\<lambda>x. w x off) xs)) (True, m @ x # xs)"
    unfolding read_elements.simps by (intro recovers_read [rotated]) (use Cons.prems in auto)
  then show ?case by (simp del: read_elements.simps)
qed

lemma safe_size: "safe_get read_size"
  unfolding read_size_def [abs_def] by (rule safe_map [OF safe_checked [OF safe_base]]) auto

lemma recovers_size: "n \<le> 2 ^ 16 \<Longrightarrow> recovers read_size (size_wire n) (True, of_nat n)"
proof -
  assume n: "n \<le> 2 ^ 16"
  have l: "le_nat (le_bytes 8 n) = n" by (rule le_word) (use n in simp)
  have "\<not> (of_nat n :: u64) > ONCE_LIMIT_LEN" using n once_limit by (simp add: word_less_nat_alt unat_of_nat)
  then show ?thesis
    using recovers_map [OF recovers_checked [OF recovers_base [of "le_bytes 8 n" C_unsigned_long "replicate 8 0"]],
        of "\<lambda>((ok, bs), d). ((ok \<and> \<not> of_nat (le_nat bs) > ONCE_LIMIT_LEN, of_nat (le_nat bs)), d)" "(True, of_nat n)"]
    by (simp add: read_size_def [abs_def] size_wire_def [abs_def] l)
qed

lemma safe_members_of:
  assumes "\<And>sh v. sh \<in> set shs \<Longrightarrow> shaped sh v \<Longrightarrow> safe_get (DeSerializeField sh v)"
    and "list_all2 (\<lambda>p x. p x) (map shaped shs) xs"
  shows "safe_get (read_members (map DeSerializeField shs) xs)"
  by (rule safe_read_members) (use assms in \<open>auto simp: list_all2_conv_all_nth\<close>)

lemma resize_shaped: "list_all (shaped sh) olds \<Longrightarrow> x \<in> set (resize (default_of sh) n olds) \<Longrightarrow> shaped sh x"
  using shaped_default [of sh] by (auto simp: resize_def list_all_iff dest: in_set_takeD)

text \<open>Reading any bytes, at any type, stays inside the buffer and ends.\<close>

lemma safe_field: "shaped sh old \<Longrightarrow> safe_get (DeSerializeField sh old)"
proof (induction sh arbitrary: old)
  case (S_basic t)
  then obtain bs where v: "old = F_basic bs" by (cases old) auto
  show ?case by (simp add: v safe_apfst safe_checked safe_base)
next
  case S_string
  then obtain str where v: "old = F_string str" by (cases old) auto
  show ?case by (simp add: v safe_apfst safe_checked safe_string)
next
  case (S_enum t)
  then obtain e where v: "old = F_enum e" by (cases old) auto
  show ?case unfolding v DeSerializeField.simps field.case by (rule safe_map [OF safe_checked [OF safe_base]]) auto
next
  case (S_raw n)
  then obtain bs where v: "old = F_raw bs" by (cases old) auto
  show ?case by (simp add: v safe_apfst safe_checked safe_addr_len)
next
  case S_bits
  then obtain p where v: "old = F_bits p" by (cases old) auto
  show ?case unfolding v DeSerializeField.simps field.case by (rule safe_map [OF safe_checked [OF safe_base]]) auto
next
  case (S_vector sh)
  then obtain olds where v: "old = F_vector olds" by (cases old) auto
  have "safe_get (read_items (DeSerializeField sh) (resize (default_of sh) (unat n) olds))" for n :: u64
    by (rule safe_read_items) (use S_vector v resize_shaped in auto)
  then have "safe_get (\<lambda>d1. if \<not> de_flag d1 \<or> n > ONCE_LIMIT_LEN then Some ((False, old), d1)
      else map_option (apfst (apsnd F_vector)) (read_items (DeSerializeField sh) (resize (default_of sh) (unat n) olds) d1))" for n :: u64
    using safe_apfst [of "read_items (DeSerializeField sh) (resize (default_of sh) (unat n) olds)" "apsnd F_vector"]
    unfolding safe_get_def by auto
  then show ?case unfolding v DeSerializeField.simps field.case by (intro safe_bind [OF safe_array_len])
next
  case (S_umap k sh)
  then obtain es where v: "old = F_umap es" by (cases old) auto
  show ?case unfolding v DeSerializeField.simps field.case
    by (intro safe_read_if [OF safe_size] safe_apfst safe_entries safe_return S_umap.IH shaped_default)
next
  case (S_uset sh)
  then obtain xs where v: "old = F_uset xs" by (cases old) auto
  show ?case unfolding v DeSerializeField.simps field.case
    by (intro safe_read_if [OF safe_size] safe_apfst safe_elements safe_return S_uset.IH shaped_default)
next
  case (S_members shs)
  then obtain xs where v: "old = F_members xs" by (cases old) auto
  show ?case unfolding v DeSerializeField.simps field.case
    by (intro safe_apfst safe_members_of) (use S_members v in auto)
qed

section \<open>Reading what was written\<close>

lemma bit_pack: "bit (pack p) n \<longleftrightarrow> (if n = 0 then onePth p else if n = 1 then wrDelayComp p else if n = 2 then reduceDelayComp p
    else if n = 3 then cmoDelayComp p else if n = 4 then so p else if n = 5 then adTrOchip p else if n = 6 then cacheableFlag p
    else if n < 10 then bit (marId p) (n - 7) else n < 16 \<and> bit (rsv0 p) (n - 10))"
proof -
  have "\<not> bit (marId p) n" if "n \<ge> 3" for n using that bit_imp_le_length [of "marId p" n] by auto
  moreover have "\<not> bit (rsv0 p) n" if "n \<ge> 6" for n using that bit_imp_le_length [of "rsv0 p" n] by auto
  ultimately show ?thesis by (auto simp: pack_def bit_simps)
qed

lemma unpack_pack: "unpack (pack p) = p"
proof -
  have b: "(drop_bit n (pack p) AND 1 \<noteq> 0) = bit (pack p) n" for n
    by (simp add: and_one_eq bit_iff_odd_drop_bit odd_iff_mod_2_eq_one)
  have k: "(7 :: u16) = mask 3" "(0x3F :: u16) = mask 6" by (simp_all add: mask_eq_exp_minus_1)
  have m: "ucast (drop_bit 7 (pack p) AND 7) = marId p" "ucast (drop_bit 10 (pack p) AND 0x3F) = rsv0 p"
    unfolding k by (rule bit_word_eqI, simp add: bit_simps bit_pack del: mask_numeral)+
  have "(pack p AND 1 \<noteq> 0) = onePth p" using b [of 0] bit_pack [of p 0] by simp
  then show ?thesis by (simp add: unpack_def b bit_pack m)
qed

lemma recovers_convert:
  "recovers g w (True, x) \<Longrightarrow> recovers (\<lambda>d. map_option (\<lambda>((ok, y), d). ((ok, h ok y), d)) (g d)) w (True, h True x)"
  by (rule recovers_map) auto

lemma recovers_S_enum: "enum_cast t e = e \<Longrightarrow> recovers (DeSerializeField (S_enum t) (F_enum e0)) (wire_of (S_enum t) (F_enum e)) (True, F_enum e)"
proof -
  assume e: "enum_cast t e = e"
  have "recovers (de_checked (get_base C_int (replicate 4 0))) (\<lambda>off. block off (GetTypeId C_int) 4 (le_bytes 4 (unat e))) (True, le_bytes 4 (unat e))"
    using recovers_checked [OF recovers_base [of "le_bytes 4 (unat e)" C_int]] by simp
  moreover have "wire_of (S_enum t) (F_enum e) = (\<lambda>off. block off (GetTypeId C_int) 4 (le_bytes 4 (unat e)))" by (simp add: fun_eq_iff)
  ultimately show ?thesis unfolding DeSerializeField.simps field.case
    using recovers_convert [where h = "\<lambda>ok bs. F_enum (if ok then enum_cast t (of_nat (le_nat bs)) else e0)"]
    by (fastforce simp: le_nat_word e)
qed

lemma recovers_S_bits: "recovers (DeSerializeField S_bits (F_bits p0)) (wire_of S_bits (F_bits p)) (True, F_bits p)"
proof -
  have "unat (pack p) < 2 ^ 16" using unsigned_less [of "pack p", where ?'a = nat] by simp
  then have l: "(of_nat (le_nat (le_bytes 2 (unat (pack p)))) :: u16) = pack p" by (simp add: le_word)
  have "recovers (de_checked (get_base C_unsigned_short (replicate 2 0)))
      (\<lambda>off. block off (GetTypeId C_unsigned_short) 2 (le_bytes 2 (unat (pack p)))) (True, le_bytes 2 (unat (pack p)))"
    using recovers_checked [OF recovers_base [of "le_bytes 2 (unat (pack p))" C_unsigned_short]] by simp
  moreover have "wire_of S_bits (F_bits p) = (\<lambda>off. block off (GetTypeId C_unsigned_short) 2 (le_bytes 2 (unat (pack p))))"
    by (simp add: fun_eq_iff)
  ultimately show ?thesis unfolding DeSerializeField.simps field.case
    using recovers_convert [where h = "\<lambda>ok bs. F_bits (if ok then unpack (of_nat (le_nat bs)) else p0)"]
    by (fastforce simp: l unpack_pack)
qed

lemma recovers_apfst: "recovers g w (True, x) \<Longrightarrow> recovers (\<lambda>d. map_option (apfst (apsnd f)) (g d)) w (True, f x)"
  by (rule recovers_map) auto

lemma recovers_members_of:
  assumes "\<And>sh v old. sh \<in> set shs \<Longrightarrow> shaped sh old \<Longrightarrow> shaped sh v \<Longrightarrow> sized sh v \<Longrightarrow>
      recovers (DeSerializeField sh old) (wire_of sh v) (True, v)"
    and "list_all2 (\<lambda>p x. p x) (map shaped shs) olds" "list_all2 (\<lambda>p x. p x) (map shaped shs) xs"
    and "list_all2 (\<lambda>p x. p x) (map sized shs) xs"
  shows "recovers (read_members (map DeSerializeField shs) olds) (\<lambda>off. concat (map2 (\<lambda>w x. w x off) (map wire_of shs) xs)) (True, xs)"
  by (rule recovers_read_members) (use assms in \<open>auto simp: list_all2_conv_all_nth\<close>)

lemma recovers_field:
  "\<lbrakk> shaped sh old; shaped sh v; sized sh v \<rbrakk> \<Longrightarrow> recovers (DeSerializeField sh old) (wire_of sh v) (True, v)"
proof (induction sh arbitrary: old v)
  case (S_basic t)
  then obtain b bs where v: "old = F_basic b" "v = F_basic bs" "length bs = sizeof t" by (cases old; cases v) auto
  have "wire_of (S_basic t) v = (\<lambda>off. block off (GetTypeId t) (sizeof t) bs)" by (simp add: v fun_eq_iff)
  then show ?case using recovers_apfst [OF recovers_checked [OF recovers_base [OF v(3), of b]], of F_basic] by (simp add: v)
next
  case S_string
  then obtain b bs where v: "old = F_string b" "v = F_string bs" by (cases old; cases v) auto
  have "wire_of S_string v = string_wire bs" by (simp add: v fun_eq_iff)
  then show ?case using recovers_apfst [OF recovers_checked [OF recovers_string [of b bs]], of F_string] by (simp add: v)
next
  case (S_enum t)
  then obtain b e where v: "old = F_enum b" "v = F_enum e" "enum_cast t e = e" by (cases old; cases v) auto
  show ?case unfolding v(1,2) by (rule recovers_S_enum [OF v(3)])
next
  case (S_raw n)
  then obtain b bs where v: "old = F_raw b" "v = F_raw bs" "length b = length bs" by (cases old; cases v) auto
  have "wire_of (S_raw n) v = (\<lambda>off. block off (GetTypePointerId C_unsigned_char) (length bs) bs)" by (simp add: v fun_eq_iff)
  then show ?case using recovers_apfst [OF recovers_checked [OF recovers_addr_len [OF v(3), of C_unsigned_char]], of F_raw] by (simp add: v)
next
  case S_bits
  then obtain b p where v: "old = F_bits b" "v = F_bits p" by (cases old; cases v) auto
  show ?case unfolding v by (rule recovers_S_bits)
next
  case (S_vector sh)
  then obtain olds xs where v: "old = F_vector olds" "v = F_vector xs" by (cases old; cases v) auto
  have w: "wire_of (S_vector sh) v = (\<lambda>off. array_wire (length xs) off @ concat (map (\<lambda>x. wire_of sh x off) xs))" by (simp add: v fun_eq_iff)
  have n: "length xs \<le> 2 ^ 16" using S_vector.prems v by simp
  then have un: "unat (of_nat (length xs) :: u64) = length xs" by (simp add: unat_of_nat)
  have lim: "\<not> (of_nat (length xs) :: u64) > ONCE_LIMIT_LEN" using n once_limit by (simp add: word_less_nat_alt un)
  let ?olds = "resize (default_of sh) (length xs) olds"
  have "recovers (read_items (DeSerializeField sh) ?olds) (\<lambda>off. concat (map (\<lambda>x. wire_of sh x off) xs)) (True, xs)"
  proof (rule recovers_read_items, rule list_all2_all_nthI)
    show l: "length ?olds = length xs" by (simp add: resize_def)
    fix i assume i: "i < length ?olds"
    have "shaped sh (?olds ! i)" using resize_shaped [of sh olds "?olds ! i" "length xs"] i S_vector.prems(1) v by (simp del: shaped.simps) (simp add: nth_mem)
    then show "recovers (DeSerializeField sh (?olds ! i)) (wire_of sh (xs ! i)) (True, xs ! i)"
      using S_vector.IH S_vector.prems v l i by (auto simp: list_all_length)
  qed
  then have "recovers (\<lambda>d. map_option (apfst (apsnd F_vector)) (read_items (DeSerializeField sh) ?olds d))
      (\<lambda>off. concat (map (\<lambda>x. wire_of sh x off) xs)) (True, F_vector xs)"
    by (rule recovers_apfst)
  then have "recovers (\<lambda>d1. if \<not> de_flag d1 \<or> of_nat (length xs) > ONCE_LIMIT_LEN then Some ((False, F_vector olds), d1)
      else map_option (apfst (apsnd F_vector)) (read_items (DeSerializeField sh) (resize (default_of sh) (unat (of_nat (length xs) :: u64)) olds) d1))
      (\<lambda>off. concat (map (\<lambda>x. wire_of sh x off) xs)) (True, F_vector xs)"
    unfolding recovers_def un using lim by simp
  then show ?case unfolding v DeSerializeField.simps field.case w [unfolded v]
    by (intro recovers_bind [OF recovers_array]) (use n in auto)
next
  case (S_umap k sh)
  then obtain old' es where v: "old = F_umap old'" "v = F_umap es" by (cases old; cases v) auto
  have w: "wire_of (S_umap k sh) v = (\<lambda>off. size_wire (length es) off @ concat (map (\<lambda>(a, b). wire_of k a off @ wire_of sh b off) es))"
    by (simp add: v fun_eq_iff)
  have n: "length es \<le> 2 ^ 16" and d: "distinct (map fst es)" using S_umap.prems v by auto
  then have un: "unat (of_nat (length es) :: u64) = length es" by (simp add: unat_of_nat)
  have "shaped k a \<and> sized k a \<and> shaped sh b \<and> sized sh b" if "(a, b) \<in> set es" for a b
    using that S_umap.prems v by (force simp: list_all_iff)
  note in_es = this
  have "recovers (read_entries (DeSerializeField k) (default_of k) (DeSerializeField sh) (default_of sh) (length es) [])
      (\<lambda>off. concat (map (\<lambda>(a, b). wire_of k a off @ wire_of sh b off) es)) (True, [] @ es)"
    by (rule recovers_entries) (use S_umap.IH in_es d shaped_default in auto)
  then show ?case unfolding v DeSerializeField.simps field.case w [unfolded v]
    by (intro recovers_read [OF recovers_size [OF n]] recovers_apfst) (simp add: un)
next
  case (S_uset sh)
  then obtain old' xs where v: "old = F_uset old'" "v = F_uset xs" by (cases old; cases v) auto
  have w: "wire_of (S_uset sh) v = (\<lambda>off. size_wire (length xs) off @ concat (map (\<lambda>x. wire_of sh x off) xs))"
    by (simp add: v fun_eq_iff)
  have n: "length xs \<le> 2 ^ 16" and d: "distinct xs" using S_uset.prems v by auto
  then have un: "unat (of_nat (length xs) :: u64) = length xs" by (simp add: unat_of_nat)
  have "recovers (read_elements (DeSerializeField sh) (default_of sh) (length xs) [])
      (\<lambda>off. concat (map (\<lambda>x. wire_of sh x off) xs)) (True, [] @ xs)"
    by (rule recovers_elements) (use S_uset.IH S_uset.prems v d shaped_default in \<open>auto simp: list_all_iff\<close>)
  then show ?case unfolding v DeSerializeField.simps field.case w [unfolded v]
    by (intro recovers_read [OF recovers_size [OF n]] recovers_apfst) (simp add: un)
next
  case (S_members shs)
  then obtain olds xs where v: "old = F_members olds" "v = F_members xs" by (cases old; cases v) auto
  have w: "wire_of (S_members shs) v = (\<lambda>off. concat (map2 (\<lambda>w x. w x off) (map wire_of shs) xs))" by (simp add: v fun_eq_iff)
  show ?case unfolding v DeSerializeField.simps field.case w [unfolded v]
    by (intro recovers_apfst recovers_members_of) (use S_members v in auto)
qed

section \<open>From one node to the other\<close>

lemma SetInputRawData_copies:
  assumes "0 < unat n" and "n \<le> MAX_IPC_DATA_PACKAGE_LEN" and "unat n \<le> length bs" and "alloc (ucast n)"
  shows "SetInputRawData alloc (Some bs) n m = Some (True, m\<lparr>mInputRawData := Some (take (unat n) bs), mInputRawDataSize := n\<rparr>)"
proof -
  have n: "unat n < 2 ^ 24" using assms(2) by (simp add: word_le_nat_alt MAX_IPC_DATA_PACKAGE_LEN_def)
  have "unat (ucast n :: u64) = unat n" using n by (simp add: unsigned_ucast_eq take_bit_nat_eq_self)
  moreover from this have "memcpy_s (Some (replicate (unat n) 0)) 0 (ucast n) (Some bs) (ucast n) = Some (True, Some (take (unat n) bs))"
    using memcpy_whole [of "ucast n" bs] assms(1,3) n by simp
  moreover have "n \<noteq> 0" using assms(1) by auto
  ultimately show ?thesis using assms by (auto simp: SetInputRawData_def SetInputRawDataFromShared_def)
qed

lemma transfer:
  assumes "started s P" and "n = (ucast (se_len s) :: u32)"
  obtains bs s' d where "GetBuffer True s = Some (Some bs, s')" "0 < unat n" "unat n \<le> length bs"
    "UbseDeSerialization_buf alloc (Some (take (unat n) bs)) (ucast n) False = Some d" "opened s d P"
proof (rule GetBuffer_started [OF assms(1), of True], goal_cases)
  case (1 bs)
  have len: "unat (se_len s) = up (se_alignOffset s) 12 + length P" "unat (se_len s) \<le> length bs" "unat (se_len s) < 2 ^ 24" by fact+
  have off: "ok_off (se_alignOffset s)" "unat (se_alignOffset s) + 1 dvd unat (se_len s)" by fact+
  have hd: "take 12 bs = head_bytes s (unat (se_len s))" by fact
  have dr: "drop (up (se_alignOffset s) 12) (take (unat (se_len s)) bs) = P" by fact
  let ?bs = "take (unat (se_len s)) bs"
  have un: "unat n = unat (se_len s)" unfolding assms(2) by (rule unat_ucast_small) (use len in simp)
  have w: "ucast n = se_len s"
    by (rule word_unat_eq_iff [THEN iffD2], subst unsigned_ucast_eq) (use un len in \<open>simp add: take_bit_nat_eq_self\<close>)
  have pos: "12 \<le> unat (se_len s)" using len up_bounds [of 12 "se_alignOffset s"] by linarith
  have "take 12 ?bs = head_bytes s (unat (se_len s))" using hd pos by (simp add: min_def)
  then have "\<exists>d. de_Set alloc (Some ?bs) (se_len s) False UbseDeSerialization_new = Some (True, d) \<and> opened s d P"
    by (intro de_Set_opens) (use len off dr in \<open>simp_all add: UbseDeSerialization_new_def\<close>)
  then obtain d where d: "UbseDeSerialization_buf alloc (Some ?bs) (se_len s) False = Some d" "opened s d P"
    by (auto simp: UbseDeSerialization_buf_def)
  have g: "GetBuffer True s = Some (Some bs, s\<lparr>se_flag := False, se_buf := None\<rparr>)" using 1 by simp
  show thesis
    by (rule that [OF g]) (use pos len d in \<open>simp_all only: un w\<close>)
qed

end
