(* ===== verification/SerialLive.thy ===== *)
theory SerialLive
  imports AutoSerialLaws
begin

text \<open>
  Writing succeeds: with memory at hand, an operation fails only when a block or the whole message is beyond
  the limits of the format.
\<close>

definition lives :: "(serializer \<Rightarrow> (bool \<times> serializer) option) \<Rightarrow> (u64 \<Rightarrow> u8 list) \<Rightarrow> bool" where
  "lives f w \<longleftrightarrow> (\<forall>s A. se_flag s \<and> holds s A \<and> length A + length (w (se_alignOffset s)) < 2 ^ 24 \<longrightarrow>
     (\<exists>s'. f s = Some (True, s') \<and> se_flag s' \<and> holds s' (A @ w (se_alignOffset s)) \<and> se_alignOffset s' = se_alignOffset s))"

lemma expand_lives:
  assumes "\<forall>k. alloc k" and "holds s A" and "unat n < 2 ^ 32" and "length A + unat n < 2 ^ 24"
  obtains s1 where "expandCapacity alloc n s = Some (True, s1)" "holds s1 A" "se_alignOffset s1 = se_alignOffset s"
    "se_flag s1 = se_flag s" "length A + unat n \<le> unat (se_cap s1)"
  by (rule room [OF assms(2,3), of alloc]) (use assms in auto)

lemma livesI:
  assumes "writes f w"
    and "\<And>s A. \<lbrakk> se_flag s; holds s A; ok_off (se_alignOffset s); length A + length (w (se_alignOffset s)) < 2 ^ 24 \<rbrakk> \<Longrightarrow>
      \<exists>s'. f s = Some s' \<and> se_flag s'"
  shows "lives (checked f) w"
  unfolding lives_def
proof (intro allI impI, elim conjE, goal_cases)
  case (1 s A)
  then have "ok_off (se_alignOffset s)" by (simp add: holds_def)
  then obtain s' where "f s = Some s'" "se_flag s'" using assms(2) 1 by blast
  then show ?case using assms(1) 1 unfolding writes_def checked_def by fastforce
qed

lemma lives_base:
  assumes "\<forall>k. alloc k" and "length v = sizeof t"
  shows "lives (checked (put_base alloc t v)) (\<lambda>off. block off (GetTypeId t) (sizeof t) v)"
proof (rule livesI [OF writes_put_base [OF assms(2)]], goal_cases)
  case (1 s A)
  let ?off = "se_alignOffset s"
  have sum: "unat (align_to ?off 4 + align_to ?off (of_nat (sizeof t))) = up ?off 4 + up ?off (sizeof t)"
    using sum_align [OF 1(3), of "of_nat (sizeof t)"] sizeof_bounds [of t] by simp
  have "up ?off 4 + up ?off (sizeof t) < 2 ^ 32" by (rule small_block [OF 1(3)]) (use sizeof_bounds [of t] in simp)
  moreover have "length A + (up ?off 4 + up ?off (sizeof t)) < 2 ^ 24" using 1(4) assms(2) by simp
  ultimately obtain s1 where e: "expandCapacity alloc (align_to ?off 4 + align_to ?off (of_nat (sizeof t))) s = Some (True, s1)" "se_flag s1"
    using expand_lives [OF assms(1) 1(2), of "align_to ?off 4 + align_to ?off (of_nat (sizeof t))"] 1(1) unfolding sum by metis
  obtain s' where "put_base alloc t v s = Some s'"
    using writes_put_base [OF assms(2), of alloc] 1(1,2) unfolding writes_def by blast
  then show ?case using e 1(1) by (auto simp: put_base_def put_head_def bind_eq_Some_conv)
qed

lemma lives_add:
  assumes "\<forall>k. alloc k" and "unat len = length ys" and "0 < length ys" and "length ys < 2 ^ 16 - 7"
  shows "lives (checked (se_add alloc (Some ys) len t)) (\<lambda>off. block off t (length ys) ys)"
proof (rule livesI [OF writes_add [OF assms(2)]], goal_cases)
  case (1 s A)
  let ?off = "se_alignOffset s"
  have l: "unat (ONCE_LIMIT_LEN - ?off) = 2 ^ 16 - unat ?off"
    using once_limit off_le [OF 1(3)] by (subst unat_sub) (auto simp: word_le_nat_alt)
  have lim: "len \<noteq> 0" "\<not> len \<ge> ONCE_LIMIT_LEN - ?off"
    using assms off_le [OF 1(3)] by (auto simp: word_le_nat_alt l)
  have sum: "unat (align_to ?off 4 + align_to ?off len) = up ?off 4 + up ?off (length ys)"
    using sum_align [OF 1(3), of len] assms by simp
  have "up ?off 4 + up ?off (length ys) < 2 ^ 32" by (rule small_block [OF 1(3)]) (use assms in simp)
  moreover have "length A + (up ?off 4 + up ?off (length ys)) < 2 ^ 24" using 1(4) by simp
  ultimately obtain s1 where e: "expandCapacity alloc (align_to ?off 4 + align_to ?off len) s = Some (True, s1)" "holds s1 A"
      "se_alignOffset s1 = ?off" "se_flag s1" "length A + unat (align_to ?off 4 + align_to ?off len) \<le> unat (se_cap s1)"
    using expand_lives [OF assms(1) 1(2), of "align_to ?off 4 + align_to ?off len"] 1(1) unfolding sum by metis
  then show ?case using put_copy_holds [OF e(2), of ys len ys t] 1(1) lim assms sum by (auto simp: se_add_def)
qed

lemma array_lives:
  assumes "\<forall>k. alloc k" and "n < 2 ^ 16" and "se_flag s" and "holds s A" and "length A + up (se_alignOffset s) 4 < 2 ^ 24"
  shows "\<exists>s'. put_array_len alloc (of_nat n) s = Some s' \<and> se_flag s' \<and> holds s' (A @ array_wire n (se_alignOffset s)) \<and>
    se_alignOffset s' = se_alignOffset s"
proof -
  let ?off = "se_alignOffset s"
  have off: "ok_off ?off" using assms(4) by (simp add: holds_def)
  have u: "unat (align_to ?off 4) = up ?off 4" "up ?off 4 < 2 ^ 32" using up4 [OF off] small_up [OF off, of 4] by auto
  obtain s1 where e: "expandCapacity alloc (align_to ?off 4) s = Some (True, s1)" "se_flag s1"
    using expand_lives [OF assms(1,4), of "align_to ?off 4"] assms(3,5) u by metis
  obtain s' where s': "put_array_len alloc (of_nat n) s = Some s'" "se_alignOffset s' = ?off"
      "if se_flag s' then holds s' (A @ array_wire n ?off) else broken s'"
    using writes_array [of n alloc] assms(2,3,4) unfolding writes_def by fastforce
  have "\<not> (of_nat n :: u64) \<ge> ONCE_LIMIT_LEN" using once_limit assms(2) by (simp add: word_le_nat_alt unat_of_nat)
  then have "se_flag s'" using s'(1) e assms(3) by (auto simp: put_array_len_def put_head_def)
  then show ?thesis using s' by auto
qed

lemma lives_true: "lives (\<lambda>s. Some (True, s)) (\<lambda>off. [])"
  by (simp add: lives_def)

lemma lives_and:
  assumes "lives f w" and "lives g v"
  shows "lives (\<lambda>s. Option.bind (f s) (\<lambda>(ok, s1). if \<not> ok then Some (False, s1) else g s1)) (\<lambda>off. w off @ v off)"
  unfolding lives_def
proof (intro allI impI, elim conjE, goal_cases)
  case (1 s A)
  then obtain s1 where "f s = Some (True, s1)" "se_flag s1" "holds s1 (A @ w (se_alignOffset s))" "se_alignOffset s1 = se_alignOffset s"
    using assms(1) unfolding lives_def by (metis (no_types, lifting) add_lessD1 length_append add.assoc)
  moreover from this have "\<exists>s'. g s1 = Some (True, s') \<and> se_flag s' \<and> holds s' ((A @ w (se_alignOffset s)) @ v (se_alignOffset s)) \<and> se_alignOffset s' = se_alignOffset s"
    using assms(2) 1(3) unfolding lives_def by (metis (no_types, lifting) length_append add.assoc)
  ultimately show ?case by auto
qed

lemma lives_array_then:
  assumes "\<forall>k. alloc k" and "n < 2 ^ 16" and "lives g v"
  shows "lives (\<lambda>s. Option.bind (put_array_len alloc (of_nat n) s) (\<lambda>s1. Option.bind (g s1) (\<lambda>(ok, s2). Some (ok \<and> se_flag s2, s2))))
    (\<lambda>off. array_wire n off @ v off)"
  unfolding lives_def
proof (intro allI impI, elim conjE, goal_cases)
  case (1 s A)
  then obtain s1 where "put_array_len alloc (of_nat n) s = Some s1" "se_flag s1" "holds s1 (A @ array_wire n (se_alignOffset s))"
      "se_alignOffset s1 = se_alignOffset s"
    using array_lives [OF assms(1,2) 1(1,2)] by fastforce
  moreover from this have "\<exists>s'. g s1 = Some (True, s') \<and> se_flag s' \<and> holds s' ((A @ array_wire n (se_alignOffset s)) @ v (se_alignOffset s)) \<and> se_alignOffset s' = se_alignOffset s"
    using assms(3) 1(3) unfolding lives_def by (metis (no_types, lifting) length_append add.assoc)
  ultimately show ?case by auto
qed

lemma lives_items: "(\<And>x. x \<in> set xs \<Longrightarrow> lives (f x) (w x)) \<Longrightarrow> lives (write_items f xs) (\<lambda>off. concat (map (\<lambda>x. w x off) xs))"
proof (induction xs)
  case Nil then show ?case by (simp add: lives_true)
next
  case (Cons x xs)
  then show ?case using lives_and [of "f x" "w x" "write_items f xs"] by simp
qed

lemma lives_size: "\<forall>k. alloc k \<Longrightarrow> lives (write_size alloc n) (size_wire n)"
  using lives_base [of alloc "le_bytes 8 n" C_unsigned_long] by (simp add: write_size_def [abs_def] size_wire_def [abs_def])

primrec accepted :: "shape \<Rightarrow> field \<Rightarrow> bool" where
  "accepted (S_basic t) = (\<lambda>v. True)"
| "accepted S_string = (\<lambda>v. case v of F_string str \<Rightarrow> length str + 1 < 2 ^ 16 - 7 | _ \<Rightarrow> False)"
| "accepted (S_enum t) = (\<lambda>v. True)"
| "accepted (S_raw n) = (\<lambda>v. 0 < n \<and> n < 2 ^ 16 - 7)"
| "accepted S_bits = (\<lambda>v. True)"
| "accepted (S_vector sh) = (\<lambda>v. case v of F_vector xs \<Rightarrow> length xs < 2 ^ 16 \<and> list_all (accepted sh) xs | _ \<Rightarrow> False)"
| "accepted (S_umap k v) = (\<lambda>x. case x of
      F_umap es \<Rightarrow> length es \<le> 2 ^ 16 \<and> list_all (accepted k) (map fst es) \<and> list_all (accepted v) (map snd es) | _ \<Rightarrow> False)"
| "accepted (S_uset sh) = (\<lambda>v. case v of F_uset xs \<Rightarrow> length xs \<le> 2 ^ 16 \<and> list_all (accepted sh) xs | _ \<Rightarrow> False)"
| "accepted (S_members shs) = (\<lambda>v. case v of F_members xs \<Rightarrow> list_all2 (\<lambda>p x. p x) (map accepted shs) xs | _ \<Rightarrow> False)"

lemma accepted_sized: "accepted sh v \<Longrightarrow> sized sh v"
proof (induction sh arbitrary: v)
  case S_string then show ?case by (cases v) auto
next
  case (S_vector sh) then show ?case by (cases v) (auto simp: list_all_iff)
next
  case (S_umap k sh) then show ?case by (cases v) (auto simp: list_all_iff)
next
  case (S_uset sh) then show ?case by (cases v) (auto simp: list_all_iff)
next
  case (S_members shs) then show ?case by (cases v) (auto simp: list_all2_conv_all_nth)
qed simp_all

lemma lives_members_of:
  assumes "\<And>sh v. sh \<in> set shs \<Longrightarrow> shaped sh v \<Longrightarrow> accepted sh v \<Longrightarrow> lives (SerializeField alloc sh v) (wire_of sh v)"
    and "list_all2 (\<lambda>p x. p x) (map shaped shs) xs" and "list_all2 (\<lambda>p x. p x) (map accepted shs) xs"
  shows "lives (write_members (map (SerializeField alloc) shs) xs) (\<lambda>off. concat (map2 (\<lambda>w x. w x off) (map wire_of shs) xs))"
  using assms
proof (induction shs arbitrary: xs)
  case Nil then show ?case by (simp add: lives_true)
next
  case (Cons sh shs)
  then obtain y ys where xs: "xs = y # ys" by (cases xs) auto
  have h: "shaped sh y" "accepted sh y" using Cons.prems(2,3) by (simp_all add: xs)
  have t: "lives (write_members (map (SerializeField alloc) shs) ys) (\<lambda>off. concat (map2 (\<lambda>w x. w x off) (map wire_of shs) ys))"
    by (rule Cons.IH) (use Cons.prems xs in auto)
  show ?case using lives_and [OF Cons.prems(1) [of sh y] t] h by (simp add: xs)
qed

lemma lives_field:
  assumes "\<forall>k. alloc k"
  shows "shaped sh v \<Longrightarrow> accepted sh v \<Longrightarrow> lives (SerializeField alloc sh v) (wire_of sh v)"
proof (induction sh arbitrary: v)
  case (S_basic t)
  then obtain bs where v: "v = F_basic bs" "length bs = sizeof t" by (cases v) auto
  show ?case using lives_base [OF assms v(2)] by (simp add: v)
next
  case S_string
  then obtain str where v: "v = F_string str" "length str + 1 < 2 ^ 16 - 7" by (cases v) auto
  have "unat (of_nat (length str) + 1 :: u64) = length (bytes_of str @ [0])"
    using unat_Suc_length [of str] v(2) by (simp add: bytes_of_def)
  from lives_add [OF assms this, of STRING_ID] show ?case
    using v by (simp add: put_string_def [abs_def] string_wire_def [abs_def] bytes_of_def)
next
  case (S_enum t)
  then obtain e where v: "v = F_enum e" by (cases v) auto
  show ?case using lives_base [OF assms, of "le_bytes 4 (unat e)" C_int] by (simp add: v)
next
  case (S_raw n)
  then obtain bs where v: "v = F_raw bs" "length bs = n" "0 < n" "n < 2 ^ 16 - 7" by (cases v) auto
  have "unat (of_nat n * of_nat (sizeof C_unsigned_char) :: u64) = length bs" using v by (simp add: unat_of_nat)
  from lives_add [OF assms this, of "GetTypePointerId C_unsigned_char"] show ?case
    using v by (simp add: put_addr_len_def [abs_def])
next
  case S_bits
  then obtain p where v: "v = F_bits p" by (cases v) auto
  show ?case using lives_base [OF assms, of "le_bytes 2 (unat (pack p))" C_unsigned_short] by (simp add: v)
next
  case (S_vector sh)
  then obtain xs where v: "v = F_vector xs" by (cases v) auto
  have "lives (write_items (SerializeField alloc sh) xs) (\<lambda>off. concat (map (\<lambda>x. wire_of sh x off) xs))"
    by (rule lives_items) (use S_vector v in \<open>auto simp: list_all_iff\<close>)
  from lives_array_then [OF assms _ this, of "length xs"] show ?case using S_vector.prems v by simp
next
  case (S_umap k sh)
  then obtain es where v: "v = F_umap es" by (cases v) auto
  have "lives (write_pair (SerializeField alloc k) (SerializeField alloc sh) x) (\<lambda>off. wire_of k (fst x) off @ wire_of sh (snd x) off)"
    if "x \<in> set es" for x
  proof (cases x)
    case (Pair a b)
    have "lives (SerializeField alloc k a) (wire_of k a)" "lives (SerializeField alloc sh b) (wire_of sh b)"
      by (rule S_umap.IH, use that S_umap.prems v Pair in \<open>auto simp: list_all_iff\<close>)+
    then show ?thesis unfolding write_pair_def by (simp add: Pair lives_and)
  qed
  from lives_and [OF lives_size [OF assms] lives_items [OF this]] show ?case using v by (simp add: case_prod_beta')
next
  case (S_uset sh)
  then obtain xs where v: "v = F_uset xs" by (cases v) auto
  have "lives (write_items (SerializeField alloc sh) xs) (\<lambda>off. concat (map (\<lambda>x. wire_of sh x off) xs))"
    by (rule lives_items) (use S_uset v in \<open>auto simp: list_all_iff\<close>)
  from lives_and [OF lives_size [OF assms] this] show ?case using v by simp
next
  case (S_members shs)
  then obtain xs where v: "v = F_members xs" by (cases v) auto
  show ?case using lives_members_of [of shs alloc xs] S_members v by simp
qed

text \<open>The same for operators that are chained without looking at the result.\<close>

lemma lives_bind:
  assumes "lives (checked f) w" and "lives (checked g) v"
  shows "lives (checked (\<lambda>s. Option.bind (f s) g)) (\<lambda>off. w off @ v off)"
  unfolding lives_def
proof (intro allI impI, elim conjE, goal_cases)
  case (1 s A)
  then obtain s1 where "f s = Some s1" "se_flag s1" "holds s1 (A @ w (se_alignOffset s))" "se_alignOffset s1 = se_alignOffset s"
    using assms(1) unfolding lives_def checked_def by fastforce
  moreover from this have "\<exists>s'. checked g s1 = Some (True, s') \<and> se_flag s' \<and> holds s' ((A @ w (se_alignOffset s)) @ v (se_alignOffset s)) \<and> se_alignOffset s' = se_alignOffset s"
    using assms(2) 1(3) unfolding lives_def by (metis (no_types, lifting) length_append add.assoc)
  ultimately show ?case by (auto simp: checked_def)
qed

lemma lives_put_int: "\<forall>k. alloc k \<Longrightarrow> lives (checked (put_int alloc t v)) (int_wire t v)"
  using lives_base [of alloc "le_bytes (sizeof t) (unat v)" t] by (simp add: put_int_def [abs_def] int_wire_def [abs_def])

lemma lives_put_string: "\<forall>k. alloc k \<Longrightarrow> length str + 1 < 2 ^ 16 - 7 \<Longrightarrow> lives (checked (put_string alloc str)) (string_wire str)"
  using lives_field [of alloc S_string "F_string str"] by (simp add: lives_def)

lemma lives_put_each:
  "(\<And>x. x \<in> set xs \<Longrightarrow> lives (checked (put x)) (w x)) \<Longrightarrow> lives (checked (put_each put xs)) (\<lambda>off. concat (map (\<lambda>x. w x off) xs))"
proof (induction xs)
  case Nil then show ?case by (auto simp: lives_def checked_def)
next
  case (Cons x xs)
  then show ?case using lives_bind [of "put x" "w x" "put_each put xs"] by simp
qed

lemma lives_put_array: "\<forall>k. alloc k \<Longrightarrow> n < 2 ^ 16 \<Longrightarrow> lives (checked (put_array_len alloc (of_nat n))) (array_wire n)"
  using array_lives [of alloc n] unfolding lives_def checked_def by fastforce

lemma lives_put_vector:
  "\<lbrakk> \<forall>k. alloc k; length xs < 2 ^ 16; \<And>x. x \<in> set xs \<Longrightarrow> lives (checked (put x)) (w x) \<rbrakk> \<Longrightarrow>
    lives (checked (put_vector alloc put xs)) (vector_wire w xs)"
  unfolding put_vector_def [abs_def] vector_wire_def [abs_def] by (intro lives_bind lives_put_array lives_put_each)

end
