(* ===== verification/ElectionSerial.thy ===== *)
theory ElectionSerial
  imports SerialLive ElectionDef
begin

text \<open>
  The packets of the role election on the wire (\<open>framework/ha/message/\<close>): \<open>ubse_election_data_conversion.h\<close> and the
  two messages \<open>UbseElectionPktSimpo\<close> and \<open>UbseElectionReplyPktSimpo\<close>. The reserved members, which no other code reads,
  extend the records of ElectionDef.
\<close>

record wire_pkt = ElectionPkt +
  pk_rev1 :: u8
  pk_rsv2 :: u16

record wire_reply = ElectionReplyPkt +
  rp_type :: u8
  rp_rsv :: u16
  rp_length :: u8

definition ElectionPktSerialize :: "(u64 \<Rightarrow> bool) \<Rightarrow> wire_pkt \<Rightarrow> serializer \<Rightarrow> serializer option" where
  "ElectionPktSerialize alloc p out = do {
     s \<leftarrow> put_int alloc C_unsigned_char (pk_type p) out;
     s \<leftarrow> put_string alloc (pk_masterId p) s;
     s \<leftarrow> put_string alloc (pk_standbyId p) s;
     s \<leftarrow> put_int alloc C_unsigned_long (pk_turnId p) s;
     s \<leftarrow> put_int alloc C_unsigned_long (pk_sequenceId p) s;
     s \<leftarrow> put_int alloc C_unsigned_long (pk_agentCount p) s;
     s \<leftarrow> put_vector alloc (put_string alloc) (pk_agentIds p) s;
     s \<leftarrow> put_int alloc C_unsigned_char (pk_masterStatus p) s;
     s \<leftarrow> put_int alloc C_unsigned_char (pk_standbyStatus p) s;
     s \<leftarrow> put_int alloc C_unsigned_char (pk_broadcast p) s;
     s \<leftarrow> put_int alloc C_unsigned_char (pk_rev1 p) s;
     put_int alloc C_unsigned_short (pk_rsv2 p) s }"

definition ElectionPktDeserialize :: "wire_pkt \<Rightarrow> deserializer \<Rightarrow> (wire_pkt \<times> deserializer) option" where
  "ElectionPktDeserialize p d = do {
     (ty, d) \<leftarrow> get_int C_unsigned_char (pk_type p) d;
     (masterId, d) \<leftarrow> get_string (pk_masterId p) d;
     (standbyId, d) \<leftarrow> get_string (pk_standbyId p) d;
     (turnId, d) \<leftarrow> get_int C_unsigned_long (pk_turnId p) d;
     (sequenceId, d) \<leftarrow> get_int C_unsigned_long (pk_sequenceId p) d;
     (agentCount, d) \<leftarrow> get_int C_unsigned_long (pk_agentCount p) d;
     (agentIds, d) \<leftarrow> get_vector get_string [] (pk_agentIds p) d;
     (masterStatus, d) \<leftarrow> get_int C_unsigned_char (pk_masterStatus p) d;
     (standbyStatus, d) \<leftarrow> get_int C_unsigned_char (pk_standbyStatus p) d;
     (bc, d) \<leftarrow> get_int C_unsigned_char (pk_broadcast p) d;
     (rev1, d) \<leftarrow> get_int C_unsigned_char (pk_rev1 p) d;
     (rsv2, d) \<leftarrow> get_int C_unsigned_short (pk_rsv2 p) d;
     Some (\<lparr>pk_type = ty, pk_masterId = masterId, pk_standbyId = standbyId, pk_turnId = turnId, pk_sequenceId = sequenceId,
       pk_agentCount = agentCount, pk_agentIds = agentIds, pk_masterStatus = masterStatus, pk_standbyStatus = standbyStatus,
       pk_broadcast = bc, pk_rev1 = rev1, pk_rsv2 = rsv2\<rparr>, d) }"

definition ElectionReplyPktSerialize :: "(u64 \<Rightarrow> bool) \<Rightarrow> wire_reply \<Rightarrow> serializer \<Rightarrow> serializer option" where
  "ElectionReplyPktSerialize alloc p out = do {
     s \<leftarrow> put_int alloc C_unsigned_char (rp_type p) out;
     s \<leftarrow> put_string alloc (rp_replyId p) s;
     s \<leftarrow> put_int alloc C_unsigned_int (rp_replyResult p) s;
     s \<leftarrow> put_string alloc (rp_masterId p) s;
     s \<leftarrow> put_int alloc C_unsigned_long (rp_turnId p) s;
     s \<leftarrow> put_int alloc C_unsigned_char (rp_standbyStatus p) s;
     s \<leftarrow> put_int alloc C_unsigned_char (rp_broadcast p) s;
     s \<leftarrow> put_int alloc C_unsigned_short (rp_rsv p) s;
     put_int alloc C_unsigned_char (rp_length p) s }"

definition ElectionReplyPktDeserialize :: "wire_reply \<Rightarrow> deserializer \<Rightarrow> (wire_reply \<times> deserializer) option" where
  "ElectionReplyPktDeserialize p d = do {
     (ty, d) \<leftarrow> get_int C_unsigned_char (rp_type p) d;
     (replyId, d) \<leftarrow> get_string (rp_replyId p) d;
     (replyResult, d) \<leftarrow> get_int C_unsigned_int (rp_replyResult p) d;
     (masterId, d) \<leftarrow> get_string (rp_masterId p) d;
     (turnId, d) \<leftarrow> get_int C_unsigned_long (rp_turnId p) d;
     (standbyStatus, d) \<leftarrow> get_int C_unsigned_char (rp_standbyStatus p) d;
     (bc, d) \<leftarrow> get_int C_unsigned_char (rp_broadcast p) d;
     (rsv, d) \<leftarrow> get_int C_unsigned_short (rp_rsv p) d;
     (len, d) \<leftarrow> get_int C_unsigned_char (rp_length p) d;
     Some (\<lparr>rp_replyId = replyId, rp_replyResult = replyResult, rp_masterId = masterId, rp_turnId = turnId,
       rp_standbyStatus = standbyStatus, rp_broadcast = bc, rp_type = ty, rp_rsv = rsv, rp_length = len\<rparr>, d) }"

section \<open>The messages\<close>

definition Simpo_Serialize :: "((u64 \<Rightarrow> bool) \<Rightarrow> 'm \<Rightarrow> serializer \<Rightarrow> serializer option) \<Rightarrow> (u64 \<Rightarrow> bool) \<Rightarrow> 'm message \<Rightarrow>
    (bool \<times> 'm message) option" where
  \<comment> \<open>the body of the two \<open>Serialize\<close> methods\<close>
  "Simpo_Serialize put alloc m = do {
     out \<leftarrow> put alloc (simpoMesg m) (UbseSerialization_new alloc);
     if \<not> se_flag out then Some (False, m)
     else do {
       (buf, _) \<leftarrow> GetBuffer True out;
       Some (True, m\<lparr>mOutputRawDataSize := ucast (se_len out), mOutputRawData := buf\<rparr>) }}"

definition Simpo_Deserialize :: "('m \<Rightarrow> deserializer \<Rightarrow> ('m \<times> deserializer) option) \<Rightarrow> (u64 \<Rightarrow> bool) \<Rightarrow> 'm message \<Rightarrow>
    (bool \<times> 'm message) option" where
  "Simpo_Deserialize get alloc m =
     (if mInputRawData m = None then Some (False, m)
      else do {
        d \<leftarrow> UbseDeSerialization_buf alloc (mInputRawData m) (ucast (mInputRawDataSize m)) False;
        (x, d1) \<leftarrow> get (simpoMesg m) d;
        Some (de_flag d1, m\<lparr>simpoMesg := x\<rparr>) })"

definition UbseElectionPktSimpo_Serialize :: "(u64 \<Rightarrow> bool) \<Rightarrow> wire_pkt message \<Rightarrow> (bool \<times> wire_pkt message) option" where
  "UbseElectionPktSimpo_Serialize = Simpo_Serialize ElectionPktSerialize"

definition UbseElectionPktSimpo_Deserialize :: "(u64 \<Rightarrow> bool) \<Rightarrow> wire_pkt message \<Rightarrow> (bool \<times> wire_pkt message) option" where
  "UbseElectionPktSimpo_Deserialize = Simpo_Deserialize ElectionPktDeserialize"

definition UbseElectionReplyPktSimpo_Serialize :: "(u64 \<Rightarrow> bool) \<Rightarrow> wire_reply message \<Rightarrow> (bool \<times> wire_reply message) option" where
  "UbseElectionReplyPktSimpo_Serialize = Simpo_Serialize ElectionReplyPktSerialize"

definition UbseElectionReplyPktSimpo_Deserialize :: "(u64 \<Rightarrow> bool) \<Rightarrow> wire_reply message \<Rightarrow> (bool \<times> wire_reply message) option" where
  "UbseElectionReplyPktSimpo_Deserialize = Simpo_Deserialize ElectionReplyPktDeserialize"

section \<open>The contract of the packets\<close>

definition pkt_wire :: "wire_pkt \<Rightarrow> u64 \<Rightarrow> u8 list" where
  "pkt_wire p off = int_wire C_unsigned_char (pk_type p) off @ string_wire (pk_masterId p) off @ string_wire (pk_standbyId p) off @
     int_wire C_unsigned_long (pk_turnId p) off @ int_wire C_unsigned_long (pk_sequenceId p) off @ int_wire C_unsigned_long (pk_agentCount p) off @
     vector_wire string_wire (pk_agentIds p) off @ int_wire C_unsigned_char (pk_masterStatus p) off @
     int_wire C_unsigned_char (pk_standbyStatus p) off @ int_wire C_unsigned_char (pk_broadcast p) off @
     int_wire C_unsigned_char (pk_rev1 p) off @ int_wire C_unsigned_short (pk_rsv2 p) off"

definition pkt_fits :: "wire_pkt \<Rightarrow> bool" where
  "pkt_fits p \<longleftrightarrow> length (pk_masterId p) < 2 ^ 63 \<and> length (pk_standbyId p) < 2 ^ 63 \<and> length (pk_agentIds p) < 2 ^ 64 \<and>
     (\<forall>i \<in> set (pk_agentIds p). length i < 2 ^ 63)"

definition reply_wire :: "wire_reply \<Rightarrow> u64 \<Rightarrow> u8 list" where
  "reply_wire p off = int_wire C_unsigned_char (rp_type p) off @ string_wire (rp_replyId p) off @ int_wire C_unsigned_int (rp_replyResult p) off @
     string_wire (rp_masterId p) off @ int_wire C_unsigned_long (rp_turnId p) off @ int_wire C_unsigned_char (rp_standbyStatus p) off @
     int_wire C_unsigned_char (rp_broadcast p) off @ int_wire C_unsigned_short (rp_rsv p) off @ int_wire C_unsigned_char (rp_length p) off"

definition reply_fits :: "wire_reply \<Rightarrow> bool" where
  "reply_fits p \<longleftrightarrow> length (rp_replyId p) < 2 ^ 63 \<and> length (rp_masterId p) < 2 ^ 63"

lemmas steps_write = writes_bind int.put_writes str.put_writes str.vector_writes
lemmas steps_safe = safe_bind safe_return int.get_safe str.get_safe str.vector_safe

lemma writes_pkt: "pkt_fits p \<Longrightarrow> writes (ElectionPktSerialize alloc p) (pkt_wire p)"
  unfolding ElectionPktSerialize_def [abs_def] pkt_wire_def [abs_def]
  by (intro steps_write) (simp_all add: pkt_fits_def)

lemma writes_reply: "reply_fits p \<Longrightarrow> writes (ElectionReplyPktSerialize alloc p) (reply_wire p)"
  unfolding ElectionReplyPktSerialize_def [abs_def] reply_wire_def [abs_def]
  by (intro steps_write) (simp_all add: reply_fits_def)

lemma safe_pkt: "safe_get (ElectionPktDeserialize old)"
  unfolding ElectionPktDeserialize_def [abs_def] by (intro steps_safe)

lemma safe_reply: "safe_get (ElectionReplyPktDeserialize old)"
  unfolding ElectionReplyPktDeserialize_def [abs_def] by (intro steps_safe)

lemmas steps_recover = recovers_bind_return recovers_bind int.get_recovers str.get_recovers str.vector_recovers

lemma recovers_pkt:
  assumes "pkt_fits p"
  shows "recovers (ElectionPktDeserialize old) (pkt_wire p) p"
proof -
  let ?q = "\<lparr>pk_type = pk_type p, pk_masterId = pk_masterId p, pk_standbyId = pk_standbyId p, pk_turnId = pk_turnId p,
      pk_sequenceId = pk_sequenceId p, pk_agentCount = pk_agentCount p, pk_agentIds = pk_agentIds p,
      pk_masterStatus = pk_masterStatus p, pk_standbyStatus = pk_standbyStatus p, pk_broadcast = pk_broadcast p,
      pk_rev1 = pk_rev1 p, pk_rsv2 = pk_rsv2 p\<rparr>"
  have "recovers (ElectionPktDeserialize old) (pkt_wire p) ?q"
    unfolding ElectionPktDeserialize_def [abs_def] pkt_wire_def [abs_def]
    by (rule steps_recover | use assms in \<open>simp add: pkt_fits_def\<close>)+
  moreover have "?q = p" by (cases p) simp
  ultimately show ?thesis by (simp only:)
qed

lemma recovers_reply:
  assumes "reply_fits p"
  shows "recovers (ElectionReplyPktDeserialize old) (reply_wire p) p"
proof -
  let ?q = "\<lparr>rp_replyId = rp_replyId p, rp_replyResult = rp_replyResult p, rp_masterId = rp_masterId p, rp_turnId = rp_turnId p,
      rp_standbyStatus = rp_standbyStatus p, rp_broadcast = rp_broadcast p, rp_type = rp_type p, rp_rsv = rp_rsv p, rp_length = rp_length p\<rparr>"
  have "recovers (ElectionReplyPktDeserialize old) (reply_wire p) ?q"
    unfolding ElectionReplyPktDeserialize_def [abs_def] reply_wire_def [abs_def]
    by (rule steps_recover | use assms in \<open>simp add: reply_fits_def\<close>)+
  moreover have "?q = p" by (cases p) simp
  ultimately show ?thesis by (simp only:)
qed

interpretation pkt: codec ElectionPktSerialize ElectionPktDeserialize pkt_wire pkt_fits
  by (unfold_locales, simp_all only: writes_pkt safe_pkt recovers_pkt) (simp add: pkt_wire_def int_wire_def)

interpretation reply: codec ElectionReplyPktSerialize ElectionReplyPktDeserialize reply_wire reply_fits
  by (unfold_locales, simp_all only: writes_reply safe_reply recovers_reply) (simp add: reply_wire_def int_wire_def)

section \<open>From one node to the other\<close>

context codec
begin

lemma Simpo_defined: "fits (simpoMesg m) \<Longrightarrow> \<exists>ok m1. Simpo_Serialize put alloc m = Some (ok, m1)"
proof -
  assume f: "fits (simpoMesg m)"
  let ?s = "UbseSerialization_new alloc"
  show ?thesis
  proof (cases "se_flag ?s")
    case False
    then show ?thesis using put_writes [OF f] by (auto simp: Simpo_Serialize_def writes_def)
  next
    case True
    then have "started ?s []" using start_new by blast
    then obtain s1 where s1: "put alloc (simpoMesg m) ?s = Some s1" "se_alignOffset s1 = se_alignOffset ?s"
        "if se_flag s1 then started s1 ([] @ wire (simpoMesg m) (se_alignOffset ?s)) else broken s1"
      using started_total [OF _ True put_writes [OF f]] by metis
    show ?thesis
    proof (cases "se_flag s1")
      case False then show ?thesis by (auto simp: Simpo_Serialize_def s1)
    next
      case True
      then have "started s1 (wire (simpoMesg m) (se_alignOffset ?s))" using s1 by simp
      then obtain bs s2 where "GetBuffer True s1 = Some (Some bs, s2)" by (rule GetBuffer_started [where b = True])
      then show ?thesis using s1 True by (auto simp: Simpo_Serialize_def)
    qed
  qed
qed

lemma Simpo_delivers:
  assumes "fits (simpoMesg m)" and "lives (checked (put alloc (simpoMesg m))) (wire (simpoMesg m))" and "se_flag (UbseSerialization_new alloc)"
    and "up 3 12 + length (wire (simpoMesg m) 3) \<le> unat MAX_IPC_DATA_PACKAGE_LEN" and "\<forall>n. alloc' n"
  shows "\<exists>m1 r1 r2. Simpo_Serialize put alloc m = Some (True, m1) \<and>
    SetInputRawData alloc' (mOutputRawData m1) (mOutputRawDataSize m1) r = Some (True, r1) \<and>
    Simpo_Deserialize get alloc' r1 = Some (True, r2) \<and> simpoMesg r2 = simpoMesg m"
proof -
  let ?s = "UbseSerialization_new alloc" and ?w = "wire (simpoMesg m) 3"
  have off: "se_alignOffset ?s = 3" and "started ?s []" using start_new [OF assms(3)] by simp_all
  then obtain H where H: "length H = up 3 12" "holds ?s H" by (auto simp: started_def)
  have "length H + length ?w < 2 ^ 24" using assms(4) H(1) by (simp add: MAX_IPC_DATA_PACKAGE_LEN_def)
  then obtain s1 where s1: "put alloc (simpoMesg m) ?s = Some s1" "se_flag s1" "holds s1 (H @ ?w)" "se_alignOffset s1 = 3"
    using assms(2,3) H(2) unfolding lives_def checked_def off [symmetric] by fastforce
  have st: "started s1 ?w" using s1(3,4) H(1) by (auto simp: started_def)
  define n where "n = (ucast (se_len s1) :: u32)"
  show ?thesis
  proof (rule transfer [OF st n_def, of alloc'], goal_cases)
    case (1 bs s' d)
    have "unat (se_len s1) = length (H @ ?w)" using s1(3) by (simp only: holds_def)
    then have "unat (se_len s1) \<le> unat MAX_IPC_DATA_PACKAGE_LEN" using assms(4) H(1) by simp
    moreover have "unat n = unat (se_len s1)"
      unfolding n_def by (rule unat_ucast_small) (use calculation in \<open>simp add: MAX_IPC_DATA_PACKAGE_LEN_def\<close>)
    ultimately have lim: "n \<le> MAX_IPC_DATA_PACKAGE_LEN" by (simp only: word_le_nat_alt)
    obtain d' where "get (simpoMesg r) d = Some (simpoMesg m, d')" "de_flag d'"
      using get_recovers [OF assms(1), of "simpoMesg r"] 1(5) s1(4) unfolding recovers_def opened_def by (metis append_Nil2)
    then show ?thesis
      using 1 s1 SetInputRawData_copies [OF 1(2) lim 1(3), of alloc' r] assms(5)
      by (auto simp: Simpo_Serialize_def Simpo_Deserialize_def simp flip: n_def)
  qed
qed

end

definition small_id :: "NodeId \<Rightarrow> bool" where
  "small_id i \<longleftrightarrow> length i + 1 < 2 ^ 16 - 7"

definition pkt_small :: "wire_pkt \<Rightarrow> bool" where
  \<comment> \<open>within the limits of the format and of a message of the communication module\<close>
  "pkt_small p \<longleftrightarrow> small_id (pk_masterId p) \<and> small_id (pk_standbyId p) \<and> length (pk_agentIds p) < 2 ^ 16 \<and>
     (\<forall>i \<in> set (pk_agentIds p). small_id i) \<and> up 3 12 + length (pkt_wire p 3) \<le> unat MAX_IPC_DATA_PACKAGE_LEN"

definition reply_small :: "wire_reply \<Rightarrow> bool" where
  "reply_small p \<longleftrightarrow> small_id (rp_replyId p) \<and> small_id (rp_masterId p) \<and> up 3 12 + length (reply_wire p 3) \<le> unat MAX_IPC_DATA_PACKAGE_LEN"

lemma small_fits: "pkt_small p \<Longrightarrow> pkt_fits p" "reply_small q \<Longrightarrow> reply_fits q"
  by (auto simp: pkt_small_def pkt_fits_def reply_small_def reply_fits_def small_id_def)

lemma lives_pkt: "\<lbrakk> \<forall>k. alloc k; pkt_small p \<rbrakk> \<Longrightarrow> lives (checked (ElectionPktSerialize alloc p)) (pkt_wire p)"
  unfolding ElectionPktSerialize_def [abs_def] pkt_wire_def [abs_def]
  by (intro lives_bind lives_put_int lives_put_string lives_put_vector) (simp_all add: pkt_small_def small_id_def)

lemma lives_reply: "\<lbrakk> \<forall>k. alloc k; reply_small p \<rbrakk> \<Longrightarrow> lives (checked (ElectionReplyPktSerialize alloc p)) (reply_wire p)"
  unfolding ElectionReplyPktSerialize_def [abs_def] reply_wire_def [abs_def]
  by (intro lives_bind lives_put_int lives_put_string) (simp_all add: reply_small_def small_id_def)

end
