(* ===== verification/SerialProps.thy ===== *)
theory SerialProps
  imports ElectionSerial SerialLive
begin

text \<open>
  The properties of the serialisation: no operation writes or reads outside a buffer, every registered type
  survives the journey at every alignment, blocks carry their type, messages nest, and the packets of the
  election and the automatic messages arrive as they were sent.
\<close>

section \<open>The writer stays inside its buffer\<close>

datatype se_op =
    Put_base ctype "u8 list"
  | Put_string string
  | Put_c_str "u8 list option"
  | Put_memory ctype "u8 list option" u64
  | Put_array_len u64
  | Put_base_vector ctype "u8 list list"
  | Put_bool_vector "bool list"
  | Put_string_vector "string list"
  | Get_buffer bool

fun exec :: "(u64 \<Rightarrow> bool) \<Rightarrow> se_op \<Rightarrow> serializer \<Rightarrow> serializer option" where
  "exec alloc (Put_base t v) s = put_base alloc t v s"
| "exec alloc (Put_string str) s = put_string alloc str s"
| "exec alloc (Put_c_str str) s = put_c_str alloc str s"
| "exec alloc (Put_memory t ptr l) s = put_addr_len alloc t ptr l s"
| "exec alloc (Put_array_len n) s = put_array_len alloc n s"
| "exec alloc (Put_base_vector t vec) s = put_base_vector alloc t vec s"
| "exec alloc (Put_bool_vector vec) s = put_bool_vector alloc vec s"
| "exec alloc (Put_string_vector vec) s = put_vector alloc (put_string alloc) vec s"
| "exec alloc (Get_buffer b) s = map_option snd (GetBuffer b s)"

fun op_ok :: "se_op \<Rightarrow> bool" where
  \<comment> \<open>objects of C++: a value has the size of its type, a pointer is null or points at the bytes, lengths fit an address\<close>
  "op_ok (Put_base t v) = (length v = sizeof t)"
| "op_ok (Put_string str) = (length str < 2 ^ 63)"
| "op_ok (Put_c_str str) = (case str of None \<Rightarrow> True | Some bs \<Rightarrow> length bs < 2 ^ 63)"
| "op_ok (Put_memory t ptr l) = (case ptr of None \<Rightarrow> True | Some bs \<Rightarrow> length bs = unat (l * of_nat (sizeof t)))"
| "op_ok (Put_array_len n) = True"
| "op_ok (Put_base_vector t vec) = base_vector_fits t vec"
| "op_ok (Put_bool_vector vec) = (length vec < 2 ^ 63)"
| "op_ok (Put_string_vector vec) = (length vec < 2 ^ 64 \<and> (\<forall>str \<in> set vec. length str < 2 ^ 63))"
| "op_ok (Get_buffer b) = True"

fun exec_all :: "(u64 \<Rightarrow> bool) \<Rightarrow> se_op list \<Rightarrow> serializer \<Rightarrow> serializer option" where
  "exec_all alloc [] s = Some s"
| "exec_all alloc (x # xs) s = do { s1 \<leftarrow> exec alloc x s; exec_all alloc xs s1 }"

definition constructed :: "(u64 \<Rightarrow> bool) \<Rightarrow> serializer \<Rightarrow> bool" where
  \<comment> \<open>one of the three constructors; a capacity beyond 32 bits is not considered\<close>
  "constructed alloc s \<longleftrightarrow> s = UbseSerialization_new alloc \<or> (\<exists>a. s = UbseSerialization_align alloc a) \<or>
     (\<exists>a cap. unat cap < 2 ^ 32 \<and> s = UbseSerialization_cap alloc cap a)"

definition se_safe :: "serializer \<Rightarrow> bool" where
  "se_safe s \<longleftrightarrow> (if se_flag s then \<exists>A. holds s A else se_buf s = None \<or> broken s)"

lemma constructed_started: "constructed alloc s \<Longrightarrow> se_flag s \<Longrightarrow> started s []"
  unfolding constructed_def using start_new start_align start_cap by blast

lemma constructed_safe: "constructed alloc s \<Longrightarrow> se_safe s"
proof (cases "se_flag s")
  case True
  moreover assume "constructed alloc s"
  ultimately show ?thesis using constructed_started [of alloc s] by (auto simp: se_safe_def started_def)
next
  case False
  moreover assume "constructed alloc s"
  ultimately have "se_buf s = None"
    by (auto simp: constructed_def UbseSerialization_new_def UbseSerialization_align_def UbseSerialization_cap_def Let_def
        new_buffer_def se_fail_def split: if_splits)
  then show ?thesis using False by (simp add: se_safe_def)
qed

lemma writes_safe:
  assumes "writes f w" and "se_safe s"
  shows "\<exists>s'. f s = Some s' \<and> se_safe s'"
proof (cases "se_flag s")
  case True
  then obtain A where "holds s A" using assms(2) by (auto simp: se_safe_def)
  then obtain s' where "f s = Some s'" "if se_flag s' then holds s' (A @ w (se_alignOffset s)) else broken s'"
    using assms(1) True unfolding writes_def by blast
  then show ?thesis by (auto simp: se_safe_def)
next
  case False then show ?thesis using assms by (auto simp: writes_def)
qed

lemma holds_started: "holds s A \<Longrightarrow> started s (drop (up (se_alignOffset s) 12) A)"
  unfolding started_def by (rule exI [of _ "take (up (se_alignOffset s) 12) A"]) (simp add: holds_def)

lemma GetBuffer_safe: "se_safe s \<Longrightarrow> \<exists>b s'. GetBuffer ctrl s = Some (b, s') \<and> se_safe s'"
proof (cases "se_flag s")
  case True
  assume "se_safe s"
  then obtain A where "holds s A" using True by (auto simp: se_safe_def)
  then show ?thesis
  proof (rule GetBuffer_started [OF holds_started, of s A ctrl], goal_cases)
    case (1 bs)
    then show ?case using True by (auto simp: se_safe_def started_def)
  qed
next
  case False
  assume "se_safe s"
  then consider "se_buf s = None" | b where "se_buf s = Some b" "12 \<le> length b" using False by (auto simp: se_safe_def broken_def)
  then show ?thesis
  proof cases
    case 1 then show ?thesis using False by (simp add: GetBuffer_def se_safe_def)
  next
    case 2
    obtain b1 b2 where "SetCode 0 (ucast HEAD_CTRL_CODE) (Some b) = Some b1" "SetCode 1 (ucast (se_alignOffset s)) b1 = Some b2"
        "SetCode 2 (ucast (se_len s)) b2 = Some (Some (le_bytes 4 (unat (ucast HEAD_CTRL_CODE :: u32)) @
          le_bytes 4 (unat (ucast (se_alignOffset s) :: u32)) @ le_bytes 4 (unat (ucast (se_len s) :: u32)) @ drop 12 b))"
      by (rule three_codes [OF 2(2)])
    then show ?thesis using False 2 by (simp add: GetBuffer_def se_safe_def broken_def del: One_nat_def)
  qed
qed

lemma fails_safe: "se_safe s \<Longrightarrow> se_safe (se_fail s)"
  using broken_fail by (cases "se_flag s") (auto simp: se_safe_def se_fail_def broken_def)

lemma exec_safe: "\<lbrakk> op_ok x; se_safe s \<rbrakk> \<Longrightarrow> \<exists>s'. exec alloc x s = Some s' \<and> se_safe s'"
proof (cases x)
  case (Put_base t v)
  then show "op_ok x \<Longrightarrow> se_safe s \<Longrightarrow> ?thesis" using writes_safe [OF writes_put_base] by simp
next
  case (Put_string str)
  then show "op_ok x \<Longrightarrow> se_safe s \<Longrightarrow> ?thesis" using writes_safe [OF writes_string] by simp
next
  case (Put_c_str str)
  assume ok: "op_ok x" "se_safe s"
  show ?thesis
  proof (cases str)
    case None then show ?thesis using Put_c_str fails_safe [OF ok(2)] by (simp add: put_c_str_def)
  next
    case (Some bs)
    then have "unat (of_nat (length bs) + 1 :: u64) = length (bs @ [0])" using ok(1) Put_c_str unat_Suc_length [of bs] by simp
    from writes_safe [OF writes_add [OF this, of alloc STRING_ID] ok(2)] show ?thesis
      by (simp add: Put_c_str put_c_str_def Some)
  qed
next
  case (Put_memory t ptr l)
  assume ok: "op_ok x" "se_safe s"
  show ?thesis
  proof (cases ptr)
    case None then show ?thesis using Put_memory ok fails_safe [OF ok(2)] by (auto simp: put_addr_len_def se_add_def)
  next
    case (Some bs)
    then have "unat (l * of_nat (sizeof t)) = length bs" using ok(1) Put_memory by simp
    from writes_safe [OF writes_addr_len [OF this] ok(2)] show ?thesis by (simp add: Put_memory Some)
  qed
next
  case (Put_array_len n)
  then show "se_safe s \<Longrightarrow> ?thesis" using writes_safe [OF writes_array_len] by simp
next
  case (Put_base_vector t vec)
  then show "op_ok x \<Longrightarrow> se_safe s \<Longrightarrow> ?thesis" using writes_safe [OF writes_base_vector] by simp
next
  case (Put_bool_vector vec)
  then show "op_ok x \<Longrightarrow> se_safe s \<Longrightarrow> ?thesis" using writes_safe [OF writes_bool_vector] by simp
next
  case (Put_string_vector vec)
  then show "op_ok x \<Longrightarrow> se_safe s \<Longrightarrow> ?thesis" using writes_safe [OF str.vector_writes] by simp
next
  case (Get_buffer b)
  then show "se_safe s \<Longrightarrow> ?thesis" using GetBuffer_safe [of s b] by auto
qed



section \<open>Every registered type, at every alignment\<close>

lemma serialized_started:
  assumes "started s P" and "se_flag s" and "serializes f w" and "f s = Some (True, s')"
  shows "started s' (P @ w (se_alignOffset s)) \<and> se_alignOffset s' = se_alignOffset s \<and> se_flag s'"
proof -
  obtain H where H: "length H = up (se_alignOffset s) 12" "holds s (H @ P)" using assms(1) by (auto simp: started_def)
  then obtain s1 where "f s = Some (se_flag s1, s1)" "se_alignOffset s1 = se_alignOffset s"
      "if se_flag s1 then holds s1 ((H @ P) @ w (se_alignOffset s)) else broken s1"
    using assms(2,3) unfolding serializes_def by blast
  then show ?thesis using assms(4) H(1) by (auto simp: started_def)
qed

lemma recovers_opened:
  assumes "recovers g w x" and "opened s d (w (se_alignOffset s) @ Q)"
  shows "\<exists>d'. g d = Some (x, d') \<and> opened s d' Q"
  using assms unfolding recovers_def opened_def by metis


lemma accepted_written:
  assumes "constructed alloc s0" and "se_flag s0" and "\<forall>k. alloc k" and "shaped sh v" and "accepted sh v"
    and "up (se_alignOffset s0) 12 + length (wire_of sh v (se_alignOffset s0)) < 2 ^ 24"
  shows "\<exists>s. SerializeField alloc sh v s0 = Some (True, s)"
proof -
  obtain H where "length H = up (se_alignOffset s0) 12" "holds s0 H"
    using constructed_started [OF assms(1,2)] by (auto simp: started_def)
  then show ?thesis using lives_field [OF assms(3,4,5)] assms(2,6) unfolding lives_def by fastforce
qed

lemma new_good [simp]: "se_flag (UbseSerialization_new (\<lambda>n. True))" "se_alignOffset (UbseSerialization_new (\<lambda>n. True)) = 3"
    "constructed alloc (UbseSerialization_new alloc)"
  by (simp_all add: UbseSerialization_new_def new_buffer_def Let_def constructed_def)

definition sample_shape :: shape where
  "sample_shape = S_members [S_basic C_int, S_vector S_string, S_umap S_string S_bits]"

definition sample_field :: "u8 list \<Rightarrow> field" where
  "sample_field v = F_members [F_basic v, F_vector [F_string ''ab'', F_string []], F_umap [(F_string ''k'', F_bits (unpack 5))]]"

lemma sample [simp]: "length v = 4 \<Longrightarrow> shaped sample_shape (sample_field v)" "sized sample_shape (sample_field v)"
    "accepted sample_shape (sample_field v)" "length v = 4 \<Longrightarrow> up 3 12 + length (wire_of sample_shape (sample_field v) 3) < 2 ^ 24"
  by (simp_all add: sample_shape_def sample_field_def size_wire_def string_wire_def bytes_of_def up_def)

lemma sample_written: "\<exists>s. SerializeField (\<lambda>n. True) sample_shape (sample_field [1, 2, 3, 4]) (UbseSerialization_new (\<lambda>n. True)) = Some (True, s)"
  by (rule accepted_written) (simp_all del: power_numeral)


text \<open>
  With memory at hand, a value whose strings, blocks and vectors are within the limits of the format and whose
  bytes fit a message is always written.
\<close>
theorem field_accepted:
  assumes "constructed alloc s0" and "se_flag s0" and "\<forall>k. alloc k" and "shaped sh v" and "accepted sh v"
    and "up (se_alignOffset s0) 12 + length (wire_of sh v (se_alignOffset s0)) < 2 ^ 24"
  shows "\<exists>s. SerializeField alloc sh v s0 = Some (True, s) \<and> se_flag s \<and>
    unat (se_len s) = up (se_alignOffset s0) 12 + length (wire_of sh v (se_alignOffset s0))"
proof -
  obtain s where s: "SerializeField alloc sh v s0 = Some (True, s)" using accepted_written [OF assms] by blast
  then have "started s (wire_of sh v (se_alignOffset s0))" "se_alignOffset s = se_alignOffset s0" "se_flag s"
    using serialized_started [OF constructed_started [OF assms(1,2)] assms(2) serializes_field [OF assms(4) accepted_sized [OF assms(5)]]] by simp_all
  then show ?thesis using s by (auto simp: started_def holds_def)
qed

theorem field_accepted_witness:
  "\<exists>s. SerializeField (\<lambda>n. True) sample_shape (sample_field [1, 2, 3, 4]) (UbseSerialization_new (\<lambda>n. True)) = Some (True, s) \<and> se_flag s \<and>
    unat (se_len s) = up 3 12 + length (wire_of sample_shape (sample_field [1, 2, 3, 4]) 3)"
  using field_accepted [of "\<lambda>n. True" "UbseSerialization_new (\<lambda>n. True)" sample_shape "sample_field [1, 2, 3, 4]"]
  by (simp del: power_numeral)

section \<open>Messages between nodes\<close>

text \<open>
  C33: An election packet and a reply within the limits of the format are always serialised, and the node that gets the bytes
  recovers exactly the packet, whatever its message object held before.
\<close>
theorem election_packets_delivered:
  assumes "\<forall>n. alloc n" and "\<forall>n. alloc' n" and "pkt_small (simpoMesg m)" and "reply_small (simpoMesg q)"
  shows "(\<exists>m1 r1 r2. UbseElectionPktSimpo_Serialize alloc m = Some (True, m1) \<and>
      SetInputRawData alloc' (mOutputRawData m1) (mOutputRawDataSize m1) r = Some (True, r1) \<and>
      UbseElectionPktSimpo_Deserialize alloc' r1 = Some (True, r2) \<and> simpoMesg r2 = simpoMesg m) \<and>
    (\<exists>q1 s1 s2. UbseElectionReplyPktSimpo_Serialize alloc q = Some (True, q1) \<and>
      SetInputRawData alloc' (mOutputRawData q1) (mOutputRawDataSize q1) s = Some (True, s1) \<and>
      UbseElectionReplyPktSimpo_Deserialize alloc' s1 = Some (True, s2) \<and> simpoMesg s2 = simpoMesg q)"
proof -
  have f: "se_flag (UbseSerialization_new alloc)" using assms(1) by (simp add: UbseSerialization_new_def new_buffer_def Let_def)
  show ?thesis
    unfolding UbseElectionPktSimpo_Serialize_def UbseElectionPktSimpo_Deserialize_def
      UbseElectionReplyPktSimpo_Serialize_def UbseElectionReplyPktSimpo_Deserialize_def
    using pkt.Simpo_delivers [OF small_fits(1) [OF assms(3)] lives_pkt [OF assms(1,3)] f _ assms(2)]
      reply.Simpo_delivers [OF small_fits(2) [OF assms(4)] lives_reply [OF assms(1,4)] f _ assms(2)] assms(3,4)
    by (simp add: pkt_small_def reply_small_def)
qed

definition sample_pkt :: wire_pkt where
  "sample_pkt = \<lparr>pk_type = 1, pk_masterId = ''1'', pk_standbyId = ''2'', pk_turnId = 7, pk_sequenceId = 3, pk_agentCount = 1,
     pk_agentIds = [''3''], pk_masterStatus = 1, pk_standbyStatus = 0, pk_broadcast = 0, pk_rev1 = 0, pk_rsv2 = 0\<rparr>"

definition sample_reply :: wire_reply where
  "sample_reply = \<lparr>rp_replyId = ''3'', rp_replyResult = 0, rp_masterId = ''1'', rp_turnId = 7, rp_standbyStatus = 0,
     rp_broadcast = 0, rp_type = 1, rp_rsv = 0, rp_length = 0\<rparr>"

definition message_of :: "'m \<Rightarrow> 'm message" where
  "message_of x = \<lparr>mInputRawData = None, mInputRawDataSize = 0, mOutputRawData = None, mOutputRawDataSize = 0, mErrCode = 0, simpoMesg = x\<rparr>"

lemma message_of_simps [simp]: "simpoMesg (message_of x) = x" "mErrCode (message_of x) = 0"
  by (simp_all add: message_of_def)

theorem election_packets_delivered_witness:
  "(\<exists>m1 r1 r2. UbseElectionPktSimpo_Serialize (\<lambda>n. True) (message_of sample_pkt) = Some (True, m1) \<and>
      SetInputRawData (\<lambda>n. True) (mOutputRawData m1) (mOutputRawDataSize m1) (message_of sample_pkt) = Some (True, r1) \<and>
      UbseElectionPktSimpo_Deserialize (\<lambda>n. True) r1 = Some (True, r2) \<and> simpoMesg r2 = sample_pkt) \<and>
    (\<exists>q1 s1 s2. UbseElectionReplyPktSimpo_Serialize (\<lambda>n. True) (message_of sample_reply) = Some (True, q1) \<and>
      SetInputRawData (\<lambda>n. True) (mOutputRawData q1) (mOutputRawDataSize q1) (message_of sample_reply) = Some (True, s1) \<and>
      UbseElectionReplyPktSimpo_Deserialize (\<lambda>n. True) s1 = Some (True, s2) \<and> simpoMesg s2 = sample_reply)"
  using election_packets_delivered [of "\<lambda>n. True" "\<lambda>n. True" "message_of sample_pkt" "message_of sample_reply" "message_of sample_pkt" "message_of sample_reply"]
  by (simp add: pkt_small_def reply_small_def small_id_def sample_pkt_def sample_reply_def pkt_wire_def reply_wire_def int_wire_def
      string_wire_def vector_wire_def bytes_of_def up_def MAX_IPC_DATA_PACKAGE_LEN_def)

lemma lives_started:
  assumes "lives f w" and "started s P" and "se_flag s" and "up (se_alignOffset s) 12 + length P + length (w (se_alignOffset s)) < 2 ^ 24"
  shows "\<exists>s'. f s = Some (True, s') \<and> se_flag s' \<and> started s' (P @ w (se_alignOffset s)) \<and> se_alignOffset s' = se_alignOffset s"
proof -
  obtain H where H: "length H = up (se_alignOffset s) 12" "holds s (H @ P)" using assms(2) by (auto simp: started_def)
  then have "length (H @ P) + length (w (se_alignOffset s)) < 2 ^ 24" using assms(4) by simp
  then obtain s' where "f s = Some (True, s')" "se_flag s'" "holds s' ((H @ P) @ w (se_alignOffset s))" "se_alignOffset s' = se_alignOffset s"
    using assms(1,3) H(2) unfolding lives_def by blast
  then show ?thesis using H(1) by (auto simp: started_def)
qed

abbreviation err_field :: "u32 \<Rightarrow> field" where
  "err_field e \<equiv> F_basic (le_bytes 4 (unat e))"

definition message_len :: "shape \<Rightarrow> field message \<Rightarrow> nat" where
  "message_len sh m = up 3 12 + length (wire_of (S_basic C_unsigned_int) (err_field (mErrCode m)) 3) + length (wire_of sh (simpoMesg m) 3)"

lemma message_written:
  assumes "\<forall>n. alloc n" and "shaped sh (simpoMesg m)" and "accepted sh (simpoMesg m)" and "message_len sh m < 2 ^ 24"
  shows "\<exists>m1. UbseAutoSimpo_Serialize alloc sh m = Some (True, m1) \<and> unat (mOutputRawDataSize m1) = message_len sh m"
proof -
  let ?s = "UbseSerialization_new alloc" and ?u = "S_basic C_unsigned_int"
  have f: "se_flag ?s" using assms(1) by (simp add: UbseSerialization_new_def new_buffer_def Let_def)
  have st: "started ?s []" "se_alignOffset ?s = 3" using start_new [OF f] by simp_all
  have "up (se_alignOffset ?s) 12 + length [] + length (wire_of ?u (err_field (mErrCode m)) (se_alignOffset ?s)) < 2 ^ 24"
    using assms(4) st(2) by (simp add: message_len_def del: wire_of.simps)
  from lives_started [OF lives_field [OF assms(1)] st(1) f this]
  obtain s1 where s1: "SerializeField alloc ?u (err_field (mErrCode m)) ?s = Some (True, s1)" "se_flag s1" "se_alignOffset s1 = 3"
      "started s1 (wire_of ?u (err_field (mErrCode m)) 3)"
    using st(2) by (auto simp del: SerializeField.simps wire_of.simps)
  have "up (se_alignOffset s1) 12 + length (wire_of ?u (err_field (mErrCode m)) 3) + length (wire_of sh (simpoMesg m) (se_alignOffset s1)) < 2 ^ 24"
    using assms(4) s1(3) by (simp add: message_len_def del: wire_of.simps)
  from lives_started [OF lives_field [OF assms(1-3)] s1(4,2) this]
  obtain s2 where s2: "SerializeField alloc sh (simpoMesg m) s1 = Some (True, s2)" "se_alignOffset s2 = 3"
      "started s2 (wire_of ?u (err_field (mErrCode m)) 3 @ wire_of sh (simpoMesg m) 3)"
    using s1(3) by (auto simp del: SerializeField.simps wire_of.simps)
  show ?thesis
  proof (rule GetBuffer_started [OF s2(3), of True], goal_cases)
    case (1 bs)
    then have "unat (se_len s2) = message_len sh m" using s2(2) by (simp add: message_len_def del: wire_of.simps)
    moreover from this have "unat (ucast (se_len s2) :: u32) = message_len sh m" using unat_ucast_small [of "se_len s2"] 1 by simp
    ultimately show ?case using s1(1) s2(1) 1 by (simp add: UbseAutoSimpo_Serialize_def del: SerializeField.simps)
  qed
qed

lemma message_recovered:
  assumes "shaped sh (simpoMesg m)" and "sized sh (simpoMesg m)" and "\<forall>n. alloc' n" and "shaped sh (simpoMesg r)"
    and ser: "UbseAutoSimpo_Serialize alloc sh m = Some (True, m1)" and lim: "mOutputRawDataSize m1 \<le> MAX_IPC_DATA_PACKAGE_LEN"
  shows "\<exists>r1 r2. SetInputRawData alloc' (mOutputRawData m1) (mOutputRawDataSize m1) r = Some (True, r1) \<and>
    UbseAutoSimpo_Deserialize alloc' sh r1 = Some (True, r2) \<and> simpoMesg r2 = simpoMesg m \<and> mErrCode r2 = mErrCode m"
proof -
  let ?s = "UbseSerialization_new alloc" and ?e = "err_field (mErrCode m)" and ?u = "S_basic C_unsigned_int"
  let ?we = "wire_of ?u ?e 3" and ?wv = "wire_of sh (simpoMesg m) 3"
  obtain s1 where s1: "SerializeField alloc ?u ?e ?s = Some (True, s1)"
    using ser by (auto simp: UbseAutoSimpo_Serialize_def bind_eq_Some_conv split: if_splits)
  then obtain s2 where s2: "SerializeField alloc sh (simpoMesg m) s1 = Some (True, s2)"
    using ser by (auto simp: UbseAutoSimpo_Serialize_def bind_eq_Some_conv split: if_splits)
  have es: "shaped ?u ?e" "sized ?u ?e" by simp_all
  have f: "se_flag ?s"
  proof (rule ccontr)
    assume "\<not> se_flag ?s"
    then show False using s1 by (simp add: checked_def put_base_def)
  qed
  have off: "se_alignOffset ?s = 3" and st0: "started ?s []" using start_new [OF f] by simp_all
  have st1: "started s1 ?we" "se_alignOffset s1 = 3" "se_flag s1"
    using serialized_started [OF st0 f serializes_field [OF es] s1] off by (simp_all del: wire_of.simps)
  have st: "started s2 (?we @ ?wv)" "se_alignOffset s2 = 3"
    using serialized_started [OF st1(1,3) serializes_field [OF assms(1,2)] s2] st1(2) by (simp_all del: wire_of.simps)
  define n where "n = (ucast (se_len s2) :: u32)"
  show ?thesis
  proof (rule transfer [OF st(1) n_def, of alloc'], goal_cases)
    case (1 bs s' d)
    have m1: "mOutputRawData m1 = Some bs" "mOutputRawDataSize m1 = n"
      using ser s1 s2 1(1) by (auto simp: UbseAutoSimpo_Serialize_def n_def simp del: SerializeField.simps)
    have "recovers (de_checked (get_base C_unsigned_int (le_bytes 4 (unat (mErrCode r))))) (wire_of ?u ?e) (True, le_bytes 4 (unat (mErrCode m)))"
    proof -
      have "wire_of ?u ?e = (\<lambda>off. block off (GetTypeId C_unsigned_int) (sizeof C_unsigned_int) (le_bytes 4 (unat (mErrCode m))))"
        by (simp add: fun_eq_iff)
      then show ?thesis
        using recovers_checked [OF recovers_base [of "le_bytes 4 (unat (mErrCode m))" C_unsigned_int]] by simp
    qed
    from recovers_opened [OF this, of s2 d ?wv]
    obtain d1 where d1: "de_checked (get_base C_unsigned_int (le_bytes 4 (unat (mErrCode r)))) d = Some ((True, le_bytes 4 (unat (mErrCode m))), d1)"
        "opened s2 d1 ?wv"
      using 1(5) st(2) by (auto simp del: wire_of.simps)
    then obtain d2 where "DeSerializeField sh (simpoMesg r) d1 = Some ((True, simpoMesg m), d2)"
      using recovers_opened [OF recovers_field [OF assms(4,1,2)], of s2 d1 "[]"] st(2) by auto
    then show ?thesis
      using d1(1) 1(4) SetInputRawData_copies [OF 1(2) lim [unfolded m1] 1(3), of alloc' r] assms(3) m1
      by (auto simp: UbseAutoSimpo_Deserialize_def Let_def le_nat_word)
  qed
qed



section \<open>Bytes from anywhere\<close>

definition readable :: "'m message \<Rightarrow> bool" where
  \<comment> \<open>the size of the input is not more than its allocation, as the setters of the message make it\<close>
  "readable m \<longleftrightarrow> (\<forall>bs. mInputRawData m = Some bs \<longrightarrow> unat (mInputRawDataSize m) \<le> length bs)"

lemma readable_opens:
  assumes "readable m"
  shows "\<exists>d. UbseDeSerialization_buf alloc (mInputRawData m) (ucast (mInputRawDataSize m)) False = Some d \<and> de_ok d"
proof -
  have "unat (ucast (mInputRawDataSize m) :: u64) = unat (mInputRawDataSize m)"
    using unsigned_less [of "mInputRawDataSize m", where ?'a = nat] by (simp add: unsigned_ucast_eq take_bit_nat_eq_self)
  then show ?thesis
    using UbseDeSerialization_buf_safe [of "mInputRawData m" "ucast (mInputRawDataSize m)" alloc False] assms
    by (simp add: readable_def)
qed

context codec
begin

lemma Simpo_safe: "readable m \<Longrightarrow> Simpo_Deserialize get alloc m \<noteq> None"
proof -
  assume "readable m"
  then obtain d where d: "UbseDeSerialization_buf alloc (mInputRawData m) (ucast (mInputRawDataSize m)) False = Some d" "de_ok d"
    using readable_opens by blast
  then obtain x d1 where "get (simpoMesg m) d = Some (x, d1)" using get_safe [of "simpoMesg m"] unfolding safe_get_def by blast
  then show ?thesis using d(1) by (auto simp: Simpo_Deserialize_def)
qed

end

lemma auto_safe: "readable m \<Longrightarrow> shaped sh (simpoMesg m) \<Longrightarrow> UbseAutoSimpo_Deserialize alloc sh m \<noteq> None"
proof -
  assume r: "readable m" and sh: "shaped sh (simpoMesg m)"
  obtain d where d: "UbseDeSerialization_buf alloc (mInputRawData m) (ucast (mInputRawDataSize m)) False = Some d" "de_ok d"
    using readable_opens [OF r] by blast
  obtain y d1 where d1: "de_checked (get_base C_unsigned_int (le_bytes 4 (unat (mErrCode m)))) d = Some (y, d1)" "de_ok d1"
    using safe_checked [OF safe_base] d(2) unfolding safe_get_def by blast
  obtain x d2 where "DeSerializeField sh (simpoMesg m) d1 = Some (x, d2)"
    using safe_field [OF sh] d1(2) unfolding safe_get_def by blast
  then show ?thesis using d(1) d1(1) by (cases y; cases x) (auto simp: UbseAutoSimpo_Deserialize_def Let_def)
qed

text \<open>
  C29: Deserialising any bytes, as a message of any registered type, as an election packet or as a reply, never reads outside
  the bytes and always ends; the setter that takes bytes from the transport never touches memory it does not own and
  gives such a message.
\<close>
theorem any_bytes_safe:
  assumes "readable m" and "shaped sh (simpoMesg m)" and "readable p" and "readable q" and "unat n \<le> length bs"
  shows "UbseAutoSimpo_Deserialize alloc sh m \<noteq> None \<and> UbseElectionPktSimpo_Deserialize alloc p \<noteq> None \<and>
    UbseElectionReplyPktSimpo_Deserialize alloc q \<noteq> None \<and>
    (\<exists>ok m1. SetInputRawData alloc (Some bs) n m = Some (ok, m1) \<and> readable m1)"
proof -
  have "\<exists>ok m1. SetInputRawData alloc (Some bs) n m = Some (ok, m1) \<and> readable m1"
  proof (cases "n = 0 \<or> n > MAX_IPC_DATA_PACKAGE_LEN \<or> \<not> alloc (ucast n)")
    case True then show ?thesis using assms(1) by (auto simp: SetInputRawData_def)
  next
    case False
    then have "0 < unat n" "n \<le> MAX_IPC_DATA_PACKAGE_LEN" by (auto simp: unat_gt_0)
    from SetInputRawData_copies [OF this assms(5), of alloc m] show ?thesis using False assms(5) by (auto simp: readable_def)
  qed
  then show ?thesis
    using auto_safe [OF assms(1,2)] pkt.Simpo_safe [OF assms(3)] reply.Simpo_safe [OF assms(4)]
    unfolding UbseElectionPktSimpo_Deserialize_def UbseElectionReplyPktSimpo_Deserialize_def by blast
qed

theorem any_bytes_safe_witness:
  "UbseAutoSimpo_Deserialize (\<lambda>n. True) sample_shape ((message_of (sample_field [0, 0, 0, 0]))\<lparr>mInputRawData := Some [255, 0, 0], mInputRawDataSize := 3\<rparr>) \<noteq> None \<and>
    UbseElectionPktSimpo_Deserialize (\<lambda>n. True) ((message_of sample_pkt)\<lparr>mInputRawData := Some [255, 0], mInputRawDataSize := 2\<rparr>) \<noteq> None \<and>
    UbseElectionReplyPktSimpo_Deserialize (\<lambda>n. True) (message_of sample_reply) \<noteq> None \<and>
    (\<exists>ok m1. SetInputRawData (\<lambda>n. True) (Some [1, 2, 3]) 2 ((message_of (sample_field [0, 0, 0, 0]))\<lparr>mInputRawData := Some [255, 0, 0], mInputRawDataSize := 3\<rparr>) = Some (ok, m1) \<and> readable m1)"
  by (rule any_bytes_safe) (simp_all add: readable_def message_of_def)

section \<open>Types and bits\<close>

lemma wrong_base:
  assumes "de_ok d" and "de_flag d" and "rest d = block (de_alignOffset d) tid n xs @ r" and "tid \<noteq> GetTypeId t" and "n < 2 ^ 24"
  shows "\<exists>d'. get_base t old d = Some (old, d') \<and> \<not> de_flag d'"
proof (rule get_base_cases [OF assms(1), of t old], goal_cases failed found)
  case (failed d1) then show ?case by blast
next
  case (found d1)
  have "4 \<le> length (rest d)" using up_bounds [of 4 "de_alignOffset d"] by (simp add: assms(3))
  then have "read_head (GetTypeId t) d = Some None"
    using read_head_rest [OF assms(1,2), of "GetTypeId t"] len_of_head [of "of_nat n" "GetTypeId t" tid] assms(4,5)
      take_head [of "de_alignOffset d" "unat (head_of tid (of_nat n))" "pad (de_alignOffset d) xs @ r"]
    by (simp add: assms(3) block_def le_nat_word unat_of_nat)
  then show ?thesis by (auto simp: get_base_def checkValid_def de_fail_def)
qed

lemma wrong_get:
  assumes "de_ok d" and "de_flag d" and "rest d = block (de_alignOffset d) tid n xs @ r" and "tid \<noteq> t" and "n < 2 ^ 24"
  shows "\<exists>d'. de_get t d = Some (None, d') \<and> \<not> de_flag d'"
proof (rule de_get_cases [OF assms(1), of t], goal_cases failed found)
  case (failed d1) then show ?case by blast
next
  case (found addr len d1)
  have "len_of_head t (of_nat (le_nat (take 4 (rest d)))) = None"
    using len_of_head [of "of_nat n" t tid] assms(4,5)
      take_head [of "de_alignOffset d" "unat (head_of tid (of_nat n))" "pad (de_alignOffset d) xs @ r"]
    by (simp add: assms(3) block_def le_nat_word unat_of_nat)
  then show ?case using found(9) by simp
qed

lemma wrong_array:
  assumes "de_ok d" and "de_flag d" and "rest d = block (de_alignOffset d) tid n xs @ r" and "tid \<noteq> ARRAY_CTRL_CODE" and "n < 2 ^ 24"
  shows "\<exists>d'. get_array_len d = Some (0, d') \<and> \<not> de_flag d'"
proof (rule get_array_len_cases [OF assms(1)], goal_cases failed found)
  case (failed d1) then show ?case by blast
next
  case (found m d1)
  have "len_of_head ARRAY_CTRL_CODE (of_nat (le_nat (take 4 (rest d)))) = None"
    using len_of_head [of "of_nat n" ARRAY_CTRL_CODE tid] assms(4,5)
      take_head [of "de_alignOffset d" "unat (head_of tid (of_nat n))" "pad (de_alignOffset d) xs @ r"]
    by (simp add: assms(3) block_def le_nat_word unat_of_nat)
  then show ?case using found(5) by simp
qed

lemma type_ids: "GetTypeId t = GetTypeId t' \<longleftrightarrow> t = t'" "GetTypeId t \<noteq> GetTypePointerId t'" "GetTypeId t \<noteq> STRING_ID"
    "GetTypeId t \<noteq> ARRAY_CTRL_CODE" "GetTypeId t \<noteq> NEST_CTRL_CODE" "GetTypeId t \<noteq> BIT_REFERENCE_ID"
  by (cases t; cases t'; simp add: STRING_ID_def ARRAY_CTRL_CODE_def NEST_CTRL_CODE_def BIT_REFERENCE_ID_def)+



text \<open>
  Packing the memory attributes into sixteen bits and unpacking them are inverse to each other.
\<close>
theorem priv_data_bits: "unpack (pack p) = p \<and> pack (unpack w) = w"
proof
  show "unpack (pack p) = p" by (rule unpack_pack)
  have k: "(7 :: u16) = mask 3" "(0x3F :: u16) = mask 6" by (simp_all add: mask_eq_exp_minus_1)
  have b: "(drop_bit n w AND 1 \<noteq> 0) = bit w n" for n
    by (simp add: and_one_eq bit_iff_odd_drop_bit odd_iff_mod_2_eq_one)
  have b0: "(w AND 1 \<noteq> 0) = bit w 0" using b [of 0] by simp
  have m: "bit (marId (unpack w)) n = (n < 3 \<and> bit w (7 + n))" "bit (rsv0 (unpack w)) n = (n < 6 \<and> bit w (10 + n))" for n
    unfolding unpack_def k by (auto simp: bit_simps simp del: mask_numeral)
  show "pack (unpack w) = w"
  proof (rule bit_word_eqI)
    fix n assume "n < LENGTH(16)"
    then show "bit (pack (unpack w)) n = bit w n"
      unfolding bit_pack m by (auto simp: unpack_def b b0)
  qed
qed

section \<open>Nesting\<close>

lemma put_kid_started:
  assumes "started s P" and "se_flag s" and "started kid K" and "se_flag kid" and "put_kid alloc kid s = Some (s', kid')" and "se_flag s'"
  shows "\<exists>xs. kid_wire (se_alignOffset kid) K xs \<and> started s' (P @ block (se_alignOffset s) NEST_CTRL_CODE (length xs) xs) \<and>
    se_alignOffset s' = se_alignOffset s"
proof -
  obtain H where H: "length H = up (se_alignOffset s) 12" "holds s (H @ P)" using assms(1) by (auto simp: started_def)
  obtain s1 kid1 where "put_kid alloc kid s = Some (s1, kid1)" "se_alignOffset s1 = se_alignOffset s"
      "if se_flag s1 then \<exists>xs. kid_wire (se_alignOffset kid) K xs \<and> holds s1 ((H @ P) @ block (se_alignOffset s) NEST_CTRL_CODE (length xs) xs)
       else broken s1"
    using put_kid_holds [OF assms(2) H(2) assms(4,3), of alloc] by blast
  then show ?thesis using assms(5,6) H(1) by (auto simp: started_def)
qed

text \<open>
  C35: A message written into a message, at whatever alignments, is read back from it: first the value before it, then the
  inner message as a deserialiser of its own, whose value is the one that was written.
\<close>
theorem nested_message_roundtrip:
  assumes "constructed alloc s0" "se_flag s0" "shaped sh v" "sized sh v" "SerializeField alloc sh v s0 = Some (True, s1)"
    and "constructed alloc k0" "se_flag k0" "shaped kh kv" "sized kh kv" "SerializeField alloc kh kv k0 = Some (True, k1)"
    and "put_kid alloc k1 s1 = Some (s2, k2)" "se_flag s2" "shaped sh old" "shaped kh kold" "\<forall>n. alloc' n"
  shows "\<exists>bs s3 d d1 d2 kd kd1. GetBuffer ctrl s2 = Some (Some bs, s3) \<and> UbseDeSerialization_buf alloc' (Some bs) (se_len s2) bNew = Some d \<and>
    DeSerializeField sh old d = Some ((True, v), d1) \<and> get_kid alloc' UbseDeSerialization_new d1 = Some (d2, kd) \<and>
    de_flag d2 \<and> DeSerializeField kh kold kd = Some ((True, kv), kd1) \<and> de_flag kd1"
proof -
  let ?w = "wire_of sh v (se_alignOffset s0)" and ?k = "wire_of kh kv (se_alignOffset k0)"
  have s1: "started s1 ?w" "se_alignOffset s1 = se_alignOffset s0" "se_flag s1"
    using serialized_started [OF constructed_started [OF assms(1,2)] assms(2) serializes_field [OF assms(3,4)] assms(5)] by simp_all
  have k1: "started k1 ?k" "se_alignOffset k1 = se_alignOffset k0" "se_flag k1"
    using serialized_started [OF constructed_started [OF assms(6,7)] assms(7) serializes_field [OF assms(8,9)] assms(10)] by simp_all
  obtain xs where xs: "kid_wire (se_alignOffset k1) ?k xs" "se_alignOffset s2 = se_alignOffset s1"
      "started s2 (?w @ block (se_alignOffset s1) NEST_CTRL_CODE (length xs) xs)"
    using put_kid_started [OF s1(1,3) k1(1,3) assms(11,12)] by blast
  obtain bs s3 d where m: "GetBuffer ctrl s2 = Some (Some bs, s3)" "UbseDeSerialization_buf alloc' (Some bs) (se_len s2) bNew = Some d"
      "opened s2 d (?w @ block (se_alignOffset s1) NEST_CTRL_CODE (length xs) xs)"
    by (rule started_opens [OF xs(3), of bNew alloc' ctrl]) (use assms(15) in auto)
  obtain d1 where d1: "DeSerializeField sh old d = Some ((True, v), d1)" "opened s2 d1 (block (se_alignOffset s1) NEST_CTRL_CODE (length xs) xs)"
    using recovers_opened [OF recovers_field [OF assms(13,3,4)], of s2 d] m(3) xs(2) s1(2) by auto
  then have "rest d1 = block (de_alignOffset d1) NEST_CTRL_CODE (length xs) xs @ []" using xs(2) by (auto simp: opened_def)
  then obtain d2 kd where g: "get_kid alloc' UbseDeSerialization_new d1 = Some (d2, kd)" "de_flag d2" "opened k1 kd ?k"
    using get_kid_block [of d1 xs "[]" k1 ?k alloc' UbseDeSerialization_new] d1(2) xs(1) assms(15)
    by (auto simp: opened_def UbseDeSerialization_new_def)
  obtain kd1 where "DeSerializeField kh kold kd = Some ((True, kv), kd1)" "opened k1 kd1 []"
    using recovers_opened [OF recovers_field [OF assms(14,8,9)], of k1 kd "[]"] g(3) k1(2) by auto
  then show ?thesis using m(1,2) d1(1) g(1,2) by (auto simp: opened_def)
qed

lemma put_kid_lives:
  assumes "\<forall>k. alloc k" and "started s P" and "se_flag s" and "started kid K" and "se_flag kid"
    and "unat (se_len kid) < 2 ^ 16" and "up (se_alignOffset s) 12 + length P + up (se_alignOffset s) 4 + up (se_alignOffset s) (unat (se_len kid)) < 2 ^ 24"
  shows "\<exists>s' kid'. put_kid alloc kid s = Some (s', kid') \<and> se_flag s'"
proof -
  let ?off = "se_alignOffset s"
  obtain H where H: "length H = up ?off 12" "holds s (H @ P)" using assms(2) by (auto simp: started_def)
  have off: "ok_off ?off" using H(2) by (simp add: holds_def)
  have lim: "\<not> se_len kid \<ge> ONCE_LIMIT_LEN" using assms(6) once_limit by (simp add: word_le_nat_alt)
  have sum: "unat (align_to ?off 4 + align_to ?off (se_len kid)) = up ?off 4 + up ?off (unat (se_len kid))"
    using sum_align [OF off, of "se_len kid"] assms(6) by simp
  have "up ?off 4 + up ?off (unat (se_len kid)) < 2 ^ 32" by (rule small_block [OF off]) (use assms(6) in simp)
  moreover have "length (H @ P) + (up ?off 4 + up ?off (unat (se_len kid))) < 2 ^ 24" using assms(7) H(1) by simp
  ultimately obtain s1 where e: "expandCapacity alloc (align_to ?off 4 + align_to ?off (se_len kid)) s = Some (True, s1)" "holds s1 (H @ P)"
      "se_alignOffset s1 = ?off" "se_flag s1" "length (H @ P) + unat (align_to ?off 4 + align_to ?off (se_len kid)) \<le> unat (se_cap s1)"
    using expand_lives [OF assms(1) H(2), of "align_to ?off 4 + align_to ?off (se_len kid)"] assms(3) unfolding sum by metis
  show ?thesis
  proof (rule GetBuffer_started [OF assms(4), of False], goal_cases)
    case (1 bs)
    let ?xs = "take (unat (se_len kid)) bs"
    have "length ?xs = unat (se_len kid)" "up (se_alignOffset kid) 12 \<noteq> 0" using 1 up_bounds [of 12 "se_alignOffset kid"] by auto
    then obtain s2 where "put_copy NEST_CTRL_CODE (Some bs) (se_len kid) s1 = Some s2" "se_flag s2"
      using put_copy_holds [OF e(2), of ?xs "se_len kid" bs NEST_CTRL_CODE] e 1 sum by auto
    then show ?thesis using assms(5) lim e(1) 1 by (simp add: put_kid_def Let_def)
  qed
qed

theorem nested_message_roundtrip_witness:
  "\<exists>s1 k1 s2 k2 bs s3 d d1 d2 kd kd1. SerializeField (\<lambda>n. True) S_string (F_string ''out'') (UbseSerialization_new (\<lambda>n. True)) = Some (True, s1) \<and>
    SerializeField (\<lambda>n. True) (S_enum C_int) (F_enum 7) (UbseSerialization_new (\<lambda>n. True)) = Some (True, k1) \<and>
    put_kid (\<lambda>n. True) k1 s1 = Some (s2, k2) \<and>
    GetBuffer True s2 = Some (Some bs, s3) \<and> UbseDeSerialization_buf (\<lambda>n. True) (Some bs) (se_len s2) True = Some d \<and>
    DeSerializeField S_string (F_string []) d = Some ((True, F_string ''out''), d1) \<and> get_kid (\<lambda>n. True) UbseDeSerialization_new d1 = Some (d2, kd) \<and>
    de_flag d2 \<and> DeSerializeField (S_enum C_int) (F_enum 0) kd = Some ((True, F_enum 7), kd1) \<and> de_flag kd1"
proof -
  let ?al = "\<lambda>n :: u64. True" and ?s0 = "UbseSerialization_new (\<lambda>n. True)"
  have e: "enum_cast C_int e = e" for e by (simp add: enum_cast_def)
  have st0: "started ?s0 []" by (rule constructed_started [OF new_good(3,1)])
  obtain s1 where s1: "SerializeField ?al S_string (F_string ''out'') ?s0 = Some (True, s1)" "se_flag s1" "started s1 (string_wire ''out'' 3)" "se_alignOffset s1 = 3"
    using lives_started [OF lives_field [of ?al S_string "F_string ''out''"] st0 new_good(1)]
    by (auto simp: up_def string_wire_def bytes_of_def)
  obtain k1 where k1: "SerializeField ?al (S_enum C_int) (F_enum 7) ?s0 = Some (True, k1)" "se_flag k1" "started k1 (block 3 3 4 (le_bytes 4 7))" "se_alignOffset k1 = 3"
    using lives_started [OF lives_field [of ?al "S_enum C_int" "F_enum 7"] st0 new_good(1)] by (auto simp: up_def e)
  have len: "unat (se_len k1) = 20" using k1(3,4) by (auto simp: started_def holds_def up_def)
  obtain s2 k2 where s2: "put_kid ?al k1 s1 = Some (s2, k2)" "se_flag s2"
    using put_kid_lives [of ?al s1 "string_wire ''out'' 3" k1 "block 3 3 4 (le_bytes 4 7)"] s1 k1 len
    by (auto simp: up_def string_wire_def bytes_of_def)
  have sh: "shaped S_string (F_string ''out'')" "sized S_string (F_string ''out'')" "shaped (S_enum C_int) (F_enum 7)"
      "sized (S_enum C_int) (F_enum 7)" "shaped S_string (F_string [])" "shaped (S_enum C_int) (F_enum 0)" "\<forall>n. ?al n"
    by (simp_all add: e)
  from nested_message_roundtrip [OF new_good(3,1) sh(1,2) s1(1) new_good(3,1) sh(3,4) k1(1) s2 sh(5,6,7), of True True]
  show ?thesis using s1(1) k1(1) s2(1) by blast
qed

section \<open>Where an object of the serialiser is misused\<close>

text \<open>
  The nesting operator looks at the flag of the inner object only: once the buffer has been handed out, or the
  alignment was invalid, it writes through the null pointer.
\<close>

lemma nesting_unchecked:
  assumes "se_flag kid" and "se_buf s = None" and "se_cap s = 256" and "se_len s = 12" and "se_alignOffset s = 3" and "se_len kid = 12"
  shows "put_kid alloc kid s = None"
proof -
  have "align_to 3 12 = 12" "align_to 3 4 = 4" by (simp_all add: align_to_def)
  moreover have "grow 28 256 = Some 256" by (subst grow.simps) simp
  moreover have "\<not> (28 :: u64) \<ge> MAX_CAPACITY" "\<not> (12 :: u64) \<ge> ONCE_LIMIT_LEN"
    by (simp_all add: limits push_bit_eq_mult drop_bit_eq_div)
  ultimately show ?thesis using assms
    by (simp add: put_kid_def Let_def expandCapacity_def put_copy_def put_head_def store_def bind_eq_None_conv split: option.splits)
qed

lemma capacity_wraps:
  "se_flag (UbseSerialization_cap (\<lambda>n. True) (2 ^ 64 - 4) 4) \<and> se_cap (UbseSerialization_cap (\<lambda>n. True) (2 ^ 64 - 4) 4) = 8 \<and>
    GetBuffer True (UbseSerialization_cap (\<lambda>n. True) (2 ^ 64 - 4) 4) = None"
proof -
  have "align_to 3 12 = 12" "align_to 3 (2 ^ 64 - 4) = 2 ^ 64 - 4" by (simp_all add: align_to_def)
  moreover have "\<not> (8 :: u64) \<ge> MAX_CAPACITY" "(18446744073709551624 :: u64) = 8" by (simp_all add: limits push_bit_eq_mult)
  ultimately show ?thesis
    by (simp add: UbseSerialization_cap_def Let_def isValidAlign_def new_buffer_def GetBuffer_def SetCode_def store_def limits push_bit_eq_mult)
qed

end
