(* ===== verification/MemSerial.thy ===== *)
theory MemSerial
  imports SerialProps
begin

text \<open>
  The types of the memory controller that are registered for automatic serialisation
  (\<open>mem_controller/message/ubse_mem_auto_serial.h\<close>), each the shape of its registered members in order with the types the
  structures give them; an inherited part comes first, a type that is copied as raw memory has the size of its C structure. A plain
  enumeration has the underlying type \<open>unsigned int\<close>, \<open>size_t\<close> is \<open>unsigned long\<close>, and \<open>uid_t\<close>, \<open>gid_t\<close> and \<open>mode_t\<close> are
  \<open>unsigned int\<close>, as in the ABI of the platforms. Then the message that reports the state of an import
  object (\<open>ubse_mem_update_obj_state.simpo.cpp\<close>), whose payload is one of three registered types.
\<close>

section \<open>Registered types\<close>

definition sh_UbseUdsInfo :: shape where
  "sh_UbseUdsInfo = S_members [S_basic C_unsigned_int, S_basic C_unsigned_int, S_basic C_int, S_string]"

definition sh_FdOwner :: shape where
  "sh_FdOwner = S_members [S_basic C_unsigned_int, S_basic C_unsigned_int, S_basic C_int, S_basic C_unsigned_int]"

definition sh_UbseNumaLocation :: shape where
  "sh_UbseNumaLocation = S_members [S_string, S_basic C_unsigned_int]"

definition sh_UbseTrustRingData :: shape where
  "sh_UbseTrustRingData = S_members [S_string, S_string, S_vector S_string]"

definition sh_UbseMemDebtNumaInfo :: shape where
  "sh_UbseMemDebtNumaInfo = S_members [S_string, S_basic C_int, S_basic C_long, S_basic C_unsigned_long,
     S_basic C_unsigned_int, S_basic C_unsigned_int]"

definition sh_UbseMemAlgoResult :: shape where
  "sh_UbseMemAlgoResult = S_members [S_vector sh_UbseMemDebtNumaInfo, S_vector sh_UbseMemDebtNumaInfo, S_basic C_unsigned_int,
     S_basic C_unsigned_int]"

definition sh_UbseMemObmmInfo :: shape where
  "sh_UbseMemObmmInfo = S_members [S_basic C_unsigned_long, S_raw 40, S_enum C_unsigned_int]"

definition sh_UbseMemImportResult :: shape where
  "sh_UbseMemImportResult = S_members [S_basic C_unsigned_long, S_basic C_long]"

definition sh_UbseMamiMemImportResult :: shape where
  "sh_UbseMamiMemImportResult = S_members [S_basic C_unsigned_int, S_basic C_unsigned_long, S_basic C_unsigned_long,
     S_basic C_unsigned_long, S_enum C_unsigned_char]"

definition sh_UbseMemLenderLinkInfo :: shape where
  "sh_UbseMemLenderLinkInfo = S_members [S_string, S_basic C_int, S_basic C_int]"

definition sh_UbseNodeInfo :: shape where
  "sh_UbseNodeInfo = S_members [S_basic C_unsigned_int, S_string, S_string, S_enum C_unsigned_int]"

definition sh_UbseMemLenderInfo :: shape where
  "sh_UbseMemLenderInfo = S_members [S_basic C_unsigned_long, S_string, S_basic C_unsigned_int, S_basic C_unsigned_int,
     S_basic C_unsigned_int]"

definition sh_UbseMemShmAffinitySocketInfo :: shape where
  "sh_UbseMemShmAffinitySocketInfo = S_members [S_basic C_unsigned_int, S_string, S_basic C_bool]"

definition sh_UbseMemAttachResourceShareAttr :: shape where
  "sh_UbseMemAttachResourceShareAttr = S_members [S_basic C_unsigned_int, S_basic C_unsigned_int, S_basic C_unsigned_long,
     sh_FdOwner]"

definition sh_UbseShmRegionDesc :: shape where
  "sh_UbseShmRegionDesc = S_members [S_basic C_unsigned_int, S_vector sh_UbseNodeInfo]"

definition sh_UbseMemImportStatus :: shape where
  "sh_UbseMemImportStatus = S_members [S_basic C_unsigned_int, S_basic C_unsigned_int, S_vector sh_UbseMemImportResult,
     S_vector sh_UbseMamiMemImportResult, S_enum C_unsigned_int, S_enum C_unsigned_int]"

definition sh_UbseMemExportStatus :: shape where
  "sh_UbseMemExportStatus = S_members [S_basic C_unsigned_int, S_vector sh_UbseMemObmmInfo, S_enum C_unsigned_int,
     S_enum C_unsigned_int]"

definition sh_SocketCnaInfo :: shape where
  "sh_SocketCnaInfo = S_members [S_string, S_basic C_unsigned_int, S_basic C_unsigned_int, S_string, S_basic C_unsigned_int,
     S_basic C_unsigned_int, S_basic C_unsigned_int, S_basic C_unsigned_int, S_basic C_unsigned_short]"

definition sh_UbseMemBaseBorrowReq :: shape where
  "sh_UbseMemBaseBorrowReq = S_members [S_string, S_basic C_unsigned_long, S_string, sh_UbseUdsInfo, sh_UbseTrustRingData,
     S_bits]"

definition sh_UbseMemFdPermissionReq :: shape where
  "sh_UbseMemFdPermissionReq = S_members [sh_UbseMemBaseBorrowReq, sh_FdOwner]"

definition sh_UbseMemFdPermissionResp :: shape where
  "sh_UbseMemFdPermissionResp = S_members [S_basic C_unsigned_int, S_basic C_unsigned_long]"

definition sh_UbseMemFdBorrowReq :: shape where
  "sh_UbseMemFdBorrowReq = S_members [sh_UbseMemBaseBorrowReq, S_string, S_basic C_unsigned_long, S_enum C_unsigned_int,
     S_vector sh_UbseNumaLocation, S_vector (S_basic C_unsigned_long), S_vector S_string, sh_FdOwner]"

definition sh_UbseMemNumaBorrowReq :: shape where
  "sh_UbseMemNumaBorrowReq = S_members [sh_UbseMemFdBorrowReq, S_basic C_int, S_basic C_int, S_basic C_unsigned_long,
     S_basic C_unsigned_long, sh_UbseMemLenderLinkInfo, S_members (replicate 32 (S_basic C_unsigned_char))]"

definition sh_UbseMemShareBorrowReq :: shape where
  "sh_UbseMemShareBorrowReq = S_members [sh_UbseMemBaseBorrowReq, S_string, S_basic C_unsigned_long, S_enum C_unsigned_int,
     sh_UbseShmRegionDesc, S_vector S_string, S_members (replicate 32 (S_basic C_unsigned_char)), S_basic C_bool,
     sh_UbseMemShmAffinitySocketInfo, sh_UbseMemLenderInfo]"

definition sh_UbseMemAddrBorrowReq :: shape where
  "sh_UbseMemAddrBorrowReq = S_members [S_string, S_basic C_unsigned_long, S_string, S_basic C_unsigned_long, S_basic C_int,
     S_basic C_int, S_basic C_int, S_basic C_int, S_vector (S_raw 16), S_string, S_basic C_unsigned_long, S_string,
     sh_UbseUdsInfo, sh_UbseTrustRingData, S_bits]"

definition sh_UbseMemReturnReq :: shape where
  "sh_UbseMemReturnReq = S_members [sh_UbseMemBaseBorrowReq, S_basic C_unsigned_int, S_basic C_unsigned_int, S_string]"

definition sh_UbseMemShareAttachReq :: shape where
  "sh_UbseMemShareAttachReq = S_members [sh_UbseMemBaseBorrowReq, S_string, S_basic C_unsigned_long, sh_FdOwner]"

definition sh_UbseMemShareDetachReq :: shape where
  "sh_UbseMemShareDetachReq = S_members [sh_UbseMemBaseBorrowReq, S_string]"

definition sh_UbseMemOperationResp :: shape where
  "sh_UbseMemOperationResp = S_members [S_string, S_string, S_basic C_unsigned_int, S_string, S_string,
     S_vector (S_basic C_unsigned_long), S_basic C_long, S_basic C_unsigned_long]"

definition sh_UbseMemBorrowExportBaseObj :: shape where
  "sh_UbseMemBorrowExportBaseObj = S_members [S_basic C_unsigned_int, sh_UbseMemAlgoResult, sh_UbseMemExportStatus]"

definition sh_UbseMemBorrowImportBaseObj :: shape where
  "sh_UbseMemBorrowImportBaseObj = S_members [S_basic C_unsigned_int, sh_UbseMemAlgoResult, S_vector sh_UbseMemObmmInfo,
     sh_UbseMemImportStatus]"

definition sh_UbseMemFdBorrowExportObj :: shape where
  "sh_UbseMemFdBorrowExportObj = S_members [sh_UbseMemBorrowExportBaseObj, sh_UbseMemFdBorrowReq, sh_UbseMemReturnReq]"

definition sh_UbseMemFdBorrowImportObj :: shape where
  "sh_UbseMemFdBorrowImportObj = S_members [sh_UbseMemBorrowImportBaseObj, sh_UbseMemFdBorrowReq, sh_UbseMemReturnReq]"

definition sh_UbseMemNumaBorrowExportObj :: shape where
  "sh_UbseMemNumaBorrowExportObj = S_members [sh_UbseMemBorrowExportBaseObj, sh_UbseMemNumaBorrowReq, sh_UbseMemReturnReq]"

definition sh_UbseMemNumaBorrowImportObj :: shape where
  "sh_UbseMemNumaBorrowImportObj = S_members [sh_UbseMemBorrowImportBaseObj, sh_UbseMemNumaBorrowReq, sh_UbseMemReturnReq]"

definition sh_UbseMemAddrBorrowExportObj :: shape where
  "sh_UbseMemAddrBorrowExportObj = S_members [S_basic C_unsigned_int, sh_UbseMemAddrBorrowReq, sh_UbseMemReturnReq,
     sh_UbseMemAlgoResult, sh_UbseMemExportStatus]"

definition sh_UbseMemAddrBorrowImportObj :: shape where
  "sh_UbseMemAddrBorrowImportObj = S_members [S_basic C_unsigned_int, sh_UbseMemAddrBorrowReq, sh_UbseMemReturnReq,
     sh_UbseMemAlgoResult, S_vector sh_UbseMemObmmInfo, sh_UbseMemImportStatus]"

definition sh_UbseMemShareBorrowExportObj :: shape where
  "sh_UbseMemShareBorrowExportObj = S_members [S_basic C_unsigned_int, sh_UbseMemShareBorrowReq, sh_UbseMemReturnReq,
     sh_UbseMemAlgoResult, sh_UbseMemExportStatus]"

definition sh_UbseMemShareBorrowImportObj :: shape where
  "sh_UbseMemShareBorrowImportObj = S_members [S_basic C_bool, S_string, sh_UbseMemAttachResourceShareAttr,
     sh_UbseMemShareBorrowReq, sh_UbseMemReturnReq, S_basic C_unsigned_int, sh_UbseMemAlgoResult, S_vector sh_UbseMemObmmInfo,
     sh_UbseMemImportStatus]"

definition sh_UbseNode :: shape where
  "sh_UbseNode = S_members [S_basic C_unsigned_int, S_members (replicate 2 (S_basic C_unsigned_int)),
     S_members (replicate 2 (S_members (replicate 4 (S_basic C_unsigned_int)))), S_members (replicate 50 (S_raw 24)), S_string]"

definition sh_UbseMemResult :: shape where
  "sh_UbseMemResult = S_members [S_string, S_string, S_basic C_unsigned_long, S_enum C_unsigned_int]"

definition sh_UbseTopoNode :: shape where
  "sh_UbseTopoNode = S_members [S_basic C_unsigned_int, S_vector (S_basic C_short), S_vector (S_basic C_int),
     S_vector (S_raw 24), S_string]"

definition sh_UbseMemAddrBorrowLocAndSizeByPid :: shape where
  "sh_UbseMemAddrBorrowLocAndSizeByPid = S_members [S_basic C_unsigned_long, S_basic C_unsigned_long]"

definition sh_UbseMemProcessLender :: shape where
  "sh_UbseMemProcessLender = S_members [S_basic C_unsigned_int, S_basic C_int, S_basic C_unsigned_long,
     S_vector sh_UbseMemAddrBorrowLocAndSizeByPid]"

definition sh_controller_UbseMemNumaDesc :: shape where
  "sh_controller_UbseMemNumaDesc = S_members [S_string, S_basic C_long, sh_UbseTopoNode, sh_UbseTopoNode,
     S_basic C_unsigned_long, S_members (replicate 32 (S_basic C_unsigned_char))]"

definition sh_UbseMemAddrDesc :: shape where
  "sh_UbseMemAddrDesc = S_members [S_string, S_basic C_long, sh_UbseMemProcessLender, sh_UbseTopoNode, S_basic C_unsigned_long]"

definition sh_UbseMemFdDesc :: shape where
  "sh_UbseMemFdDesc = S_members [S_string, S_vector (S_basic C_unsigned_long), S_basic C_unsigned_long,
     S_basic C_unsigned_long, sh_UbseNode, sh_UbseNode, S_enum C_unsigned_int]"

definition sh_UbseMemShmMemStatusDesc :: shape where
  "sh_UbseMemShmMemStatusDesc = S_members [S_vector (S_basic C_unsigned_long), S_vector (S_enum C_unsigned_int)]"

definition sh_def_UbseMemNumaDesc :: shape where
  "sh_def_UbseMemNumaDesc = S_members [S_string, S_basic C_long, sh_UbseNode, sh_UbseNode, S_basic C_unsigned_long,
     S_enum C_unsigned_int, S_members (replicate 32 (S_basic C_unsigned_char))]"

definition sh_UbseMemShmImportDesc :: shape where
  "sh_UbseMemShmImportDesc = S_members [S_vector (S_basic C_unsigned_long), sh_UbseNode, S_enum C_unsigned_int]"

definition sh_UbseMemShmDesc :: shape where
  "sh_UbseMemShmDesc = S_members [S_string, S_basic C_unsigned_long, S_basic C_unsigned_long, sh_UbseNode,
     S_members (replicate 32 (S_basic C_unsigned_char)), S_vector sh_UbseMemShmImportDesc, S_enum C_unsigned_int,
     S_vector (S_basic C_unsigned_int)]"

definition sh_UbseMemShmRegion :: shape where
  "sh_UbseMemShmRegion = S_members [S_basic C_unsigned_int, S_members (replicate 16 (S_basic C_unsigned_int))]"

definition sh_UbseMemShmDispatcher :: shape where
  "sh_UbseMemShmDispatcher = S_members [S_string, S_basic C_unsigned_long, S_members (replicate 32 (S_basic C_unsigned_char)),
     S_basic C_unsigned_long, sh_UbseUdsInfo, sh_UbseMemShmRegion, sh_UbseMemShmRegion, S_basic C_unsigned_int]"

definition sh_UserInfo :: shape where
  "sh_UserInfo = S_members [sh_UbseUdsInfo, S_basic C_int, S_basic C_unsigned_int]"

definition sh_UbseMemDebtQueryRequest :: shape where
  "sh_UbseMemDebtQueryRequest = S_members [S_string, S_string, S_string, sh_UbseUdsInfo]"

definition sh_UbseMemIdQueryRequest :: shape where
  "sh_UbseMemIdQueryRequest = S_members [S_string, S_string, S_basic C_unsigned_long, S_basic C_unsigned_int, sh_UbseUdsInfo]"

definition sh_UbseNodeBorrowInfo :: shape where
  "sh_UbseNodeBorrowInfo = S_members [S_basic C_unsigned_int, S_string, S_basic C_unsigned_int, S_string,
     S_basic C_unsigned_long]"

definition sh_UbseExportMemDesc :: shape where
  "sh_UbseExportMemDesc = S_members [S_basic C_unsigned_int, S_basic C_unsigned_long]"

definition sh_ShareHandleInfo :: shape where
  "sh_ShareHandleInfo = S_members [S_string, S_uset (S_basic C_unsigned_long), sh_UbseUdsInfo]"

definition sh_NumaHandleInfo :: shape where
  "sh_NumaHandleInfo = S_members [S_string, S_uset (S_basic C_long), sh_UbseUdsInfo]"

definition sh_NodeMemDebtInfo :: shape where
  "sh_NodeMemDebtInfo = S_members [S_umap S_string sh_UbseMemFdBorrowImportObj, S_umap S_string sh_UbseMemFdBorrowExportObj,
     S_umap S_string sh_UbseMemNumaBorrowImportObj, S_umap S_string sh_UbseMemNumaBorrowExportObj,
     S_umap S_string sh_UbseMemShareBorrowImportObj, S_umap S_string sh_UbseMemShareBorrowExportObj,
     S_umap S_string sh_UbseMemAddrBorrowImportObj, S_umap S_string sh_UbseMemAddrBorrowExportObj]"

definition sh_LedgerResp :: shape where
  "sh_LedgerResp = S_members [S_basic C_unsigned_int, S_umap S_string sh_NodeMemDebtInfo]"

section \<open>Reporting the state of an import object\<close>

datatype import_obj = O_numa field | O_addr field | O_fd field

record UbseMemUpdateObjState =
  objType :: string
  us_obj :: import_obj

fun obj_of_type :: "string \<Rightarrow> import_obj \<Rightarrow> (shape \<times> field option) option" where
  \<comment> \<open>the shape the name stands for and what \<open>std::get_if\<close> of that type gives; no shape for another name\<close>
  "obj_of_type t x =
     (if t = ''fd'' then Some (sh_UbseMemFdBorrowImportObj, case x of O_fd v \<Rightarrow> Some v | _ \<Rightarrow> None)
      else if t = ''numa'' then Some (sh_UbseMemNumaBorrowImportObj, case x of O_numa v \<Rightarrow> Some v | _ \<Rightarrow> None)
      else if t = ''addr'' then Some (sh_UbseMemAddrBorrowImportObj, case x of O_addr v \<Rightarrow> Some v | _ \<Rightarrow> None)
      else None)"

definition SerializeObjType :: "(u64 \<Rightarrow> bool) \<Rightarrow> shape \<Rightarrow> field option \<Rightarrow> serializer \<Rightarrow> (bool \<times> serializer) option" where
  "SerializeObjType alloc sh v out = (case v of None \<Rightarrow> Some (False, out) | Some x \<Rightarrow> SerializeField alloc sh x out)"

definition UpdateObjState_Serialize :: "(u64 \<Rightarrow> bool) \<Rightarrow> UbseMemUpdateObjState message \<Rightarrow> (bool \<times> UbseMemUpdateObjState message) option" where
  "UpdateObjState_Serialize alloc m = do {
     out \<leftarrow> put_string alloc (objType (simpoMesg m)) (UbseSerialization_new alloc);
     (case obj_of_type (objType (simpoMesg m)) (us_obj (simpoMesg m)) of
        None \<Rightarrow> Some (False, m)
      | Some (sh, v) \<Rightarrow> do {
          (ok, out) \<leftarrow> SerializeObjType alloc sh v out;
          if \<not> ok then Some (False, m)
          else do {
            (buf, _) \<leftarrow> GetBuffer True out;
            Some (True, m\<lparr>mOutputRawDataSize := ucast (se_len out), mOutputRawData := buf\<rparr>) }})}"

definition UpdateObjState_Deserialize :: "(u64 \<Rightarrow> bool) \<Rightarrow> UbseMemUpdateObjState message \<Rightarrow> (bool \<times> UbseMemUpdateObjState message) option" where
  "UpdateObjState_Deserialize alloc m =
     (if mInputRawData m = None then Some (False, m)
      else do {
        d \<leftarrow> UbseDeSerialization_buf alloc (mInputRawData m) (ucast (mInputRawDataSize m)) False;
        (t, d1) \<leftarrow> get_string (objType (simpoMesg m)) d;
        let m1 = m\<lparr>simpoMesg := (simpoMesg m)\<lparr>objType := t\<rparr>\<rparr>;
        let read = (\<lambda>sh C. do {
          ((ok, x), d2) \<leftarrow> DeSerializeField sh (default_of sh) d1;
          Some (if ok then (True, m1\<lparr>simpoMesg := (simpoMesg m1)\<lparr>us_obj := C x\<rparr>\<rparr>) else (False, m1)) });
        if t = ''fd'' then read sh_UbseMemFdBorrowImportObj O_fd
        else if t = ''numa'' then read sh_UbseMemNumaBorrowImportObj O_numa
        else if t = ''addr'' then read sh_UbseMemAddrBorrowImportObj O_addr
        else Some (False, m1) })"

definition UpdateObjStateReply_Serialize :: "(u64 \<Rightarrow> bool) \<Rightarrow> unit message \<Rightarrow> (bool \<times> unit message) option" where
  "UpdateObjStateReply_Serialize alloc m = do {
     out \<leftarrow> put_int alloc C_unsigned_int (0 :: u32) (UbseSerialization_new alloc);
     (buf, _) \<leftarrow> GetBuffer True out;
     Some (True, m\<lparr>mOutputRawDataSize := ucast (se_len out), mOutputRawData := buf\<rparr>) }"

definition obj_field :: "import_obj \<Rightarrow> field" where
  "obj_field x = (case x of O_numa v \<Rightarrow> v | O_addr v \<Rightarrow> v | O_fd v \<Rightarrow> v)"

definition obj_name :: "import_obj \<Rightarrow> string" where
  "obj_name x = (case x of O_numa _ \<Rightarrow> ''numa'' | O_addr _ \<Rightarrow> ''addr'' | O_fd _ \<Rightarrow> ''fd'')"

definition obj_shape :: "import_obj \<Rightarrow> shape" where
  "obj_shape x = (case x of O_numa _ \<Rightarrow> sh_UbseMemNumaBorrowImportObj | O_addr _ \<Rightarrow> sh_UbseMemAddrBorrowImportObj
     | O_fd _ \<Rightarrow> sh_UbseMemFdBorrowImportObj)"

lemma obj_of_type_name: "obj_of_type (obj_name x) x = Some (obj_shape x, Some (obj_field x))"
  by (cases x) (simp_all add: obj_name_def obj_shape_def obj_field_def)

lemma shaped_first: "shaped (S_members (sh # shs)) v \<Longrightarrow> \<exists>y ys. v = F_members (y # ys) \<and> shaped sh y"
  by (cases v) (auto simp: list_all2_Cons1)

lemma failed_first:
  assumes "\<not> se_flag s" and "shaped (obj_shape x) (obj_field x)"
  shows "SerializeField alloc (obj_shape x) (obj_field x) s = Some (False, s)"
proof -
  have b: "SerializeField alloc (S_members (S_basic t # shs)) v s = Some (False, s)"
    if "shaped (S_members (S_basic t # shs)) v" for t shs v
  proof -
    from shaped_first [OF that] obtain y ys where v: "v = F_members (y # ys)" "shaped (S_basic t) y" by blast
    then obtain bs where "y = F_basic bs" by (cases y) auto
    then show ?thesis using v(1) assms(1) by (simp add: checked_def put_base_def)
  qed
  have n: "SerializeField alloc (S_members (S_members (S_basic t # shs) # shs')) v s = Some (False, s)"
    if "shaped (S_members (S_members (S_basic t # shs) # shs')) v" for t shs shs' v
  proof -
    from shaped_first [OF that] obtain y ys where v: "v = F_members (y # ys)" "shaped (S_members (S_basic t # shs)) y" by blast
    show ?thesis using b [OF v(2)] v(1) by (simp del: shaped.simps)
  qed
  show ?thesis using assms(2) b n
    by (cases x) (simp_all add: obj_shape_def sh_UbseMemNumaBorrowImportObj_def sh_UbseMemAddrBorrowImportObj_def
      sh_UbseMemFdBorrowImportObj_def sh_UbseMemBorrowImportBaseObj_def del: shaped.simps SerializeField.simps)
qed

lemma update_recovered:
  assumes "shaped (obj_shape x) (obj_field x)" and "sized (obj_shape x) (obj_field x)"
    and "simpoMesg m = \<lparr>objType = t, us_obj = x\<rparr>" and "length t < 2 ^ 63" and "UpdateObjState_Serialize alloc m = Some (True, m1)"
    and "mOutputRawDataSize m1 \<le> MAX_IPC_DATA_PACKAGE_LEN" and "\<forall>n. alloc' n"
  shows "\<exists>r1 r2. SetInputRawData alloc' (mOutputRawData m1) (mOutputRawDataSize m1) r = Some (True, r1) \<and>
    UpdateObjState_Deserialize alloc' r1 = Some (True, r2) \<and> simpoMesg r2 = simpoMesg m"
proof -
  let ?s = "UbseSerialization_new alloc" and ?sh = "obj_shape x" and ?v = "obj_field x"
  obtain s1 where s1: "put_string alloc t ?s = Some s1"
    using assms(3,5) by (auto simp: UpdateObjState_Serialize_def bind_eq_Some_conv)
  have t: "t = obj_name x"
    using assms(3,5) s1 by (cases x) (auto simp: UpdateObjState_Serialize_def SerializeObjType_def obj_name_def split: if_splits)
  obtain s2 where s2: "SerializeField alloc ?sh ?v s1 = Some (True, s2)"
    using assms(3,5) s1 unfolding t
    by (auto simp: UpdateObjState_Serialize_def SerializeObjType_def obj_of_type_name bind_eq_Some_conv simp del: obj_of_type.simps split: if_splits)
  have f1: "se_flag s1" using s2 failed_first [OF _ assms(1), of s1 alloc] by auto
  have ws: "writes (put_string alloc t) (string_wire t)" by (rule writes_string [OF assms(4)])
  have f0: "se_flag ?s" using f1 s1 ws unfolding writes_def by (metis option.inject)
  have off: "se_alignOffset ?s = 3" "started ?s []" using start_new [OF f0] by simp_all
  have st1: "started s1 (string_wire t 3)" "se_alignOffset s1 = 3"
    using started_writes [OF off(2) f0 ws s1 f1] off(1) by simp_all
  have st: "started s2 (string_wire t 3 @ wire_of ?sh ?v 3)" "se_alignOffset s2 = 3"
    using serialized_started [OF st1(1) f1 serializes_field [OF assms(1,2)] s2] st1(2) by simp_all
  define n where "n = (ucast (se_len s2) :: u32)"
  show ?thesis
  proof (rule transfer [OF st(1) n_def, of alloc'], goal_cases)
    case (1 bs s' d)
    have m1: "mOutputRawData m1 = Some bs" "mOutputRawDataSize m1 = n"
      using assms(3,5) s1 s2 1(1) unfolding t
      by (auto simp: UpdateObjState_Serialize_def SerializeObjType_def obj_of_type_name n_def simp del: obj_of_type.simps)
    obtain d1 where d1: "get_string (objType (simpoMesg r)) d = Some (t, d1)" "opened s2 d1 (wire_of ?sh ?v 3)"
      using recovers_opened [OF recovers_string, of s2 d t "wire_of ?sh ?v 3"] 1(5) st(2) by auto
    obtain d2 where "DeSerializeField ?sh (default_of ?sh) d1 = Some ((True, ?v), d2)"
      using recovers_opened [OF recovers_field [OF shaped_default assms(1,2)], of s2 d1 "[]"] d1(2) st(2) by auto
    then have "\<exists>r2. UpdateObjState_Deserialize alloc' (r\<lparr>mInputRawData := Some (take (unat n) bs), mInputRawDataSize := n\<rparr>) = Some (True, r2) \<and>
        simpoMesg r2 = simpoMesg m"
      using d1(1) 1(4) assms(3) unfolding t
      by (cases x) (simp_all add: UpdateObjState_Deserialize_def obj_name_def obj_shape_def obj_field_def)
    then show ?case
      using SetInputRawData_copies [OF 1(2) assms(6) [unfolded m1] 1(3), of alloc' r] assms(7) m1 by auto
  qed
qed

lemma update_mismatch:
  assumes "simpoMesg m = \<lparr>objType = t, us_obj = x\<rparr>" and "length t < 2 ^ 63" and "t \<noteq> obj_name x"
  shows "UpdateObjState_Serialize alloc m = Some (False, m)"
proof -
  have "constructed alloc (UbseSerialization_new alloc)" by simp
  then obtain s1 where "put_string alloc t (UbseSerialization_new alloc) = Some s1"
    using writes_safe [OF writes_string [OF assms(2), of alloc]] constructed_safe by blast
  moreover have "case obj_of_type t x of None \<Rightarrow> True | Some (sh, v) \<Rightarrow> v = None"
    using assms(3) by (cases x) (auto simp: obj_name_def)
  ultimately show ?thesis using assms(1)
    by (auto simp: UpdateObjState_Serialize_def SerializeObjType_def simp del: obj_of_type.simps split: option.splits)
qed

definition update_len :: "UbseMemUpdateObjState \<Rightarrow> nat" where
  "update_len u = up 3 12 + length (string_wire (objType u) 3) + length (wire_of (obj_shape (us_obj u)) (obj_field (us_obj u)) 3)"

lemma update_written:
  assumes "\<forall>n. alloc n" and "shaped (obj_shape x) (obj_field x)" and "accepted (obj_shape x) (obj_field x)"
    and "simpoMesg m = \<lparr>objType = obj_name x, us_obj = x\<rparr>" and "update_len (simpoMesg m) < 2 ^ 24"
  shows "\<exists>m1. UpdateObjState_Serialize alloc m = Some (True, m1) \<and> unat (mOutputRawDataSize m1) = update_len (simpoMesg m)"
proof -
  let ?s = "UbseSerialization_new alloc" and ?t = "obj_name x"
  have f: "se_flag ?s" using assms(1) by (simp add: UbseSerialization_new_def new_buffer_def Let_def)
  have st: "started ?s []" "se_alignOffset ?s = 3" using start_new [OF f] by simp_all
  have "length ?t + 1 < 2 ^ 16 - 7" by (cases x) (simp_all add: obj_name_def)
  from lives_started [OF lives_put_string [OF assms(1) this] st(1) f]
  obtain s1 where s1: "put_string alloc ?t ?s = Some s1" "se_flag s1" "se_alignOffset s1 = 3" "started s1 (string_wire ?t 3)"
    using st(2) assms(4,5) by (auto simp: update_len_def checked_def)
  from lives_started [OF lives_field [OF assms(1-3)] s1(4,2)]
  obtain s2 where s2: "SerializeField alloc (obj_shape x) (obj_field x) s1 = Some (True, s2)" "se_alignOffset s2 = 3"
      "started s2 (string_wire ?t 3 @ wire_of (obj_shape x) (obj_field x) 3)"
    using s1(3) assms(4,5) by (auto simp: update_len_def)
  show ?thesis
  proof (rule GetBuffer_started [OF s2(3), of True], goal_cases)
    case (1 bs)
    then have "unat (se_len s2) = update_len (simpoMesg m)" using s2(2) assms(4) by (simp add: update_len_def)
    moreover from this have "unat (ucast (se_len s2) :: u32) = update_len (simpoMesg m)" using unat_ucast_small [of "se_len s2"] 1 by simp
    ultimately show ?case using s1(1) s2(1) 1 assms(4)
      by (simp add: UpdateObjState_Serialize_def SerializeObjType_def obj_of_type_name del: obj_of_type.simps)
  qed
qed


abbreviation sample_obj :: import_obj where
  "sample_obj \<equiv> O_fd (default_of sh_UbseMemFdBorrowImportObj)"


end
