(* ===== verification/DebtLedger.thy ===== *)
theory DebtLedger
  imports Prelude "HOL-Library.AList"
begin

text \<open>
  The debt ledger of \<open>mem_controller/debt/ubse_mem_debt_ledger.h\<close>: for each type of memory object a map from
  nodes to their resources, and for exported objects an index from a resource to the node that holds it. The
  element type is a parameter, like the template's; \<open>ex\<close> is \<open>IsExportObjTypeV<T>\<close>. An \<open>unordered_map\<close> that is
  both updated and iterated is the list of its entries in the order it iterates, a new key at the end; no
  statement depends on that place. Each operation runs under its lock and is one step.
\<close>

section \<open>The ledger of one node (\<open>UbseMemNodeDebtMap\<close>)\<close>

type_synonym 'o node_debt_map = "(string \<times> 'o) list"

definition NodePut :: "string \<Rightarrow> 'o option \<Rightarrow> 'o node_debt_map \<Rightarrow> 'o node_debt_map" where
  "NodePut resId obj m = (case obj of None \<Rightarrow> m | Some x \<Rightarrow> AList.update resId x m)"

definition NodeGet :: "string \<Rightarrow> 'o node_debt_map \<Rightarrow> 'o option" where
  "NodeGet resId m = map_of m resId"

definition NodeRemove :: "string \<Rightarrow> 'o node_debt_map \<Rightarrow> bool \<times> 'o node_debt_map" where
  "NodeRemove resId m = (map_of m resId \<noteq> None, AList.delete resId m)"

definition NodeModify :: "string \<Rightarrow> ('o \<Rightarrow> 'o) \<Rightarrow> 'o node_debt_map \<Rightarrow> 'o node_debt_map" where
  "NodeModify resId modify m = (case map_of m resId of None \<Rightarrow> m | Some x \<Rightarrow> AList.update resId (modify x) m)"

definition NodeUpdate :: "string \<Rightarrow> ('o \<Rightarrow> bool \<times> 'o) option \<Rightarrow> 'o node_debt_map \<Rightarrow> bool \<times> 'o node_debt_map" where
  \<comment> \<open>\<open>modify\<close> may be an empty function, and may decline the write\<close>
  "NodeUpdate resId modify m =
     (case map_of m resId of
        None \<Rightarrow> (False, m)
      | Some x \<Rightarrow> (True, case modify of
            None \<Rightarrow> m
          | Some f \<Rightarrow> (case f x of (write, y) \<Rightarrow> if write then AList.update resId y m else m)))"

section \<open>The ledger of one type (\<open>UbseMemTypeDebtMap\<close>)\<close>

record 'o type_debt_map =
  nodeMap :: "(NodeId \<times> 'o node_debt_map) list"
  exportResIdToNodeId :: "string \<Rightarrow> NodeId option"

definition type_debt_map_new :: "'o type_debt_map" where
  "type_debt_map_new = \<lparr>nodeMap = [], exportResIdToNodeId = (\<lambda>_. None)\<rparr>"

definition FindNodeMap :: "NodeId \<Rightarrow> 'o type_debt_map \<Rightarrow> 'o node_debt_map option" where
  "FindNodeMap i m = map_of (nodeMap m) i"

definition set_node :: "NodeId \<Rightarrow> 'o node_debt_map \<Rightarrow> 'o type_debt_map \<Rightarrow> 'o type_debt_map" where
  "set_node i nm m = m\<lparr>nodeMap := AList.update i nm (nodeMap m)\<rparr>"

definition GetOrCreateNodeMap :: "NodeId \<Rightarrow> 'o type_debt_map \<Rightarrow> 'o node_debt_map \<times> 'o type_debt_map" where
  "GetOrCreateNodeMap i m = (case FindNodeMap i m of Some nm \<Rightarrow> (nm, m) | None \<Rightarrow> ([], set_node i [] m))"

definition index_erase :: "string set \<Rightarrow> 'o type_debt_map \<Rightarrow> 'o type_debt_map" where
  "index_erase rs m = m\<lparr>exportResIdToNodeId := (\<lambda>r. if r \<in> rs then None else exportResIdToNodeId m r)\<rparr>"

definition RemoveNodeMap :: "bool \<Rightarrow> NodeId \<Rightarrow> 'o type_debt_map \<Rightarrow> bool \<times> 'o type_debt_map" where
  "RemoveNodeMap ex i m =
     (let m1 = (case FindNodeMap i m of Some nm \<Rightarrow> if ex then index_erase (fst ` set nm) m else m | None \<Rightarrow> m)
      in (FindNodeMap i m \<noteq> None, m1\<lparr>nodeMap := AList.delete i (nodeMap m1)\<rparr>))"

fun remove_others :: "bool \<Rightarrow> NodeId \<Rightarrow> (NodeId \<times> 'o node_debt_map) list \<Rightarrow> 'o type_debt_map \<Rightarrow> 'o type_debt_map" where
  \<comment> \<open>the loop over \<open>nodeMap_\<close>\<close>
  "remove_others ex keep [] m = m"
| "remove_others ex keep ((i, nm) # rest) m =
     remove_others ex keep rest
       (if i \<noteq> keep then (let m1 = (if ex then index_erase (fst ` set nm) m else m) in m1\<lparr>nodeMap := AList.delete i (nodeMap m1)\<rparr>) else m)"

definition RemoveOtherNodeMaps :: "bool \<Rightarrow> NodeId \<Rightarrow> 'o type_debt_map \<Rightarrow> 'o type_debt_map" where
  "RemoveOtherNodeMaps ex keep m = remove_others ex keep (nodeMap m) m"

definition GetResource :: "NodeId \<Rightarrow> string \<Rightarrow> 'o type_debt_map \<Rightarrow> 'o option" where
  "GetResource i resId m = (case FindNodeMap i m of Some nm \<Rightarrow> NodeGet resId nm | None \<Rightarrow> None)"

definition GetExportResourceByResId :: "bool \<Rightarrow> string \<Rightarrow> 'o type_debt_map \<Rightarrow> 'o option" where
  "GetExportResourceByResId ex resId m =
     (if \<not> ex then None
      else case exportResIdToNodeId m resId of
          None \<Rightarrow> None
        | Some i \<Rightarrow> (case map_of (nodeMap m) i of None \<Rightarrow> None | Some nm \<Rightarrow> NodeGet resId nm))"

definition PutResource :: "bool \<Rightarrow> NodeId \<Rightarrow> string \<Rightarrow> 'o option \<Rightarrow> 'o type_debt_map \<Rightarrow> 'o type_debt_map" where
  \<comment> \<open>both overloads; the one that takes the object never has a null pointer\<close>
  "PutResource ex i resId obj m =
     (case obj of
        None \<Rightarrow> m
      | Some x \<Rightarrow>
          (case GetOrCreateNodeMap i m of (nm, m1) \<Rightarrow>
             let m2 = set_node i (NodePut resId (Some x) nm) m1
             in if ex then m2\<lparr>exportResIdToNodeId := (exportResIdToNodeId m2)(resId \<mapsto> i)\<rparr> else m2))"

definition UpdateResource :: "NodeId \<Rightarrow> string \<Rightarrow> ('o \<Rightarrow> bool \<times> 'o) option \<Rightarrow> 'o type_debt_map \<Rightarrow> bool \<times> 'o type_debt_map" where
  "UpdateResource i resId modify m =
     (case FindNodeMap i m of
        None \<Rightarrow> (False, m)
      | Some nm \<Rightarrow> (case NodeUpdate resId modify nm of (found, nm1) \<Rightarrow> (found, set_node i nm1 m)))"

definition RemoveResource :: "bool \<Rightarrow> NodeId \<Rightarrow> string \<Rightarrow> 'o type_debt_map \<Rightarrow> bool \<times> 'o type_debt_map" where
  "RemoveResource ex i resId m =
     (case FindNodeMap i m of
        None \<Rightarrow> (False, m)
      | Some nm \<Rightarrow>
          (case NodeRemove resId nm of (removed, nm1) \<Rightarrow>
             if removed then (True, let m1 = set_node i nm1 m in if ex then index_erase {resId} m1 else m1)
             else (False, m)))"

definition ClearAllNodeMaps :: "bool \<Rightarrow> 'o type_debt_map \<Rightarrow> 'o type_debt_map" where
  "ClearAllNodeMaps ex m = (let m1 = m\<lparr>nodeMap := []\<rparr> in if ex then m1\<lparr>exportResIdToNodeId := (\<lambda>_. None)\<rparr> else m1)"

definition GetNodeMapCount :: "NodeId \<Rightarrow> 'o type_debt_map \<Rightarrow> nat" where
  "GetNodeMapCount i m = (case FindNodeMap i m of None \<Rightarrow> 0 | Some nm \<Rightarrow> length nm)"

section \<open>The map behind the ledger\<close>

text \<open>What a ledger means: the object at a node and a resource. Every operation is the obvious change of it.\<close>

definition debts :: "'o type_debt_map \<Rightarrow> NodeId \<times> string \<Rightarrow> 'o option" where
  "debts m p = GetResource (fst p) (snd p) m"

lemma GetResource_map: "GetResource i r m = Option.bind (map_of (nodeMap m) i) (\<lambda>nm. map_of nm r)"
  by (simp add: GetResource_def FindNodeMap_def NodeGet_def split: option.splits)

lemmas debt_defs = debts_def GetResource_map FindNodeMap_def GetOrCreateNodeMap_def set_node_def NodePut_def NodeGet_def
  NodeRemove_def index_erase_def

lemma debts_put: "debts (PutResource ex i r (Some x) m) = (debts m)((i, r) \<mapsto> x)"
  by (rule ext) (auto simp: PutResource_def debt_defs update_conv' Let_def split: option.splits)

lemma debts_put_null: "PutResource ex i r None m = m"
  by (simp add: PutResource_def)

lemma debts_remove: "debts (snd (RemoveResource ex i r m)) = (debts m)((i, r) := None)"
  by (rule ext) (auto simp: RemoveResource_def debt_defs update_conv' delete_conv' Let_def split: option.splits)

lemma removed_iff: "fst (RemoveResource ex i r m) \<longleftrightarrow> debts m (i, r) \<noteq> None"
  by (auto simp: RemoveResource_def debt_defs split: option.splits)

lemma debts_update:
  "debts (snd (UpdateResource i r f m)) = (case debts m (i, r) of None \<Rightarrow> debts m
     | Some x \<Rightarrow> (case f of None \<Rightarrow> debts m | Some g \<Rightarrow> if fst (g x) then (debts m)((i, r) \<mapsto> snd (g x)) else debts m))"
  by (rule ext) (auto simp: UpdateResource_def NodeUpdate_def debt_defs update_conv' split: option.splits prod.splits)

lemma debts_remove_node: "debts (snd (RemoveNodeMap ex i m)) = (\<lambda>p. if fst p = i then None else debts m p)"
  by (rule ext) (auto simp: RemoveNodeMap_def debt_defs delete_conv' Let_def split: option.splits)

lemma remove_others_nodes:
  "nodeMap (remove_others ex keep es m) = filter (\<lambda>(j, nm). j = keep \<or> j \<notin> fst ` set es) (nodeMap m)"
proof (induction es arbitrary: m)
  case Nil then show ?case by (simp add: case_prod_unfold)
next
  case (Cons e es)
  obtain i nm where e: "e = (i, nm)" by (cases e)
  have d: "AList.delete i xs = filter (\<lambda>(j, nm). j \<noteq> i) xs" for xs :: "(NodeId \<times> 'a node_debt_map) list"
    by (auto simp: AList.delete_eq case_prod_unfold intro: filter_cong)
  show ?case by (auto simp: e Cons.IH Let_def index_erase_def d intro!: filter_cong)
qed

lemma debts_remove_others: "debts (RemoveOtherNodeMaps ex keep m) = (\<lambda>p. if fst p = keep then debts m p else None)"
proof (rule ext)
  fix p
  have "nodeMap (RemoveOtherNodeMaps ex keep m) = filter (\<lambda>(j, nm). j = keep) (nodeMap m)"
    by (force simp: RemoveOtherNodeMaps_def remove_others_nodes intro!: filter_cong)
  moreover have "map_of (filter (\<lambda>(j, nm). j = keep) xs) j = (if j = keep then map_of xs j else None)" for xs :: "(NodeId \<times> 'a node_debt_map) list" and j
    by (induction xs) auto
  ultimately show "debts (RemoveOtherNodeMaps ex keep m) p = (if fst p = keep then debts m p else None)"
    by (simp add: debts_def GetResource_map)
qed

lemma debts_clear: "debts (ClearAllNodeMaps ex m) = (\<lambda>_. None)"
  by (rule ext) (simp add: ClearAllNodeMaps_def debts_def GetResource_map Let_def)

lemma debts_new: "debts type_debt_map_new = (\<lambda>_. None)"
  by (rule ext) (simp add: type_debt_map_new_def debts_def GetResource_map)

lemmas debts_simps = debts_put debts_put_null debts_remove debts_update debts_remove_node debts_remove_others debts_clear debts_new

section \<open>Stores\<close>

text \<open>
  What the clients of a ledger rely on: objects are put and deleted under a key and looked up again. A batch of changes
  leaves the last change of each key.
\<close>

type_synonym 'o changes = "((NodeId \<times> string) \<times> 'o option) list"

locale store =
  fixes look :: "'s \<Rightarrow> NodeId \<times> string \<Rightarrow> 'o option"
    and put :: "NodeId \<times> string \<Rightarrow> 'o \<Rightarrow> 's \<Rightarrow> 's"
    and del :: "NodeId \<times> string \<Rightarrow> 's \<Rightarrow> 's"
  assumes look_put: "look (put k v s) = (look s)(k \<mapsto> v)"
    and look_del: "look (del k s) = (look s)(k := None)"
begin

definition change :: "(NodeId \<times> string) \<times> 'o option \<Rightarrow> 's \<Rightarrow> 's" where
  "change c s = (case snd c of None \<Rightarrow> del (fst c) s | Some v \<Rightarrow> put (fst c) v s)"

lemma look_change: "look (change c s) = (look s)(fst c := snd c)"
  by (cases "snd c") (simp_all add: change_def look_put look_del)

lemma look_changes: "look (fold change cs s) k = (case map_of (rev cs) k of None \<Rightarrow> look s k | Some v \<Rightarrow> v)"
  by (induction cs rule: rev_induct) (auto simp: look_change split: option.splits)

lemma changes_frame: "k \<notin> fst ` set cs \<Longrightarrow> look (fold change cs s) k = look s k"
  by (simp add: look_changes map_of_eq_None_iff[THEN iffD2])

lemma changes_at: "distinct (map fst cs) \<Longrightarrow> (k, v) \<in> set cs \<Longrightarrow> look (fold change cs s) k = v"
  by (simp add: look_changes rev_map [symmetric])

text \<open>A loop each turn of which makes at most one change.\<close>

lemma loop_changes:
  assumes "\<And>x s. look (f x s) = (case c x of None \<Rightarrow> look s | Some ch \<Rightarrow> look (change ch s))"
  shows "look (fold f xs s) = look (fold change (List.map_filter c xs) s)"
proof (induction xs rule: rev_induct)
  case Nil then show ?case by simp
next
  case (snoc x xs)
  then show ?case by (cases "c x") (auto simp: assms look_change List.map_filter_def)
qed

lemma loop_cong:
  assumes "\<And>x s. look (f x s) = (case c x of None \<Rightarrow> look s | Some ch \<Rightarrow> look (change ch s))" and "look s = look s'"
  shows "look (fold f xs s) = look (fold f xs s')"
  unfolding loop_changes [where f = f and c = c, OF assms(1)] by (rule ext) (simp add: look_changes assms(2) split: option.split)

lemma loop_frame:
  assumes "\<And>x s. look (f x s) = (case c x of None \<Rightarrow> look s | Some ch \<Rightarrow> look (change ch s))"
    and "\<And>x v. x \<in> set xs \<Longrightarrow> c x \<noteq> Some (k, v)"
  shows "look (fold f xs s) k = look s k"
proof -
  have "k \<notin> fst ` set (List.map_filter c xs)" using assms(2) by (force simp: List.map_filter_def)
  then show ?thesis by (simp add: loop_changes [where f = f and c = c] assms(1) changes_frame)
qed

lemma loop_value:
  assumes "\<And>x s. look (f x s) = (case c x of None \<Rightarrow> look s | Some ch \<Rightarrow> look (change ch s))"
    and "x \<in> set xs" and "c x = Some (k, v)" and "\<And>y u. y \<in> set xs \<Longrightarrow> c y = Some (k, u) \<Longrightarrow> u = v"
  shows "look (fold f xs s) k = v"
proof -
  let ?cs = "List.map_filter c xs"
  have "(k, v) \<in> set ?cs" using assms(2,3) by (force simp: List.map_filter_def)
  moreover have "u = v" if "(k, u) \<in> set ?cs" for u using that assms(4) by (auto simp: List.map_filter_def)
  ultimately have "map_of (rev ?cs) k = Some v"
    by (metis (no_types) map_of_SomeD map_of_eq_None_iff not_None_eq set_rev image_eqI fst_conv)
  then show ?thesis by (simp add: loop_changes [where f = f and c = c] assms(1) look_changes)
qed

end

interpretation debt_map: store debts "\<lambda>(i, r) x. PutResource ex i r (Some x)" "\<lambda>(i, r) m. snd (RemoveResource ex i r m)" for ex
  by unfold_locales (auto simp: debts_simps)

section \<open>Histories\<close>

datatype 'o debt_op =
    Op_Put NodeId string 'o
  | Op_Update NodeId string "'o \<Rightarrow> bool \<times> 'o"
  | Op_Remove NodeId string
  | Op_RemoveNode NodeId
  | Op_RemoveOthers NodeId
  | Op_Clear

fun debt_step :: "bool \<Rightarrow> 'o debt_op \<Rightarrow> 'o type_debt_map \<Rightarrow> 'o type_debt_map" where
  "debt_step ex (Op_Put i r x) m = PutResource ex i r (Some x) m"
| "debt_step ex (Op_Update i r f) m = snd (UpdateResource i r (Some f) m)"
| "debt_step ex (Op_Remove i r) m = snd (RemoveResource ex i r m)"
| "debt_step ex (Op_RemoveNode i) m = snd (RemoveNodeMap ex i m)"
| "debt_step ex (Op_RemoveOthers i) m = RemoveOtherNodeMaps ex i m"
| "debt_step ex Op_Clear m = ClearAllNodeMaps ex m"

fun flat_step :: "'o debt_op \<Rightarrow> (NodeId \<times> string \<Rightarrow> 'o option) \<Rightarrow> NodeId \<times> string \<Rightarrow> 'o option" where
  \<comment> \<open>the same operations on one map from a node and a resource to an object\<close>
  "flat_step (Op_Put i r x) d = d((i, r) \<mapsto> x)"
| "flat_step (Op_Update i r f) d = (case d (i, r) of None \<Rightarrow> d | Some x \<Rightarrow> if fst (f x) then d((i, r) \<mapsto> snd (f x)) else d)"
| "flat_step (Op_Remove i r) d = d((i, r) := None)"
| "flat_step (Op_RemoveNode i) d = (\<lambda>p. if fst p = i then None else d p)"
| "flat_step (Op_RemoveOthers i) d = (\<lambda>p. if fst p = i then d p else None)"
| "flat_step Op_Clear d = (\<lambda>_. None)"

lemma debt_step_flat: "debts (debt_step ex e m) = flat_step e (debts m)"
  by (cases e) (simp_all add: debts_simps split: option.split)

fun one_home :: "'o debt_op list \<Rightarrow> (NodeId \<times> string \<Rightarrow> 'o option) \<Rightarrow> bool" where
  \<comment> \<open>a resource is put at a node only while no other node holds it\<close>
  "one_home [] d = True"
| "one_home (e # es) d = ((case e of Op_Put i r x \<Rightarrow> \<forall>j. j \<noteq> i \<longrightarrow> d (j, r) = None | _ \<Rightarrow> True) \<and> one_home es (flat_step e d))"

section \<open>The index of exported resources\<close>

text \<open>A node has one entry, and the index tells the one node that holds a resource.\<close>

definition index_ok :: "'o type_debt_map \<Rightarrow> bool" where
  "index_ok m \<longleftrightarrow> distinct (map fst (nodeMap m)) \<and> (\<forall>r i. (exportResIdToNodeId m r = Some i) = (debts m (i, r) \<noteq> None))"

lemma index_put: "exportResIdToNodeId (PutResource True i r (Some x) m) = (exportResIdToNodeId m)(r \<mapsto> i)"
  by (simp add: PutResource_def debt_defs Let_def split: option.splits)

lemma index_update: "exportResIdToNodeId (snd (UpdateResource i r f m)) = exportResIdToNodeId m"
  by (simp add: UpdateResource_def set_node_def split: option.splits prod.splits)

lemma index_remove:
  "exportResIdToNodeId (snd (RemoveResource True i r m)) = (if debts m (i, r) = None then exportResIdToNodeId m else (exportResIdToNodeId m)(r := None))"
  by (auto simp: RemoveResource_def debt_defs Let_def split: option.splits)

lemma index_remove_node:
  "exportResIdToNodeId (snd (RemoveNodeMap True i m)) = (\<lambda>r. if debts m (i, r) \<noteq> None then None else exportResIdToNodeId m r)"
proof -
  have k: "(r \<in> fst ` set nm) = (map_of nm r \<noteq> None)" for r and nm :: "'a node_debt_map"
    by (simp add: map_of_eq_None_iff)
  show ?thesis by (rule ext) (auto simp: RemoveNodeMap_def debt_defs Let_def k simp del: image_iff split: option.splits)
qed

lemma remove_others_index:
  "exportResIdToNodeId (remove_others True keep es m) =
     (\<lambda>r. if \<exists>(i, nm) \<in> set es. i \<noteq> keep \<and> r \<in> fst ` set nm then None else exportResIdToNodeId m r)"
  by (induction es arbitrary: m) (auto simp: Let_def index_erase_def)

lemma index_remove_others:
  assumes "distinct (map fst (nodeMap m))"
  shows "exportResIdToNodeId (RemoveOtherNodeMaps True keep m) =
    (\<lambda>r. if \<exists>j. j \<noteq> keep \<and> debts m (j, r) \<noteq> None then None else exportResIdToNodeId m r)"
proof -
  have "(\<exists>(i, nm) \<in> set (nodeMap m). i \<noteq> keep \<and> r \<in> fst ` set nm) = (\<exists>j. j \<noteq> keep \<and> debts m (j, r) \<noteq> None)" for r
    using map_of_eq_Some_iff [OF assms]
    by (auto simp: debts_def GetResource_map bind_eq_Some_conv not_None_eq dom_map_of_conv_image_fst [symmetric] domIff; blast)
  then show ?thesis by (simp add: RemoveOtherNodeMaps_def remove_others_index)
qed

lemma index_clear: "exportResIdToNodeId (ClearAllNodeMaps True m) = (\<lambda>_. None)"
  by (simp add: ClearAllNodeMaps_def Let_def)

lemmas index_simps = index_put index_update index_remove index_remove_node index_clear

lemma nodes_distinct_step:
  assumes "distinct (map fst (nodeMap m))"
  shows "distinct (map fst (nodeMap (debt_step ex e m)))"
proof -
  have f: "distinct (map fst (filter P xs))" if "distinct (map fst xs)" for P and xs :: "(NodeId \<times> 'a node_debt_map) list"
    using that by (rule distinct_map_filter)
  show ?thesis using assms
    by (cases e) (auto simp: PutResource_def UpdateResource_def RemoveResource_def RemoveNodeMap_def RemoveOtherNodeMaps_def ClearAllNodeMaps_def
        debt_defs Let_def remove_others_nodes f intro!: distinct_update distinct_delete split: option.splits prod.splits)
qed

lemma index_ok_step:
  assumes "index_ok m" and "case e of Op_Put i r x \<Rightarrow> \<forall>j. j \<noteq> i \<longrightarrow> debts m (j, r) = None | _ \<Rightarrow> True"
  shows "index_ok (debt_step True e m)"
proof -
  have d: "distinct (map fst (nodeMap m))" and x: "\<And>r i. (exportResIdToNodeId m r = Some i) = (debts m (i, r) \<noteq> None)"
    using assms(1) by (auto simp: index_ok_def)
  have one: "j = i" if "debts m (i, r) \<noteq> None" "debts m (j, r) \<noteq> None" for i j r
    using that x [of r i] x [of r j] by simp
  have "(exportResIdToNodeId (debt_step True e m) r = Some i) = (debts (debt_step True e m) (i, r) \<noteq> None)" for r i
  proof (cases e)
    case (Op_Put j s y) then show ?thesis using assms(2) x [of r i] by (auto simp: index_simps debts_simps)
  next
    case (Op_Update j s f) then show ?thesis using x [of r i] by (auto simp: index_simps debts_simps split: option.splits)
  next
    case (Op_Remove j s) then show ?thesis using x [of r i] one by (auto simp: index_simps debts_simps)
  next
    case (Op_RemoveNode j) then show ?thesis using x [of r i] one [of j r i] by (auto simp: index_simps debts_simps)
  next
    case (Op_RemoveOthers j)
    then show ?thesis using x [of r i] one [of i r] by (auto simp: index_remove_others [OF d] debts_simps)
  next
    case Op_Clear then show ?thesis by (simp add: index_simps debts_simps)
  qed
  then show ?thesis using nodes_distinct_step [OF d] by (simp add: index_ok_def)
qed

lemma index_ok_run: "one_home es (debts m) \<Longrightarrow> index_ok m \<Longrightarrow> index_ok (fold (debt_step True) es m)"
  by (induction es arbitrary: m) (simp_all add: debt_step_flat [symmetric, of _ _ True] index_ok_step)

lemma index_ok_new: "index_ok type_debt_map_new"
  by (simp add: index_ok_def debts_new) (simp add: type_debt_map_new_def)

lemma index_ok_get: "index_ok m \<Longrightarrow> (GetExportResourceByResId True r m = Some x) = (\<exists>i. GetResource i r m = Some x)"
proof -
  assume ok: "index_ok m"
  have g: "GetExportResourceByResId True r m = Option.bind (exportResIdToNodeId m r) (\<lambda>i. GetResource i r m)"
    by (simp add: GetExportResourceByResId_def GetResource_def FindNodeMap_def split: option.splits)
  have "(exportResIdToNodeId m r = Some i) = (GetResource i r m \<noteq> None)" for i
    using ok by (simp add: index_ok_def debts_def)
  then show ?thesis by (auto simp: g bind_eq_Some_conv)
qed

text \<open>
  C17: Along every history of the ledger of a type, a node and a resource hold what a flat map of the same operations
  holds; and when an exported resource is put at a node only while no other node holds it, looking it up by its
  name alone finds it exactly when some node holds it.
\<close>
theorem ledger_is_map:
  "debts (fold (debt_step ex) es type_debt_map_new) = fold flat_step es (\<lambda>_. None) \<and>
   (one_home es (\<lambda>_. None) \<longrightarrow>
     (GetExportResourceByResId True r (fold (debt_step True) es type_debt_map_new) = Some x) =
     (\<exists>i. fold flat_step es (\<lambda>_. None) (i, r) = Some x))"
proof -
  have f: "debts (fold (debt_step ex) es m) = fold flat_step es (debts m)" for ex and m :: "'a type_debt_map"
    by (induction es arbitrary: m) (simp_all add: debt_step_flat)
  have "(GetExportResourceByResId True r (fold (debt_step True) es type_debt_map_new) = Some x) =
      (\<exists>i. fold flat_step es (\<lambda>_. None) (i, r) = Some x)" if "one_home es (\<lambda>_. None)"
    using index_ok_get [OF index_ok_run [of es type_debt_map_new]] that f [of True type_debt_map_new]
    by (simp add: debts_new index_ok_new debts_def [symmetric] fun_eq_iff) (simp add: debts_def)
  then show ?thesis by (simp add: f debts_new)
qed

theorem ledger_is_map_witness:
  "GetExportResourceByResId True ''m'' (fold (debt_step True)
     [Op_Put ''1'' ''m'' (7 :: nat), Op_Remove ''1'' ''m'', Op_Put ''2'' ''m'' 8, Op_RemoveOthers ''2''] type_debt_map_new) = Some 8"
proof -
  let ?es = "[Op_Put ''1'' ''m'' (7 :: nat), Op_Remove ''1'' ''m'', Op_Put ''2'' ''m'' 8, Op_RemoveOthers ''2'']"
  have "one_home ?es (\<lambda>_. None)" "\<exists>i. fold flat_step ?es (\<lambda>_. None) (i, ''m'') = Some 8"
    by (auto intro: exI [of _ "''2''"])
  then show ?thesis using ledger_is_map [of _ ?es "''m''" 8] by blast
qed

text \<open>
  The index has one entry for a resource. When two nodes hold resources of the same name, which the clean-up of shared
  memory expects, removing one of them erases the entry, and the other is no longer found by its name.
\<close>

lemma same_name_lost:
  fixes x y :: 'o and r :: string
  assumes "i \<noteq> j"
  defines "m \<equiv> snd (RemoveResource True i r (PutResource True j r (Some y) (PutResource True i r (Some x) type_debt_map_new)))"
  shows "GetResource j r m = Some y \<and> GetExportResourceByResId True r m = None"
proof -
  have "debts m (j, r) = Some y" using assms(1) by (simp add: m_def debts_simps)
  moreover have "exportResIdToNodeId m r = None" using assms(1) by (simp add: m_def index_simps debts_simps)
  ultimately show ?thesis by (simp add: debts_def GetExportResourceByResId_def)
qed

end
