(* ===== verification/DebtObjects.thy ===== *)
theory DebtObjects
  imports SchedulerImpl DebtLedger
begin

text \<open>
  The objects the memory controller keeps, the ledger singleton that files them under eight types
  (\<open>debt/ubse_mem_debt_ledger.h\<close>), its snapshots (\<open>debt/ubse_mem_debt_info.cpp\<close>), and the operations on
  exported and imported objects of \<open>api/ubse_mem_controller_*_api.cpp\<close>. The code has each of these once for
  every kind of borrowing, with the same body up to types; here the body is one definition with the kind as an
  argument, and the functions of the code are its instances.
\<close>

section \<open>Objects of the ledger\<close>

datatype UbseDecoderState = DECODER_PERMANENT_INVALID | DECODER_TEMP_INVALID | DECODER_VALID | DECODER_NONE

record UbseMamiMemImportResult =
  dr_marId :: u32
  dr_handle :: u64
  dr_state :: UbseDecoderState

record UbseMemImportResult =
  ir_memId :: u64
  ir_numaId :: c_int64

text \<open>
  An imported or exported object: what the scheduler reads (\<open>mem_obj\<close>) and the further fields the ledger reads. The
  status of the code is \<open>mo_state\<close>, \<open>do_expectState\<close>, \<open>do_importResults\<close> and \<open>do_decoderResult\<close>; the importing node
  of a share is a field of the object, for the other kinds a field of the request.
\<close>

record debt_obj = mem_obj +
  do_expectState :: UbseMemState
  do_importResults :: "UbseMemImportResult list"
  do_decoderResult :: "UbseMamiMemImportResult list"
  do_importNodeId :: NodeId
  do_isLastExportSuccess :: bool
  do_shmAnonymous :: bool

abbreviation obj_name :: "debt_obj \<Rightarrow> string" where
  "obj_name x \<equiv> req_name (mo_req x)"

fun req_importNodeId :: "mem_req \<Rightarrow> NodeId" where
  "req_importNodeId (FdReq r) = fd_importNodeId r"
| "req_importNodeId (NumaReq r) = fd_importNodeId r"
| "req_importNodeId (AddrReq r) = ab_importNodeId r"
| "req_importNodeId (ShareReq r) = []"  \<comment> \<open>a share request has no importing node\<close>

definition set_status :: "debt_obj \<Rightarrow> debt_obj \<Rightarrow> debt_obj" where
  \<comment> \<open>\<open>x.status = a.status\<close>\<close>
  "set_status x a = x\<lparr>mo_state := mo_state a, do_expectState := do_expectState a,
     do_importResults := do_importResults a, do_decoderResult := do_decoderResult a\<rparr>"

definition import_node :: "BorrowedType \<Rightarrow> debt_obj \<Rightarrow> NodeId" where
  \<comment> \<open>the node an import object is filed under\<close>
  "import_node k x = (if k = SHM then do_importNodeId x else req_importNodeId (mo_req x))"

fun req_exportNodeId :: "mem_req \<Rightarrow> NodeId" where
  "req_exportNodeId (AddrReq r) = ab_exportNodeId r"
| "req_exportNodeId _ = []"  \<comment> \<open>only an address request names the exporting node\<close>

definition first_export :: "debt_obj \<Rightarrow> NodeId option" where
  "first_export x = (case ar_exportNumaInfos (mo_algoResult x) of [] \<Rightarrow> None | n # _ \<Rightarrow> Some (dn_nodeId n))"

definition export_home :: "BorrowedType \<Rightarrow> debt_obj \<Rightarrow> NodeId option" where
  \<comment> \<open>the node an export object is filed under; none while it has no exporting NUMA\<close>
  "export_home k x = (if k = ADDR then Some (req_exportNodeId (mo_req x)) else first_export x)"

definition first_import :: "debt_obj \<Rightarrow> NodeId option" where
  "first_import x = (case ar_importNumaInfos (mo_algoResult x) of [] \<Rightarrow> None | n # _ \<Rightarrow> Some (dn_nodeId n))"

definition GenerateExportObjKey :: "string \<Rightarrow> NodeId \<Rightarrow> string" where
  "GenerateExportObjKey name importNodeId = name @ ''_'' @ importNodeId"

definition key_of_export :: "BorrowedType \<Rightarrow> string \<Rightarrow> NodeId \<Rightarrow> string" where
  \<comment> \<open>a share is filed under its name alone\<close>
  "key_of_export k name importNodeId = (if k = SHM then name else GenerateExportObjKey name importNodeId)"

definition export_key :: "BorrowedType \<Rightarrow> debt_obj \<Rightarrow> string" where
  "export_key k x = key_of_export k (obj_name x) (req_importNodeId (mo_req x))"

section \<open>The ledger and its snapshots\<close>

datatype obj_type = Import BorrowedType | Export BorrowedType

fun is_export :: "obj_type \<Rightarrow> bool" where
  "is_export (Export k) = True"
| "is_export (Import k) = False"

definition all_types :: "obj_type list" where
  "all_types = [Import FD, Export FD, Import NUMA, Export NUMA, Import SHM, Export SHM, Import ADDR, Export ADDR]"

type_synonym ledger = "obj_type \<Rightarrow> debt_obj type_debt_map"
type_synonym NodeMemDebtInfo = "obj_type \<Rightarrow> (string \<times> debt_obj) list"
type_synonym NodeMemDebtInfoMap = "(NodeId \<times> NodeMemDebtInfo) list"

definition no_debt :: NodeMemDebtInfo where
  \<comment> \<open>\<open>NodeMemDebtInfo{}\<close>\<close>
  "no_debt = (\<lambda>_. [])"

definition destroyed_state :: "obj_type \<Rightarrow> UbseMemState" where
  "destroyed_state t = (if is_export t then UBSE_MEM_EXPORT_DESTROYED else UBSE_MEM_IMPORT_DESTROYED)"

definition FilterDestroyedResources :: "obj_type \<Rightarrow> (string \<times> debt_obj) list \<Rightarrow> (string \<times> debt_obj) list" where
  "FilterDestroyedResources t rs = filter (\<lambda>(key, x). mo_state x \<noteq> destroyed_state t) rs"

definition merge_type :: "bool \<Rightarrow> ledger \<Rightarrow> obj_type \<Rightarrow> NodeMemDebtInfoMap \<Rightarrow> NodeMemDebtInfoMap" where
  \<comment> \<open>\<open>mergeToResult\<close>\<close>
  "merge_type filterDestroyed l t result =
     fold (\<lambda>(i, nm) res.
         AList.update i ((case map_of res i of None \<Rightarrow> no_debt | Some info \<Rightarrow> info)
           (t := if filterDestroyed then FilterDestroyedResources t nm else nm)) res)
       (nodeMap (l t)) result"

definition GetAllDebtInfo :: "bool \<Rightarrow> ledger \<Rightarrow> NodeMemDebtInfoMap" where
  "GetAllDebtInfo filterDestroyed l = fold (merge_type filterDestroyed l) all_types []"

definition GetNodeMemDebtInfo :: "bool \<Rightarrow> NodeId \<Rightarrow> ledger \<Rightarrow> NodeMemDebtInfo" where
  "GetNodeMemDebtInfo filterDestroyed i l =
     (\<lambda>t. case FindNodeMap i (l t) of None \<Rightarrow> [] | Some nm \<Rightarrow> if filterDestroyed then FilterDestroyedResources t nm else nm)"

definition LedgerClearAllNodeMaps :: "ledger \<Rightarrow> ledger" where
  "LedgerClearAllNodeMaps l = (\<lambda>t. ClearAllNodeMaps (is_export t) (l t))"

definition ClearOtherNodeMaps :: "NodeId \<Rightarrow> ledger \<Rightarrow> ledger" where
  "ClearOtherNodeMaps keep l = (\<lambda>t. RemoveOtherNodeMaps (is_export t) keep (l t))"

definition LoadFromNodeMemDebtInfo :: "NodeId \<Rightarrow> NodeMemDebtInfo \<Rightarrow> ledger \<Rightarrow> ledger" where
  "LoadFromNodeMemDebtInfo i info l =
     (\<lambda>t. fold (\<lambda>(name, x). PutResource (is_export t) i name (Some x)) (info t) (l t))"

definition GetNodeImportCount :: "NodeId \<Rightarrow> ledger \<Rightarrow> nat" where
  "GetNodeImportCount i l = GetNodeMapCount i (l (Import FD)) + GetNodeMapCount i (l (Import NUMA)) +
     GetNodeMapCount i (l (Import ADDR)) + GetNodeMapCount i (l (Import SHM))"

definition GetNodeMemDebtInfoMap :: "ledger \<Rightarrow> NodeMemDebtInfoMap" where
  \<comment> \<open>the conversion copies every object, no pointer of the ledger is null\<close>
  "GetNodeMemDebtInfoMap l = GetAllDebtInfo False l"

definition GetNodeMemDebtInfoById :: "NodeId \<Rightarrow> ledger \<Rightarrow> NodeMemDebtInfo" where
  "GetNodeMemDebtInfoById i l = GetNodeMemDebtInfo False i l"

definition GetNoDeletedNodeMemDebtInfoById :: "NodeId \<Rightarrow> ledger \<Rightarrow> NodeMemDebtInfo" where
  "GetNoDeletedNodeMemDebtInfoById i l = GetNodeMemDebtInfo True i l"

definition GetMasterCtxLedger :: "NodeId \<Rightarrow> ledger \<Rightarrow> NodeMemDebtInfo" where
  "GetMasterCtxLedger i l = (case map_of (GetNodeMemDebtInfoMap l) i of Some info \<Rightarrow> info | None \<Rightarrow> no_debt)"

section \<open>The state of the controller\<close>

text \<open>
  What the controller of a node holds: its ledger, the scheduler it informs, the messages it has sent, and the nodes
  whose first reconciliation is done. A message carries what its receiver acts on.
\<close>

record DebtHandleInfos =
  hi_share :: "(string \<times> u64 set) list"
  hi_numa :: "(string \<times> c_int64 set) list"
  hi_fd :: "(string \<times> u64 set) list"

datatype RemoteNumaStatus = AVAILABLE | UNAVAILABLE | UNKNOWN

datatype message_out =
    Destroy_Export BorrowedType NodeId debt_obj  \<comment> \<open>\<open>SendFdExportObj\<close> and its siblings, from the master\<close>
  | Update_ImportState BorrowedType NodeId debt_obj  \<comment> \<open>\<open>UBSE_MEM_UPDATE_OBJ_STATE_CALLBACK\<close>\<close>
  | Invalidate_Import NodeId string BorrowedType UbseDecoderState  \<comment> \<open>\<open>SendInvalidateSingleImportDebtRpc\<close>\<close>
  | Report_SingleImport NodeId DebtHandleInfos  \<comment> \<open>\<open>UBSE_SINGLE_IMPORT_DEBT_NOTIFY\<close>\<close>
  | Notify_NumaStatus NodeId "(c_int64 \<times> RemoteNumaStatus) list"  \<comment> \<open>\<open>NotifyRemoteNumaStatus\<close>\<close>

record controller =
  ct_ledger :: ledger
  ct_scheduler :: scheduler_impl
  ct_sent :: "message_out list"
  ct_initLedgerDone :: "NodeId set"

definition on_type :: "obj_type \<Rightarrow> (debt_obj type_debt_map \<Rightarrow> debt_obj type_debt_map) \<Rightarrow> controller \<Rightarrow> controller" where
  "on_type t f s = s\<lparr>ct_ledger := (ct_ledger s)(t := f (ct_ledger s t))\<rparr>"

definition sent_out :: "message_out \<Rightarrow> controller \<Rightarrow> controller" where
  "sent_out m s = s\<lparr>ct_sent := ct_sent s @ [m]\<rparr>"

definition tell_scheduler :: "env \<Rightarrow> debt_obj \<Rightarrow> controller \<Rightarrow> controller" where
  \<comment> \<open>\<open>SchedulerImpl::GetInstance().MemoryObjChangeHandler(copy)\<close>; the callers ignore what it answers and what it
      writes into their copy\<close>
  "tell_scheduler e x s = s\<lparr>ct_scheduler := snd (snd (MemoryObjChangeHandler e (mem_obj.truncate x) (ct_scheduler s)))\<rparr>"

section \<open>Operations on objects\<close>

definition ExportUpdateState :: "BorrowedType \<Rightarrow> debt_obj \<Rightarrow> UbseMemState \<Rightarrow> controller \<Rightarrow> controller" where
  "ExportUpdateState k x st s = (case export_home k x of
       None \<Rightarrow> s
     | Some i \<Rightarrow> on_type (Export k) (PutResource True i (export_key k x) (Some (x\<lparr>mo_state := st\<rparr>))) s)"

definition EraseExport :: "BorrowedType \<Rightarrow> debt_obj \<Rightarrow> controller \<Rightarrow> controller" where
  "EraseExport k x s = (case export_home k x of
       None \<Rightarrow> s
     | Some i \<Rightarrow> on_type (Export k) (\<lambda>m. snd (RemoveResource True i (export_key k x) m)) s)"

definition ImportUpdateState :: "BorrowedType \<Rightarrow> debt_obj \<Rightarrow> UbseMemState \<Rightarrow> controller \<Rightarrow> controller" where
  "ImportUpdateState k x st s =
     on_type (Import k) (PutResource False (import_node k x) (obj_name x) (Some (x\<lparr>mo_state := st\<rparr>))) s"

definition EraseImport :: "BorrowedType \<Rightarrow> debt_obj \<Rightarrow> controller \<Rightarrow> controller" where
  "EraseImport k x s = on_type (Import k) (\<lambda>m. snd (RemoveResource False (import_node k x) (obj_name x) m)) s"

definition AddExport :: "BorrowedType \<Rightarrow> env \<Rightarrow> debt_obj \<Rightarrow> controller \<Rightarrow> controller" where
  "AddExport k e x s = tell_scheduler e x
     (if mo_state x = UBSE_MEM_EXPORT_DESTROYED then EraseExport k x s else ExportUpdateState k x (mo_state x) s)"

definition AddImport :: "BorrowedType \<Rightarrow> env \<Rightarrow> debt_obj \<Rightarrow> controller \<Rightarrow> controller" where
  "AddImport k e x s = tell_scheduler e x
     (if mo_state x = UBSE_MEM_IMPORT_DESTROYED then EraseImport k x s else ImportUpdateState k x (mo_state x) s)"

definition dying :: "debt_obj \<Rightarrow> debt_obj" where
  "dying x = x\<lparr>do_expectState := UBSE_MEM_EXPORT_DESTROYED, mo_state := UBSE_MEM_EXPORT_DESTROYING\<rparr>"

definition DeleteExport :: "BorrowedType \<Rightarrow> debt_obj \<Rightarrow> controller \<Rightarrow> controller" where
  \<comment> \<open>the scheduler is told when the agent has destroyed the object\<close>
  "DeleteExport k x s = (case export_home k x of
       None \<Rightarrow> s
     | Some i \<Rightarrow> sent_out (Destroy_Export k i (dying x)) (ExportUpdateState k (dying x) UBSE_MEM_EXPORT_DESTROYING s))"

definition FdExportUpdateState :: "debt_obj \<Rightarrow> UbseMemState \<Rightarrow> controller \<Rightarrow> controller" where
  "FdExportUpdateState = ExportUpdateState FD"

definition EraseFdExport :: "debt_obj \<Rightarrow> controller \<Rightarrow> controller" where
  "EraseFdExport = EraseExport FD"

definition FdImportUpdateState :: "debt_obj \<Rightarrow> UbseMemState \<Rightarrow> controller \<Rightarrow> controller" where
  "FdImportUpdateState = ImportUpdateState FD"

definition EraseFdImport :: "debt_obj \<Rightarrow> controller \<Rightarrow> controller" where
  "EraseFdImport = EraseImport FD"

definition AddFdExport :: "env \<Rightarrow> debt_obj \<Rightarrow> controller \<Rightarrow> controller" where
  "AddFdExport = AddExport FD"

definition AddFdImport :: "env \<Rightarrow> debt_obj \<Rightarrow> controller \<Rightarrow> controller" where
  "AddFdImport = AddImport FD"

definition DeleteFdExport :: "debt_obj \<Rightarrow> controller \<Rightarrow> controller" where
  "DeleteFdExport = DeleteExport FD"

definition NumaExportUpdateState :: "debt_obj \<Rightarrow> UbseMemState \<Rightarrow> controller \<Rightarrow> controller" where
  "NumaExportUpdateState = ExportUpdateState NUMA"

definition EraseNumaExport :: "debt_obj \<Rightarrow> controller \<Rightarrow> controller" where
  "EraseNumaExport = EraseExport NUMA"

definition NumaImportUpdateState :: "debt_obj \<Rightarrow> UbseMemState \<Rightarrow> controller \<Rightarrow> controller" where
  "NumaImportUpdateState = ImportUpdateState NUMA"

definition EraseNumaImport :: "debt_obj \<Rightarrow> controller \<Rightarrow> controller" where
  "EraseNumaImport = EraseImport NUMA"

definition AddNumaExport :: "env \<Rightarrow> debt_obj \<Rightarrow> controller \<Rightarrow> controller" where
  "AddNumaExport = AddExport NUMA"

definition AddNumaImport :: "env \<Rightarrow> debt_obj \<Rightarrow> controller \<Rightarrow> controller" where
  "AddNumaImport = AddImport NUMA"

definition DeleteNumaExport :: "debt_obj \<Rightarrow> controller \<Rightarrow> controller" where
  "DeleteNumaExport = DeleteExport NUMA"

definition AddrExportUpdateState :: "debt_obj \<Rightarrow> UbseMemState \<Rightarrow> controller \<Rightarrow> controller" where
  "AddrExportUpdateState = ExportUpdateState ADDR"

definition EraseAddrExport :: "debt_obj \<Rightarrow> controller \<Rightarrow> controller" where
  "EraseAddrExport = EraseExport ADDR"

definition AddrImportUpdateState :: "debt_obj \<Rightarrow> UbseMemState \<Rightarrow> controller \<Rightarrow> controller" where
  "AddrImportUpdateState = ImportUpdateState ADDR"

definition EraseAddrImport :: "debt_obj \<Rightarrow> controller \<Rightarrow> controller" where
  "EraseAddrImport = EraseImport ADDR"

definition AddAddrExport :: "env \<Rightarrow> debt_obj \<Rightarrow> controller \<Rightarrow> controller" where
  "AddAddrExport = AddExport ADDR"

definition AddAddrImport :: "env \<Rightarrow> debt_obj \<Rightarrow> controller \<Rightarrow> controller" where
  "AddAddrImport = AddImport ADDR"

definition DeleteAddrExport :: "debt_obj \<Rightarrow> controller \<Rightarrow> controller" where
  "DeleteAddrExport = DeleteExport ADDR"

definition ShareExportUpdateState :: "debt_obj \<Rightarrow> UbseMemState \<Rightarrow> controller \<Rightarrow> controller" where
  "ShareExportUpdateState = ExportUpdateState SHM"

definition EraseShareExport :: "debt_obj \<Rightarrow> controller \<Rightarrow> controller" where
  "EraseShareExport = EraseExport SHM"

definition ShareImportUpdateState :: "debt_obj \<Rightarrow> UbseMemState \<Rightarrow> controller \<Rightarrow> controller" where
  "ShareImportUpdateState = ImportUpdateState SHM"

definition EraseShareImport :: "debt_obj \<Rightarrow> controller \<Rightarrow> controller" where
  "EraseShareImport = EraseImport SHM"

definition AddShareExport :: "env \<Rightarrow> debt_obj \<Rightarrow> controller \<Rightarrow> controller" where
  "AddShareExport = AddExport SHM"

definition AddShareImport :: "env \<Rightarrow> debt_obj \<Rightarrow> controller \<Rightarrow> controller" where
  "AddShareImport = AddImport SHM"

definition DeleteShareExport :: "debt_obj \<Rightarrow> controller \<Rightarrow> controller" where
  "DeleteShareExport = DeleteExport SHM"

text \<open>
  Looking objects up in the ledger. The code answers an object with an empty name when there is none, and its callers
  test the name; so does \<open>named_obj\<close>.
\<close>

definition named_obj :: "debt_obj option \<Rightarrow> debt_obj option" where
  "named_obj r = (case r of Some x \<Rightarrow> if obj_name x = [] then None else Some x | None \<Rightarrow> None)"

definition ExportObjGet :: "BorrowedType \<Rightarrow> NodeId \<Rightarrow> string \<Rightarrow> NodeId \<Rightarrow> controller \<Rightarrow> debt_obj option" where
  \<comment> \<open>without the task manager; only a share is looked up under the node\<close>
  "ExportObjGet k i name importNodeId s =
     (if k = SHM then GetResource i name (ct_ledger s (Export k))
      else GetExportResourceByResId True (GenerateExportObjKey name importNodeId) (ct_ledger s (Export k)))"

definition ImportObjGet :: "BorrowedType \<Rightarrow> NodeId \<Rightarrow> string \<Rightarrow> controller \<Rightarrow> debt_obj option" where
  "ImportObjGet k i name s = GetResource i name (ct_ledger s (Import k))"

definition UbseFdExportObjGet :: "NodeId \<Rightarrow> string \<Rightarrow> NodeId \<Rightarrow> controller \<Rightarrow> debt_obj option" where
  "UbseFdExportObjGet = ExportObjGet FD"

definition UbseFdImportObjGet :: "NodeId \<Rightarrow> string \<Rightarrow> controller \<Rightarrow> debt_obj option" where
  "UbseFdImportObjGet = ImportObjGet FD"

definition UbseNumaExportObjGet :: "NodeId \<Rightarrow> string \<Rightarrow> NodeId \<Rightarrow> controller \<Rightarrow> debt_obj option" where
  "UbseNumaExportObjGet = ExportObjGet NUMA"

definition UbseNumaImportObjGet :: "NodeId \<Rightarrow> string \<Rightarrow> controller \<Rightarrow> debt_obj option" where
  "UbseNumaImportObjGet = ImportObjGet NUMA"

definition UbseAddrExportObjGet :: "NodeId \<Rightarrow> string \<Rightarrow> NodeId \<Rightarrow> controller \<Rightarrow> debt_obj option" where
  "UbseAddrExportObjGet = ExportObjGet ADDR"

definition UbseAddrImportObjGet :: "NodeId \<Rightarrow> string \<Rightarrow> controller \<Rightarrow> debt_obj option" where
  "UbseAddrImportObjGet = ImportObjGet ADDR"

definition UbseShareExportObjGet :: "NodeId \<Rightarrow> string \<Rightarrow> controller \<Rightarrow> debt_obj option" where
  "UbseShareExportObjGet i name = ExportObjGet SHM i name []"

definition UbseShareImportObjGet :: "NodeId \<Rightarrow> string \<Rightarrow> controller \<Rightarrow> debt_obj option" where
  "UbseShareImportObjGet = ImportObjGet SHM"

section \<open>The nodes whose first reconciliation is done\<close>

definition SetInitLedgerDone :: "NodeId \<Rightarrow> bool \<Rightarrow> controller \<Rightarrow> controller" where
  "SetInitLedgerDone i fin s =
     s\<lparr>ct_initLedgerDone := (if fin then insert i (ct_initLedgerDone s) else ct_initLedgerDone s - {i})\<rparr>"

definition IsInitLedgerDone :: "NodeId \<Rightarrow> controller \<Rightarrow> bool" where
  "IsInitLedgerDone i s \<longleftrightarrow> i \<in> ct_initLedgerDone s"

end
