(* ===== verification/LedgerFilter.thy ===== *)
theory LedgerFilter
  imports DebtObjects
begin

text \<open>
  \<open>ubse_mem_controller_ledger_filter.cpp\<close>: how the objects of the master and of the agent are divided before they
  are reconciled. Objects are compared by the name of their request.
\<close>

definition obj_names :: "debt_obj list \<Rightarrow> string set" where
  "obj_names xs = set (map (\<lambda>x. obj_name x) xs)"

definition find_diff :: "debt_obj list \<Rightarrow> string set \<Rightarrow> debt_obj list" where
  "find_diff source target = filter (\<lambda>x. obj_name x \<notin> target) source"

section \<open>Objects in the middle of an operation\<close>

definition running_export :: "debt_obj \<Rightarrow> bool" where
  "running_export x \<longleftrightarrow> mo_state x \<in> {UBSE_MEM_SCHEDULING, UBSE_MEM_EXPORT_RUNNING, UBSE_MEM_EXPORT_DESTROYING,
     UBSE_MEM_EXPORT_DESTROYING_WAIT}"

definition running_import :: "debt_obj \<Rightarrow> bool" where
  "running_import x \<longleftrightarrow> mo_state x \<in> {UBSE_MEM_SCHEDULING, UBSE_MEM_EXPORT_DESTROYING, UBSE_MEM_EXPORT_RUNNING,
     UBSE_MEM_EXPORT_DESTROYING_WAIT, UBSE_MEM_IMPORT_RUNNING, UBSE_MEM_IMPORT_DESTROYING, UBSE_MEM_IMPORT_DESTROYING_WAIT}"

definition FilterRunning :: "(debt_obj \<Rightarrow> bool) \<Rightarrow> debt_obj list \<Rightarrow> debt_obj list \<Rightarrow> debt_obj list \<times> debt_obj list \<times> debt_obj list" where
  \<comment> \<open>the running objects of the master, and what both have without the names of those\<close>
  "FilterRunning running master agent =
     (let masterRunning = filter running master; names = obj_names masterRunning
      in (masterRunning, find_diff master names, find_diff agent names))"

definition FilterRunningFdExport :: "debt_obj list \<Rightarrow> debt_obj list \<Rightarrow> debt_obj list \<times> debt_obj list \<times> debt_obj list" where
  "FilterRunningFdExport = FilterRunning running_export"

definition FilterRunningFdImport :: "debt_obj list \<Rightarrow> debt_obj list \<Rightarrow> debt_obj list \<times> debt_obj list \<times> debt_obj list" where
  "FilterRunningFdImport = FilterRunning running_import"

definition FilterRunningNumaExport :: "debt_obj list \<Rightarrow> debt_obj list \<Rightarrow> debt_obj list \<times> debt_obj list \<times> debt_obj list" where
  "FilterRunningNumaExport = FilterRunning running_export"

definition FilterRunningNumaImport :: "debt_obj list \<Rightarrow> debt_obj list \<Rightarrow> debt_obj list \<times> debt_obj list \<times> debt_obj list" where
  "FilterRunningNumaImport = FilterRunning running_import"

definition FilterRunningAddrExport :: "debt_obj list \<Rightarrow> debt_obj list \<Rightarrow> debt_obj list \<times> debt_obj list \<times> debt_obj list" where
  "FilterRunningAddrExport = FilterRunning running_export"

definition FilterRunningAddrImport :: "debt_obj list \<Rightarrow> debt_obj list \<Rightarrow> debt_obj list \<times> debt_obj list \<times> debt_obj list" where
  "FilterRunningAddrImport = FilterRunning running_import"

definition FilterRunningShareExport :: "debt_obj list \<Rightarrow> debt_obj list \<Rightarrow> debt_obj list \<times> debt_obj list \<times> debt_obj list" where
  "FilterRunningShareExport = FilterRunning running_export"

definition FilterRunningShareImport :: "debt_obj list \<Rightarrow> debt_obj list \<Rightarrow> debt_obj list \<times> debt_obj list \<times> debt_obj list" where
  "FilterRunningShareImport = FilterRunning running_import"

section \<open>Objects that only one side has, and that both have\<close>

definition FilterDifferent :: "debt_obj list \<Rightarrow> debt_obj list \<Rightarrow> debt_obj list \<times> debt_obj list" where
  "FilterDifferent master agent = (find_diff master (obj_names agent), find_diff agent (obj_names master))"

definition FilterBothExists :: "debt_obj list \<Rightarrow> debt_obj list \<Rightarrow> debt_obj list" where
  \<comment> \<open>the objects of the agent\<close>
  "FilterBothExists master agent = filter (\<lambda>x. obj_name x \<in> obj_names master) agent"

definition FilterFdDifferentExportSet :: "debt_obj list \<Rightarrow> debt_obj list \<Rightarrow> debt_obj list \<times> debt_obj list" where
  "FilterFdDifferentExportSet = FilterDifferent"

definition FilterFdDifferentImportSet :: "debt_obj list \<Rightarrow> debt_obj list \<Rightarrow> debt_obj list \<times> debt_obj list" where
  "FilterFdDifferentImportSet = FilterDifferent"

definition FilterNumaDifferentExportSet :: "debt_obj list \<Rightarrow> debt_obj list \<Rightarrow> debt_obj list \<times> debt_obj list" where
  "FilterNumaDifferentExportSet = FilterDifferent"

definition FilterNumaDifferentImportSet :: "debt_obj list \<Rightarrow> debt_obj list \<Rightarrow> debt_obj list \<times> debt_obj list" where
  "FilterNumaDifferentImportSet = FilterDifferent"

definition FilterAddrDifferentExportSet :: "debt_obj list \<Rightarrow> debt_obj list \<Rightarrow> debt_obj list \<times> debt_obj list" where
  "FilterAddrDifferentExportSet = FilterDifferent"

definition FilterAddrDifferentImportSet :: "debt_obj list \<Rightarrow> debt_obj list \<Rightarrow> debt_obj list \<times> debt_obj list" where
  "FilterAddrDifferentImportSet = FilterDifferent"

definition FilterShareDifferentExportSet :: "debt_obj list \<Rightarrow> debt_obj list \<Rightarrow> debt_obj list \<times> debt_obj list" where
  "FilterShareDifferentExportSet = FilterDifferent"

definition FilterShareDifferentImportSet :: "debt_obj list \<Rightarrow> debt_obj list \<Rightarrow> debt_obj list \<times> debt_obj list" where
  "FilterShareDifferentImportSet = FilterDifferent"

definition FilterBothExistsFdExport :: "debt_obj list \<Rightarrow> debt_obj list \<Rightarrow> debt_obj list" where
  "FilterBothExistsFdExport = FilterBothExists"

definition FilterBothExistsNumaExport :: "debt_obj list \<Rightarrow> debt_obj list \<Rightarrow> debt_obj list" where
  "FilterBothExistsNumaExport = FilterBothExists"

definition FilterBothExistsAddrExport :: "debt_obj list \<Rightarrow> debt_obj list \<Rightarrow> debt_obj list" where
  "FilterBothExistsAddrExport = FilterBothExists"

section \<open>Objects of a map\<close>

definition TransList :: "(string \<times> debt_obj) list \<Rightarrow> debt_obj list" where
  "TransList m = map snd m"

definition TransFdExportList :: "(string \<times> debt_obj) list \<Rightarrow> debt_obj list" where
  "TransFdExportList = TransList"

definition TransFdImportList :: "(string \<times> debt_obj) list \<Rightarrow> debt_obj list" where
  "TransFdImportList = TransList"

definition TransNumaExportList :: "(string \<times> debt_obj) list \<Rightarrow> debt_obj list" where
  "TransNumaExportList = TransList"

definition TransNumaImportList :: "(string \<times> debt_obj) list \<Rightarrow> debt_obj list" where
  "TransNumaImportList = TransList"

definition TransAddrExportList :: "(string \<times> debt_obj) list \<Rightarrow> debt_obj list" where
  "TransAddrExportList = TransList"

definition TransAddrImportList :: "(string \<times> debt_obj) list \<Rightarrow> debt_obj list" where
  "TransAddrImportList = TransList"

definition TransShareExportList :: "(string \<times> debt_obj) list \<Rightarrow> debt_obj list" where
  "TransShareExportList = TransList"

definition TransShareImportList :: "(string \<times> debt_obj) list \<Rightarrow> debt_obj list" where
  "TransShareImportList = TransList"

lemmas filter_instances =
  FilterRunningFdExport_def FilterRunningFdImport_def FilterRunningNumaExport_def FilterRunningNumaImport_def FilterRunningAddrExport_def FilterRunningAddrImport_def FilterRunningShareExport_def FilterRunningShareImport_def
  FilterFdDifferentExportSet_def FilterFdDifferentImportSet_def FilterNumaDifferentExportSet_def FilterNumaDifferentImportSet_def FilterAddrDifferentExportSet_def FilterAddrDifferentImportSet_def FilterShareDifferentExportSet_def FilterShareDifferentImportSet_def
  FilterBothExistsFdExport_def FilterBothExistsNumaExport_def FilterBothExistsAddrExport_def
  TransFdExportList_def TransFdImportList_def TransNumaExportList_def TransNumaImportList_def TransAddrExportList_def TransAddrImportList_def TransShareExportList_def TransShareImportList_def

lemma in_find_diff [simp]: "x \<in> set (find_diff xs ns) \<longleftrightarrow> x \<in> set xs \<and> obj_name x \<notin> ns"
  by (auto simp: find_diff_def)

lemma in_obj_names: "n \<in> obj_names xs \<longleftrightarrow> (\<exists>x \<in> set xs. obj_name x = n)"
  by (auto simp: obj_names_def)

lemma in_both [simp]: "x \<in> set (FilterBothExists m a) \<longleftrightarrow> x \<in> set a \<and> obj_name x \<in> obj_names m"
  by (auto simp: FilterBothExists_def)

end
