(* ===== verification/Collect.thy ===== *)
theory Collect
  imports LedgerFilter
begin

text \<open>
  The first half of \<open>ubse_mem_controller_ledger.cpp\<close>: collecting the ledgers a reconciliation needs, debts of which
  only the import side is left, the state of the decoders, and the state of remote NUMA nodes. What the code asks of
  other modules and of the peers is the record \<open>surroundings\<close>. Questions whose answer can change while a handler runs
  (is this node the leader, is the process stopping, what state is a node in, does it answer) carry the moment at
  which they are asked.
\<close>

section \<open>Surroundings\<close>

datatype moment =
    At_handler
  | At_target
  | At_node NodeId
  | At_attempt NodeId nat

record PhysicalLink =
  pl_slotId :: u32
  pl_chipId :: u32
  pl_portId :: u32
  pl_interfaceName :: string
  pl_peerSlotId :: u32
  pl_peerChipId :: u32
  pl_peerPortId :: u32
  pl_peerInterfaceName :: string

datatype collect_answer =
    No_answer u32  \<comment> \<open>a code other than \<open>UBSE_OK\<close>: no module, no memory, not sent, nothing received\<close>
  | Answer u32 u32 NodeMemDebtInfoMap  \<comment> \<open>what deserialising returned, and the \<open>LedgerResp\<close>\<close>

record surroundings =
  su_scheduler :: env
  su_current :: NodeId
  su_leader :: "moment \<Rightarrow> bool"
  su_stop :: "moment \<Rightarrow> bool"
  su_node :: "moment \<Rightarrow> NodeId \<Rightarrow> UbseNodeInfo"
  su_collect :: "moment \<Rightarrow> NodeId \<Rightarrow> collect_answer"
  su_linkUpNodes :: "u32 \<times> NodeId list"
  su_links :: "PhysicalLink list"
  su_query :: "obj_type \<Rightarrow> string \<Rightarrow> NodeId \<Rightarrow> NodeId \<Rightarrow> u32 \<times> debt_obj option"
    \<comment> \<open>type, name, importing node, exporting node\<close>
  su_invalidate :: "nat \<Rightarrow> NodeId \<Rightarrow> string \<Rightarrow> BorrowedType \<Rightarrow> UbseDecoderState \<Rightarrow> u32"
    \<comment> \<open>the answer when so many attempts are left\<close>
  su_report :: "NodeId \<Rightarrow> DebtHandleInfos \<Rightarrow> u32"
  su_updateState :: "debt_obj \<Rightarrow> u32 option"  \<comment> \<open>\<open>None\<close> without memory or module\<close>
  su_chip :: "u32 \<Rightarrow> u32"  \<comment> \<open>what \<open>GetChipAndDieId\<close> returns\<close>
  su_decoder :: "u32 \<Rightarrow> u64 \<Rightarrow> UbseDecoderState \<Rightarrow> u32"  \<comment> \<open>what \<open>InvalidateDecoderEntry\<close> returns\<close>
  su_executor :: bool

definition CheckNodeIsMaster :: "surroundings \<Rightarrow> moment \<Rightarrow> bool" where
  \<comment> \<open>false also without an election module\<close>
  "CheckNodeIsMaster w q = su_leader w q"

section \<open>Collecting ledgers\<close>

definition MAX_RETRIES :: nat where "MAX_RETRIES = 20"
definition BASE_SLEEP_TIME :: nat where "BASE_SLEEP_TIME = 500"

definition GetExponentialBackOffSleepTime :: "u32 \<Rightarrow> u32" where
  "GetExponentialBackOffSleepTime n =
     (if n < of_nat MAX_RETRIES then of_nat BASE_SLEEP_TIME * (1 + n) else of_nat BASE_SLEEP_TIME * of_nat MAX_RETRIES)"

definition CollectLedge :: "surroundings \<Rightarrow> moment \<Rightarrow> NodeId \<Rightarrow> u32 \<times> NodeMemDebtInfo" where
  "CollectLedge w q i = (case su_collect w q i of
       No_answer code \<Rightarrow> (code, no_debt)
     | Answer code rc m \<Rightarrow>
         if code \<noteq> 0 then (code, no_debt)
         else if rc \<noteq> 0 then (rc, no_debt)
         else (0, case map_of m i of Some info \<Rightarrow> info | None \<Rightarrow> no_debt))"

definition CollectLedgeHandler :: "NodeId \<Rightarrow> UbseNodeInfo \<Rightarrow> bool \<Rightarrow> ledger \<Rightarrow> u32 \<times> NodeMemDebtInfoMap" where
  \<comment> \<open>the agent's answer: its identifier, its node record, whether it is ready, its ledger\<close>
  "CollectLedgeHandler i node ready l =
     (if uo_nodeId node = [] then (ubse_code UBSE_ERROR, [])
      else if \<not> ready then (ubse_code UBSE_ERROR, [])
      else (0, [(i, GetNoDeletedNodeMemDebtInfoById i l)]))"

definition unreachable :: "UbseNodeInfo \<Rightarrow> bool" where
  "unreachable node \<longleftrightarrow> uo_clusterState node \<in> {UBSE_NODE_PRE_BMC, UBSE_NODE_FAULT, UBSE_NODE_UNKNOWN}"

fun collect_loop :: "surroundings \<Rightarrow> NodeId \<Rightarrow> nat \<Rightarrow> NodeMemDebtInfoMap \<Rightarrow> NodeMemDebtInfoMap" where
  \<comment> \<open>the number is \<open>MAX_RETRIES - count\<close>\<close>
  "collect_loop w i 0 infos = infos"
| "collect_loop w i (Suc n) infos =
     (let q = At_attempt i n
      in if su_stop w q then infos
         else if unreachable (su_node w q i) then infos
         else if \<not> CheckNodeIsMaster w q then infos
         else case CollectLedge w q i of (ret, info) \<Rightarrow>
           if ret = 0 then AList.update i info infos else collect_loop w i n infos)"

definition GetLedgerByNodeId :: "surroundings \<Rightarrow> NodeMemDebtInfo \<Rightarrow> NodeId \<Rightarrow> NodeMemDebtInfoMap \<Rightarrow> NodeMemDebtInfoMap" where
  "GetLedgerByNodeId w masterDebtInfo i infos =
     (if su_current w = i then AList.update i masterDebtInfo infos else collect_loop w i MAX_RETRIES infos)"

definition GetTargetLedgerByNodeId :: "surroundings \<Rightarrow> NodeMemDebtInfo \<Rightarrow> NodeId \<Rightarrow> NodeMemDebtInfoMap \<Rightarrow> u32 \<times> NodeMemDebtInfoMap" where
  "GetTargetLedgerByNodeId w masterDebtInfo target infos =
     (if su_current w = target then (0, AList.update target masterDebtInfo infos)
      else if \<not> CheckNodeIsMaster w At_target then (0, infos)
      else case CollectLedge w At_target target of (ret, info) \<Rightarrow>
        (ret, if ret = 0 then AList.update target info infos else infos))"

definition related_nodes :: "obj_type \<Rightarrow> debt_obj \<Rightarrow> NodeId set" where
  "related_nodes t x = (case t of
       Import SHM \<Rightarrow> insert (do_importNodeId x) (set_option (first_export x))
     | Export SHM \<Rightarrow> set_option (first_export x)
     | _ \<Rightarrow> set_option (first_import x) \<union> set_option (first_export x))"

definition CollectRelatedNodeIds :: "NodeMemDebtInfo \<Rightarrow> NodeId set" where
  "CollectRelatedNodeIds info = (\<Union>t \<in> set all_types. \<Union>x \<in> snd ` set (info t). related_nodes t x)"

fun collect_nodes :: "surroundings \<Rightarrow> NodeMemDebtInfo \<Rightarrow> NodeId \<Rightarrow> NodeId set \<Rightarrow> controller \<Rightarrow> NodeId list \<Rightarrow>
    NodeMemDebtInfoMap \<Rightarrow> NodeMemDebtInfoMap" where
  "collect_nodes w masterDebtInfo target related s [] infos = infos"
| "collect_nodes w masterDebtInfo target related s (i # is) infos =
     (let node = su_node w (At_node i) i
      in if uo_nodeId node = [] then collect_nodes w masterDebtInfo target related s is infos
         else if IsInitLedgerDone target s \<and> related \<noteq> {} \<and> uo_nodeId node \<notin> related
         then collect_nodes w masterDebtInfo target related s is infos
         else let infos' = (if uo_nodeId node \<noteq> target \<and> \<not> unreachable node
                            then GetLedgerByNodeId w masterDebtInfo i infos else infos)
           in if su_stop w (At_node i) then infos' else collect_nodes w masterDebtInfo target related s is infos')"

definition info_at :: "NodeMemDebtInfoMap \<Rightarrow> NodeId \<Rightarrow> NodeMemDebtInfo \<times> NodeMemDebtInfoMap" where
  \<comment> \<open>\<open>allDebtInfoMap[i]\<close>, which creates the entry\<close>
  "info_at infos i = (case map_of infos i of Some info \<Rightarrow> (info, infos) | None \<Rightarrow> (no_debt, AList.update i no_debt infos))"

definition CollectAllLedger :: "surroundings \<Rightarrow> NodeMemDebtInfo \<Rightarrow> NodeId \<Rightarrow> controller \<Rightarrow> u32 \<times> NodeMemDebtInfoMap" where
  "CollectAllLedger w masterDebtInfo target s =
     (case GetTargetLedgerByNodeId w masterDebtInfo target [] of (ret, infos1) \<Rightarrow>
        if ret \<noteq> 0 then (ret, infos1)
        else case info_at infos1 target of (info, infos2) \<Rightarrow>
          case su_linkUpNodes w of (ret2, nodes) \<Rightarrow>
            if ret2 \<noteq> 0 then (ret2, infos2)
            else (0, collect_nodes w masterDebtInfo target (CollectRelatedNodeIds info) s nodes infos2))"

section \<open>States of decoders\<close>

fun IsValidDecoderStateTransition :: "UbseDecoderState \<Rightarrow> UbseDecoderState \<Rightarrow> bool" where
  "IsValidDecoderStateTransition DECODER_NONE to = True"
| "IsValidDecoderStateTransition DECODER_TEMP_INVALID to = (to = DECODER_VALID \<or> to = DECODER_PERMANENT_INVALID)"
| "IsValidDecoderStateTransition DECODER_VALID to = (to = DECODER_TEMP_INVALID \<or> to = DECODER_PERMANENT_INVALID)"
| "IsValidDecoderStateTransition DECODER_PERMANENT_INVALID to = False"

fun invalidate_entries :: "surroundings \<Rightarrow> UbseDecoderState \<Rightarrow> UbseMamiMemImportResult list \<Rightarrow> u32 \<times> UbseMamiMemImportResult list" where
  \<comment> \<open>the loop over \<open>decoderResult\<close>; \<open>res\<close> is \<open>UBSE_OK\<close> before each turn\<close>
  "invalidate_entries w to [] = (0, [])"
| "invalidate_entries w to (d # ds) =
     (if \<not> IsValidDecoderStateTransition (dr_state d) to then apsnd (Cons d) (invalidate_entries w to ds)
      else let res = su_decoder w (dr_marId d) (dr_handle d) to
        in if res \<noteq> 0 then (res, d # ds)
           else apsnd (Cons (d\<lparr>dr_state := to\<rparr>)) (invalidate_entries w to ds))"

definition AgentInvalidateDecoderEntry :: "surroundings \<Rightarrow> u32 \<Rightarrow> UbseMamiMemImportResult list \<Rightarrow> UbseDecoderState \<Rightarrow>
    u32 \<times> UbseMamiMemImportResult list" where
  "AgentInvalidateDecoderEntry w attachSocketId ds to =
     (if su_chip w attachSocketId \<noteq> 0 then (su_chip w attachSocketId, ds) else invalidate_entries w to ds)"

definition merge_decoder :: "UbseDecoderState \<Rightarrow> UbseMamiMemImportResult \<Rightarrow> UbseMamiMemImportResult \<Rightarrow> UbseMamiMemImportResult" where
  "merge_decoder to invalidated d =
     (if dr_marId d = dr_marId invalidated \<and> dr_handle d = dr_handle invalidated \<and> IsValidDecoderStateTransition (dr_state d) to
      then d\<lparr>dr_state := to\<rparr> else d)"

definition merge_decoders :: "UbseDecoderState \<Rightarrow> UbseMamiMemImportResult list \<Rightarrow> UbseMamiMemImportResult list \<Rightarrow> UbseMamiMemImportResult list" where
  \<comment> \<open>the two nested loops of the function given to \<open>UpdateResource\<close>\<close>
  "merge_decoders to copied latest =
     fold (\<lambda>invalidated ds. if dr_state invalidated \<noteq> to then ds else map (merge_decoder to invalidated) ds) copied latest"

definition AgentInvalidateImportDebtHelper :: "BorrowedType \<Rightarrow> surroundings \<Rightarrow> (controller \<Rightarrow> controller) \<Rightarrow> NodeId \<Rightarrow> string \<Rightarrow>
    UbseDecoderState \<Rightarrow> controller \<Rightarrow> u32 \<times> controller" where
  \<comment> \<open>\<open>between\<close> is what other threads do to the ledger while the hardware is being changed\<close>
  "AgentInvalidateImportDebtHelper k w between i name to s =
     (case GetResource i name (ct_ledger s (Import k)) of
        None \<Rightarrow> (0, s)
      | Some x \<Rightarrow>
          (case AgentInvalidateDecoderEntry w (ar_attachSocketId (mo_algoResult x)) (do_decoderResult x) to of (ret, copied) \<Rightarrow>
             let s1 = between s
             in if ret \<noteq> 0 then (ret, s1)
                else (0, on_type (Import k) (\<lambda>m. snd (UpdateResource i name
                    (Some (\<lambda>latest.
                       if mo_state latest = UBSE_MEM_IMPORT_DESTROYED then (False, latest)
                       else (True, latest\<lparr>do_decoderResult := merge_decoders to copied (do_decoderResult latest)\<rparr>))) m)) s1)))"

definition AgentInvalidateImportDebt :: "surroundings \<Rightarrow> (controller \<Rightarrow> controller) \<Rightarrow> string \<Rightarrow> BorrowedType \<Rightarrow> UbseDecoderState \<Rightarrow>
    controller \<Rightarrow> u32 \<times> controller" where
  \<comment> \<open>the four cases; on the node the agent runs on\<close>
  "AgentInvalidateImportDebt w between name k to s = AgentInvalidateImportDebtHelper k w between (su_current w) name to s"

section \<open>Links\<close>

definition GetLinkUpPorts :: "surroundings \<Rightarrow> NodeId \<Rightarrow> (u32 \<times> u32) set" where
  \<comment> \<open>pairs of chip and port\<close>
  "GetLinkUpPorts w target =
     set (concat (map (\<lambda>l.
       (if to_string (unat (pl_slotId l)) = target \<and> pl_interfaceName l \<noteq> [] then [(pl_chipId l, pl_portId l)] else []) @
       (if to_string (unat (pl_peerSlotId l)) = target \<and> pl_peerInterfaceName l \<noteq> [] then [(pl_peerChipId l, pl_peerPortId l)] else []))
       (su_links w)))"

section \<open>Debts of which only the import side is left\<close>

definition IsSingleImportDebt :: "BorrowedType \<Rightarrow> (string \<times> debt_obj) list \<Rightarrow> string \<Rightarrow> NodeId \<Rightarrow> bool" where
  "IsSingleImportDebt k exports name i \<longleftrightarrow> map_of exports (key_of_export k name i) = None"

fun invalidate_loop :: "surroundings \<Rightarrow> NodeId \<Rightarrow> string \<Rightarrow> BorrowedType \<Rightarrow> UbseDecoderState \<Rightarrow> nat \<Rightarrow> controller \<Rightarrow> u32 \<times> controller" where
  \<comment> \<open>\<open>while (retry > 0)\<close>\<close>
  "invalidate_loop w i name k to 0 s = (0, s)"
| "invalidate_loop w i name k to (Suc n) s =
     (let ret = su_invalidate w n i name k to; s1 = sent_out (Invalidate_Import i name k to) s
      in if ret = 0 \<or> n = 0 then (ret, s1) else invalidate_loop w i name k to n s1)"

definition MasterHandleSingleDebtHelper :: "BorrowedType \<Rightarrow> surroundings \<Rightarrow> debt_obj \<Rightarrow> (string \<times> debt_obj) list \<Rightarrow> string \<Rightarrow> NodeId \<Rightarrow>
    controller \<Rightarrow> u32 \<times> controller" where
  "MasterHandleSingleDebtHelper k w x exports name i s =
     (if IsSingleImportDebt k exports name i
      then case do_decoderResult x of
          [] \<Rightarrow> (0, s)
        | d # _ \<Rightarrow> if \<not> IsValidDecoderStateTransition (dr_state d) DECODER_PERMANENT_INVALID then (0, s)
            else invalidate_loop w i name k DECODER_PERMANENT_INVALID 10 s
      else case (do_decoderResult x, ar_importNumaInfos (mo_algoResult x)) of
          (d # _, n # _) \<Rightarrow>
            let to = (if (dn_chipId n, dn_portId n) \<in> GetLinkUpPorts w i then DECODER_VALID else DECODER_TEMP_INVALID)
            in if \<not> IsValidDecoderStateTransition (dr_state d) to then (0, s)
               else invalidate_loop w i name k to 10 s
        | _ \<Rightarrow> (0, s))"

definition no_handles :: DebtHandleInfos where
  "no_handles = \<lparr>hi_share = [], hi_numa = [], hi_fd = []\<rparr>"

definition CollectSingleImportHandleInfo :: "BorrowedType \<Rightarrow> debt_obj \<Rightarrow> string \<Rightarrow> DebtHandleInfos \<Rightarrow> DebtHandleInfos" where
  "CollectSingleImportHandleInfo k x name h =
     (case k of
        SHM \<Rightarrow> h\<lparr>hi_share := hi_share h @ [(name, set (map ir_memId (do_importResults x)))]\<rparr>
      | NUMA \<Rightarrow> h\<lparr>hi_numa := hi_numa h @ [(name, set (map ir_numaId (do_importResults x)))]\<rparr>
      | FD \<Rightarrow> h\<lparr>hi_fd := hi_fd h @ [(name, set (map ir_memId (do_importResults x)))]\<rparr>
      | ADDR \<Rightarrow> h)"

definition ReportSingleImportDebt :: "surroundings \<Rightarrow> NodeId \<Rightarrow> DebtHandleInfos \<Rightarrow> controller \<Rightarrow> u32 \<times> controller" where
  "ReportSingleImportDebt w i h s =
     (if hi_share h = [] \<and> hi_numa h = [] \<and> hi_fd h = [] then (0, s)
      else (su_report w i h, sent_out (Report_SingleImport i h) s))"

type_synonym single_state = "u32 \<times> DebtHandleInfos \<times> controller"

definition process_debt :: "surroundings \<Rightarrow> NodeMemDebtInfoMap \<Rightarrow> NodeId \<Rightarrow> BorrowedType \<Rightarrow> string \<times> debt_obj \<Rightarrow> single_state \<Rightarrow> single_state" where
  \<comment> \<open>one turn of the loop of \<open>processDebt\<close>\<close>
  "process_debt w infos target k nx st = (case (nx, st) of ((name, x), (ret, h, s)) \<Rightarrow>
     (case first_export x of
        None \<Rightarrow> st
      | Some exportNode \<Rightarrow>
          let importNode = import_node k x
          in (case map_of infos exportNode of
                None \<Rightarrow> st
              | Some info \<Rightarrow>
                  if importNode \<noteq> target \<and> exportNode \<noteq> target then st
                  else (case MasterHandleSingleDebtHelper k w x (info (Export k)) name importNode s of (r, s1) \<Rightarrow>
                    (ret OR r,
                     if importNode = target \<and> IsSingleImportDebt k (info (Export k)) name importNode
                     then CollectSingleImportHandleInfo k x name h else h, s1)))))"

definition MasterHandleSingleImportDebt :: "surroundings \<Rightarrow> NodeMemDebtInfoMap \<Rightarrow> NodeId \<Rightarrow> controller \<Rightarrow> u32 \<times> controller" where
  "MasterHandleSingleImportDebt w infos target s =
     (case fold (\<lambda>(i, info) st. fold (\<lambda>k. fold (process_debt w infos target k) (info (Import k))) [FD, NUMA, ADDR, SHM] st)
             infos (0, no_handles, s) of (ret, h, s1) \<Rightarrow>
        case ReportSingleImportDebt w target h s1 of (r, s2) \<Rightarrow> (ret OR r, s2))"

fun GetDebtTypeName :: "BorrowedType \<Rightarrow> string" where
  "GetDebtTypeName FD = ''fd''"
| "GetDebtTypeName NUMA = ''numa''"
| "GetDebtTypeName SHM = ''share''"
| "GetDebtTypeName ADDR = ''unknown''"

definition ProcessSingleImportDebtWithType :: "NodeMemDebtInfoMap \<Rightarrow> NodeId \<Rightarrow> NodeId \<Rightarrow> BorrowedType \<Rightarrow> (string \<times> debt_obj) list \<Rightarrow>
    DebtHandleInfos \<Rightarrow> DebtHandleInfos" where
  "ProcessSingleImportDebtWithType infos exportNodeId importNodeId k imports h =
     fold (\<lambda>(name, x) h.
         case first_export x of
           None \<Rightarrow> h
         | Some exportNode \<Rightarrow>
             if exportNode \<noteq> exportNodeId then h
             else case map_of infos exportNode of
                 None \<Rightarrow> h
               | Some info \<Rightarrow> if IsSingleImportDebt k (info (Export k)) name importNodeId
                   then CollectSingleImportHandleInfo k x name h else h)
       imports h"

definition MasterHandleSingleImportDebtWithExportNode :: "surroundings \<Rightarrow> NodeMemDebtInfoMap \<Rightarrow> NodeId \<Rightarrow> controller \<Rightarrow> u32 \<times> controller" where
  \<comment> \<open>a report is sent only when there is something to report\<close>
  "MasterHandleSingleImportDebtWithExportNode w infos exportNodeId s =
     fold (\<lambda>(i, info) (ret, s).
         let h = fold (\<lambda>k. ProcessSingleImportDebtWithType infos exportNodeId i k (info (Import k))) [FD, NUMA, SHM] no_handles
         in case ReportSingleImportDebt w i h s of (r, s1) \<Rightarrow> (ret OR r, s1))
       infos (0, s)"

section \<open>States of remote NUMA nodes\<close>

type_synonym link_map = "((u32 \<times> u32) \<times> c_int64) list"

definition link_turn :: "NodeMemDebtInfoMap \<Rightarrow> NodeId \<Rightarrow> string \<times> debt_obj \<Rightarrow> link_map \<times> c_int64 set \<times> c_int64 set \<Rightarrow>
    link_map \<times> c_int64 set \<times> c_int64 set" where
  \<comment> \<open>one turn over \<open>numaImportObjMap\<close>: the links, the invalid and the unknown remote NUMA nodes\<close>
  "link_turn infos i rx acc = (case (rx, acc) of ((resId, x), (links, invalid, unknown)) \<Rightarrow>
     (case (ar_importNumaInfos (mo_algoResult x), do_importResults x, first_export x) of
        (n # _, r # _, Some exportNode) \<Rightarrow>
          (AList.update (dn_chipId n, dn_portId n) (ir_numaId r) links,
           case map_of infos exportNode of
             None \<Rightarrow> (invalid, insert (ir_numaId r) unknown)
           | Some info \<Rightarrow> (if map_of (info (Export NUMA)) (resId @ ''_'' @ i) = None then insert (ir_numaId r) invalid else invalid, unknown))
      | _ \<Rightarrow> acc))"

definition BuildLinkToNumaMap :: "NodeId \<Rightarrow> NodeMemDebtInfoMap \<Rightarrow> link_map \<times> c_int64 set \<times> c_int64 set" where
  "BuildLinkToNumaMap target infos =
     fold (\<lambda>(i, info) acc. if i \<noteq> target then acc else fold (link_turn infos i) (info (Import NUMA)) acc) infos ([], {}, {})"

definition numa_status :: "c_int64 set \<Rightarrow> c_int64 set \<Rightarrow> (u32 \<times> u32) set \<Rightarrow> u32 \<times> u32 \<Rightarrow> c_int64 \<Rightarrow> RemoteNumaStatus" where
  "numa_status invalid unknown up link numaId =
     (if link \<notin> up then UNAVAILABLE
      else if numaId \<in> invalid then UNAVAILABLE
      else if numaId \<in> unknown then UNKNOWN
      else AVAILABLE)"

definition BuildNumaStatus :: "link_map \<Rightarrow> c_int64 set \<Rightarrow> c_int64 set \<Rightarrow> (u32 \<times> u32) set \<Rightarrow> (c_int64 \<times> RemoteNumaStatus) list" where
  "BuildNumaStatus links invalid unknown up = map (\<lambda>(link, numaId). (numaId, numa_status invalid unknown up link numaId)) links"

definition MasterNotifyRemoteNumaStatus :: "surroundings \<Rightarrow> NodeId \<Rightarrow> NodeMemDebtInfoMap \<Rightarrow> controller \<Rightarrow> controller" where
  "MasterNotifyRemoteNumaStatus w target infos s =
     (case map_of infos target of
        None \<Rightarrow> s
      | Some info \<Rightarrow>
          if info (Import NUMA) = [] then s
          else case BuildLinkToNumaMap target infos of (links, invalid, unknown) \<Rightarrow>
            let status = BuildNumaStatus links invalid unknown (GetLinkUpPorts w target)
            in if status = [] then s else sent_out (Notify_NumaStatus target status) s)"

fun status_num :: "RemoteNumaStatus \<Rightarrow> c_int" where
  "status_num AVAILABLE = 0"
| "status_num UNAVAILABLE = 1"
| "status_num UNKNOWN = 2"

definition TOPOLOGY_MAX_TOTAL_NUMA :: int where "TOPOLOGY_MAX_TOTAL_NUMA = 64"

definition critical_err_write :: "(string \<Rightarrow> bool) \<Rightarrow> c_int64 \<times> c_int \<Rightarrow> (string \<times> string) list" where
  \<comment> \<open>the file that is written for a NUMA node, and what; \<open>opens\<close> tells which files can be opened\<close>
  "critical_err_write opens ns = (case ns of (numaId, status) \<Rightarrow>
     if sint numaId < 0 \<or> sint numaId > TOPOLOGY_MAX_TOTAL_NUMA then []
     else if status = status_num UNKNOWN then []
     else let path = ''/sys/devices/system/node/node'' @ to_string (unat numaId) @ ''/critical_err''
       in if \<not> opens path then [] else [(path, if status = status_num AVAILABLE then ''0'' else ''1'')])"

definition AgentModifyRemoteNumaStatus :: "bool \<Rightarrow> (string \<Rightarrow> bool) \<Rightarrow> (c_int64 \<times> c_int) list \<Rightarrow> u32 \<times> (string \<times> string) list" where
  \<comment> \<open>the first argument tells whether there is an executor\<close>
  "AgentModifyRemoteNumaStatus executor opens numaStatus =
     (if \<not> executor then (ubse_code UBSE_ERROR, []) else (0, concat (map (critical_err_write opens) numaStatus)))"

end
