(* ===== verification/Reconcile.thy ===== *)
theory Reconcile
  imports Collect
begin

text \<open>
  The second half of \<open>ubse_mem_controller_ledger.cpp\<close>: one reconciliation of the master's ledger with what a node
  reports. The handlers take the master's objects as they were when the reconciliation began, and the ledger as it is
  when they run, so other steps may lie in between. Handlers that answer \<open>UBSE_OK\<close> on every path are functions on the
  state; what an object is locked with is left out.
\<close>

section \<open>Objects only the master has\<close>

definition MasterDiffExportHandler :: "BorrowedType \<Rightarrow> surroundings \<Rightarrow> debt_obj list \<Rightarrow> controller \<Rightarrow> controller" where
  "MasterDiffExportHandler k w objs s =
     fold (\<lambda>x s. if mo_state x = UBSE_MEM_EXPORT_DESTROYED then s
         else AddExport k (su_scheduler w) (x\<lparr>mo_state := UBSE_MEM_EXPORT_DESTROYED\<rparr>) s) objs s"

definition import_gone :: "debt_obj \<Rightarrow> bool" where
  "import_gone x \<longleftrightarrow> mo_state x = UBSE_MEM_IMPORT_DESTROYED \<or> mo_state x = UBSE_MEM_EXPORT_DESTROYED"

definition MasterDiffImportHandler :: "BorrowedType \<Rightarrow> surroundings \<Rightarrow> debt_obj list \<Rightarrow> controller \<Rightarrow> controller" where
  "MasterDiffImportHandler k w objs s =
     fold (\<lambda>x s. if import_gone x then s
         else AddImport k (su_scheduler w) (x\<lparr>mo_state := UBSE_MEM_IMPORT_DESTROYED\<rparr>) s) objs s"

section \<open>Exported objects whose import may be gone\<close>

definition import_in :: "NodeMemDebtInfoMap \<Rightarrow> BorrowedType \<Rightarrow> NodeId \<Rightarrow> string \<Rightarrow> debt_obj option" where
  "import_in infos k i name = Option.bind (map_of infos i) (\<lambda>info. map_of (info (Import k)) name)"

definition HandleLocalImport :: "BorrowedType \<Rightarrow> debt_obj \<Rightarrow> NodeId \<Rightarrow> NodeMemDebtInfoMap \<Rightarrow> controller \<Rightarrow> controller" where
  "HandleLocalImport k x importNodeId nodeMemDebtInfoMap s =
     (case named_obj (import_in nodeMemDebtInfoMap k importNodeId (obj_name x)) of
        None \<Rightarrow> DeleteExport k x s
      | Some im \<Rightarrow> if import_gone im then DeleteExport k x s else s)"

definition QueryImportObj :: "BorrowedType \<Rightarrow> NodeId \<Rightarrow> string \<Rightarrow> NodeMemDebtInfoMap \<Rightarrow> u32 \<times> debt_obj option" where
  "QueryImportObj k i name infos =
     (case map_of infos i of None \<Rightarrow> (ubse_code UBSE_ERROR, None) | Some info \<Rightarrow> (0, map_of (info (Import k)) name))"

definition IsMasterExitsRunningImportObj :: "BorrowedType \<Rightarrow> NodeMemDebtInfoMap \<Rightarrow> NodeId \<Rightarrow> string \<Rightarrow> bool" where
  "IsMasterExitsRunningImportObj k nodeMemDebtInfoMap importNodeId name =
     (case import_in nodeMemDebtInfoMap k importNodeId name of
        None \<Rightarrow> False | Some x \<Rightarrow> mo_state x = UBSE_MEM_IMPORT_RUNNING)"

definition faulty :: "surroundings \<Rightarrow> NodeId \<Rightarrow> bool" where
  "faulty w i \<longleftrightarrow> (let node = su_node w At_handler i in uo_nodeId node \<noteq> [] \<and> uo_clusterState node = UBSE_NODE_FAULT)"

definition HandleRemoteImport :: "BorrowedType \<Rightarrow> surroundings \<Rightarrow> debt_obj \<Rightarrow> NodeId \<Rightarrow> NodeMemDebtInfoMap \<Rightarrow> NodeMemDebtInfoMap \<Rightarrow>
    controller \<Rightarrow> controller" where
  "HandleRemoteImport k w x importNodeId nodeMemDebtInfoMap allDebtInfoMap s =
     (if faulty w importNodeId then DeleteExport k x s
      else case QueryImportObj k importNodeId (obj_name x) allDebtInfoMap of (ret, found) \<Rightarrow>
        if ret \<noteq> 0 then s
        else case named_obj found of
            Some im \<Rightarrow> if import_gone im then DeleteExport k x s else s
          | None \<Rightarrow> if \<not> IsMasterExitsRunningImportObj k nodeMemDebtInfoMap importNodeId (obj_name x)
              then DeleteExport k x s else s)"

definition import_peer :: "BorrowedType \<Rightarrow> debt_obj \<Rightarrow> NodeId option" where
  \<comment> \<open>the importing node, by the first importing NUMA or by the request\<close>
  "import_peer k x = (if k = ADDR then Some (req_importNodeId (mo_req x)) else first_import x)"

definition both_turn :: "BorrowedType \<Rightarrow> surroundings \<Rightarrow> NodeMemDebtInfoMap \<Rightarrow> NodeMemDebtInfoMap \<Rightarrow> debt_obj \<Rightarrow> controller \<Rightarrow> controller" where
  "both_turn k w nodeMemDebtInfoMap allDebtInfoMap x s =
     (if mo_state x = UBSE_MEM_EXPORT_DESTROYED then s
      else case import_peer k x of
          None \<Rightarrow> DeleteExport k x s
        | Some i \<Rightarrow> if i = su_current w then HandleLocalImport k x i nodeMemDebtInfoMap s
            else HandleRemoteImport k w x i nodeMemDebtInfoMap allDebtInfoMap s)"

definition BothExportHandler :: "BorrowedType \<Rightarrow> surroundings \<Rightarrow> debt_obj list \<Rightarrow> NodeMemDebtInfoMap \<Rightarrow> controller \<Rightarrow> controller" where
  "BothExportHandler k w objs allDebtInfoMap s = fold (both_turn k w (GetNodeMemDebtInfoMap (ct_ledger s)) allDebtInfoMap) objs s"

section \<open>Objects only the agent has\<close>

definition HandleAgentDiffExportWithRemoteImportNode :: "BorrowedType \<Rightarrow> surroundings \<Rightarrow> debt_obj \<Rightarrow> NodeId \<Rightarrow> NodeMemDebtInfoMap \<Rightarrow>
    controller \<Rightarrow> controller" where
  "HandleAgentDiffExportWithRemoteImportNode k w x importNodeId allDebtInfoMap s =
     (if faulty w importNodeId then DeleteExport k x s
      else case QueryImportObj k importNodeId (obj_name x) allDebtInfoMap of (ret, found) \<Rightarrow>
        if ret \<noteq> 0 then s
        else case named_obj found of
            None \<Rightarrow> DeleteExport k x s
          | Some im \<Rightarrow> if import_gone im then DeleteExport k x s else s)"

fun agent_loop :: "BorrowedType \<Rightarrow> surroundings \<Rightarrow> NodeMemDebtInfoMap \<Rightarrow> NodeMemDebtInfoMap \<Rightarrow> debt_obj list \<Rightarrow> controller \<Rightarrow> controller" where
  \<comment> \<open>where an object has no importing NUMA, the handler of NUMA objects returns, the one of file-descriptor objects goes on\<close>
  "agent_loop k w nodeMemDebtInfoMap allDebtInfoMap [] s = s"
| "agent_loop k w nodeMemDebtInfoMap allDebtInfoMap (x # xs) s =
     (if mo_state x = UBSE_MEM_EXPORT_DESTROYED then agent_loop k w nodeMemDebtInfoMap allDebtInfoMap xs s
      else let s1 = AddExport k (su_scheduler w) x s
        in case import_peer k x of
            None \<Rightarrow> (let s2 = DeleteExport k x s1
              in if k = NUMA then s2 else agent_loop k w nodeMemDebtInfoMap allDebtInfoMap xs s2)
          | Some i \<Rightarrow> agent_loop k w nodeMemDebtInfoMap allDebtInfoMap xs
              (if i = su_current w then HandleLocalImport k x i nodeMemDebtInfoMap s1
               else HandleAgentDiffExportWithRemoteImportNode k w x i allDebtInfoMap s1))"

definition AgentDiffExportHandler :: "BorrowedType \<Rightarrow> surroundings \<Rightarrow> debt_obj list \<Rightarrow> NodeMemDebtInfoMap \<Rightarrow> controller \<Rightarrow> controller" where
  "AgentDiffExportHandler k w objs allDebtInfoMap s = agent_loop k w (GetNodeMemDebtInfoMap (ct_ledger s)) allDebtInfoMap objs s"

definition AgentDiffImportHandler :: "BorrowedType \<Rightarrow> surroundings \<Rightarrow> debt_obj list \<Rightarrow> controller \<Rightarrow> controller" where
  "AgentDiffImportHandler k w objs s = fold (\<lambda>x s. if import_gone x then s else AddImport k (su_scheduler w) x s) objs s"

definition relabel :: "debt_obj \<Rightarrow> debt_obj" where
  \<comment> \<open>the identifier of a node of a shared region is its slot, the index plus one\<close>
  "relabel x = (case mo_req x of
       ShareReq r \<Rightarrow> x\<lparr>mo_req := ShareReq (r\<lparr>sb_shmRegion := (sb_shmRegion r)\<lparr>rg_nodelist :=
         map (\<lambda>n. n\<lparr>mn_nodeId := to_string (unat (mn_index n + 1))\<rparr>) (rg_nodelist (sb_shmRegion r))\<rparr>\<rparr>)\<rparr>
     | _ \<Rightarrow> x)"

definition AgentDiffShareExportHandler :: "surroundings \<Rightarrow> debt_obj list \<Rightarrow> controller \<Rightarrow> controller" where
  \<comment> \<open>the state compared is that of an import\<close>
  "AgentDiffShareExportHandler w objs s =
     fold (\<lambda>x s. if mo_state x = UBSE_MEM_IMPORT_DESTROYED then s else AddExport SHM (su_scheduler w) (relabel x) s) objs s"

definition AgentDiffShareImportHandler :: "surroundings \<Rightarrow> debt_obj list \<Rightarrow> controller \<Rightarrow> controller" where
  "AgentDiffShareImportHandler w objs s =
     fold (\<lambda>x s. if mo_state x = UBSE_MEM_IMPORT_DESTROYED then s else AddImport SHM (su_scheduler w) (relabel x) s) objs s"

section \<open>Objects in the middle of an operation\<close>

definition IsProcessExport :: "UbseMemState \<Rightarrow> bool" where
  "IsProcessExport st \<longleftrightarrow> st = UBSE_MEM_EXPORT_RUNNING \<or> st = UBSE_MEM_EXPORT_DESTROYING"

definition IsImportRunningLastExportSuccess :: "BorrowedType \<Rightarrow> surroundings \<Rightarrow> debt_obj \<Rightarrow> debt_obj \<Rightarrow> controller \<Rightarrow> bool \<times> controller" where
  "IsImportRunningLastExportSuccess k w x exportObj s =
     (if mo_state exportObj = UBSE_MEM_EXPORT_SUCCESS
      then if do_isLastExportSuccess x
        then case su_updateState w x of
            None \<Rightarrow> (False, s)
          | Some ret \<Rightarrow> (ret = 0, sent_out (Update_ImportState k (req_importNodeId (mo_req x)) x) s)
        else (False, on_type (Import k) (PutResource False (req_importNodeId (mo_req x)) (obj_name x)
            (Some (x\<lparr>do_isLastExportSuccess := True\<rparr>))) s)
      else (False, s))"

definition IsImportRunningObjExcess :: "BorrowedType \<Rightarrow> surroundings \<Rightarrow> NodeId \<Rightarrow> debt_obj \<Rightarrow> controller \<Rightarrow> bool \<times> controller" where
  "IsImportRunningObjExcess k w i x s =
     (if mo_state x = UBSE_MEM_EXPORT_DESTROYING then (True, s)
      else case first_export x of
          None \<Rightarrow> (True, s)
        | Some exportNode \<Rightarrow>
            (case named_obj (ExportObjGet k exportNode (obj_name x) i s) of
               None \<Rightarrow> (True, s)
             | Some exportObj \<Rightarrow>
                 if mo_state exportObj = UBSE_MEM_EXPORT_DESTROYING \<or> mo_state exportObj = UBSE_MEM_EXPORT_DESTROYED then (True, s)
                 else IsImportRunningLastExportSuccess k w x exportObj s))"

definition running_export_turn :: "BorrowedType \<Rightarrow> surroundings \<Rightarrow> NodeId \<Rightarrow> debt_obj \<Rightarrow> controller \<Rightarrow> controller" where
  "running_export_turn k w i x s =
     (case named_obj (ExportObjGet k i (obj_name x) (req_importNodeId (mo_req x)) s) of
        None \<Rightarrow> s
      | Some ctx \<Rightarrow>
          if mo_state ctx \<noteq> mo_state x then s
          else case su_query w (Export k) (obj_name x) (req_importNodeId (mo_req x)) i of (ret, found) \<Rightarrow>
            if ret \<noteq> 0 then s
            else case named_obj found of
                None \<Rightarrow> AddExport k (su_scheduler w) (x\<lparr>mo_state := UBSE_MEM_EXPORT_DESTROYED\<rparr>) s
              | Some agent \<Rightarrow> if mo_state x \<noteq> mo_state agent then AddExport k (su_scheduler w) (set_status x agent) s else s)"

definition MasterRunningExportHandler :: "BorrowedType \<Rightarrow> surroundings \<Rightarrow> NodeId \<Rightarrow> debt_obj list \<Rightarrow> controller \<Rightarrow> controller" where
  "MasterRunningExportHandler k w i objs s = fold (running_export_turn k w i) objs s"

definition running_import_turn :: "BorrowedType \<Rightarrow> surroundings \<Rightarrow> NodeId \<Rightarrow> debt_obj \<Rightarrow> controller \<Rightarrow> controller" where
  "running_import_turn k w i x s =
     (case named_obj (ImportObjGet k i (obj_name x) s) of
        None \<Rightarrow> s
      | Some ctx \<Rightarrow>
          if mo_state ctx \<noteq> mo_state x then s
          else if k \<noteq> SHM \<and> IsProcessExport (mo_state x)
          then case IsImportRunningObjExcess k w i x s of (excess, s1) \<Rightarrow>
            if excess then AddImport k (su_scheduler w) (x\<lparr>mo_state := UBSE_MEM_IMPORT_DESTROYED\<rparr>) s1 else s1
          else case su_query w (Import k) (obj_name x) i [] of (ret, found) \<Rightarrow>
            if ret \<noteq> 0 then s
            else case named_obj found of
                None \<Rightarrow> AddImport k (su_scheduler w) (x\<lparr>mo_state := UBSE_MEM_IMPORT_DESTROYED\<rparr>) s
              | Some agent \<Rightarrow> if mo_state x \<noteq> mo_state agent then AddImport k (su_scheduler w) (set_status x agent) s else s)"

definition MasterRunningImportHandler :: "BorrowedType \<Rightarrow> surroundings \<Rightarrow> NodeId \<Rightarrow> debt_obj list \<Rightarrow> controller \<Rightarrow> controller" where
  "MasterRunningImportHandler k w i objs s = fold (running_import_turn k w i) objs s"

section \<open>The functions of the code\<close>

text \<open>The handlers of each kind.\<close>

definition MasterDiffFdExportHandler :: "surroundings \<Rightarrow> debt_obj list \<Rightarrow> controller \<Rightarrow> controller" where
  "MasterDiffFdExportHandler = MasterDiffExportHandler FD"

definition MasterDiffFdImportHandler :: "surroundings \<Rightarrow> debt_obj list \<Rightarrow> controller \<Rightarrow> controller" where
  "MasterDiffFdImportHandler = MasterDiffImportHandler FD"

definition HandleLocalFdImport :: "debt_obj \<Rightarrow> NodeId \<Rightarrow> NodeMemDebtInfoMap \<Rightarrow> controller \<Rightarrow> controller" where
  "HandleLocalFdImport = HandleLocalImport FD"

definition QueryFdImportObj :: "NodeId \<Rightarrow> string \<Rightarrow> NodeMemDebtInfoMap \<Rightarrow> u32 \<times> debt_obj option" where
  "QueryFdImportObj = QueryImportObj FD"

definition IsMasterExitsRunningFdImportObj :: "NodeMemDebtInfoMap \<Rightarrow> NodeId \<Rightarrow> string \<Rightarrow> bool" where
  "IsMasterExitsRunningFdImportObj = IsMasterExitsRunningImportObj FD"

definition HandleRemoteFdImport :: "surroundings \<Rightarrow> debt_obj \<Rightarrow> NodeId \<Rightarrow> NodeMemDebtInfoMap \<Rightarrow> NodeMemDebtInfoMap \<Rightarrow> controller \<Rightarrow> controller" where
  "HandleRemoteFdImport = HandleRemoteImport FD"

definition BothFdExportHandler :: "surroundings \<Rightarrow> debt_obj list \<Rightarrow> NodeMemDebtInfoMap \<Rightarrow> controller \<Rightarrow> controller" where
  "BothFdExportHandler = BothExportHandler FD"

definition HandleAgentDiffFdExportWithRemoteImportNode :: "surroundings \<Rightarrow> debt_obj \<Rightarrow> NodeId \<Rightarrow> NodeMemDebtInfoMap \<Rightarrow> controller \<Rightarrow> controller" where
  "HandleAgentDiffFdExportWithRemoteImportNode = HandleAgentDiffExportWithRemoteImportNode FD"

definition AgentDiffFdExportHandler :: "surroundings \<Rightarrow> debt_obj list \<Rightarrow> NodeMemDebtInfoMap \<Rightarrow> controller \<Rightarrow> controller" where
  "AgentDiffFdExportHandler = AgentDiffExportHandler FD"

definition AgentDiffFdImportHandler :: "surroundings \<Rightarrow> debt_obj list \<Rightarrow> controller \<Rightarrow> controller" where
  "AgentDiffFdImportHandler = AgentDiffImportHandler FD"

definition IsFdImportRunningObjExcess :: "surroundings \<Rightarrow> NodeId \<Rightarrow> debt_obj \<Rightarrow> controller \<Rightarrow> bool \<times> controller" where
  "IsFdImportRunningObjExcess = IsImportRunningObjExcess FD"

definition MasterRunningFdExportHandler :: "surroundings \<Rightarrow> NodeId \<Rightarrow> debt_obj list \<Rightarrow> controller \<Rightarrow> controller" where
  "MasterRunningFdExportHandler = MasterRunningExportHandler FD"

definition MasterRunningFdImportHandler :: "surroundings \<Rightarrow> NodeId \<Rightarrow> debt_obj list \<Rightarrow> controller \<Rightarrow> controller" where
  "MasterRunningFdImportHandler = MasterRunningImportHandler FD"

definition MasterDiffNumaExportHandler :: "surroundings \<Rightarrow> debt_obj list \<Rightarrow> controller \<Rightarrow> controller" where
  "MasterDiffNumaExportHandler = MasterDiffExportHandler NUMA"

definition MasterDiffNumaImportHandler :: "surroundings \<Rightarrow> debt_obj list \<Rightarrow> controller \<Rightarrow> controller" where
  "MasterDiffNumaImportHandler = MasterDiffImportHandler NUMA"

definition HandleLocalNumaImport :: "debt_obj \<Rightarrow> NodeId \<Rightarrow> NodeMemDebtInfoMap \<Rightarrow> controller \<Rightarrow> controller" where
  "HandleLocalNumaImport = HandleLocalImport NUMA"

definition QueryNumaImportObj :: "NodeId \<Rightarrow> string \<Rightarrow> NodeMemDebtInfoMap \<Rightarrow> u32 \<times> debt_obj option" where
  "QueryNumaImportObj = QueryImportObj NUMA"

definition IsMasterExitsRunningNumaImportObj :: "NodeMemDebtInfoMap \<Rightarrow> NodeId \<Rightarrow> string \<Rightarrow> bool" where
  "IsMasterExitsRunningNumaImportObj = IsMasterExitsRunningImportObj NUMA"

definition HandleRemoteNumaImport :: "surroundings \<Rightarrow> debt_obj \<Rightarrow> NodeId \<Rightarrow> NodeMemDebtInfoMap \<Rightarrow> NodeMemDebtInfoMap \<Rightarrow> controller \<Rightarrow> controller" where
  "HandleRemoteNumaImport = HandleRemoteImport NUMA"

definition BothNumaExportHandler :: "surroundings \<Rightarrow> debt_obj list \<Rightarrow> NodeMemDebtInfoMap \<Rightarrow> controller \<Rightarrow> controller" where
  "BothNumaExportHandler = BothExportHandler NUMA"

definition HandleAgentDiffNumaExportWithRemoteImportNode :: "surroundings \<Rightarrow> debt_obj \<Rightarrow> NodeId \<Rightarrow> NodeMemDebtInfoMap \<Rightarrow> controller \<Rightarrow> controller" where
  "HandleAgentDiffNumaExportWithRemoteImportNode = HandleAgentDiffExportWithRemoteImportNode NUMA"

definition AgentDiffNumaExportHandler :: "surroundings \<Rightarrow> debt_obj list \<Rightarrow> NodeMemDebtInfoMap \<Rightarrow> controller \<Rightarrow> controller" where
  "AgentDiffNumaExportHandler = AgentDiffExportHandler NUMA"

definition AgentDiffNumaImportHandler :: "surroundings \<Rightarrow> debt_obj list \<Rightarrow> controller \<Rightarrow> controller" where
  "AgentDiffNumaImportHandler = AgentDiffImportHandler NUMA"

definition IsNumaImportRunningObjExcess :: "surroundings \<Rightarrow> NodeId \<Rightarrow> debt_obj \<Rightarrow> controller \<Rightarrow> bool \<times> controller" where
  "IsNumaImportRunningObjExcess = IsImportRunningObjExcess NUMA"

definition MasterRunningNumaExportHandler :: "surroundings \<Rightarrow> NodeId \<Rightarrow> debt_obj list \<Rightarrow> controller \<Rightarrow> controller" where
  "MasterRunningNumaExportHandler = MasterRunningExportHandler NUMA"

definition MasterRunningNumaImportHandler :: "surroundings \<Rightarrow> NodeId \<Rightarrow> debt_obj list \<Rightarrow> controller \<Rightarrow> controller" where
  "MasterRunningNumaImportHandler = MasterRunningImportHandler NUMA"

definition MasterDiffAddrExportHandler :: "surroundings \<Rightarrow> debt_obj list \<Rightarrow> controller \<Rightarrow> controller" where
  "MasterDiffAddrExportHandler = MasterDiffExportHandler ADDR"

definition MasterDiffAddrImportHandler :: "surroundings \<Rightarrow> debt_obj list \<Rightarrow> controller \<Rightarrow> controller" where
  "MasterDiffAddrImportHandler = MasterDiffImportHandler ADDR"

definition HandleLocalAddrImport :: "debt_obj \<Rightarrow> NodeId \<Rightarrow> NodeMemDebtInfoMap \<Rightarrow> controller \<Rightarrow> controller" where
  "HandleLocalAddrImport = HandleLocalImport ADDR"

definition QueryAddrImportObj :: "NodeId \<Rightarrow> string \<Rightarrow> NodeMemDebtInfoMap \<Rightarrow> u32 \<times> debt_obj option" where
  "QueryAddrImportObj = QueryImportObj ADDR"

definition IsMasterExitsRunningAddrImportObj :: "NodeMemDebtInfoMap \<Rightarrow> NodeId \<Rightarrow> string \<Rightarrow> bool" where
  "IsMasterExitsRunningAddrImportObj = IsMasterExitsRunningImportObj ADDR"

definition HandleRemoteAddrImport :: "surroundings \<Rightarrow> debt_obj \<Rightarrow> NodeId \<Rightarrow> NodeMemDebtInfoMap \<Rightarrow> NodeMemDebtInfoMap \<Rightarrow> controller \<Rightarrow> controller" where
  "HandleRemoteAddrImport = HandleRemoteImport ADDR"

definition BothAddrExportHandler :: "surroundings \<Rightarrow> debt_obj list \<Rightarrow> NodeMemDebtInfoMap \<Rightarrow> controller \<Rightarrow> controller" where
  "BothAddrExportHandler = BothExportHandler ADDR"

definition HandleAgentDiffAddrExportWithRemoteImportNode :: "surroundings \<Rightarrow> debt_obj \<Rightarrow> NodeId \<Rightarrow> NodeMemDebtInfoMap \<Rightarrow> controller \<Rightarrow> controller" where
  "HandleAgentDiffAddrExportWithRemoteImportNode = HandleAgentDiffExportWithRemoteImportNode ADDR"

definition AgentDiffAddrExportHandler :: "surroundings \<Rightarrow> debt_obj list \<Rightarrow> NodeMemDebtInfoMap \<Rightarrow> controller \<Rightarrow> controller" where
  "AgentDiffAddrExportHandler = AgentDiffExportHandler ADDR"

definition AgentDiffAddrImportHandler :: "surroundings \<Rightarrow> debt_obj list \<Rightarrow> controller \<Rightarrow> controller" where
  "AgentDiffAddrImportHandler = AgentDiffImportHandler ADDR"

definition IsAddrImportRunningObjExcess :: "surroundings \<Rightarrow> NodeId \<Rightarrow> debt_obj \<Rightarrow> controller \<Rightarrow> bool \<times> controller" where
  "IsAddrImportRunningObjExcess = IsImportRunningObjExcess ADDR"

definition MasterRunningAddrExportHandler :: "surroundings \<Rightarrow> NodeId \<Rightarrow> debt_obj list \<Rightarrow> controller \<Rightarrow> controller" where
  "MasterRunningAddrExportHandler = MasterRunningExportHandler ADDR"

definition MasterRunningAddrImportHandler :: "surroundings \<Rightarrow> NodeId \<Rightarrow> debt_obj list \<Rightarrow> controller \<Rightarrow> controller" where
  "MasterRunningAddrImportHandler = MasterRunningImportHandler ADDR"

definition MasterDiffShareExportHandler :: "surroundings \<Rightarrow> debt_obj list \<Rightarrow> controller \<Rightarrow> controller" where
  "MasterDiffShareExportHandler = MasterDiffExportHandler SHM"

definition MasterDiffShareImportHandler :: "surroundings \<Rightarrow> debt_obj list \<Rightarrow> controller \<Rightarrow> controller" where
  "MasterDiffShareImportHandler = MasterDiffImportHandler SHM"

definition MasterRunningShareExportHandler :: "surroundings \<Rightarrow> NodeId \<Rightarrow> debt_obj list \<Rightarrow> controller \<Rightarrow> controller" where
  "MasterRunningShareExportHandler = MasterRunningExportHandler SHM"

definition MasterRunningShareImportHandler :: "surroundings \<Rightarrow> NodeId \<Rightarrow> debt_obj list \<Rightarrow> controller \<Rightarrow> controller" where
  "MasterRunningShareImportHandler = MasterRunningImportHandler SHM"

lemmas handler_instances =
  MasterDiffFdExportHandler_def MasterDiffFdImportHandler_def HandleLocalFdImport_def
  QueryFdImportObj_def IsMasterExitsRunningFdImportObj_def HandleRemoteFdImport_def
  BothFdExportHandler_def HandleAgentDiffFdExportWithRemoteImportNode_def AgentDiffFdExportHandler_def
  AgentDiffFdImportHandler_def IsFdImportRunningObjExcess_def MasterRunningFdExportHandler_def
  MasterRunningFdImportHandler_def MasterDiffNumaExportHandler_def MasterDiffNumaImportHandler_def
  HandleLocalNumaImport_def QueryNumaImportObj_def IsMasterExitsRunningNumaImportObj_def
  HandleRemoteNumaImport_def BothNumaExportHandler_def HandleAgentDiffNumaExportWithRemoteImportNode_def
  AgentDiffNumaExportHandler_def AgentDiffNumaImportHandler_def IsNumaImportRunningObjExcess_def
  MasterRunningNumaExportHandler_def MasterRunningNumaImportHandler_def MasterDiffAddrExportHandler_def
  MasterDiffAddrImportHandler_def HandleLocalAddrImport_def QueryAddrImportObj_def
  IsMasterExitsRunningAddrImportObj_def HandleRemoteAddrImport_def BothAddrExportHandler_def
  HandleAgentDiffAddrExportWithRemoteImportNode_def AgentDiffAddrExportHandler_def AgentDiffAddrImportHandler_def
  IsAddrImportRunningObjExcess_def MasterRunningAddrExportHandler_def MasterRunningAddrImportHandler_def
  MasterDiffShareExportHandler_def MasterDiffShareImportHandler_def MasterRunningShareExportHandler_def
  MasterRunningShareImportHandler_def

section \<open>One kind of borrowing\<close>

text \<open>What \<open>FdBorrowLedger\<close>, \<open>NumaBorrowLedger\<close>, \<open>AddrBorrowLedger\<close> and \<open>ShmBorrowLedger\<close> do; all answer \<open>UBSE_OK\<close>.\<close>

definition FdBorrowLedger :: "surroundings \<Rightarrow> NodeId \<Rightarrow> NodeMemDebtInfo \<Rightarrow> NodeMemDebtInfo \<Rightarrow> NodeMemDebtInfoMap \<Rightarrow> controller \<Rightarrow> controller" where
  "FdBorrowLedger w i masterDebtInfo agentDebtInfo allDebtInfoMap s =
     (case FilterRunningFdExport (TransFdExportList (masterDebtInfo (Export FD))) (TransFdExportList (agentDebtInfo (Export FD))) of
       (masterRunningExport, masterExport, agentExport) \<Rightarrow>
     case FilterFdDifferentExportSet masterExport agentExport of (masterDiffExport, agentDiffExport) \<Rightarrow>
     case FilterRunningFdImport (TransFdImportList (masterDebtInfo (Import FD))) (TransFdImportList (agentDebtInfo (Import FD))) of
       (masterRunningImport, masterImport, agentImport) \<Rightarrow>
     case FilterFdDifferentImportSet masterImport agentImport of (masterDiffImport, agentDiffImport) \<Rightarrow>
       let s1 = MasterDiffFdExportHandler w masterDiffExport s;
           s2 = MasterDiffFdImportHandler w masterDiffImport s1;
           s3 = BothFdExportHandler w (FilterBothExistsFdExport masterExport agentExport) allDebtInfoMap s2;
           s4 = AgentDiffFdExportHandler w agentDiffExport allDebtInfoMap s3;
           s5 = AgentDiffFdImportHandler w agentDiffImport s4
       in if masterRunningExport \<noteq> [] \<or> masterRunningImport \<noteq> []
          then MasterRunningFdImportHandler w i masterRunningImport (MasterRunningFdExportHandler w i masterRunningExport s5)
          else s5)"

definition NumaBorrowLedger :: "surroundings \<Rightarrow> NodeId \<Rightarrow> NodeMemDebtInfo \<Rightarrow> NodeMemDebtInfo \<Rightarrow> NodeMemDebtInfoMap \<Rightarrow> controller \<Rightarrow> controller" where
  "NumaBorrowLedger w i masterDebtInfo agentDebtInfo allDebtInfoMap s =
     (case FilterRunningNumaExport (TransNumaExportList (masterDebtInfo (Export NUMA))) (TransNumaExportList (agentDebtInfo (Export NUMA))) of
       (masterRunningExport, masterExport, agentExport) \<Rightarrow>
     case FilterNumaDifferentExportSet masterExport agentExport of (masterDiffExport, agentDiffExport) \<Rightarrow>
     case FilterRunningNumaImport (TransNumaImportList (masterDebtInfo (Import NUMA))) (TransNumaImportList (agentDebtInfo (Import NUMA))) of
       (masterRunningImport, masterImport, agentImport) \<Rightarrow>
     case FilterNumaDifferentImportSet masterImport agentImport of (masterDiffImport, agentDiffImport) \<Rightarrow>
       let s1 = MasterDiffNumaExportHandler w masterDiffExport s;
           s2 = MasterDiffNumaImportHandler w masterDiffImport s1;
           s3 = BothNumaExportHandler w (FilterBothExistsNumaExport masterExport agentExport) allDebtInfoMap s2;
           s4 = AgentDiffNumaExportHandler w agentDiffExport allDebtInfoMap s3;
           s5 = AgentDiffNumaImportHandler w agentDiffImport s4
       in if masterRunningExport \<noteq> [] \<or> masterRunningImport \<noteq> []
          then MasterRunningNumaImportHandler w i masterRunningImport (MasterRunningNumaExportHandler w i masterRunningExport s5)
          else s5)"

definition AddrBorrowLedger :: "surroundings \<Rightarrow> NodeId \<Rightarrow> NodeMemDebtInfo \<Rightarrow> NodeMemDebtInfo \<Rightarrow> NodeMemDebtInfoMap \<Rightarrow> controller \<Rightarrow> controller" where
  "AddrBorrowLedger w i masterDebtInfo agentDebtInfo allDebtInfoMap s =
     (case FilterRunningAddrExport (TransAddrExportList (masterDebtInfo (Export ADDR))) (TransAddrExportList (agentDebtInfo (Export ADDR))) of
       (masterRunningExport, masterExport, agentExport) \<Rightarrow>
     case FilterAddrDifferentExportSet masterExport agentExport of (masterDiffExport, agentDiffExport) \<Rightarrow>
     case FilterRunningAddrImport (TransAddrImportList (masterDebtInfo (Import ADDR))) (TransAddrImportList (agentDebtInfo (Import ADDR))) of
       (masterRunningImport, masterImport, agentImport) \<Rightarrow>
     case FilterAddrDifferentImportSet masterImport agentImport of (masterDiffImport, agentDiffImport) \<Rightarrow>
       let s1 = MasterDiffAddrExportHandler w masterDiffExport s;
           s2 = MasterDiffAddrImportHandler w masterDiffImport s1;
           s3 = BothAddrExportHandler w (FilterBothExistsAddrExport masterExport agentExport) allDebtInfoMap s2;
           s4 = AgentDiffAddrExportHandler w agentDiffExport allDebtInfoMap s3;
           s5 = AgentDiffAddrImportHandler w agentDiffImport s4
       in if masterRunningExport \<noteq> [] \<or> masterRunningImport \<noteq> []
          then MasterRunningAddrImportHandler w i masterRunningImport (MasterRunningAddrExportHandler w i masterRunningExport s5)
          else s5)"

definition ShmBorrowLedger :: "surroundings \<Rightarrow> NodeId \<Rightarrow> NodeMemDebtInfo \<Rightarrow> NodeMemDebtInfo \<Rightarrow> controller \<Rightarrow> controller" where
  "ShmBorrowLedger w i masterDebtInfo agentDebtInfo s =
     (case FilterRunningShareExport (TransShareExportList (masterDebtInfo (Export SHM))) (TransShareExportList (agentDebtInfo (Export SHM))) of
       (masterRunningExport, masterExport, agentExport) \<Rightarrow>
     case FilterShareDifferentExportSet masterExport agentExport of (masterDiffExport, agentDiffExport) \<Rightarrow>
     case FilterRunningShareImport (TransShareImportList (masterDebtInfo (Import SHM))) (TransShareImportList (agentDebtInfo (Import SHM))) of
       (masterRunningImport, masterImport, agentImport) \<Rightarrow>
     case FilterShareDifferentImportSet masterImport agentImport of (masterDiffImport, agentDiffImport) \<Rightarrow>
       let s1 = MasterDiffShareExportHandler w masterDiffExport s;
           s2 = MasterDiffShareImportHandler w masterDiffImport s1;
           s3 = AgentDiffShareExportHandler w agentDiffExport s2;
           s4 = AgentDiffShareImportHandler w agentDiffImport s3
       in if masterRunningExport \<noteq> [] \<or> masterRunningImport \<noteq> []
          then MasterRunningShareImportHandler w i masterRunningImport (MasterRunningShareExportHandler w i masterRunningExport s4)
          else s4)"

section \<open>A node in reconciliation\<close>

definition LedgerHandler :: "surroundings \<Rightarrow> UbseNodeInfo \<Rightarrow> controller \<Rightarrow> u32 \<times> controller" where
  \<comment> \<open>the task that notifies the states of remote NUMA nodes runs at once\<close>
  "LedgerHandler w node s =
     (let i = uo_nodeId node;
          s1 = (if uo_clusterState node = UBSE_NODE_INIT then SetInitLedgerDone i False s
                else if uo_clusterState node = UBSE_NODE_WORKING then SetInitLedgerDone i True s else s)
      in if uo_clusterState node \<noteq> UBSE_NODE_SMOOTHING then (0, s1)
         else if \<not> CheckNodeIsMaster w At_handler then (0, s1)
         else let masterDebtInfo = GetMasterCtxLedger i (ct_ledger s1)
           in case CollectAllLedger w masterDebtInfo i s1 of (ret, infos) \<Rightarrow>
             if ret \<noteq> 0 then (ret, s1)
             else case info_at infos i of (agentDebtInfo, infos1) \<Rightarrow>
               let s2 = FdBorrowLedger w i masterDebtInfo agentDebtInfo infos1 s1;
                   s3 = NumaBorrowLedger w i masterDebtInfo agentDebtInfo infos1 s2;
                   s4 = AddrBorrowLedger w i masterDebtInfo agentDebtInfo infos1 s3;
                   s5 = ShmBorrowLedger w i masterDebtInfo agentDebtInfo s4;
                   infos2 = AList.update (su_current w) (GetMasterCtxLedger (su_current w) (ct_ledger s5)) infos1
               in case MasterHandleSingleImportDebt w infos2 i s5 of (ret1, s6) \<Rightarrow>
                 case MasterHandleSingleImportDebtWithExportNode w infos2 i s6 of (ret2, s7) \<Rightarrow>
                   let ret = ret1 OR ret2
                   in if ret \<noteq> 0 then (ret, s7)
                      else if \<not> su_executor w then (ubse_code UBSE_ERROR, s7)
                      else (ret, MasterNotifyRemoteNumaStatus w i infos2 s7))"

end
