(* ===== verification/ReconcileLaws.thy ===== *)
theory ReconcileLaws
  imports Reconcile
begin

text \<open>
  What the operations on objects and the handlers do to the ledger, seen as a map from a node and a key to an object, and
  to the messages that were sent.
\<close>

section \<open>The ledger of a controller as maps\<close>

definition filed :: "obj_type \<Rightarrow> controller \<Rightarrow> NodeId \<times> string \<Rightarrow> debt_obj option" where
  "filed t s = debts (ct_ledger s t)"

definition file_put :: "obj_type \<Rightarrow> NodeId \<times> string \<Rightarrow> debt_obj \<Rightarrow> controller \<Rightarrow> controller" where
  "file_put t p x = on_type t (PutResource (is_export t) (fst p) (snd p) (Some x))"

definition file_del :: "obj_type \<Rightarrow> NodeId \<times> string \<Rightarrow> controller \<Rightarrow> controller" where
  "file_del t p = on_type t (\<lambda>m. snd (RemoveResource (is_export t) (fst p) (snd p) m))"

lemma filed_on: "filed t (on_type u f s) = (if u = t then debts (f (ct_ledger s t)) else filed t s)"
  by (simp add: filed_def on_type_def)

lemma filed_sent [simp]: "filed t (sent_out m s) = filed t s"
  by (simp add: filed_def sent_out_def)

lemma filed_tell [simp]: "filed t (tell_scheduler e x s) = filed t s"
  by (simp add: filed_def tell_scheduler_def)

interpretation books: store "filed t" "file_put t" "file_del t" for t
  by unfold_locales (simp_all add: file_put_def file_del_def filed_def on_type_def debts_simps)

text \<open>A change of one type of object leaves the other types alone.\<close>

definition turn_on :: "obj_type \<Rightarrow> obj_type \<Rightarrow> ((NodeId \<times> string) \<times> debt_obj option) option \<Rightarrow>
    ((NodeId \<times> string) \<times> debt_obj option) option" where
  "turn_on u t ch = (if u = t then ch else None)"

definition import_change :: "BorrowedType \<Rightarrow> debt_obj \<Rightarrow> (NodeId \<times> string) \<times> debt_obj option" where
  "import_change k x = ((import_node k x, obj_name x), if mo_state x = UBSE_MEM_IMPORT_DESTROYED then None else Some x)"

definition export_change :: "BorrowedType \<Rightarrow> debt_obj \<Rightarrow> ((NodeId \<times> string) \<times> debt_obj option) option" where
  "export_change k x = map_option (\<lambda>i. ((i, export_key k x), if mo_state x = UBSE_MEM_EXPORT_DESTROYED then None else Some x))
     (export_home k x)"

definition delete_change :: "BorrowedType \<Rightarrow> debt_obj \<Rightarrow> ((NodeId \<times> string) \<times> debt_obj option) option" where
  "delete_change k x = map_option (\<lambda>i. ((i, export_key k x), Some (dying x))) (export_home k x)"

abbreviation changed :: "obj_type \<Rightarrow> ((NodeId \<times> string) \<times> debt_obj option) option \<Rightarrow> controller \<Rightarrow> NodeId \<times> string \<Rightarrow> debt_obj option" where
  "changed t ch s \<equiv> (case ch of None \<Rightarrow> filed t s | Some c \<Rightarrow> filed t (books.change t c s))"

lemma changed_upd: "changed t ch s = (case ch of None \<Rightarrow> filed t s | Some c \<Rightarrow> (filed t s)(fst c := snd c))"
  by (simp add: books.look_change split: option.split)

lemma dying_fields [simp]:
  "export_home k (dying x) = export_home k x" "export_key k (dying x) = export_key k x" "obj_name (dying x) = obj_name x"
  "first_export (dying x) = first_export x" "mo_state (dying x) = UBSE_MEM_EXPORT_DESTROYING"
  "(dying x)\<lparr>mo_state := UBSE_MEM_EXPORT_DESTROYING\<rparr> = dying x"
  by (simp_all add: dying_def export_home_def export_key_def first_export_def)

lemma filed_AddImport: "filed t (AddImport k e x s) = changed t (turn_on (Import k) t (Some (import_change k x))) s"
  by (auto simp: changed_upd AddImport_def ImportUpdateState_def EraseImport_def filed_on turn_on_def import_change_def debts_simps
      filed_def[symmetric])

lemma filed_AddExport: "filed t (AddExport k e x s) = changed t (turn_on (Export k) t (export_change k x)) s"
  by (auto simp: changed_upd AddExport_def ExportUpdateState_def EraseExport_def filed_on turn_on_def export_change_def debts_simps
      filed_def[symmetric] split: option.splits)

lemma filed_DeleteExport: "filed t (DeleteExport k x s) = changed t (turn_on (Export k) t (delete_change k x)) s"
  by (auto simp: changed_upd DeleteExport_def ExportUpdateState_def filed_on turn_on_def delete_change_def debts_simps
      filed_def[symmetric] split: option.splits)

lemmas filed_ops = filed_AddImport filed_AddExport filed_DeleteExport

section \<open>What the handlers leave alone\<close>

lemma fold_same: "(\<And>x s. x \<in> set xs \<Longrightarrow> P (f x s) = P s) \<Longrightarrow> P (fold f xs s) = P s"
  by (induction xs arbitrary: s) simp_all

lemma other_type: "u \<noteq> t \<Longrightarrow> changed t (turn_on u t ch) s = filed t s"
  by (simp add: turn_on_def)

lemma frame_ops [simp]:
  "t \<noteq> Import k \<Longrightarrow> filed t (AddImport k e x s) = filed t s"
  "t \<noteq> Export k \<Longrightarrow> filed t (AddExport k e x s) = filed t s"
  "t \<noteq> Export k \<Longrightarrow> filed t (DeleteExport k x s) = filed t s"
  by (simp_all add: filed_ops other_type)

lemma frame_diff [simp]:
  "t \<noteq> Export k \<Longrightarrow> filed t (MasterDiffExportHandler k w xs s) = filed t s"
  "t \<noteq> Import k \<Longrightarrow> filed t (MasterDiffImportHandler k w xs s) = filed t s"
  "t \<noteq> Import k \<Longrightarrow> filed t (AgentDiffImportHandler k w xs s) = filed t s"
  "t \<noteq> Export SHM \<Longrightarrow> filed t (AgentDiffShareExportHandler w xs s) = filed t s"
  "t \<noteq> Import SHM \<Longrightarrow> filed t (AgentDiffShareImportHandler w xs s) = filed t s"
  unfolding MasterDiffExportHandler_def MasterDiffImportHandler_def AgentDiffImportHandler_def AgentDiffShareExportHandler_def
    AgentDiffShareImportHandler_def
  by (rule fold_same; simp)+

lemma frame_import_checks [simp]:
  "t \<noteq> Export k \<Longrightarrow> filed t (HandleLocalImport k x i dm s) = filed t s"
  "t \<noteq> Export k \<Longrightarrow> filed t (HandleRemoteImport k w x i dm infos s) = filed t s"
  "t \<noteq> Export k \<Longrightarrow> filed t (HandleAgentDiffExportWithRemoteImportNode k w x i infos s) = filed t s"
  by (auto simp: HandleLocalImport_def HandleRemoteImport_def HandleAgentDiffExportWithRemoteImportNode_def split: option.split prod.split)

lemma frame_both [simp]: "t \<noteq> Export k \<Longrightarrow> filed t (BothExportHandler k w xs infos s) = filed t s"
  unfolding BothExportHandler_def by (rule fold_same) (simp add: both_turn_def split: option.split)

lemma frame_agent_loop: "t \<noteq> Export k \<Longrightarrow> filed t (agent_loop k w dm infos xs s) = filed t s"
  by (induction xs arbitrary: s) (auto simp: Let_def split: option.split)

lemma frame_agent [simp]: "t \<noteq> Export k \<Longrightarrow> filed t (AgentDiffExportHandler k w xs infos s) = filed t s"
  by (simp add: AgentDiffExportHandler_def frame_agent_loop)

lemma frame_excess: "t \<noteq> Import k \<Longrightarrow> filed t (snd (IsImportRunningObjExcess k w i x s)) = filed t s"
  by (simp add: IsImportRunningObjExcess_def IsImportRunningLastExportSuccess_def filed_on split: option.split)

lemma frame_running_export: "t \<noteq> Export k \<Longrightarrow> filed t (running_export_turn k w i x s) = filed t s"
  by (simp add: running_export_turn_def case_prod_unfold split: option.split)

lemma frame_running_import: "t \<noteq> Import k \<Longrightarrow> filed t (running_import_turn k w i x s) = filed t s"
  using frame_excess [of t k w i x s] by (auto simp: running_import_turn_def case_prod_unfold split: option.split)

lemmas frame_running_turns = frame_running_export frame_running_import

lemma frame_running [simp]:
  "t \<noteq> Export k \<Longrightarrow> filed t (MasterRunningExportHandler k w i xs s) = filed t s"
  "t \<noteq> Import k \<Longrightarrow> filed t (MasterRunningImportHandler k w i xs s) = filed t s"
  unfolding MasterRunningExportHandler_def MasterRunningImportHandler_def
  by (rule fold_same; simp add: frame_running_turns)+

section \<open>The reconciliation of one kind\<close>

text \<open>The four functions for the kinds, and their common form.\<close>

definition BorrowLedger :: "BorrowedType \<Rightarrow> surroundings \<Rightarrow> NodeId \<Rightarrow> NodeMemDebtInfo \<Rightarrow> NodeMemDebtInfo \<Rightarrow> NodeMemDebtInfoMap \<Rightarrow>
    controller \<Rightarrow> controller" where
  "BorrowLedger k w i m a infos = (case k of
       FD \<Rightarrow> FdBorrowLedger w i m a infos
     | NUMA \<Rightarrow> NumaBorrowLedger w i m a infos
     | ADDR \<Rightarrow> AddrBorrowLedger w i m a infos
     | SHM \<Rightarrow> ShmBorrowLedger w i m a)"

definition objs_of :: "NodeMemDebtInfo \<Rightarrow> obj_type \<Rightarrow> debt_obj list" where
  "objs_of info t = map snd (info t)"

definition is_running :: "obj_type \<Rightarrow> debt_obj \<Rightarrow> bool" where
  "is_running t = (if is_export t then running_export else running_import)"

definition running_objs :: "NodeMemDebtInfo \<Rightarrow> obj_type \<Rightarrow> debt_obj list" where
  "running_objs m t = filter (is_running t) (objs_of m t)"

definition settled :: "NodeMemDebtInfo \<Rightarrow> NodeMemDebtInfo \<Rightarrow> obj_type \<Rightarrow> debt_obj list" where
  \<comment> \<open>the objects of the second whose name is not that of a running object of the first\<close>
  "settled m a t = find_diff (objs_of a t) (obj_names (running_objs m t))"

definition only_master :: "NodeMemDebtInfo \<Rightarrow> NodeMemDebtInfo \<Rightarrow> obj_type \<Rightarrow> debt_obj list" where
  "only_master m a t = find_diff (settled m m t) (obj_names (settled m a t))"

definition only_agent :: "NodeMemDebtInfo \<Rightarrow> NodeMemDebtInfo \<Rightarrow> obj_type \<Rightarrow> debt_obj list" where
  "only_agent m a t = find_diff (settled m a t) (obj_names (settled m m t))"

definition on_both :: "NodeMemDebtInfo \<Rightarrow> NodeMemDebtInfo \<Rightarrow> obj_type \<Rightarrow> debt_obj list" where
  "on_both m a t = FilterBothExists (settled m m t) (settled m a t)"

definition BothStep :: "BorrowedType \<Rightarrow> surroundings \<Rightarrow> debt_obj list \<Rightarrow> NodeMemDebtInfoMap \<Rightarrow> controller \<Rightarrow> controller" where
  "BothStep k w xs infos s = (if k = SHM then s else BothExportHandler k w xs infos s)"

definition AgentExportStep :: "BorrowedType \<Rightarrow> surroundings \<Rightarrow> debt_obj list \<Rightarrow> NodeMemDebtInfoMap \<Rightarrow> controller \<Rightarrow> controller" where
  "AgentExportStep k w xs infos s = (if k = SHM then AgentDiffShareExportHandler w xs s else AgentDiffExportHandler k w xs infos s)"

definition AgentImportStep :: "BorrowedType \<Rightarrow> surroundings \<Rightarrow> debt_obj list \<Rightarrow> controller \<Rightarrow> controller" where
  "AgentImportStep k w xs s = (if k = SHM then AgentDiffShareImportHandler w xs s else AgentDiffImportHandler k w xs s)"

lemma running_Nil [simp]:
  "MasterRunningExportHandler k w i [] s = s" "MasterRunningImportHandler k w i [] s = s"
  by (simp_all add: MasterRunningExportHandler_def MasterRunningImportHandler_def)

lemma BorrowLedger_steps:
  "BorrowLedger k w i m a infos s =
     MasterRunningImportHandler k w i (running_objs m (Import k))
       (MasterRunningExportHandler k w i (running_objs m (Export k))
         (AgentImportStep k w (only_agent m a (Import k))
           (AgentExportStep k w (only_agent m a (Export k)) infos
             (BothStep k w (on_both m a (Export k)) infos
               (MasterDiffImportHandler k w (only_master m a (Import k))
                 (MasterDiffExportHandler k w (only_master m a (Export k)) s))))))"
  by (cases k)
    (simp_all add: BorrowLedger_def FdBorrowLedger_def NumaBorrowLedger_def AddrBorrowLedger_def ShmBorrowLedger_def filter_instances
      handler_instances FilterRunning_def FilterDifferent_def TransList_def objs_of_def running_objs_def settled_def only_master_def
      only_agent_def on_both_def is_running_def BothStep_def AgentExportStep_def AgentImportStep_def Let_def)

lemma frame_steps [simp]:
  "t \<noteq> Export k \<Longrightarrow> filed t (BothStep k w xs infos s) = filed t s"
  "t \<noteq> Export k \<Longrightarrow> filed t (AgentExportStep k w xs infos s) = filed t s"
  "t \<noteq> Import k \<Longrightarrow> filed t (AgentImportStep k w xs s) = filed t s"
  by (auto simp: BothStep_def AgentExportStep_def AgentImportStep_def)

lemma frame_BorrowLedger: "t \<noteq> Import k \<Longrightarrow> t \<noteq> Export k \<Longrightarrow> filed t (BorrowLedger k w i m a infos s) = filed t s"
  by (simp add: BorrowLedger_steps)

end
