(* ===== verification/SnapshotLaws.thy ===== *)
theory SnapshotLaws
  imports ReconcileLaws
begin

text \<open>
  Snapshots of the ledger: what the merge of the eight types yields, and what the steps of \<open>LedgerHandler\<close> around the
  four reconciliations leave alone.
\<close>

definition nodes_distinct :: "ledger \<Rightarrow> bool" where
  \<comment> \<open>a node has one entry in the table of a type, as in any \<open>unordered_map\<close>\<close>
  "nodes_distinct l \<longleftrightarrow> (\<forall>t. distinct (map fst (nodeMap (l t))))"

lemma merge_fold:
  assumes "distinct (map fst es)"
  shows "map_of (fold (\<lambda>(i, nm) res. AList.update i ((case map_of res i of None \<Rightarrow> no_debt | Some info \<Rightarrow> info)(t := g nm)) res) es res) i =
    (case map_of es i of None \<Rightarrow> map_of res i | Some nm \<Rightarrow> Some ((case map_of res i of None \<Rightarrow> no_debt | Some info \<Rightarrow> info)(t := g nm)))"
  using assms
proof (induction es arbitrary: res)
  case Nil then show ?case by simp
next
  case (Cons e es)
  obtain j nm where e: "e = (j, nm)" by (cases e)
  have "map_of es j = None" using Cons.prems by (simp add: e map_of_eq_None_iff)
  then show ?case using Cons by (auto simp: e update_conv' split: option.split)
qed

lemma merge_types:
  assumes "nodes_distinct l" and "distinct ts"
  shows "map_of (fold (merge_type hide l) ts []) i =
    (if \<exists>t \<in> set ts. FindNodeMap i (l t) \<noteq> None then Some (\<lambda>t. if t \<in> set ts then GetNodeMemDebtInfo hide i l t else []) else None)"
  using assms(2)
proof (induction ts rule: rev_induct)
  case Nil then show ?case by simp
next
  case (snoc t ts)
  let ?g = "\<lambda>nm. if hide then FilterDestroyedResources t nm else nm"
  let ?I = "\<lambda>ts t. if t \<in> set ts then GetNodeMemDebtInfo hide i l t else []"
  have step: "map_of (fold (merge_type hide l) (ts @ [t]) []) i = (case FindNodeMap i (l t) of
      None \<Rightarrow> map_of (fold (merge_type hide l) ts []) i
    | Some nm \<Rightarrow> Some ((case map_of (fold (merge_type hide l) ts []) i of None \<Rightarrow> no_debt | Some info \<Rightarrow> info)(t := ?g nm)))"
    using assms(1) merge_fold [of "nodeMap (l t)" t ?g] by (simp add: merge_type_def nodes_distinct_def FindNodeMap_def)
  have IH: "map_of (fold (merge_type hide l) ts []) i = (if \<exists>t \<in> set ts. FindNodeMap i (l t) \<noteq> None then Some (?I ts) else None)"
    using snoc by simp
  have none: "FindNodeMap i (l t) = None \<Longrightarrow> ?I (ts @ [t]) = ?I ts"
    by (auto simp: GetNodeMemDebtInfo_def)
  have some: "FindNodeMap i (l t) = Some nm \<Longrightarrow> ?I (ts @ [t]) = (?I ts)(t := ?g nm)" for nm
    by (auto simp: GetNodeMemDebtInfo_def)
  have empty: "\<forall>t \<in> set ts. FindNodeMap i (l t) = None \<Longrightarrow> ?I ts = no_debt"
    by (auto simp: GetNodeMemDebtInfo_def no_debt_def)
  show ?case
  proof (cases "FindNodeMap i (l t)")
    case None
    then show ?thesis unfolding step IH using none by auto
  next
    case (Some nm)
    show ?thesis
    proof (cases "\<exists>t \<in> set ts. FindNodeMap i (l t) \<noteq> None")
      case True then show ?thesis unfolding step IH some [OF Some] using Some by auto
    next
      case False
      then have "?I ts = no_debt" using empty by auto
      then show ?thesis unfolding step IH some [OF Some] using Some False by auto
    qed
  qed
qed

lemma all_types: "set all_types = UNIV"
proof -
  have "t \<in> set all_types" for t
  proof (cases t)
    case (Import k) then show ?thesis by (cases k) (simp_all add: all_types_def)
  next
    case (Export k) then show ?thesis by (cases k) (simp_all add: all_types_def)
  qed
  then show ?thesis by blast
qed

lemma snapshot_at:
  assumes "nodes_distinct l"
  shows "map_of (GetAllDebtInfo hide l) i = (if \<exists>t. FindNodeMap i (l t) \<noteq> None then Some (GetNodeMemDebtInfo hide i l) else None)"
proof -
  have "distinct all_types" by (simp add: all_types_def)
  from merge_types [OF assms this, of hide i] show ?thesis by (simp add: GetAllDebtInfo_def all_types)
qed

lemma master_ledger: "nodes_distinct l \<Longrightarrow> GetMasterCtxLedger i l = GetNodeMemDebtInfo False i l"
  by (auto simp: GetMasterCtxLedger_def GetNodeMemDebtInfoMap_def snapshot_at GetNodeMemDebtInfo_def no_debt_def fun_eq_iff)

lemma master_ledger_filed: "nodes_distinct (ct_ledger s) \<Longrightarrow> map_of (GetMasterCtxLedger i (ct_ledger s) t) n = filed t s (i, n)"
  by (simp add: master_ledger GetNodeMemDebtInfo_def filed_def debts_def GetResource_def NodeGet_def split: option.split)

lemma import_in_filed: "nodes_distinct (ct_ledger s) \<Longrightarrow> import_in (GetNodeMemDebtInfoMap (ct_ledger s)) k i n = filed (Import k) s (i, n)"
  by (auto simp: import_in_def GetNodeMemDebtInfoMap_def snapshot_at GetNodeMemDebtInfo_def filed_def debts_def GetResource_def
      NodeGet_def split: option.split)

section \<open>The steps around\<close>

text \<open>A part of the state that no message changes stays as it is in the steps that only send.\<close>

locale unsent =
  fixes part :: "controller \<Rightarrow> 'p"
  assumes part_sent [simp]: "part (sent_out m s) = part s"
begin

lemma invalidate: "part (snd (invalidate_loop w i name k to n s)) = part s"
  by (induction n arbitrary: s) (simp_all add: Let_def)

lemma helper: "part (snd (MasterHandleSingleDebtHelper k w x exports name i s)) = part s"
  by (simp add: MasterHandleSingleDebtHelper_def invalidate Let_def split: list.split)

lemma report: "part (snd (ReportSingleImportDebt w i h s)) = part s"
  by (simp add: ReportSingleImportDebt_def)

lemma process: "part (snd (snd (process_debt w infos target k nx st))) = part (snd (snd st))"
proof -
  obtain name x where nx: "nx = (name, x)" by (cases nx)
  obtain ret h s where st: "st = (ret, h, s)" by (cases st)
  show ?thesis
    by (simp add: process_debt_def nx st Let_def case_prod_unfold helper split: option.split)
qed

lemma single: "part (snd (MasterHandleSingleImportDebt w infos target s)) = part s"
proof -
  let ?P = "\<lambda>st :: single_state. part (snd (snd st))"
  have "?P (fold (\<lambda>(i, info) st. fold (\<lambda>k. fold (process_debt w infos target k) (info (Import k))) [FD, NUMA, ADDR, SHM] st) infos st) = ?P st" for st
    by (rule fold_same [where P = ?P]) (simp add: case_prod_unfold fold_same [where P = ?P] process)
  from this [of "(0, no_handles, s)"] show ?thesis
    by (simp add: MasterHandleSingleImportDebt_def case_prod_unfold report)
qed

lemma single_export: "part (snd (MasterHandleSingleImportDebtWithExportNode w infos i s)) = part s"
  unfolding MasterHandleSingleImportDebtWithExportNode_def
  by (subst fold_same [where P = "\<lambda>st. part (snd st)"]) (simp_all add: case_prod_unfold Let_def report)

lemma notify: "part (MasterNotifyRemoteNumaStatus w i infos s) = part s"
  by (simp add: MasterNotifyRemoteNumaStatus_def case_prod_unfold Let_def split: option.split)

end

interpretation of_ledger: unsent ct_ledger
  by unfold_locales (simp add: sent_out_def)
interpretation of_scheduler: unsent ct_scheduler
  by unfold_locales (simp add: sent_out_def)

lemma ledger_done [simp]: "ct_ledger (SetInitLedgerDone i b s) = ct_ledger s" "ct_scheduler (SetInitLedgerDone i b s) = ct_scheduler s"
  by (simp_all add: SetInitLedgerDone_def)

definition reconcile_all :: "surroundings \<Rightarrow> NodeId \<Rightarrow> NodeMemDebtInfo \<Rightarrow> NodeMemDebtInfo \<Rightarrow> NodeMemDebtInfoMap \<Rightarrow> controller \<Rightarrow> controller" where
  \<comment> \<open>the four reconciliations, in order\<close>
  "reconcile_all w i m a infos s = BorrowLedger SHM w i m a infos (BorrowLedger ADDR w i m a infos
     (BorrowLedger NUMA w i m a infos (BorrowLedger FD w i m a infos s)))"

lemma LedgerHandler_ledger:
  assumes "uo_clusterState node = UBSE_NODE_SMOOTHING" and "su_leader w At_handler"
    and "CollectAllLedger w (GetMasterCtxLedger (uo_nodeId node) (ct_ledger s)) (uo_nodeId node) s = (0, infos)"
  shows "ct_ledger (snd (LedgerHandler w node s)) =
    ct_ledger (reconcile_all w (uo_nodeId node) (GetMasterCtxLedger (uo_nodeId node) (ct_ledger s)) (fst (info_at infos (uo_nodeId node)))
      (snd (info_at infos (uo_nodeId node))) s)"
  using assms
  by (simp add: LedgerHandler_def CheckNodeIsMaster_def Let_def case_prod_unfold of_ledger.notify of_ledger.single of_ledger.single_export
      reconcile_all_def BorrowLedger_def)

end
