(* ===== verification/ReconcileProps.thy ===== *)
theory ReconcileProps
  imports SnapshotLaws
begin

text \<open>What a reconciliation does to the tables of the master.\<close>

section \<open>Imports\<close>

lemma import_keys [simp]:
  "import_node k (x\<lparr>mo_state := st\<rparr>) = import_node k x" "import_node k (set_status x a) = import_node k x"
  "obj_name (set_status x a) = obj_name x" "import_node SHM (relabel x) = import_node SHM x" "obj_name (relabel x) = obj_name x"
  "mo_state (relabel x) = mo_state x"
  by (simp_all add: import_node_def set_status_def relabel_def split: mem_req.split)

definition in_place :: "BorrowedType \<Rightarrow> NodeId \<Rightarrow> (string \<times> debt_obj) list \<Rightarrow> bool" where
  \<comment> \<open>a table of imported objects of a node: each object under its name, and of that node\<close>
  "in_place k i tab \<longleftrightarrow> distinct (map fst tab) \<and> (\<forall>(n, x) \<in> set tab. obj_name x = n \<and> import_node k x = i)"

lemma in_place_iff: "in_place k i tab \<Longrightarrow> x \<in> snd ` set tab \<longleftrightarrow> map_of tab (obj_name x) = Some x"
  by (auto simp: in_place_def image_iff Bex_def dest: map_of_SomeD intro!: map_of_is_SomeI)

lemma in_place_name: "in_place k i tab \<Longrightarrow> map_of tab n = Some x \<Longrightarrow> obj_name x = n \<and> import_node k x = i"
  by (auto simp: in_place_def dest!: map_of_SomeD)

definition adopted :: "BorrowedType \<Rightarrow> debt_obj \<Rightarrow> debt_obj option" where
  \<comment> \<open>the import the master takes over from the agent\<close>
  "adopted k x = (if k = SHM then if mo_state x = UBSE_MEM_IMPORT_DESTROYED then None else Some (relabel x)
     else if import_gone x then None else Some x)"

fun reconciled_import :: "BorrowedType \<Rightarrow> debt_obj option \<Rightarrow> debt_obj option \<Rightarrow> debt_obj option" where
  \<comment> \<open>what the master has for a name afterwards, by what it had and what the agent reports\<close>
  "reconciled_import k (Some x) (Some y) = Some x"
| "reconciled_import k (Some x) None = (if import_gone x then Some x else None)"
| "reconciled_import k None (Some y) = adopted k y"
| "reconciled_import k None None = None"

lemma diff_import_turn:
  "filed (Import k) (if import_gone x then s else AddImport k e (x\<lparr>mo_state := UBSE_MEM_IMPORT_DESTROYED\<rparr>) s) =
     changed (Import k) (if import_gone x then None else Some ((import_node k x, obj_name x), None)) s"
  by (simp add: filed_AddImport turn_on_def import_change_def)

definition adopt_change :: "BorrowedType \<Rightarrow> debt_obj \<Rightarrow> ((NodeId \<times> string) \<times> debt_obj option) option" where
  "adopt_change k x = map_option (\<lambda>y. ((import_node k x, obj_name x), Some y)) (adopted k x)"

definition adopt_turn :: "BorrowedType \<Rightarrow> surroundings \<Rightarrow> debt_obj \<Rightarrow> controller \<Rightarrow> controller" where
  "adopt_turn k w x s = (case adopted k x of None \<Rightarrow> s | Some y \<Rightarrow> AddImport k (su_scheduler w) y s)"

lemma AgentImportStep_turns: "AgentImportStep k w xs s = fold (adopt_turn k w) xs s"
proof -
  have "adopt_turn SHM w = (\<lambda>x s. if mo_state x = UBSE_MEM_IMPORT_DESTROYED then s else AddImport SHM (su_scheduler w) (relabel x) s)"
    by (simp add: fun_eq_iff adopt_turn_def adopted_def)
  moreover have "adopt_turn k w = (\<lambda>x s. if import_gone x then s else AddImport k (su_scheduler w) x s)" if "k \<noteq> SHM"
    using that by (simp add: fun_eq_iff adopt_turn_def adopted_def)
  ultimately show ?thesis by (simp add: AgentImportStep_def AgentDiffShareImportHandler_def AgentDiffImportHandler_def)
qed

lemma adopt_import_turn: "filed (Import k) (adopt_turn k w x s) = changed (Import k) (adopt_change k x) s"
  by (auto simp: adopt_turn_def adopt_change_def adopted_def filed_AddImport turn_on_def import_change_def import_gone_def split: if_splits)

lemma running_import_at:
  "p \<noteq> (import_node k x, obj_name x) \<Longrightarrow> filed (Import k) (running_import_turn k w i x s) p = filed (Import k) s p"
proof -
  assume p: "p \<noteq> (import_node k x, obj_name x)"
  have e: "filed (Import k) (snd (IsImportRunningObjExcess k w i x s)) p = filed (Import k) s p" if "k \<noteq> SHM"
    using p that by (auto simp: IsImportRunningObjExcess_def IsImportRunningLastExportSuccess_def filed_on debts_simps
        filed_def [symmetric] import_node_def split: option.split)
  have a: "filed (Import k) (AddImport k f y s') p = filed (Import k) s' p" if "import_node k y = import_node k x" "obj_name y = obj_name x" for y f s'
    using p that by (simp add: filed_AddImport books.look_change turn_on_def import_change_def)
  show ?thesis using e a by (auto simp: running_import_turn_def case_prod_unfold split: option.split)
qed

lemma running_imports_at:
  "(\<And>x. x \<in> set xs \<Longrightarrow> p \<noteq> (import_node k x, obj_name x)) \<Longrightarrow>
     filed (Import k) (MasterRunningImportHandler k w i xs s) p = filed (Import k) s p"
  unfolding MasterRunningImportHandler_def by (rule fold_same) (simp add: running_import_at)

lemma import_sets:
  assumes "in_place k i (m (Import k))" and "in_place k i (a (Import k))"
  shows "x \<in> set (running_objs m (Import k)) \<longleftrightarrow> map_of (m (Import k)) (obj_name x) = Some x \<and> running_import x"
    and "x \<in> set (only_master m a (Import k)) \<longleftrightarrow> map_of (m (Import k)) (obj_name x) = Some x \<and> \<not> running_import x \<and>
      map_of (a (Import k)) (obj_name x) = None"
    and "x \<in> set (only_agent m a (Import k)) \<longleftrightarrow> map_of (a (Import k)) (obj_name x) = Some x \<and> map_of (m (Import k)) (obj_name x) = None"
proof -
  let ?M = "map_of (m (Import k))" and ?A = "map_of (a (Import k))"
  have m: "y \<in> set (objs_of m (Import k)) \<longleftrightarrow> ?M (obj_name y) = Some y" for y
    using in_place_iff [OF assms(1)] by (simp add: objs_of_def)
  have a: "y \<in> set (objs_of a (Import k)) \<longleftrightarrow> ?A (obj_name y) = Some y" for y
    using in_place_iff [OF assms(2)] by (simp add: objs_of_def)
  have mn: "?M n = Some y \<Longrightarrow> obj_name y = n" and an: "?A n = Some y \<Longrightarrow> obj_name y = n" for n y
    using in_place_name [OF assms(1)] in_place_name [OF assms(2)] by blast+
  show r: "x \<in> set (running_objs m (Import k)) \<longleftrightarrow> ?M (obj_name x) = Some x \<and> running_import x" for x
    using m by (auto simp: running_objs_def is_running_def)
  have rn: "n \<in> obj_names (running_objs m (Import k)) \<longleftrightarrow> (\<exists>y. ?M n = Some y \<and> running_import y)" for n
    using r mn by (auto simp: in_obj_names)
  have sm: "y \<in> set (settled m m (Import k)) \<longleftrightarrow> ?M (obj_name y) = Some y \<and> \<not> running_import y" for y
    using m rn by (auto simp: settled_def)
  have sa: "y \<in> set (settled m a (Import k)) \<longleftrightarrow> ?A (obj_name y) = Some y \<and> \<not> (\<exists>z. ?M (obj_name y) = Some z \<and> running_import z)" for y
    using a rn by (auto simp: settled_def)
  have na: "n \<in> obj_names (settled m a (Import k)) \<longleftrightarrow> ?A n \<noteq> None \<and> \<not> (\<exists>z. ?M n = Some z \<and> running_import z)" for n
    unfolding in_obj_names Bex_def sa using an [of n] by fastforce
  have nm: "n \<in> obj_names (settled m m (Import k)) \<longleftrightarrow> (\<exists>z. ?M n = Some z \<and> \<not> running_import z)" for n
    unfolding in_obj_names Bex_def sm using mn [of n] by fastforce
  show "x \<in> set (only_master m a (Import k)) \<longleftrightarrow> ?M (obj_name x) = Some x \<and> \<not> running_import x \<and> ?A (obj_name x) = None"
    unfolding only_master_def in_find_diff sm na by auto
  show "x \<in> set (only_agent m a (Import k)) \<longleftrightarrow> ?A (obj_name x) = Some x \<and> ?M (obj_name x) = None"
    unfolding only_agent_def in_find_diff sa nm by auto
qed

lemma diff_import_value:
  assumes "x \<in> set xs" and "\<not> import_gone x"
  shows "filed (Import k) (MasterDiffImportHandler k w xs s) (import_node k x, obj_name x) = None"
  unfolding MasterDiffImportHandler_def
  by (rule books.loop_value [OF diff_import_turn assms(1)]) (use assms(2) in \<open>simp_all split: if_splits\<close>)

lemma diff_import_frame:
  assumes "\<And>x. x \<in> set xs \<Longrightarrow> \<not> import_gone x \<Longrightarrow> p \<noteq> (import_node k x, obj_name x)"
  shows "filed (Import k) (MasterDiffImportHandler k w xs s) p = filed (Import k) s p"
  unfolding MasterDiffImportHandler_def
  by (rule books.loop_frame [OF diff_import_turn]) (use assms in \<open>auto split: if_splits\<close>)

lemma adopt_value:
  assumes "x \<in> set xs" and "adopted k x = Some y" and "inj_on obj_name (set xs)"
  shows "filed (Import k) (AgentImportStep k w xs s) (import_node k x, obj_name x) = Some y"
proof -
  have "u = Some y" if z: "z \<in> set xs" "adopt_change k z = Some ((import_node k x, obj_name x), u)" for z u
  proof -
    have "obj_name z = obj_name x" using z(2) by (auto simp: adopt_change_def)
    then have "z = x" using assms(1,3) z(1) by (simp add: inj_on_def)
    then show ?thesis using z(2) assms(2) by (simp add: adopt_change_def)
  qed
  moreover have "adopt_change k x = Some ((import_node k x, obj_name x), Some y)" using assms(2) by (simp add: adopt_change_def)
  ultimately show ?thesis unfolding AgentImportStep_turns by (intro books.loop_value [OF adopt_import_turn assms(1)])
qed

lemma adopt_frame:
  assumes "\<And>x. x \<in> set xs \<Longrightarrow> adopted k x \<noteq> None \<Longrightarrow> p \<noteq> (import_node k x, obj_name x)"
  shows "filed (Import k) (AgentImportStep k w xs s) p = filed (Import k) s p"
  unfolding AgentImportStep_turns
  by (rule books.loop_frame [OF adopt_import_turn]) (use assms in \<open>auto simp: adopt_change_def\<close>)

lemma imports_after:
  \<comment> \<open>the import table of the reconciled node, at a name of no running object of the master\<close>
  assumes m: "in_place k i (m (Import k))" and a: "in_place k i (a (Import k))"
    and s: "filed (Import k) s (i, n) = map_of (m (Import k)) n"
    and r: "\<And>x. map_of (m (Import k)) n = Some x \<Longrightarrow> \<not> running_import x"
  shows "filed (Import k) (BorrowLedger k w i m a infos s) (i, n) = reconciled_import k (map_of (m (Import k)) n) (map_of (a (Import k)) n)"
proof -
  let ?M = "map_of (m (Import k))" and ?A = "map_of (a (Import k))"
  note sets = import_sets [of k i m a, OF m a]
  define s1 where "s1 = MasterDiffImportHandler k w (only_master m a (Import k)) (MasterDiffExportHandler k w (only_master m a (Export k)) s)"
  define s2 where "s2 = AgentExportStep k w (only_agent m a (Export k)) infos (BothStep k w (on_both m a (Export k)) infos s1)"
  define s3 where "s3 = AgentImportStep k w (only_agent m a (Import k)) s2"
  have mn: "?M n = Some x \<Longrightarrow> obj_name x = n \<and> import_node k x = i" and an: "?A n = Some x \<Longrightarrow> obj_name x = n \<and> import_node k x = i" for x
    using in_place_name [OF m] in_place_name [OF a] by blast+
  have run: "filed (Import k) (BorrowLedger k w i m a infos s) (i, n) = filed (Import k) s3 (i, n)"
    unfolding BorrowLedger_steps s1_def [symmetric] s2_def [symmetric] s3_def [symmetric]
    by (subst running_imports_at) (use r sets(1) in auto)
  have inj: "inj_on obj_name (set (only_agent m a (Import k)))"
    by (rule inj_onI) (metis option.inject sets(3))
  have s2: "filed (Import k) s2 p = filed (Import k) s1 p" for p by (simp add: s2_def)
  have s1n: "filed (Import k) s1 (i, n) = (case ?M n of Some x \<Rightarrow> if ?A n = None \<and> \<not> import_gone x then None else Some x | None \<Rightarrow> None)"
  proof (cases "\<exists>x. ?M n = Some x \<and> ?A n = None \<and> \<not> import_gone x")
    case True
    then obtain x where x: "?M n = Some x" "?A n = None" "\<not> import_gone x" by blast
    then have "x \<in> set (only_master m a (Import k))" using sets(2) [of x] mn r by auto
    then show ?thesis using diff_import_value [of x _ k w] x mn by (simp add: s1_def)
  next
    case False
    have "filed (Import k) s1 (i, n) = ?M n"
      unfolding s1_def by (subst diff_import_frame) (use False sets(2) s in auto)
    then show ?thesis using False by (auto split: option.split)
  qed
  show ?thesis
  proof (cases "\<exists>y. ?A n = Some y \<and> ?M n = None \<and> adopted k y \<noteq> None")
    case True
    then obtain y z where y: "?A n = Some y" "?M n = None" "adopted k y = Some z" by blast
    then have "y \<in> set (only_agent m a (Import k))" using sets(3) [of y] an by auto
    then show ?thesis using adopt_value [OF _ y(3) inj, of w s2] y an by (simp add: run s3_def)
  next
    case False
    have "filed (Import k) s3 (i, n) = filed (Import k) s1 (i, n)"
      unfolding s3_def by (subst adopt_frame) (use False sets(3) s2 in auto)
    then show ?thesis using False by (cases "?M n"; cases "?A n") (simp_all add: run s1n)
  qed
qed

lemma imports_elsewhere:
  assumes m: "in_place k i (m (Import k))" and a: "in_place k i (a (Import k))" and "j \<noteq> i"
  shows "filed (Import k) (BorrowLedger k w i m a infos s) (j, n) = filed (Import k) s (j, n)"
proof -
  have mi: "x \<in> snd ` set (m (Import k)) \<Longrightarrow> import_node k x = i" and ai: "x \<in> snd ` set (a (Import k)) \<Longrightarrow> import_node k x = i" for x
    using m a by (auto simp: in_place_def)
  have sub: "set (running_objs m (Import k)) \<subseteq> snd ` set (m (Import k))" "set (only_master m a (Import k)) \<subseteq> snd ` set (m (Import k))"
    "set (only_agent m a (Import k)) \<subseteq> snd ` set (a (Import k))"
    by (auto simp: running_objs_def only_master_def only_agent_def settled_def objs_of_def)
  show ?thesis unfolding BorrowLedger_steps
    apply (subst running_imports_at) subgoal using sub(1) mi assms(3) by auto
    apply (subst frame_running(1)) subgoal by simp
    apply (subst adopt_frame) subgoal using sub(3) ai assms(3) by auto
    apply simp
    apply (subst diff_import_frame) subgoal using sub(2) mi assms(3) by auto
    by simp
qed

section \<open>A whole reconciliation\<close>

definition nodes_known :: "surroundings \<Rightarrow> bool" where
  \<comment> \<open>\<open>GetNodeById\<close> answers the node it was asked for, or an empty record\<close>
  "nodes_known w \<longleftrightarrow> (\<forall>q n. uo_nodeId (su_node w q n) \<in> {[], n})"

lemma collect_loop_other: "j \<noteq> i \<Longrightarrow> map_of (collect_loop w j n infos) i = map_of infos i"
  by (induction n) (simp_all add: Let_def update_conv' split: prod.split)

lemma collect_nodes_target:
  assumes "nodes_known w"
  shows "map_of (collect_nodes w m i related s ns infos) i = map_of infos i"
proof (induction ns arbitrary: infos)
  case Nil then show ?case by simp
next
  case (Cons n ns)
  have "map_of (GetLedgerByNodeId w m n infos) i = map_of infos i" if "n \<noteq> i"
    using that by (simp add: GetLedgerByNodeId_def collect_loop_other update_conv')
  moreover have "n \<noteq> i" if "uo_nodeId (su_node w (At_node n) n) \<noteq> []" "uo_nodeId (su_node w (At_node n) n) \<noteq> i"
    using that assms by (auto simp: nodes_known_def)
  ultimately show ?case by (simp add: Cons.IH Let_def)
qed

lemma collect_all_target:
  assumes "nodes_known w" and "i \<noteq> su_current w" and "su_leader w At_target" and "CollectLedge w At_target i = (0, a)"
    and "fst (su_linkUpNodes w) = 0"
  shows "\<exists>infos. CollectAllLedger w m i s = (0, infos) \<and> map_of infos i = Some a"
  using assms
  by (simp add: CollectAllLedger_def GetTargetLedgerByNodeId_def CheckNodeIsMaster_def info_at_def case_prod_unfold collect_nodes_target)

lemma reconcile_all_at:
  assumes "in_place k i (m (Import k))" and "in_place k i (a (Import k))"
    and "filed (Import k) s (i, n) = map_of (m (Import k)) n"
    and "\<And>x. map_of (m (Import k)) n = Some x \<Longrightarrow> \<not> running_import x"
  shows "filed (Import k) (reconcile_all w i m a infos s) (i, n) = reconciled_import k (map_of (m (Import k)) n) (map_of (a (Import k)) n)"
  using assms by (cases k) (simp_all add: reconcile_all_def frame_BorrowLedger imports_after)

lemma reconcile_all_elsewhere:
  assumes "in_place k i (m (Import k))" and "in_place k i (a (Import k))" and "j \<noteq> i"
  shows "filed (Import k) (reconcile_all w i m a infos s) (j, n) = filed (Import k) s (j, n)"
  using assms by (cases k) (simp_all add: reconcile_all_def frame_BorrowLedger imports_elsewhere)

lemma filed_ledger: "ct_ledger s = ct_ledger s' \<Longrightarrow> filed t s = filed t s'"
  by (simp add: filed_def)

text \<open>
  C12: When the leader handles a node in reconciliation and the node has answered with its ledger, then for every kind the
  import table of that node is what the two ledgers determine: an import that both have stays as the master has it, one
  that only the master has is removed, one that only the agent has is adopted unless it is destroyed. This holds for
  every name that is not in the middle of an operation on the master, and the tables of the other nodes stay as they are.
\<close>
theorem imports_reconciled:
  assumes "nodes_known w" and "nodes_distinct (ct_ledger s)"
    and "uo_clusterState node = UBSE_NODE_SMOOTHING" and "uo_nodeId node = i" and "i \<noteq> su_current w"
    and "su_leader w At_handler" and "su_leader w At_target" and "CollectLedge w At_target i = (0, a)" and "fst (su_linkUpNodes w) = 0"
    and "in_place k i (GetMasterCtxLedger i (ct_ledger s) (Import k))" and "in_place k i (a (Import k))"
  shows "((\<forall>x. filed (Import k) s (i, n) = Some x \<longrightarrow> \<not> running_import x) \<longrightarrow>
      filed (Import k) (snd (LedgerHandler w node s)) (i, n) = reconciled_import k (filed (Import k) s (i, n)) (map_of (a (Import k)) n)) \<and>
    (j \<noteq> i \<longrightarrow> filed (Import k) (snd (LedgerHandler w node s)) (j, n) = filed (Import k) s (j, n))"
proof -
  let ?m = "GetMasterCtxLedger i (ct_ledger s)"
  obtain infos where c: "CollectAllLedger w ?m i s = (0, infos)" and i: "map_of infos i = Some a"
    using collect_all_target [OF assms(1,5,7,8,9)] by blast
  have l: "filed t (snd (LedgerHandler w node s)) = filed t (reconcile_all w i ?m a infos s)" for t
    using LedgerHandler_ledger [OF assms(3,6), of s infos] c i by (intro filed_ledger) (simp add: assms(4) info_at_def)
  have m: "map_of (?m (Import k)) n = filed (Import k) s (i, n)" for n
    using assms(2) by (rule master_ledger_filed)
  show ?thesis
    unfolding l using reconcile_all_at [of k i ?m a s n w infos, OF assms(10,11)] reconcile_all_elsewhere [of k i ?m a j w infos s n, OF assms(10,11)]
    by (simp add: m)
qed

text \<open>A node that lost the import \<open>''a''\<close> and gained the import \<open>''b''\<close>.\<close>

definition demo_import :: "string \<Rightarrow> NodeId \<Rightarrow> UbseMemState \<Rightarrow> debt_obj" where
  "demo_import name i st = \<lparr>mo_req = FdReq \<lparr>fd_name = name, fd_requestNodeId = i, fd_importNodeId = i, fd_size = 128, fd_lenderLocs = [],
     fd_lenderSizes = [], fd_candidateNodeList = []\<rparr>, mo_algoResult = algo_result_init, mo_state = st,
     do_expectState = UBSE_MEM_STATE_SUCCEEDED, do_importResults = [], do_decoderResult = [], do_importNodeId = [],
     do_isLastExportSuccess = False, do_shmAnonymous = False\<rparr>"

definition demo_info :: "obj_type \<Rightarrow> debt_obj list \<Rightarrow> NodeMemDebtInfo" where
  "demo_info t xs = no_debt(t := map (\<lambda>x. (obj_name x, x)) xs)"

definition demo_master :: controller where
  "demo_master = \<lparr>ct_ledger = (\<lambda>_. type_debt_map_new)(Import FD :=
       \<lparr>nodeMap = [(''2'', demo_info (Import FD) [demo_import ''a'' ''2'' UBSE_MEM_IMPORT_SUCCESS] (Import FD))],
        exportResIdToNodeId = (\<lambda>_. None)\<rparr>),
     ct_scheduler = SchedulerImpl_new, ct_sent = [], ct_initLedgerDone = {}\<rparr>"

definition plain_env :: env where
  "plain_env = \<lparr>ev_platform = platform_x86, ev_deployed = {}, ev_nodes = [], ev_sort_scored = (\<lambda>_ xs. xs), ev_sort_numa = (\<lambda>_ xs. xs)\<rparr>"

definition demo_node_at :: "NodeId \<Rightarrow> UbseNodeClusterState \<Rightarrow> UbseNodeInfo" where
  "demo_node_at i st = \<lparr>uo_nodeId = i, uo_hostName = [], uo_numaInfos = [], uo_cpuInfos = [], uo_clusterState = st, uo_isLender = True,
     uo_allocator = HUGETLB_PMD, uo_pmdMapping = 100, uo_blockSize = 128, uo_nodeMaxLendGb = 64, uo_exportTotalTimes = 0\<rparr>"

definition demo_world :: "NodeMemDebtInfo \<Rightarrow> surroundings" where
  "demo_world answer = \<lparr>su_scheduler = plain_env, su_current = ''1'', su_leader = (\<lambda>_. True), su_stop = (\<lambda>_. False),
     su_node = (\<lambda>_ i. demo_node_at i UBSE_NODE_WORKING), su_collect = (\<lambda>_ i. Answer 0 0 [(i, answer)]), su_linkUpNodes = (0, [''1'', ''2'']),
     su_links = [], su_query = (\<lambda>_ _ _ _. (0, None)), su_invalidate = (\<lambda>_ _ _ _ _. 0), su_report = (\<lambda>_ _. 0),
     su_updateState = (\<lambda>_. Some 0), su_chip = (\<lambda>_. 0), su_decoder = (\<lambda>_ _ _. 0), su_executor = True\<rparr>"

lemma demo_nodes: "nodes_known (demo_world a)" "nodes_distinct (ct_ledger demo_master)"
  by (simp_all add: nodes_known_def demo_world_def demo_node_at_def nodes_distinct_def demo_master_def type_debt_map_new_def)

lemma demo_filed: "filed (Import FD) demo_master (''2'', n) =
    (if n = ''a'' then Some (demo_import ''a'' ''2'' UBSE_MEM_IMPORT_SUCCESS) else None)"
  by (simp add: filed_def demo_master_def debts_def GetResource_map demo_info_def demo_import_def)

theorem imports_reconciled_witness:
  "filed (Import FD) (snd (LedgerHandler (demo_world (demo_info (Import FD) [demo_import ''b'' ''2'' UBSE_MEM_IMPORT_SUCCESS]))
       (demo_node_at ''2'' UBSE_NODE_SMOOTHING) demo_master)) (''2'', ''a'') = None \<and>
   filed (Import FD) (snd (LedgerHandler (demo_world (demo_info (Import FD) [demo_import ''b'' ''2'' UBSE_MEM_IMPORT_SUCCESS]))
       (demo_node_at ''2'' UBSE_NODE_SMOOTHING) demo_master)) (''2'', ''b'') = Some (demo_import ''b'' ''2'' UBSE_MEM_IMPORT_SUCCESS)"
proof -
  let ?a = "demo_info (Import FD) [demo_import ''b'' ''2'' UBSE_MEM_IMPORT_SUCCESS]"
  let ?w = "demo_world ?a" and ?n = "demo_node_at ''2'' UBSE_NODE_SMOOTHING"
  have w: "uo_clusterState ?n = UBSE_NODE_SMOOTHING" "uo_nodeId ?n = ''2''" "''2'' \<noteq> su_current ?w"
    "su_leader ?w At_handler" "su_leader ?w At_target" "CollectLedge ?w At_target ''2'' = (0, ?a)" "fst (su_linkUpNodes ?w) = 0"
    by (simp_all add: demo_node_at_def demo_world_def CollectLedge_def)
  have p: "in_place FD ''2'' (GetMasterCtxLedger ''2'' (ct_ledger demo_master) (Import FD))" "in_place FD ''2'' (?a (Import FD))"
    by (simp_all add: master_ledger demo_nodes GetNodeMemDebtInfo_def FindNodeMap_def in_place_def)
      (simp_all add: demo_master_def demo_info_def demo_import_def import_node_def)
  note after = imports_reconciled [OF demo_nodes w p]
  show ?thesis using after [of "''a''"] after [of "''b''"]
    by (simp add: demo_filed) (simp add: demo_info_def demo_import_def running_import_def adopted_def import_gone_def)
qed

end
