(* ===== verification/AgentProps.thy ===== *)
theory AgentProps
  imports ReconcileProps
begin

text \<open>What the agent does to the decoders of an import, and what it is told about its remote NUMA nodes.\<close>

section \<open>Decoders\<close>

definition reached :: "surroundings \<Rightarrow> UbseDecoderState \<Rightarrow> UbseMamiMemImportResult list \<Rightarrow> UbseMamiMemImportResult \<Rightarrow> bool" where
  \<comment> \<open>the hardware entry was seen in the state asked for, or accepted it\<close>
  "reached w to seen d \<longleftrightarrow> (\<exists>e \<in> set seen. dr_marId e = dr_marId d \<and> dr_handle e = dr_handle d \<and>
     (dr_state e = to \<or> su_decoder w (dr_marId e) (dr_handle e) to = 0))"

definition decoder_step :: "surroundings \<Rightarrow> UbseDecoderState \<Rightarrow> UbseMamiMemImportResult list \<Rightarrow> UbseMamiMemImportResult \<Rightarrow>
    UbseMamiMemImportResult \<Rightarrow> bool" where
  \<comment> \<open>an entry stays, or makes an admissible transition that the hardware has made\<close>
  "decoder_step w to seen d d' \<longleftrightarrow>
     d' = d \<or> d' = d\<lparr>dr_state := to\<rparr> \<and> IsValidDecoderStateTransition (dr_state d) to \<and> reached w to seen d"

lemma reached_Cons: "reached w to (d # ds) c \<longleftrightarrow>
    dr_marId d = dr_marId c \<and> dr_handle d = dr_handle c \<and> (dr_state d = to \<or> su_decoder w (dr_marId d) (dr_handle d) to = 0) \<or> reached w to ds c"
  by (simp add: reached_def)

lemma reached_cong: "dr_marId c = dr_marId d \<Longrightarrow> dr_handle c = dr_handle d \<Longrightarrow> reached w to ds c = reached w to ds d"
  by (simp add: reached_def)

lemma invalidate_entries_seen: "c \<in> set (snd (invalidate_entries w to ds)) \<Longrightarrow> dr_state c = to \<Longrightarrow> reached w to ds c"
proof (induction ds)
  case Nil then show ?case by simp
next
  case (Cons d ds)
  have "reached w to (d # ds) c" if "c \<in> set ds" "dr_state c = to" using that by (auto simp: reached_def)
  moreover have "c \<in> set ds \<or> c \<in> set (snd (invalidate_entries w to ds)) \<or> c = d \<or> c = d\<lparr>dr_state := to\<rparr> \<and> su_decoder w (dr_marId d) (dr_handle d) to = 0"
    using Cons.prems(1) by (auto simp: Let_def split: if_splits)
  moreover have "reached w to (d # ds) (d\<lparr>dr_state := to\<rparr>)" if "su_decoder w (dr_marId d) (dr_handle d) to = 0"
    using that by (simp add: reached_Cons)
  ultimately show ?case using Cons.IH Cons.prems(2) by (metis reached_Cons)
qed

lemma merge_decoder_step:
  assumes "decoder_step w to seen d d'" and "reached w to seen c"
  shows "decoder_step w to seen d (merge_decoder to c d')"
proof -
  have "reached w to seen d" if "dr_marId d = dr_marId c" "dr_handle d = dr_handle c"
    using assms(2) reached_cong [OF that] by simp
  then show ?thesis using assms(1) by (auto simp: decoder_step_def merge_decoder_def)
qed

lemma merge_decoders_step:
  assumes "\<And>c. c \<in> set copied \<Longrightarrow> dr_state c = to \<Longrightarrow> reached w to seen c"
  shows "list_all2 (decoder_step w to seen) ds (merge_decoders to copied ds)"
proof -
  have "list_all2 (decoder_step w to seen) ds (fold (\<lambda>c ds. if dr_state c \<noteq> to then ds else map (merge_decoder to c) ds) cs ds')"
    if "set cs \<subseteq> set copied" "list_all2 (decoder_step w to seen) ds ds'" for cs ds'
    using that
  proof (induction cs arbitrary: ds')
    case Nil then show ?case by simp
  next
    case (Cons c cs)
    have "list_all2 (decoder_step w to seen) ds (if dr_state c \<noteq> to then ds' else map (merge_decoder to c) ds')"
      using Cons.prems assms [of c] by (auto simp: list_all2_conv_all_nth intro!: merge_decoder_step)
    then show ?case using Cons by simp
  qed
  moreover have "list_all2 (decoder_step w to seen) ds ds" by (simp add: list_all2_conv_all_nth decoder_step_def)
  ultimately show ?thesis by (simp add: merge_decoders_def)
qed


definition demo_decoded :: debt_obj where
  "demo_decoded = (demo_import ''a'' ''1'' UBSE_MEM_IMPORT_SUCCESS)\<lparr>do_decoderResult :=
     [\<lparr>dr_marId = 1, dr_handle = 7, dr_state = DECODER_VALID\<rparr>, \<lparr>dr_marId = 2, dr_handle = 8, dr_state = DECODER_PERMANENT_INVALID\<rparr>]\<rparr>"


section \<open>Remote NUMA nodes\<close>

definition numa_import :: "string \<times> debt_obj \<Rightarrow> u32 \<times> u32 \<Rightarrow> c_int64 \<Rightarrow> NodeId \<Rightarrow> bool" where
  \<comment> \<open>the import comes over a link, ends in a remote NUMA node, and is exported by a node\<close>
  "numa_import e link numaId exportNode \<longleftrightarrow>
     (\<exists>n ns r rs. ar_importNumaInfos (mo_algoResult (snd e)) = n # ns \<and> do_importResults (snd e) = r # rs \<and>
       first_export (snd e) = Some exportNode \<and> link = (dn_chipId n, dn_portId n) \<and> numaId = ir_numaId r)"

definition numa_exported :: "NodeMemDebtInfoMap \<Rightarrow> NodeId \<Rightarrow> string \<Rightarrow> NodeId \<Rightarrow> bool" where
  \<comment> \<open>the collected ledger of the exporting node has the export\<close>
  "numa_exported infos exportNode name i \<longleftrightarrow>
     (\<exists>info. map_of infos exportNode = Some info \<and> map_of (info (Export NUMA)) (GenerateExportObjKey name i) \<noteq> None)"

lemma link_turn_facts:
  assumes "link_turn infos i e (links, invalid, unknown) = (links', invalid', unknown')"
  shows "invalid \<subseteq> invalid'" and "unknown \<subseteq> unknown'"
    and "set links' \<subseteq> set links \<union> {(l, n). \<exists>j. numa_import e l n j}"
    and "numa_import e l n j \<Longrightarrow> n \<in> invalid' \<or> n \<in> unknown' \<or> numa_exported infos j (fst e) i"
proof -
  have u: "set (AList.update a b xs) \<subseteq> insert (a, b) (set xs)" for a :: "u32 \<times> u32" and b :: c_int64 and xs
    by (induction xs) auto
  obtain name x where e: "e = (name, x)" by (cases e)
  show "invalid \<subseteq> invalid'" "unknown \<subseteq> unknown'"
    using assms by (auto simp: e link_turn_def split: list.splits option.splits if_splits)
  show "set links' \<subseteq> set links \<union> {(l, n). \<exists>j. numa_import e l n j}"
    using assms u by (fastforce simp: e link_turn_def numa_import_def split: list.splits option.splits if_splits)
  show "numa_import e l n j \<Longrightarrow> n \<in> invalid' \<or> n \<in> unknown' \<or> numa_exported infos j (fst e) i"
    using assms by (auto simp: e link_turn_def numa_import_def numa_exported_def GenerateExportObjKey_def split: option.splits if_splits)
qed

lemma link_turns:
  assumes "fold (link_turn infos i) es (links, invalid, unknown) = (links', invalid', unknown')"
  shows "invalid \<subseteq> invalid' \<and> unknown \<subseteq> unknown' \<and>
    (\<forall>(l, n) \<in> set links'. (l, n) \<in> set links \<or> (\<exists>e \<in> set es. \<exists>j. numa_import e l n j)) \<and>
    (\<forall>e \<in> set es. \<forall>l n j. numa_import e l n j \<longrightarrow> n \<in> invalid' \<or> n \<in> unknown' \<or> numa_exported infos j (fst e) i)"
  using assms
proof (induction es arbitrary: links invalid unknown)
  case Nil then show ?case by auto
next
  case (Cons e es)
  obtain l1 v1 u1 where t: "link_turn infos i e (links, invalid, unknown) = (l1, v1, u1)" by (metis prod_cases3)
  have "fold (link_turn infos i) es (l1, v1, u1) = (links', invalid', unknown')" using Cons.prems t by simp
  note IH = Cons.IH [OF this] and facts = link_turn_facts [OF t]
  show ?case
  proof (intro conjI)
    show "invalid \<subseteq> invalid'" "unknown \<subseteq> unknown'" using IH facts(1,2) by blast+
    show "\<forall>(l, n) \<in> set links'. (l, n) \<in> set links \<or> (\<exists>e \<in> set (e # es). \<exists>j. numa_import e l n j)"
    proof (intro ballI, clarify)
      fix l n assume "(l, n) \<in> set links'" "\<not> (\<exists>e \<in> set (e # es). \<exists>j. numa_import e l n j)"
      then have "(l, n) \<in> set l1" "\<not> (\<exists>j. numa_import e l n j)" using IH by auto
      then show "(l, n) \<in> set links" using facts(3) by blast
    qed
    show "\<forall>f \<in> set (e # es). \<forall>l n j. numa_import f l n j \<longrightarrow> n \<in> invalid' \<or> n \<in> unknown' \<or> numa_exported infos j (fst f) i"
    proof (intro ballI allI impI)
      fix f l n j assume f: "f \<in> set (e # es)" "numa_import f l n j"
      show "n \<in> invalid' \<or> n \<in> unknown' \<or> numa_exported infos j (fst f) i"
      proof (cases "f = e")
        case True
        then have "n \<in> v1 \<or> n \<in> u1 \<or> numa_exported infos j (fst f) i" using facts(4) f(2) by blast
        then show ?thesis using IH by blast
      next
        case False
        then have "f \<in> set es" using f(1) by simp
        then show ?thesis using IH f(2) by blast
      qed
    qed
  qed
qed

lemma build_links:
  assumes "distinct (map fst infos)" and "map_of infos target = Some info"
  shows "BuildLinkToNumaMap target infos = fold (link_turn infos target) (info (Import NUMA)) ([], {}, {})"
proof -
  let ?f = "\<lambda>all (i, info :: NodeMemDebtInfo) acc. if i \<noteq> target then acc else fold (link_turn all i) (info (Import NUMA)) acc"
  have none: "fold (?f all) es acc = acc" if "target \<notin> fst ` set es" for all es acc
    using that by (induction es arbitrary: acc) auto
  obtain es1 es2 where i: "infos = es1 @ (target, info) # es2" using map_of_SomeD [OF assms(2)] by (auto simp: in_set_conv_decomp)
  have d: "target \<notin> fst ` set es1" "target \<notin> fst ` set es2" using assms(1) by (auto simp: i)
  have "fold (?f all) infos acc = fold (link_turn all target) (info (Import NUMA)) acc" for all acc
    by (simp add: i none [OF d(1)] none [OF d(2)])
  then show ?thesis by (simp add: BuildLinkToNumaMap_def)
qed

text \<open>
  C19: When the master notifies a node of the states of its remote NUMA nodes, one that it calls available is reached over a
  link whose port on that node is up, and every NUMA import of the node that ends in it has its export in the collected
  ledger of the exporting node.
\<close>
theorem available_numa_backed:
  assumes "distinct (map fst infos)" and "map_of infos target = Some info"
    and "Notify_NumaStatus i status \<in> set (ct_sent (MasterNotifyRemoteNumaStatus w target infos s))"
    and "Notify_NumaStatus i status \<notin> set (ct_sent s)" and "(numaId, AVAILABLE) \<in> set status"
  shows "i = target \<and> (\<exists>e \<in> set (info (Import NUMA)). \<exists>link j. numa_import e link numaId j \<and> link \<in> GetLinkUpPorts w target) \<and>
    (\<forall>e \<in> set (info (Import NUMA)). \<forall>link j. numa_import e link numaId j \<longrightarrow> numa_exported infos j (fst e) target)"
proof -
  obtain links invalid unknown where b: "fold (link_turn infos target) (info (Import NUMA)) ([], {}, {}) = (links, invalid, unknown)"
    by (metis prod_cases3)
  have st: "i = target" "status = BuildNumaStatus links invalid unknown (GetLinkUpPorts w target)"
    using assms(2,3,4) by (auto simp: MasterNotifyRemoteNumaStatus_def build_links [OF assms(1,2)] b Let_def sent_out_def split: if_splits)
  then obtain link where l: "(link, numaId) \<in> set links" "link \<in> GetLinkUpPorts w target" "numaId \<notin> invalid" "numaId \<notin> unknown"
    using assms(5) by (auto simp: BuildNumaStatus_def numa_status_def split: if_splits)
  show ?thesis using link_turns [OF b] l st(1) by fastforce
qed

definition demo_numa_obj :: debt_obj where
  \<comment> \<open>NUMA memory of node 3 that node 2 uses as its NUMA node 4, over chip 1 and port 5\<close>
  "demo_numa_obj = (demo_import ''m'' ''2'' UBSE_MEM_IMPORT_SUCCESS)\<lparr>
     mo_req := NumaReq \<lparr>fd_name = ''m'', fd_requestNodeId = ''2'', fd_importNodeId = ''2'', fd_size = 128, fd_lenderLocs = [], fd_lenderSizes = [],
       fd_candidateNodeList = [], nb_srcSocket = 0, nb_highWatermark = 0, nb_samePlanePrefer = False,
       nb_linkInfo = \<lparr>ll_lenderNode = [], ll_lenderSocketId = 0, ll_lenderPort = 0\<rparr>\<rparr>,
     mo_algoResult := algo_result_init\<lparr>
       ar_exportNumaInfos := [\<lparr>dn_nodeId = ''3'', dn_socketId = 0, dn_numaId = 0, dn_size = 128, dn_portId = 0, dn_chipId = 0\<rparr>],
       ar_importNumaInfos := [\<lparr>dn_nodeId = ''2'', dn_socketId = 0, dn_numaId = 0, dn_size = 128, dn_portId = 5, dn_chipId = 1\<rparr>]\<rparr>,
     do_importResults := [\<lparr>ir_memId = 9, ir_numaId = 4\<rparr>]\<rparr>"

definition demo_linked :: surroundings where
  "demo_linked = (demo_world no_debt)\<lparr>su_links := [\<lparr>pl_slotId = 2, pl_chipId = 1, pl_portId = 5, pl_interfaceName = ''up'',
     pl_peerSlotId = 3, pl_peerChipId = 1, pl_peerPortId = 5, pl_peerInterfaceName = ''up''\<rparr>]\<rparr>"

theorem available_numa_backed_witness:
  "numa_exported [(''2'', no_debt(Import NUMA := [(''m'', demo_numa_obj)])), (''3'', no_debt(Export NUMA := [(''m_2'', demo_numa_obj)]))]
     ''3'' ''m'' ''2''"
proof -
  let ?i = "[(''2'', no_debt(Import NUMA := [(''m'', demo_numa_obj)])), (''3'', no_debt(Export NUMA := [(''m_2'', demo_numa_obj)]))]"
  let ?s = "MasterNotifyRemoteNumaStatus demo_linked ''2'' ?i demo_master"
  have d: "distinct (map fst ?i)" "map_of ?i ''2'' = Some (no_debt(Import NUMA := [(''m'', demo_numa_obj)]))" by simp_all
  have n: "numa_import (''m'', demo_numa_obj) (1, 5) 4 ''3''"
    by (simp add: numa_import_def demo_numa_obj_def first_export_def)
  have two: "to_string (unat (2 :: u32)) = ''2''" by code_simp
  have up: "(1, 5) \<in> GetLinkUpPorts demo_linked ''2''"
    using two by (simp add: GetLinkUpPorts_def demo_linked_def)
  have "BuildLinkToNumaMap ''2'' ?i = ([((1, 5), 4)], {}, {})"
    by (simp add: BuildLinkToNumaMap_def link_turn_def demo_numa_obj_def first_export_def no_debt_def)
  then have "Notify_NumaStatus ''2'' [(4, AVAILABLE)] \<in> set (ct_sent ?s)"
    using up by (simp add: MasterNotifyRemoteNumaStatus_def BuildNumaStatus_def numa_status_def Let_def sent_out_def)
  moreover have "Notify_NumaStatus ''2'' [(4, AVAILABLE)] \<notin> set (ct_sent demo_master)" by (simp add: demo_master_def)
  ultimately show ?thesis using available_numa_backed [OF d, of "''2''" "[(4, AVAILABLE)]" demo_linked demo_master 4] n by auto
qed

end
