(* ===== verification/OrphanProps.thy ===== *)
theory OrphanProps
  imports ReconcileProps
begin

text \<open>When a reconciliation asks an agent to destroy an exported object.\<close>

section \<open>Messages\<close>

lemma sent_on_type [simp]: "ct_sent (on_type t f s) = ct_sent s"
  by (simp add: on_type_def)

lemma sent_tell [simp]: "ct_sent (tell_scheduler e x s) = ct_sent s"
  by (simp add: tell_scheduler_def)

lemma sent_update [simp]:
  "ct_sent (ExportUpdateState k x st s) = ct_sent s" "ct_sent (EraseExport k x s) = ct_sent s"
  "ct_sent (ImportUpdateState k x st s) = ct_sent s" "ct_sent (EraseImport k x s) = ct_sent s"
  by (simp_all add: ExportUpdateState_def EraseExport_def ImportUpdateState_def EraseImport_def split: option.split)

lemma sent_add [simp]: "ct_sent (AddExport k e x s) = ct_sent s" "ct_sent (AddImport k e x s) = ct_sent s"
  by (simp_all add: AddExport_def AddImport_def)

lemma sent_delete: "ct_sent (DeleteExport k x s) = ct_sent s @ (case export_home k x of None \<Rightarrow> [] | Some i \<Rightarrow> [Destroy_Export k i (dying x)])"
  by (simp add: DeleteExport_def sent_out_def split: option.split)

lemma sent_diff [simp]:
  "ct_sent (MasterDiffExportHandler k w xs s) = ct_sent s" "ct_sent (MasterDiffImportHandler k w xs s) = ct_sent s"
  "ct_sent (AgentImportStep k w xs s) = ct_sent s" "ct_sent (AgentDiffShareExportHandler w xs s) = ct_sent s"
  unfolding MasterDiffExportHandler_def MasterDiffImportHandler_def AgentImportStep_turns AgentDiffShareExportHandler_def
  by (rule fold_same; simp add: adopt_turn_def split: option.split)+

definition destroys :: "controller \<Rightarrow> message_out set" where
  "destroys s = {m \<in> set (ct_sent s). \<exists>k i x. m = Destroy_Export k i x}"

lemma destroys_sent: "destroys (sent_out m s) = (case m of Destroy_Export k i x \<Rightarrow> insert m (destroys s) | _ \<Rightarrow> destroys s)"
  by (auto simp: destroys_def sent_out_def split: message_out.split)

lemma destroys_cong: "ct_sent s = ct_sent s' \<Longrightarrow> destroys s = destroys s'"
  by (simp add: destroys_def)

lemma destroys_delete: "destroys (DeleteExport k x s) = destroys s \<union> (case export_home k x of None \<Rightarrow> {} | Some i \<Rightarrow> {Destroy_Export k i (dying x)})"
  by (auto simp: destroys_def sent_delete split: option.split)

lemma destroys_running:
  "destroys (MasterRunningExportHandler k w i xs s) = destroys s" "destroys (MasterRunningImportHandler k w i xs s) = destroys s"
proof -
  have e: "destroys (running_export_turn k w i x s) = destroys s" for x s
    by (rule destroys_cong) (simp add: running_export_turn_def case_prod_unfold split: option.split)
  have x: "destroys (snd (IsImportRunningObjExcess k w i x s)) = destroys s" for x s
    by (simp add: IsImportRunningObjExcess_def IsImportRunningLastExportSuccess_def destroys_sent split: option.split)
      (simp add: destroys_def)
  have a: "destroys (AddImport k f y s) = destroys s" for f y s by (rule destroys_cong) simp
  have t: "destroys (running_import_turn k w i x s) = destroys s" for x s
    using x a by (auto simp: running_import_turn_def case_prod_unfold split: option.split)
  show "destroys (MasterRunningExportHandler k w i xs s) = destroys s"
    unfolding MasterRunningExportHandler_def by (rule fold_same) (rule e)
  show "destroys (MasterRunningImportHandler k w i xs s) = destroys s"
    unfolding MasterRunningImportHandler_def by (rule fold_same) (rule t)
qed

section \<open>Orphans\<close>

definition no_import :: "debt_obj option \<Rightarrow> bool" where
  \<comment> \<open>there is no import, or it is destroyed\<close>
  "no_import r \<longleftrightarrow> (case named_obj r of None \<Rightarrow> True | Some im \<Rightarrow> import_gone im)"

definition orphan :: "BorrowedType \<Rightarrow> surroundings \<Rightarrow> NodeMemDebtInfoMap \<Rightarrow> NodeMemDebtInfoMap \<Rightarrow> debt_obj \<Rightarrow> bool" where
  \<comment> \<open>by the snapshot of the master's ledger and the collected ledgers\<close>
  "orphan k w dm infos x \<longleftrightarrow> (case import_peer k x of
       None \<Rightarrow> True
     | Some p \<Rightarrow>
         if p = su_current w then no_import (import_in dm k p (obj_name x))
         else faulty w p \<or> (\<exists>info. map_of infos p = Some info \<and> no_import (map_of (info (Import k)) (obj_name x))))"

lemma local_turn: "HandleLocalImport k x p dm s = (if no_import (import_in dm k p (obj_name x)) then DeleteExport k x s else s)"
  by (simp add: HandleLocalImport_def no_import_def split: option.split)

lemma remote_turn:
  "HandleRemoteImport k w x p dm infos s = s \<or> HandleRemoteImport k w x p dm infos s = DeleteExport k x s \<and>
     (faulty w p \<or> (\<exists>info. map_of infos p = Some info \<and> no_import (map_of (info (Import k)) (obj_name x))))"
  by (auto simp: HandleRemoteImport_def QueryImportObj_def no_import_def UBSE_INTERNAL_ERROR_BASE_def split: option.split)

lemma agent_turn:
  "HandleAgentDiffExportWithRemoteImportNode k w x p infos s =
     (if faulty w p \<or> (\<exists>info. map_of infos p = Some info \<and> no_import (map_of (info (Import k)) (obj_name x))) then DeleteExport k x s else s)"
  by (auto simp: HandleAgentDiffExportWithRemoteImportNode_def QueryImportObj_def no_import_def UBSE_INTERNAL_ERROR_BASE_def split: option.split)

lemma both_turn_orphan: "both_turn k w dm infos x s = s \<or> both_turn k w dm infos x s = DeleteExport k x s \<and> orphan k w dm infos x"
  using remote_turn [of k w x _ dm infos s] by (auto simp: both_turn_def orphan_def local_turn split: option.split)

definition destroy_of :: "BorrowedType \<Rightarrow> debt_obj \<Rightarrow> message_out set" where
  "destroy_of k x = (case export_home k x of None \<Rightarrow> {} | Some i \<Rightarrow> {Destroy_Export k i (dying x)})"

lemma both_destroys:
  "destroys (fold (both_turn k w dm infos) xs s) \<subseteq> destroys s \<union> (\<Union>x \<in> {x \<in> set xs. orphan k w dm infos x}. destroy_of k x)"
proof (induction xs arbitrary: s)
  case Nil then show ?case by simp
next
  case (Cons x xs)
  have "destroys (both_turn k w dm infos x s) \<subseteq> destroys s \<union> (if orphan k w dm infos x then destroy_of k x else {})"
    using both_turn_orphan [of k w dm infos x s] by (auto simp: destroys_delete destroy_of_def)
  then show ?case using Cons.IH [of "both_turn k w dm infos x s"] by (force split: if_splits)
qed

lemma agent_loop_destroys:
  "destroys (agent_loop k w dm infos xs s) \<subseteq> destroys s \<union> (\<Union>x \<in> {x \<in> set xs. orphan k w dm infos x}. destroy_of k x)"
proof (induction xs arbitrary: s)
  case Nil then show ?case by simp
next
  case (Cons x xs)
  let ?s1 = "AddExport k (su_scheduler w) x s"
  have a: "destroys ?s1 = destroys s" by (rule destroys_cong) simp
  have d: "destroys (DeleteExport k x s') = destroys s' \<union> destroy_of k x" for s'
    by (simp add: destroys_delete destroy_of_def)
  define s2 where "s2 = (case import_peer k x of None \<Rightarrow> DeleteExport k x ?s1
    | Some i \<Rightarrow> if i = su_current w then HandleLocalImport k x i dm ?s1 else HandleAgentDiffExportWithRemoteImportNode k w x i infos ?s1)"
  define X where "X = (if orphan k w dm infos x then destroy_of k x else {})"
  define Y where "Y = (\<Union>y \<in> {y \<in> set xs. orphan k w dm infos y}. destroy_of k y)"
  have s2: "destroys s2 \<subseteq> destroys s \<union> X"
    by (auto simp: X_def s2_def local_turn agent_turn d a orphan_def split: option.splits if_splits)
  have xy: "(\<Union>y \<in> {y \<in> set (x # xs). orphan k w dm infos y}. destroy_of k y) = X \<union> Y"
    by (auto simp: X_def Y_def)
  have ih: "destroys (agent_loop k w dm infos xs s') \<subseteq> destroys s' \<union> Y" for s'
    unfolding Y_def by (rule Cons.IH)
  have "agent_loop k w dm infos (x # xs) s \<in> {s2, agent_loop k w dm infos xs s, agent_loop k w dm infos xs s2}"
    by (simp add: s2_def Let_def split: option.split)
  then consider "agent_loop k w dm infos (x # xs) s = s2" | s' where "agent_loop k w dm infos (x # xs) s = agent_loop k w dm infos xs s'" "s' \<in> {s, s2}"
    by blast
  then show ?case
  proof cases
    case 1 then show ?thesis unfolding xy using s2 by auto
  next
    case (2 s')
    have "destroys s' \<subseteq> destroys s \<union> X" using 2(2) s2 by auto
    then show ?thesis unfolding xy 2(1) using ih [of s'] by blast
  qed
qed

section \<open>Tables stay maps\<close>

lemma distinct_on_type:
  assumes "nodes_distinct (ct_ledger s)" and "distinct (map fst (nodeMap (f (ct_ledger s t))))"
  shows "nodes_distinct (ct_ledger (on_type t f s))"
  using assms by (simp add: nodes_distinct_def on_type_def)

lemma distinct_put [simp]: "nodes_distinct (ct_ledger s) \<Longrightarrow> nodes_distinct (ct_ledger (on_type t (PutResource ex i r (Some x)) s))"
  using nodes_distinct_step [of "ct_ledger s t" ex "Op_Put i r x"] by (intro distinct_on_type) (simp_all add: nodes_distinct_def)

lemma distinct_remove [simp]: "nodes_distinct (ct_ledger s) \<Longrightarrow> nodes_distinct (ct_ledger (on_type t (\<lambda>m. snd (RemoveResource ex i r m)) s))"
  using nodes_distinct_step [of "ct_ledger s t" ex "Op_Remove i r"] by (intro distinct_on_type) (simp_all add: nodes_distinct_def)

lemma ledger_tell [simp]: "ct_ledger (tell_scheduler e x s) = ct_ledger s"
  by (simp add: tell_scheduler_def)

lemma distinct_ops [simp]:
  "nodes_distinct (ct_ledger s) \<Longrightarrow> nodes_distinct (ct_ledger (AddExport k e x s))"
  "nodes_distinct (ct_ledger s) \<Longrightarrow> nodes_distinct (ct_ledger (AddImport k e x s))"
  "nodes_distinct (ct_ledger s) \<Longrightarrow> nodes_distinct (ct_ledger (DeleteExport k x s))"
  by (simp_all add: AddExport_def AddImport_def DeleteExport_def ExportUpdateState_def EraseExport_def ImportUpdateState_def EraseImport_def
      split: option.split)

lemma fold_inv: "P s \<Longrightarrow> (\<And>x s. P s \<Longrightarrow> P (f x s)) \<Longrightarrow> P (fold f xs s)"
  by (induction xs arbitrary: s) simp_all

lemma distinct_diff [simp]:
  "nodes_distinct (ct_ledger s) \<Longrightarrow> nodes_distinct (ct_ledger (MasterDiffExportHandler k w xs s))"
  "nodes_distinct (ct_ledger s) \<Longrightarrow> nodes_distinct (ct_ledger (MasterDiffImportHandler k w xs s))"
  unfolding MasterDiffExportHandler_def MasterDiffImportHandler_def
  by (erule fold_inv [where P = "\<lambda>s. nodes_distinct (ct_ledger s)"]; simp)+

lemma distinct_both [simp]: "nodes_distinct (ct_ledger s) \<Longrightarrow> nodes_distinct (ct_ledger (BothStep k w xs infos s))"
proof -
  have "nodes_distinct (ct_ledger (both_turn k w dm infos x s))" if "nodes_distinct (ct_ledger s)" for dm x s
    using both_turn_orphan [of k w dm infos x s] that by auto
  then show "nodes_distinct (ct_ledger s) \<Longrightarrow> ?thesis"
    unfolding BothStep_def BothExportHandler_def by (auto intro: fold_inv [where P = "\<lambda>s. nodes_distinct (ct_ledger s)"])
qed


definition demo_numa :: "NodeId \<Rightarrow> UbseMemDebtNumaInfo" where
  "demo_numa i = \<lparr>dn_nodeId = i, dn_socketId = 0, dn_numaId = 0, dn_size = 128, dn_portId = 0, dn_chipId = 0\<rparr>"

definition demo_export :: debt_obj where
  \<comment> \<open>exported by node 2 to node 3\<close>
  "demo_export = (demo_import ''m'' ''3'' UBSE_MEM_EXPORT_SUCCESS)
     \<lparr>mo_algoResult := algo_result_init\<lparr>ar_exportNumaInfos := [demo_numa ''2''], ar_importNumaInfos := [demo_numa ''3'']\<rparr>\<rparr>"

lemma demo_export_facts:
  "obj_name demo_export = ''m''" "import_peer FD demo_export = Some ''3''" "export_home FD demo_export = Some ''2''"
  "mo_state demo_export = UBSE_MEM_EXPORT_SUCCESS"
  by (simp_all add: demo_export_def demo_import_def import_peer_def first_import_def export_home_def first_export_def demo_numa_def)


section \<open>Where the kinds differ\<close>

text \<open>
  Where a reported export records no importing NUMA, the handler of NUMA objects returns, and the objects after it are
  not taken over; the handler of file-descriptor objects goes on.
\<close>

lemma numa_exports_skipped:
  assumes "import_peer NUMA x = None" and "mo_state x \<noteq> UBSE_MEM_EXPORT_DESTROYED"
  shows "AgentDiffNumaExportHandler w (x # xs) infos s = AgentDiffNumaExportHandler w [x] infos s"
  using assms by (simp add: handler_instances AgentDiffExportHandler_def Let_def)

lemma fd_exports_go_on:
  assumes "import_peer FD x = None" and "mo_state x \<noteq> UBSE_MEM_EXPORT_DESTROYED"
  shows "AgentDiffFdExportHandler w (x # xs) infos s =
    agent_loop FD w (GetNodeMemDebtInfoMap (ct_ledger s)) infos xs (DeleteExport FD x (AddExport FD (su_scheduler w) x s))"
  using assms by (simp add: handler_instances AgentDiffExportHandler_def Let_def)

text \<open>
  The leader asks again whether it leads before it collects the ledger of the node. When it has lost the lead in
  between, the collection answers \<open>UBSE_OK\<close> with an empty ledger, and the import table of the node is emptied.
\<close>

lemma lost_lead_empties:
  assumes "nodes_distinct (ct_ledger s)" and "uo_clusterState node = UBSE_NODE_SMOOTHING" and "uo_nodeId node = i" and "i \<noteq> su_current w"
    and "su_leader w At_handler" and "\<not> su_leader w At_target" and "su_linkUpNodes w = (0, [])"
    and "in_place k i (GetMasterCtxLedger i (ct_ledger s) (Import k))"
    and "filed (Import k) s (i, n) = Some x" and "\<not> running_import x" and "\<not> import_gone x"
  shows "filed (Import k) (snd (LedgerHandler w node s)) (i, n) = None"
proof -
  let ?m = "GetMasterCtxLedger i (ct_ledger s)"
  have c: "CollectAllLedger w ?m i s = (0, [(i, no_debt)])"
    using assms(4,6,7) by (simp add: CollectAllLedger_def GetTargetLedgerByNodeId_def CheckNodeIsMaster_def info_at_def)
  have l: "filed t (snd (LedgerHandler w node s)) = filed t (reconcile_all w i ?m no_debt [(i, no_debt)] s)" for t
    using LedgerHandler_ledger [OF assms(2,5), of s "[(i, no_debt)]"] c by (intro filed_ledger) (simp add: assms(3) info_at_def)
  have m: "map_of (?m (Import k)) n = Some x" using assms(1,9) by (simp add: master_ledger_filed)
  have "in_place k i (no_debt (Import k))" by (simp add: in_place_def no_debt_def)
  from reconcile_all_at [of k i ?m no_debt s n w "[(i, no_debt)]", OF assms(8) this] show ?thesis
    using m assms(9,10,11) by (simp add: l no_debt_def)
qed

text \<open>Two borrowers of one name have different keys, but the filters take their exports for the same one.\<close>

lemma same_name_settled:
  assumes "obj_name x = obj_name y" and "m (Export k) = [(export_key k x, x)]" and "a (Export k) = [(export_key k y, y)]"
    and "running_export x"
  shows "settled m a (Export k) = []"
  using assms by (simp add: settled_def running_objs_def objs_of_def is_running_def find_diff_def obj_names_def)

end
