(* ===== verification/ShmClean.thy ===== *)
theory ShmClean
  imports DebtObjects
begin

text \<open>
  Shared memory in \<open>ubse_mem_controller_ledger.cpp\<close>: how often an exported share is imported, which shares that nobody
  imports are removed, and which of several shares of one name is the one to use. A name may be exported from several
  base nodes. Reference counts are only looked up and are functions; the maps the code walks over are lists.
\<close>

section \<open>Reference counts\<close>

type_synonym ref_counts = "string \<Rightarrow> (NodeId \<Rightarrow> nat option) option"
type_synonym base_objs = "(NodeId \<times> debt_obj list) list"

definition export_dying :: "debt_obj \<Rightarrow> bool" where
  "export_dying x \<longleftrightarrow> mo_state x = UBSE_MEM_EXPORT_DESTROYING \<or> mo_state x = UBSE_MEM_EXPORT_DESTROYED"

definition put_zero :: "string \<Rightarrow> NodeId \<Rightarrow> ref_counts \<Rightarrow> ref_counts" where
  \<comment> \<open>\<open>refCountMap[name][base] = 0\<close>\<close>
  "put_zero name base rc = rc(name \<mapsto> ((case rc name of None \<Rightarrow> (\<lambda>_. None) | Some c \<Rightarrow> c)(base \<mapsto> 0)))"

definition collectExportInfo :: "NodeMemDebtInfoMap \<Rightarrow> ref_counts" where
  "collectExportInfo debtMap =
     fold (\<lambda>(i, info). fold (\<lambda>(name, x) rc.
         case first_export x of None \<Rightarrow> rc | Some base \<Rightarrow> if export_dying x then rc else put_zero name base rc)
       (info (Export SHM))) debtMap (\<lambda>_. None)"

definition incrementRefCount :: "string \<Rightarrow> NodeId \<Rightarrow> ref_counts \<Rightarrow> ref_counts" where
  "incrementRefCount name base rc =
     (case rc name of
        None \<Rightarrow> rc
      | Some c \<Rightarrow> (case c base of None \<Rightarrow> rc | Some n \<Rightarrow> rc(name \<mapsto> c(base \<mapsto> n + 1))))"

definition updateRefCount :: "NodeMemDebtInfoMap \<Rightarrow> ref_counts \<Rightarrow> ref_counts" where
  "updateRefCount debtMap rc =
     fold (\<lambda>(i, info). fold (\<lambda>(name, x) rc.
         case first_export x of
           None \<Rightarrow> rc
         | Some base \<Rightarrow> if mo_state x = UBSE_MEM_IMPORT_DESTROYED then rc else incrementRefCount name base rc)
       (info (Import SHM))) debtMap rc"

definition CountShareMemoryRefCount :: "NodeMemDebtInfoMap \<Rightarrow> ref_counts" where
  "CountShareMemoryRefCount debtMap = updateRefCount debtMap (collectExportInfo debtMap)"

section \<open>Choosing what to remove\<close>

definition push_at :: "'k \<Rightarrow> 'v \<Rightarrow> ('k \<times> 'v list) list \<Rightarrow> ('k \<times> 'v list) list" where
  \<comment> \<open>\<open>m[k].emplace_back(v)\<close>\<close>
  "push_at k v m = AList.update k ((case map_of m k of None \<Rightarrow> [] | Some vs \<Rightarrow> vs) @ [v]) m"

definition CollectExportObjsByBaseNode :: "NodeMemDebtInfoMap \<Rightarrow> (string \<times> base_objs) list" where
  "CollectExportObjsByBaseNode debtMap =
     fold (\<lambda>(i, info). fold (\<lambda>(name, x) m.
         case first_export x of
           None \<Rightarrow> m
         | Some base \<Rightarrow> if export_dying x then m
             else AList.update name (push_at base x (case map_of m name of None \<Rightarrow> [] | Some b \<Rightarrow> b)) m)
       (info (Export SHM))) debtMap []"

definition IsAllRefCountZero :: "base_objs \<Rightarrow> ref_counts \<Rightarrow> string \<Rightarrow> bool" where
  "IsAllRefCountZero baseMap rc name =
     (case rc name of None \<Rightarrow> False | Some c \<Rightarrow> list_all (\<lambda>(base, objs). c base = Some 0) baseMap)"

definition CollectAllExportObjs :: "base_objs \<Rightarrow> debt_obj list" where
  "CollectAllExportObjs baseMap = concat (map snd baseMap)"

definition IsObjInVector :: "debt_obj \<Rightarrow> debt_obj list \<Rightarrow> bool" where
  \<comment> \<open>every object that comes here has an exporting NUMA\<close>
  "IsObjInVector x vec = list_ex (\<lambda>y. obj_name y = obj_name x \<and> first_export y = first_export x) vec"

definition CleanAnonymousObjs :: "debt_obj list \<Rightarrow> debt_obj list \<Rightarrow> debt_obj list" where
  "CleanAnonymousObjs allObjs toClean = toClean @ filter do_shmAnonymous allObjs"

definition FilterRemainingObjs :: "debt_obj list \<Rightarrow> debt_obj list \<Rightarrow> debt_obj list" where
  "FilterRemainingObjs allObjs toClean = filter (\<lambda>x. \<not> IsObjInVector x toClean) allObjs"

definition CleanExtraObjs :: "debt_obj list \<Rightarrow> debt_obj list \<Rightarrow> debt_obj list" where
  "CleanExtraObjs remaining toClean = (if length remaining > 1 then toClean @ drop 1 remaining else toClean)"

definition CleanRefCountZeroObjs :: "base_objs \<Rightarrow> ref_counts \<Rightarrow> string \<Rightarrow> debt_obj list \<Rightarrow> debt_obj list" where
  "CleanRefCountZeroObjs baseMap rc name toClean =
     (case rc name of
        None \<Rightarrow> toClean
      | Some c \<Rightarrow> toClean @ concat (map (\<lambda>(base, objs). if c base = Some 0 then objs else []) baseMap))"

definition CheckAndCleanMultiBaseNode :: "string \<Rightarrow> base_objs \<Rightarrow> ref_counts \<Rightarrow> debt_obj list \<Rightarrow> debt_obj list" where
  "CheckAndCleanMultiBaseNode name baseMap rc toClean =
     (if IsAllRefCountZero baseMap rc name
      then let allObjs = CollectAllExportObjs baseMap
        in if allObjs = [] then toClean
           else let toClean1 = CleanAnonymousObjs allObjs toClean
             in CleanExtraObjs (FilterRemainingObjs allObjs toClean1) toClean1
      else CleanRefCountZeroObjs baseMap rc name toClean)"

definition CheckAndCleanSingleBaseNode :: "string \<Rightarrow> base_objs \<Rightarrow> ref_counts \<Rightarrow> debt_obj list \<Rightarrow> debt_obj list" where
  "CheckAndCleanSingleBaseNode name baseMap rc toClean =
     (case baseMap of
        [] \<Rightarrow> toClean
      | (base, objs) # _ \<Rightarrow>
          (case Option.bind (rc name) (\<lambda>c. c base) of
             None \<Rightarrow> toClean
           | Some n \<Rightarrow> (case objs of
                 x # _ \<Rightarrow> if n = 0 \<and> do_shmAnonymous x then toClean @ [x] else toClean
               | [] \<Rightarrow> toClean)))"

definition ProcessCurrentCleanList :: "NodeMemDebtInfoMap \<Rightarrow> debt_obj list \<Rightarrow> debt_obj list" where
  "ProcessCurrentCleanList debtMap toClean =
     (let rc = CountShareMemoryRefCount debtMap
      in fold (\<lambda>(name, baseMap). if length baseMap > 1 then CheckAndCleanMultiBaseNode name baseMap rc
           else CheckAndCleanSingleBaseNode name baseMap rc) (CollectExportObjsByBaseNode debtMap) toClean)"

section \<open>Removing\<close>

definition CompareUbseMemShareBorrowExportObj :: "debt_obj \<Rightarrow> debt_obj \<Rightarrow> bool" where
  "CompareUbseMemShareBorrowExportObj x y =
     (case (first_export x, first_export y) of
        (Some i, Some j) \<Rightarrow> obj_name x = obj_name y \<and> i = j
      | _ \<Rightarrow> False)"

definition GetIntersection :: "debt_obj list \<Rightarrow> debt_obj list \<Rightarrow> debt_obj list" where
  "GetIntersection original current = filter (\<lambda>x. list_ex (\<lambda>y. CompareUbseMemShareBorrowExportObj y x) original) current"

definition ExecuteShareMemoryClean :: "debt_obj list \<Rightarrow> controller \<Rightarrow> controller" where
  "ExecuteShareMemoryClean toClean s = fold DeleteShareExport toClean s"

definition HandleClean :: "bool \<Rightarrow> bool \<Rightarrow> debt_obj list \<Rightarrow> controller \<Rightarrow> controller" where
  \<comment> \<open>whether the five minutes passed without a stop, whether the process stops then; the state is that after the wait\<close>
  "HandleClean waited stop original s =
     (if \<not> waited then s
      else let toClean = GetIntersection original (ProcessCurrentCleanList (GetNodeMemDebtInfoMap (ct_ledger s)) [])
        in if toClean \<noteq> [] \<and> \<not> stop then ExecuteShareMemoryClean toClean s else s)"

definition CleanShmZeroImportHandler :: "bool \<Rightarrow> bool \<Rightarrow> bool \<Rightarrow> bool \<Rightarrow> (controller \<Rightarrow> controller) \<Rightarrow> controller \<Rightarrow> controller" where
  \<comment> \<open>\<open>between\<close> is what the other threads do during the wait; if nothing is to be cleaned there is no wait\<close>
  "CleanShmZeroImportHandler leader stop waited stop2 between s =
     (if \<not> leader then s
      else if stop then s
      else let original = ProcessCurrentCleanList (GetNodeMemDebtInfoMap (ct_ledger s)) []
        in if original = [] then s else HandleClean waited stop2 original (between s))"

section \<open>The share to use\<close>

definition GetExportObjsByBaseNode :: "NodeMemDebtInfoMap \<Rightarrow> string \<Rightarrow> base_objs" where
  "GetExportObjsByBaseNode debtMap name =
     fold (\<lambda>(i, info). fold (\<lambda>(resId, x) m.
         if export_dying x then m
         else case first_export x of None \<Rightarrow> m | Some base \<Rightarrow> if resId = name then push_at base x m else m)
       (info (Export SHM))) debtMap []"

definition CollectBaseRefCount :: "base_objs \<Rightarrow> ref_counts \<Rightarrow> string \<Rightarrow> (NodeId \<times> nat) list" where
  "CollectBaseRefCount baseToObjs rc name =
     (if name = [] then []
      else case rc name of
          None \<Rightarrow> []
        | Some c \<Rightarrow> List.map_filter (\<lambda>(base, objs). if base = [] then None else map_option (Pair base) (c base)) baseToObjs)"

definition max_turn :: "NodeId \<times> nat \<Rightarrow> NodeId \<times> nat \<Rightarrow> NodeId \<times> nat" where
  "max_turn bc best = (if snd bc \<ge> snd best then bc else best)"

definition FindMaxRefCountBaseNode :: "(NodeId \<times> nat) list \<Rightarrow> NodeId" where
  "FindMaxRefCountBaseNode baseRefCount = fst (fold max_turn baseRefCount ([], 0))"

definition GetExportObjByBaseNode :: "base_objs \<Rightarrow> NodeId \<Rightarrow> debt_obj option" where
  \<comment> \<open>\<open>None\<close> is the default object\<close>
  "GetExportObjByBaseNode baseToObjs base =
     (case find (\<lambda>(i, objs). i = base \<and> objs \<noteq> []) baseToObjs of Some (i, x # xs) \<Rightarrow> Some x | _ \<Rightarrow> None)"

definition IsImportObjMatch :: "debt_obj \<Rightarrow> string \<Rightarrow> NodeId \<Rightarrow> bool" where
  "IsImportObjMatch x name base = (case first_export x of None \<Rightarrow> False | Some i \<Rightarrow> obj_name x = name \<and> i = base)"

definition CollectImportObjsFromNode :: "(string \<times> debt_obj) list \<Rightarrow> string \<Rightarrow> NodeId \<Rightarrow> debt_obj list" where
  "CollectImportObjsFromNode importMap name base = filter (\<lambda>x. IsImportObjMatch x name base) (map snd importMap)"

definition live_import :: "debt_obj \<Rightarrow> bool" where
  "live_import x \<longleftrightarrow> mo_state x \<noteq> UBSE_MEM_IMPORT_DESTROYED"

definition GetAllImportObjsByName :: "string \<Rightarrow> ledger \<Rightarrow> debt_obj list" where
  "GetAllImportObjsByName name l =
     filter live_import (List.map_filter (\<lambda>(i, nm). NodeGet name nm) (nodeMap (l (Import SHM))))"

definition CollectExportObjsByName :: "string \<Rightarrow> ledger \<Rightarrow> (NodeId \<times> debt_obj) list" where
  "CollectExportObjsByName name l =
     fold (\<lambda>(i, nm) m.
         case NodeGet name nm of
           None \<Rightarrow> m
         | Some x \<Rightarrow> if export_dying x then m else case first_export x of None \<Rightarrow> m | Some base \<Rightarrow> AList.update base x m)
       (nodeMap (l (Export SHM))) []"

definition import_turn :: "string \<Rightarrow> string \<times> debt_obj \<Rightarrow> (NodeId \<Rightarrow> nat option) \<times> (NodeId \<Rightarrow> debt_obj list option) \<Rightarrow>
    (NodeId \<Rightarrow> nat option) \<times> (NodeId \<Rightarrow> debt_obj list option)" where
  "import_turn name rx acc = (case (rx, acc) of ((resId, x), (counts, objs)) \<Rightarrow>
     if resId \<noteq> name then acc
     else if mo_state x = UBSE_MEM_IMPORT_DESTROYED then acc
     else case first_export x of
         None \<Rightarrow> acc
       | Some base \<Rightarrow> (counts(base \<mapsto> (case counts base of None \<Rightarrow> 0 | Some n \<Rightarrow> n) + 1),
           objs(base \<mapsto> (case objs base of None \<Rightarrow> [] | Some xs \<Rightarrow> xs) @ [x])))"

definition CollectImportObjsAndRefCount :: "string \<Rightarrow> ledger \<Rightarrow> (NodeId \<Rightarrow> nat option) \<times> (NodeId \<Rightarrow> debt_obj list option)" where
  "CollectImportObjsAndRefCount name l =
     fold (\<lambda>(i, nm). fold (import_turn name) nm) (nodeMap (l (Import SHM))) (\<lambda>_. None, \<lambda>_. None)"

definition FindMaxRefCountBase :: "(NodeId \<times> debt_obj) list \<Rightarrow> (NodeId \<Rightarrow> nat option) \<Rightarrow> NodeId" where
  \<comment> \<open>the overload for the ledger\<close>
  "FindMaxRefCountBase baseToExportObjs counts =
     fst (fold max_turn (map (\<lambda>(base, x). (base, case counts base of None \<Rightarrow> 0 | Some n \<Rightarrow> n)) baseToExportObjs) ([], 0))"

definition GetMaxRefCountExportObj :: "string \<Rightarrow> ledger \<Rightarrow> debt_obj option \<times> debt_obj list" where
  "GetMaxRefCountExportObj name l =
     (let exports = CollectExportObjsByName name l
      in if exports = [] then (None, GetAllImportObjsByName name l)
         else case CollectImportObjsAndRefCount name l of (counts, objs) \<Rightarrow>
           let base = FindMaxRefCountBase exports counts
           in (map_of exports base, case objs base of None \<Rightarrow> [] | Some xs \<Rightarrow> xs))"

end
