(* ===== verification/ShmProps.thy ===== *)
theory ShmProps
  imports ShmClean SnapshotLaws
begin

text \<open>The cleaning of shared memory: which shares it removes, and which it keeps.\<close>

section \<open>Entries of a snapshot\<close>

definition entries :: "obj_type \<Rightarrow> NodeMemDebtInfoMap \<Rightarrow> (string \<times> debt_obj) list" where
  "entries t dm = concat (map (\<lambda>(i, info). info t) dm)"

lemma fold_entries: "fold (\<lambda>(i, info). fold g (info t)) dm acc = fold g (entries t dm) acc"
  by (induction dm arbitrary: acc) (auto simp: entries_def)

definition exported_as :: "string \<Rightarrow> NodeId \<Rightarrow> string \<times> debt_obj \<Rightarrow> bool" where
  "exported_as name base e \<longleftrightarrow> fst e = name \<and> first_export (snd e) = Some base \<and> \<not> export_dying (snd e)"

definition imported_as :: "string \<Rightarrow> NodeId \<Rightarrow> string \<times> debt_obj \<Rightarrow> bool" where
  "imported_as name base e \<longleftrightarrow> fst e = name \<and> first_export (snd e) = Some base \<and> live_import (snd e)"

definition exports_of :: "NodeMemDebtInfoMap \<Rightarrow> string \<Rightarrow> NodeId \<Rightarrow> debt_obj list" where
  "exports_of dm name base = map snd (filter (exported_as name base) (entries (Export SHM) dm))"

definition imports_of :: "NodeMemDebtInfoMap \<Rightarrow> string \<Rightarrow> NodeId \<Rightarrow> debt_obj list" where
  "imports_of dm name base = map snd (filter (imported_as name base) (entries (Import SHM) dm))"

section \<open>Reference counts\<close>

definition refs :: "ref_counts \<Rightarrow> string \<Rightarrow> NodeId \<Rightarrow> nat option" where
  "refs rc name base = Option.bind (rc name) (\<lambda>c. c base)"

lemma refs_put_zero: "refs (put_zero n b rc) n' b' = (if n' = n \<and> b' = b then Some 0 else refs rc n' b')"
  by (simp add: refs_def put_zero_def split: option.split)

lemma refs_increment: "refs (incrementRefCount n b rc) n' b' = (if n' = n \<and> b' = b then map_option Suc (refs rc n b) else refs rc n' b')"
  by (auto simp: refs_def incrementRefCount_def split: option.split)

lemma refs_exports: "refs (collectExportInfo dm) name base = (if exports_of dm name base = [] then None else Some 0)"
proof -
  have "refs (fold (\<lambda>(n, x) rc. case first_export x of None \<Rightarrow> rc | Some b \<Rightarrow> if export_dying x then rc else put_zero n b rc) es rc) name base =
      (if \<exists>e \<in> set es. exported_as name base e then Some 0 else refs rc name base)" for es rc
    by (induction es arbitrary: rc) (auto simp: exported_as_def refs_put_zero split: option.splits if_splits)
  then show ?thesis
    by (simp add: collectExportInfo_def fold_entries exports_of_def filter_empty_conv) (auto simp: refs_def)
qed

lemma refs_count:
  "refs (CountShareMemoryRefCount dm) name base = (if exports_of dm name base = [] then None else Some (length (imports_of dm name base)))"
proof -
  have "refs (fold (\<lambda>(n, x) rc. case first_export x of None \<Rightarrow> rc
        | Some b \<Rightarrow> if mo_state x = UBSE_MEM_IMPORT_DESTROYED then rc else incrementRefCount n b rc) es rc) name base =
      map_option ((+) (length (filter (imported_as name base) es))) (refs rc name base)" for es rc
  proof (induction es arbitrary: rc)
    case Nil then show ?case by (simp add: option.map_ident)
  next
    case (Cons e es)
    obtain n x where e: "e = (n, x)" by (cases e)
    show ?case
      by (cases "refs rc name base")
        (auto simp: e Cons.IH imported_as_def live_import_def refs_increment split: option.split)
  qed
  then show ?thesis
    by (simp add: CountShareMemoryRefCount_def updateRefCount_def fold_entries refs_exports imports_of_def)
qed

section \<open>Groups\<close>

definition group :: "(string \<times> base_objs) list \<Rightarrow> string \<Rightarrow> NodeId \<Rightarrow> debt_obj list" where
  "group m name base = (case map_of m name of None \<Rightarrow> [] | Some b \<Rightarrow> (case map_of b base of None \<Rightarrow> [] | Some xs \<Rightarrow> xs))"

definition group_turn :: "string \<times> debt_obj \<Rightarrow> (string \<times> base_objs) list \<Rightarrow> (string \<times> base_objs) list" where
  "group_turn = (\<lambda>(name, x) m. case first_export x of
       None \<Rightarrow> m
     | Some base \<Rightarrow> if export_dying x then m
         else AList.update name (push_at base x (case map_of m name of None \<Rightarrow> [] | Some b \<Rightarrow> b)) m)"

definition groups_ok :: "(string \<times> base_objs) list \<Rightarrow> bool" where
  "groups_ok m \<longleftrightarrow> distinct (map fst m) \<and> (\<forall>(name, b) \<in> set m. b \<noteq> [] \<and> distinct (map fst b) \<and> (\<forall>(base, xs) \<in> set b. xs \<noteq> []))"

lemma map_of_push: "map_of (push_at k v m) k' = (if k' = k then Some ((case map_of m k of None \<Rightarrow> [] | Some vs \<Rightarrow> vs) @ [v]) else map_of m k')"
  by (simp add: push_at_def update_conv')

lemma group_turn_at: "group (group_turn e m) name base = group m name base @ (if exported_as name base e then [snd e] else [])"
  by (cases e) (auto simp: group_turn_def group_def exported_as_def update_conv' map_of_push split: option.splits)

lemma set_update: "set (AList.update k v m) \<subseteq> insert (k, v) (set m)"
  by (induction m) auto

lemma groups_ok_turn: "groups_ok m \<Longrightarrow> groups_ok (group_turn e m)"
proof -
  assume ok: "groups_ok m"
  obtain name x where e: "e = (name, x)" by (cases e)
  show ?thesis
  proof (cases "first_export x")
    case None then show ?thesis using ok by (simp add: e group_turn_def)
  next
    case (Some base)
    let ?b = "case map_of m name of None \<Rightarrow> [] | Some b \<Rightarrow> b"
    have b: "distinct (map fst ?b)" "\<forall>(c, xs) \<in> set ?b. xs \<noteq> []"
      using ok by (auto simp: groups_ok_def split: option.split dest!: map_of_SomeD)
    have u: "push_at base x ?b \<noteq> []" by (cases ?b) (auto simp: push_at_def)
    have d: "distinct (map fst (push_at base x ?b))" using b(1) by (simp add: push_at_def distinct_update)
    have ne: "\<forall>(c, xs) \<in> set (push_at base x ?b). xs \<noteq> []"
      using b(2) set_update [of base _ ?b] unfolding push_at_def by fastforce
    have "distinct (map fst (AList.update name (push_at base x ?b) m))" using ok by (simp add: groups_ok_def distinct_update)
    moreover have "\<forall>(n, b) \<in> set (AList.update name (push_at base x ?b) m). b \<noteq> [] \<and> distinct (map fst b) \<and> (\<forall>(c, xs) \<in> set b. xs \<noteq> [])"
    proof (intro ballI, clarify)
      fix n b assume "(n, b) \<in> set (AList.update name (push_at base x ?b) m)"
      then have "(n, b) = (name, push_at base x ?b) \<or> (n, b) \<in> set m" using set_update by fastforce
      then show "b \<noteq> [] \<and> distinct (map fst b) \<and> (\<forall>(c, xs) \<in> set b. xs \<noteq> [])" using u d ne ok by (auto simp: groups_ok_def)
    qed
    ultimately show ?thesis using ok Some by (simp add: e group_turn_def groups_ok_def)
  qed
qed

lemma groups:
  "groups_ok (CollectExportObjsByBaseNode dm)" "group (CollectExportObjsByBaseNode dm) name base = exports_of dm name base"
proof -
  have c: "CollectExportObjsByBaseNode dm = fold group_turn (entries (Export SHM) dm) []"
    unfolding CollectExportObjsByBaseNode_def group_turn_def fold_entries ..
  have "groups_ok m \<Longrightarrow> groups_ok (fold group_turn es m)" for es m
    by (induction es arbitrary: m) (simp_all add: groups_ok_turn)
  moreover have "groups_ok []" by (simp add: groups_ok_def)
  ultimately show "groups_ok (CollectExportObjsByBaseNode dm)" unfolding c by blast
  have "group (fold group_turn es m) name base = group m name base @ map snd (filter (exported_as name base) es)" for es m
    by (induction es arbitrary: m) (simp_all add: group_turn_at)
  then show "group (CollectExportObjsByBaseNode dm) name base = exports_of dm name base"
    by (simp add: c exports_of_def group_def)
qed

lemma group_member:
  assumes "(name, b) \<in> set (CollectExportObjsByBaseNode dm)" and "(base, xs) \<in> set b"
  shows "xs = exports_of dm name base" and "xs \<noteq> []"
proof -
  have ok: "groups_ok (CollectExportObjsByBaseNode dm)" by (rule groups)
  have "map_of (CollectExportObjsByBaseNode dm) name = Some b" "map_of b base = Some xs"
    using ok assms by (auto simp: groups_ok_def intro!: map_of_is_SomeI)
  then show "xs = exports_of dm name base" by (simp add: groups(2) [symmetric] group_def)
  show "xs \<noteq> []" using ok assms by (auto simp: groups_ok_def)
qed

section \<open>What is cleaned\<close>

definition clean_turn :: "NodeMemDebtInfoMap \<Rightarrow> string \<times> base_objs \<Rightarrow> debt_obj list \<Rightarrow> debt_obj list" where
  "clean_turn dm = (\<lambda>(name, b). if length b > 1 then CheckAndCleanMultiBaseNode name b (CountShareMemoryRefCount dm)
     else CheckAndCleanSingleBaseNode name b (CountShareMemoryRefCount dm))"

lemma Process_turns: "ProcessCurrentCleanList dm tc = fold (clean_turn dm) (CollectExportObjsByBaseNode dm) tc"
  by (simp add: ProcessCurrentCleanList_def clean_turn_def Let_def)

definition unused :: "NodeMemDebtInfoMap \<Rightarrow> string \<Rightarrow> debt_obj \<Rightarrow> bool" where
  \<comment> \<open>an exported share of the name that no live import refers to\<close>
  "unused dm name x \<longleftrightarrow> (\<exists>base. x \<in> set (exports_of dm name base) \<and> imports_of dm name base = [])"

lemma all_zero: "IsAllRefCountZero b rc name \<Longrightarrow> (base, xs) \<in> set b \<Longrightarrow> refs rc name base = Some 0"
  by (auto simp: IsAllRefCountZero_def refs_def list_all_iff split: option.splits)

lemma not_all_zero: "\<not> IsAllRefCountZero b rc name \<Longrightarrow> b \<noteq> [] \<Longrightarrow> \<exists>(base, xs) \<in> set b. refs rc name base \<noteq> Some 0"
  by (cases b) (auto simp: IsAllRefCountZero_def refs_def list_all_iff split: option.splits)

lemma clean_zero_refs:
  "set (CleanRefCountZeroObjs b rc name tc) = set tc \<union> {x. \<exists>base xs. (base, xs) \<in> set b \<and> x \<in> set xs \<and> refs rc name base = Some 0}"
  by (auto simp: CleanRefCountZeroObjs_def refs_def split: option.split if_splits)

lemma clean_single:
  "CheckAndCleanSingleBaseNode name b rc tc = tc \<or>
    (\<exists>base x xs bs. b = (base, x # xs) # bs \<and> refs rc name base = Some 0 \<and> do_shmAnonymous x \<and> CheckAndCleanSingleBaseNode name b rc tc = tc @ [x])"
  by (auto simp: CheckAndCleanSingleBaseNode_def refs_def split: list.split option.split)

lemma clean_turn_new:
  assumes m: "(name, b) \<in> set (CollectExportObjsByBaseNode dm)" and x: "x \<in> set (clean_turn dm (name, b) tc)" and new: "x \<notin> set tc"
  shows "unused dm name x"
proof -
  let ?rc = "CountShareMemoryRefCount dm"
  have u: "unused dm name x" if "(base, xs) \<in> set b" "x \<in> set xs" "refs ?rc name base = Some 0" for base xs
    using group_member [OF m that(1)] that(2,3) by (auto simp: unused_def refs_count split: if_splits)
  show ?thesis
  proof (cases "length b > 1")
    case True
    show ?thesis
    proof (cases "IsAllRefCountZero b ?rc name")
      case z: True
      have "x \<in> set (CollectAllExportObjs b)"
        using x new True z
        by (auto simp: clean_turn_def CheckAndCleanMultiBaseNode_def CleanExtraObjs_def CleanAnonymousObjs_def FilterRemainingObjs_def Let_def
            split: if_splits dest!: in_set_dropD)
      then obtain base xs where "(base, xs) \<in> set b" "x \<in> set xs" by (auto simp: CollectAllExportObjs_def)
      then show ?thesis using u all_zero [OF z] by blast
    next
      case False
      then show ?thesis using x new True u by (auto simp: clean_turn_def CheckAndCleanMultiBaseNode_def clean_zero_refs)
    qed
  next
    case False
    then show ?thesis using clean_single [of name b ?rc tc] x new u by (auto simp: clean_turn_def)
  qed
qed

lemma cleaned_unused:
  assumes "x \<in> set (ProcessCurrentCleanList dm [])"
  shows "\<exists>name. unused dm name x"
proof -
  have "x \<in> set (fold (clean_turn dm) es tc) \<Longrightarrow> x \<in> set tc \<or> (\<exists>name. unused dm name x)" if "set es \<subseteq> set (CollectExportObjsByBaseNode dm)" for es tc
    using that
  proof (induction es arbitrary: tc)
    case Nil then show ?case by simp
  next
    case (Cons e es)
    then show ?case using clean_turn_new [of "fst e" "snd e" dm x tc] by (cases e) auto
  qed
  from this [OF order_refl, of "[]"] show ?thesis using assms by (auto simp: Process_turns)
qed

section \<open>Removing\<close>

lemma clean_sends:
  "ct_sent (ExecuteShareMemoryClean xs s) = ct_sent s @ List.map_filter (\<lambda>x. map_option (\<lambda>i. Destroy_Export SHM i (dying x)) (export_home SHM x)) xs"
proof (induction xs arbitrary: s)
  case Nil then show ?case by (simp add: ExecuteShareMemoryClean_def)
next
  case (Cons x xs)
  have "ct_sent (DeleteShareExport x s) = ct_sent s @ (case export_home SHM x of None \<Rightarrow> [] | Some i \<Rightarrow> [Destroy_Export SHM i (dying x)])"
    by (simp add: DeleteShareExport_def DeleteExport_def sent_out_def ExportUpdateState_def on_type_def split: option.split)
  then show ?case using Cons.IH [of "DeleteShareExport x s"] by (simp add: ExecuteShareMemoryClean_def split: option.split)
qed

definition shares_named :: "NodeMemDebtInfoMap \<Rightarrow> bool" where
  \<comment> \<open>a share is filed under the name of its request\<close>
  "shares_named dm \<longleftrightarrow> (\<forall>(name, x) \<in> set (entries (Export SHM) dm). obj_name x = name)"

lemma exports_of_member:
  "x \<in> set (exports_of dm name base) \<longleftrightarrow> (name, x) \<in> set (entries (Export SHM) dm) \<and> first_export x = Some base \<and> \<not> export_dying x"
  by (force simp: exports_of_def exported_as_def)

lemma exports_named: "shares_named dm \<Longrightarrow> x \<in> set (exports_of dm name base) \<Longrightarrow> obj_name x = name"
  by (auto simp: shares_named_def exports_of_member)

text \<open>
  C14: The cleaning of shared memory asks an agent to destroy a share only when the ledger of the master had no live import of
  that name from that base node both when the cleaning began and after the wait, whatever happened in between; and
  the share is exported and not already being destroyed.
\<close>
theorem share_in_use_kept:
  assumes "shares_named (GetNodeMemDebtInfoMap (ct_ledger s))" and "shares_named (GetNodeMemDebtInfoMap (ct_ledger (between s)))"
    and "Destroy_Export k i y \<in> set (ct_sent (CleanShmZeroImportHandler leader stop waited stop2 between s))"
    and "Destroy_Export k i y \<notin> set (ct_sent s)" and "Destroy_Export k i y \<notin> set (ct_sent (between s))"
  shows "\<exists>x. k = SHM \<and> y = dying x \<and> leader \<and> waited \<and>
    x \<in> set (exports_of (GetNodeMemDebtInfoMap (ct_ledger (between s))) (obj_name x) i) \<and>
    imports_of (GetNodeMemDebtInfoMap (ct_ledger s)) (obj_name x) i = [] \<and>
    imports_of (GetNodeMemDebtInfoMap (ct_ledger (between s))) (obj_name x) i = []"
proof -
  let ?d0 = "GetNodeMemDebtInfoMap (ct_ledger s)" and ?d1 = "GetNodeMemDebtInfoMap (ct_ledger (between s))"
  let ?c = "GetIntersection (ProcessCurrentCleanList ?d0 []) (ProcessCurrentCleanList ?d1 [])"
  have run: "leader" "waited" "Destroy_Export k i y \<in> set (ct_sent (ExecuteShareMemoryClean ?c (between s)))"
    using assms(3,4,5) by (auto simp: CleanShmZeroImportHandler_def HandleClean_def Let_def split: if_splits)
  then obtain x where k: "k = SHM" and y: "y = dying x" and home: "export_home SHM x = Some i" and x: "x \<in> set ?c"
    using assms(5) by (auto simp: clean_sends List.map_filter_def)
  obtain z where z: "z \<in> set (ProcessCurrentCleanList ?d0 [])" and eq: "obj_name z = obj_name x" "first_export z = first_export x"
    and x1: "x \<in> set (ProcessCurrentCleanList ?d1 [])"
    using x by (auto simp: GetIntersection_def CompareUbseMemShareBorrowExportObj_def list_ex_iff split: option.splits)
  have first: "first_export x = Some i" using home by (simp add: export_home_def)
  obtain n where n: "unused ?d0 n z" using cleaned_unused [OF z] ..
  obtain n' where n': "unused ?d1 n' x" using cleaned_unused [OF x1] ..
  have "n = obj_name x" "n' = obj_name x" using n n' exports_named assms(1,2) eq by (auto simp: unused_def)
  then show ?thesis using n n' first eq run(1,2) k y by (auto simp: unused_def exports_of_member)
qed

definition demo_share :: "NodeId \<Rightarrow> bool \<Rightarrow> debt_obj" where
  "demo_share base anonymous = \<lparr>mo_req = ShareReq \<lparr>sb_name = ''m'', sb_requestNodeId = base, sb_size = 128,
       sb_shmRegion = \<lparr>rg_nodeNum = 0, rg_nodelist = []\<rparr>, sb_providerList = [],
       sb_withAffinity = \<lparr>af_affinitySocketId = 0, af_enableCreateWithAffinity = False\<rparr>, sb_lenderInfo = lender_info_init\<rparr>,
     mo_algoResult = algo_result_init\<lparr>ar_exportNumaInfos :=
       [\<lparr>dn_nodeId = base, dn_socketId = 0, dn_numaId = 0, dn_size = 128, dn_portId = 0, dn_chipId = 0\<rparr>]\<rparr>,
     mo_state = UBSE_MEM_EXPORT_SUCCESS, do_expectState = UBSE_MEM_STATE_SUCCEEDED, do_importResults = [], do_decoderResult = [],
     do_importNodeId = [], do_isLastExportSuccess = False, do_shmAnonymous = anonymous\<rparr>"

lemma demo_share_facts [simp]:
  "obj_name (demo_share b a) = ''m''" "first_export (demo_share b a) = Some b" "export_dying (demo_share b a) = False"
  "do_shmAnonymous (demo_share b a) = a"
  by (simp_all add: demo_share_def first_export_def export_dying_def)

definition demo_shares :: "(NodeId \<times> debt_obj) list \<Rightarrow> controller" where
  "demo_shares xs = \<lparr>ct_ledger = (\<lambda>_. type_debt_map_new)(Export SHM :=
       \<lparr>nodeMap = map (\<lambda>(i, x). (i, [(''m'', x)])) xs, exportResIdToNodeId = (\<lambda>_. None)\<rparr>),
     ct_scheduler = SchedulerImpl_new, ct_sent = [], ct_initLedgerDone = {}\<rparr>"

lemma demo_snapshot:
  "GetNodeMemDebtInfoMap (ct_ledger (demo_shares [(''1'', x)])) = [(''1'', no_debt(Export SHM := [(''m'', x)]))]"
  by (simp add: GetNodeMemDebtInfoMap_def GetAllDebtInfo_def all_types_def merge_type_def demo_shares_def type_debt_map_new_def)

theorem share_in_use_kept_witness:
  "\<exists>x. dying (demo_share ''1'' True) = dying x \<and>
    imports_of (GetNodeMemDebtInfoMap (ct_ledger (demo_shares [(''1'', demo_share ''1'' True)]))) (obj_name x) ''1'' = []"
proof -
  let ?s = "demo_shares [(''1'', demo_share ''1'' True)]" and ?d = "[(''1'', no_debt(Export SHM := [(''m'', demo_share ''1'' True)]))]"
  have e: "entries (Export SHM) ?d = [(''m'', demo_share ''1'' True)]" "entries (Import SHM) ?d = []"
    by (simp_all add: entries_def no_debt_def)
  have n: "shares_named (GetNodeMemDebtInfoMap (ct_ledger ?s))" by (simp add: demo_snapshot shares_named_def e)
  have x: "exports_of ?d ''m'' ''1'' = [demo_share ''1'' True]" "imports_of ?d ''m'' ''1'' = []"
    by (simp_all add: exports_of_def imports_of_def e exported_as_def)
  have c: "CollectExportObjsByBaseNode ?d = [(''m'', [(''1'', [demo_share ''1'' True])])]"
    by (simp add: CollectExportObjsByBaseNode_def no_debt_def push_at_def)
  have p: "ProcessCurrentCleanList ?d [] = [demo_share ''1'' True]"
    by (simp add: ProcessCurrentCleanList_def c CheckAndCleanSingleBaseNode_def refs_def [symmetric] refs_count x)
  have h: "export_home SHM (demo_share ''1'' True) = Some ''1''" by (simp add: export_home_def)
  have "Destroy_Export SHM ''1'' (dying (demo_share ''1'' True)) \<in> set (ct_sent (CleanShmZeroImportHandler True False True False id ?s))"
    by (simp add: CleanShmZeroImportHandler_def HandleClean_def demo_snapshot p GetIntersection_def CompareUbseMemShareBorrowExportObj_def
        clean_sends List.map_filter_def h)
  moreover have "Destroy_Export SHM ''1'' (dying (demo_share ''1'' True)) \<notin> set (ct_sent ?s)" by (simp add: demo_shares_def)
  ultimately show ?thesis using share_in_use_kept [of ?s id SHM "''1''" "dying (demo_share ''1'' True)" True False True False] n by auto
qed

section \<open>What is kept\<close>

definition one_per_base :: "NodeMemDebtInfoMap \<Rightarrow> bool" where
  \<comment> \<open>a base node exports a name at most once\<close>
  "one_per_base dm \<longleftrightarrow> (\<forall>name base. length (exports_of dm name base) \<le> 1)"

lemma one_export: "one_per_base dm \<Longrightarrow> x \<in> set (exports_of dm name base) \<Longrightarrow> exports_of dm name base = [x]"
proof -
  assume "one_per_base dm" and x: "x \<in> set (exports_of dm name base)"
  then have "length (exports_of dm name base) \<le> 1" by (simp add: one_per_base_def)
  with x show ?thesis by (cases "exports_of dm name base") auto
qed

lemma distinct_groups:
  assumes "distinct (map fst b)" and "\<forall>(base, xs) \<in> set b. \<exists>x. xs = [x] \<and> first_export x = Some base"
  shows "distinct (concat (map snd b))"
  using assms
proof (induction b)
  case Nil then show ?case by simp
next
  case (Cons e b)
  obtain base xs where e: "e = (base, xs)" by (cases e)
  then obtain x where x: "xs = [x]" "first_export x = Some base" using Cons.prems(2) by auto
  have "x \<notin> set (concat (map snd b))"
  proof
    assume "x \<in> set (concat (map snd b))"
    then obtain base' xs' where m: "(base', xs') \<in> set b" "x \<in> set xs'" by auto
    then have "base' = base" using Cons.prems(2) x(2) by fastforce
    then show False using m Cons.prems(1) by (force simp: e)
  qed
  then show ?case using Cons x by (simp add: e)
qed

lemma clean_turn_keeps:
  assumes one: "one_per_base dm" and named: "shares_named dm" and m: "(name, b) \<in> set (CollectExportObjsByBaseNode dm)"
    and x: "x \<in> set (exports_of dm name base)" "\<not> do_shmAnonymous x" and tc: "\<And>y. y \<in> set tc \<Longrightarrow> obj_name y \<noteq> name"
  shows "\<exists>base' x'. x' \<in> set (exports_of dm name base') \<and> x' \<notin> set (clean_turn dm (name, b) tc)"
proof -
  let ?rc = "CountShareMemoryRefCount dm"
  have ok: "groups_ok (CollectExportObjsByBaseNode dm)" by (rule groups)
  then have b: "b \<noteq> []" "distinct (map fst b)" using m by (auto simp: groups_ok_def)
  have mb: "map_of (CollectExportObjsByBaseNode dm) name = Some b" using ok m by (auto simp: groups_ok_def intro: map_of_is_SomeI)
  have xb: "(base, exports_of dm name base) \<in> set b"
    using groups(2) [of dm name base] x(1) mb by (auto simp: group_def split: option.splits dest: map_of_SomeD)
  have single: "xs = [the_elem (set xs)] \<and> first_export (the_elem (set xs)) = Some c" if "(c, xs) \<in> set b" for c xs
  proof -
    have "xs \<noteq> []" using group_member(2) [OF m that] .
    then obtain y where y: "y \<in> set xs" by (cases xs) auto
    then have "xs = [y]" "first_export y = Some c" using one_export [OF one] group_member(1) [OF m that] by (auto simp: exports_of_member)
    then show ?thesis by simp
  qed
  have nm: "obj_name y = name" if "(c, xs) \<in> set b" "y \<in> set xs" for c xs y
    using group_member(1) [OF m that(1)] that(2) exports_named [OF named] by blast
  have notc: "y \<notin> set tc" if "(c, xs) \<in> set b" "y \<in> set xs" for c xs y using nm [OF that] tc by blast
  have fe: "first_export y = Some c" if "(c, xs) \<in> set b" "y \<in> set xs" for c xs y
    using group_member(1) [OF m that(1)] that(2) by (simp add: exports_of_member)
  show ?thesis
  proof (cases "length b > 1")
    case False
    then obtain e where e: "b = [e]" using b(1) by (metis One_nat_def Suc_lessI length_0_conv length_Suc_conv not_gr_zero length_greater_0_conv)
    have "b = [(base, [x])]" using xb one_export [OF one x(1)] by (simp add: e)
    then have "x \<notin> set (clean_turn dm (name, b) tc)"
      using clean_single [of name b ?rc tc] x(2) notc [OF xb x(1)] by (auto simp: clean_turn_def)
    then show ?thesis using x(1) by blast
  next
    case multi: True
    show ?thesis
    proof (cases "IsAllRefCountZero b ?rc name")
      case False
      obtain c xs where c: "(c, xs) \<in> set b" "refs ?rc name c \<noteq> Some 0" using not_all_zero [OF False b(1)] by blast
      let ?y = "hd xs"
      have y: "?y \<in> set xs" using group_member(2) [OF m c(1)] by simp
      have "?y \<notin> set (clean_turn dm (name, b) tc)"
        using multi False notc [OF c(1) y] c(2) fe [OF c(1) y] fe by (auto simp: clean_turn_def CheckAndCleanMultiBaseNode_def clean_zero_refs)
      then show ?thesis using y group_member(1) [OF m c(1)] by blast
    next
      case zero: True
      let ?all = "CollectAllExportObjs b"
      let ?tc1 = "CleanAnonymousObjs ?all tc"
      let ?rem = "FilterRemainingObjs ?all ?tc1"
      have xa: "x \<in> set ?all" using xb x(1) by (force simp: CollectAllExportObjs_def)
      have "\<not> IsObjInVector x ?tc1"
      proof
        assume "IsObjInVector x ?tc1"
        then obtain y where y: "y \<in> set ?tc1" "obj_name y = obj_name x" "first_export y = first_export x"
          by (auto simp: IsObjInVector_def list_ex_iff)
        then have "y \<in> set ?all" "do_shmAnonymous y" using tc nm [OF xb x(1)] by (auto simp: CleanAnonymousObjs_def)
        then obtain c xs where c: "(c, xs) \<in> set b" "y \<in> set xs" by (auto simp: CollectAllExportObjs_def)
        then have "c = base" using fe [OF c] fe [OF xb x(1)] y(3) by simp
        then have "y \<in> set (exports_of dm name base)" using c group_member(1) [OF m c(1)] by simp
        then have "y = x" using one_export [OF one x(1)] by simp
        then show False using \<open>do_shmAnonymous y\<close> x(2) by simp
      qed
      then have "?rem \<noteq> []" using xa by (auto simp: FilterRemainingObjs_def filter_empty_conv)
      then obtain z zs where z: "?rem = z # zs" by (cases ?rem) auto
      have "distinct ?all" unfolding CollectAllExportObjs_def
        by (rule distinct_groups [OF b(2)]) (use single in blast)
      then have "distinct ?rem" by (simp add: FilterRemainingObjs_def)
      then have "z \<notin> set zs" by (simp add: z)
      moreover have "z \<in> set ?all" "\<not> IsObjInVector z ?tc1" using z by (auto simp: FilterRemainingObjs_def filter_eq_Cons_iff)
      then have "z \<notin> set ?tc1" by (auto simp: IsObjInVector_def list_ex_iff)
      ultimately have "z \<notin> set (CleanExtraObjs ?rem ?tc1)" by (simp add: CleanExtraObjs_def z)
      moreover have "clean_turn dm (name, b) tc = CleanExtraObjs ?rem ?tc1"
        using multi zero xa by (auto simp: clean_turn_def CheckAndCleanMultiBaseNode_def Let_def)
      moreover obtain c xs where "(c, xs) \<in> set b" "z \<in> set xs" using \<open>z \<in> set ?all\<close> by (auto simp: CollectAllExportObjs_def)
      ultimately show ?thesis using group_member(1) [OF m] by metis
    qed
  qed
qed

lemma clean_fold_named:
  assumes "shares_named dm" and "set es \<subseteq> set (CollectExportObjsByBaseNode dm)" and "x \<in> set (fold (clean_turn dm) es tc)"
  shows "x \<in> set tc \<or> obj_name x \<in> fst ` set es"
  using assms(2,3)
proof (induction es arbitrary: tc)
  case Nil then show ?case by simp
next
  case (Cons e es)
  obtain n b where e: "e = (n, b)" by (cases e)
  have "obj_name x = n" if "x \<in> set (clean_turn dm e tc)" "x \<notin> set tc"
    using clean_turn_new [of n b dm x tc] that Cons.prems(1) exports_named [OF assms(1)] by (auto simp: e unused_def)
  then show ?case using Cons.IH [of "clean_turn dm e tc"] Cons.prems by (auto simp: e)
qed

text \<open>
  C18: A name that has a share which is not anonymous keeps one: whatever the reference counts, not all of its exported shares
  are cleaned at once.
\<close>
theorem named_share_kept:
  assumes "shares_named dm" and "one_per_base dm" and "x \<in> set (exports_of dm name base)" and "\<not> do_shmAnonymous x"
  shows "\<exists>base' x'. x' \<in> set (exports_of dm name base') \<and> x' \<notin> set (ProcessCurrentCleanList dm [])"
proof -
  let ?C = "CollectExportObjsByBaseNode dm"
  have d: "distinct (map fst ?C)" using groups(1) [of dm] by (simp add: groups_ok_def)
  obtain b where "map_of ?C name = Some b"
    using groups(2) [of dm name base] assms(3) by (auto simp: group_def split: option.splits)
  then have m: "(name, b) \<in> set ?C" by (rule map_of_SomeD)
  then obtain es1 es2 where C: "?C = es1 @ (name, b) # es2" by (auto simp: in_set_conv_decomp)
  let ?tc = "fold (clean_turn dm) es1 []"
  have tc: "obj_name y \<noteq> name" if "y \<in> set ?tc" for y
    using clean_fold_named [OF assms(1), of es1 y "[]"] that d by (auto simp: C)
  obtain base' x' where x': "x' \<in> set (exports_of dm name base')" "x' \<notin> set (clean_turn dm (name, b) ?tc)"
    using clean_turn_keeps [OF assms(2,1) m assms(3,4) tc] by blast
  have "x' \<notin> set (fold (clean_turn dm) es2 (clean_turn dm (name, b) ?tc))"
    using clean_fold_named [OF assms(1), of es2 x' "clean_turn dm (name, b) ?tc"] x' exports_named [OF assms(1) x'(1)] d
    by (auto simp: C)
  then show ?thesis using x'(1) by (auto simp: Process_turns C)
qed

theorem named_share_kept_witness:
  "\<exists>base' x'. x' \<in> set (exports_of [(''1'', no_debt(Export SHM := [(''m'', demo_share ''1'' False)])),
       (''2'', no_debt(Export SHM := [(''m'', demo_share ''2'' True)]))] ''m'' base') \<and>
     x' \<notin> set (ProcessCurrentCleanList [(''1'', no_debt(Export SHM := [(''m'', demo_share ''1'' False)])),
       (''2'', no_debt(Export SHM := [(''m'', demo_share ''2'' True)]))] [])"
proof -
  let ?d = "[(''1'', no_debt(Export SHM := [(''m'', demo_share ''1'' False)])), (''2'', no_debt(Export SHM := [(''m'', demo_share ''2'' True)]))]"
  have e: "entries (Export SHM) ?d = [(''m'', demo_share ''1'' False), (''m'', demo_share ''2'' True)]" by (simp add: entries_def)
  have "shares_named ?d" by (simp add: shares_named_def e)
  moreover have "one_per_base ?d" by (simp add: one_per_base_def exports_of_def e exported_as_def)
  moreover have "demo_share ''1'' False \<in> set (exports_of ?d ''m'' ''1'')" by (simp add: exports_of_member e)
  ultimately show ?thesis by (rule named_share_kept) simp
qed

section \<open>The share to use\<close>

definition live_refs :: "string \<Rightarrow> ledger \<Rightarrow> NodeId \<Rightarrow> debt_obj list" where
  \<comment> \<open>the live imports of a name from a base node\<close>
  "live_refs name l base = map snd (filter (imported_as name base) (concat (map snd (nodeMap (l (Import SHM))))))"

lemma import_turn_at:
  "fst (import_turn name e acc) base = (if imported_as name base e then Some ((case fst acc base of None \<Rightarrow> 0 | Some n \<Rightarrow> n) + 1) else fst acc base)"
  "snd (import_turn name e acc) base = (if imported_as name base e then Some ((case snd acc base of None \<Rightarrow> [] | Some xs \<Rightarrow> xs) @ [snd e]) else snd acc base)"
  by (cases e; cases acc; auto simp: import_turn_def imported_as_def live_import_def split: option.split)+

lemma import_turns:
  "(case fst (fold (import_turn name) es acc) base of None \<Rightarrow> 0 | Some n \<Rightarrow> n) =
     (case fst acc base of None \<Rightarrow> 0 | Some n \<Rightarrow> n) + length (filter (imported_as name base) es)"
  "(case snd (fold (import_turn name) es acc) base of None \<Rightarrow> [] | Some xs \<Rightarrow> xs) =
     (case snd acc base of None \<Rightarrow> [] | Some xs \<Rightarrow> xs) @ map snd (filter (imported_as name base) es)"
  by (induction es arbitrary: acc) (simp_all add: import_turn_at)

lemma collect_imports:
  "(case fst (CollectImportObjsAndRefCount name l) base of None \<Rightarrow> 0 | Some n \<Rightarrow> n) = length (live_refs name l base)"
  "(case snd (CollectImportObjsAndRefCount name l) base of None \<Rightarrow> [] | Some xs \<Rightarrow> xs) = live_refs name l base"
proof -
  have "fold (\<lambda>(i, nm). fold (import_turn name) nm) nodes acc = fold (import_turn name) (concat (map snd nodes)) acc"
    for nodes :: "(NodeId \<times> (string \<times> debt_obj) list) list" and acc
    by (induction nodes arbitrary: acc) auto
  then show "(case fst (CollectImportObjsAndRefCount name l) base of None \<Rightarrow> 0 | Some n \<Rightarrow> n) = length (live_refs name l base)"
    "(case snd (CollectImportObjsAndRefCount name l) base of None \<Rightarrow> [] | Some xs \<Rightarrow> xs) = live_refs name l base"
    by (simp_all add: CollectImportObjsAndRefCount_def live_refs_def import_turns)
qed

lemma max_turn_cases: "max_turn e best \<in> {e, best} \<and> snd e \<le> snd (max_turn e best) \<and> snd best \<le> snd (max_turn e best)"
  by (simp add: max_turn_def)

lemma max_turn_fold: "\<forall>e \<in> insert best (set es). snd e \<le> snd (fold max_turn es best)"
proof (induction es arbitrary: best)
  case Nil then show ?case by simp
next
  case (Cons e es)
  have "snd (max_turn e best) \<le> snd (fold max_turn es (max_turn e best))" "\<forall>f \<in> set es. snd f \<le> snd (fold max_turn es (max_turn e best))"
    using Cons.IH [of "max_turn e best"] by blast+
  then show ?case using max_turn_cases [of e best] by (auto intro: le_trans)
qed

lemma max_turn_in: "fold max_turn es best \<in> insert best (set es)"
proof (induction es arbitrary: best)
  case Nil then show ?case by simp
next
  case (Cons e es)
  have "fold max_turn es (max_turn e best) \<in> insert (max_turn e best) (set es)" by (rule Cons.IH)
  moreover have "max_turn e best = e \<or> max_turn e best = best" by (simp add: max_turn_def)
  ultimately show ?case by auto
qed

lemma max_turn_some: "es \<noteq> [] \<Longrightarrow> fold max_turn es (b, 0) \<in> set es"
proof -
  assume "es \<noteq> []"
  then obtain e es' where es: "es = e # es'" by (cases es) auto
  have "max_turn e (b, 0) = e" by (simp add: max_turn_def)
  then show ?thesis using max_turn_in [of es' e] by (simp add: es)
qed

lemma find_max:
  assumes "exports \<noteq> []"
  shows "\<exists>x. (FindMaxRefCountBase exports counts, x) \<in> set exports \<and>
    (\<forall>(base, y) \<in> set exports. (case counts base of None \<Rightarrow> 0 | Some n \<Rightarrow> n) \<le> (case counts (FindMaxRefCountBase exports counts) of None \<Rightarrow> 0 | Some n \<Rightarrow> n))"
proof -
  let ?es = "map (\<lambda>(base, x). (base, case counts base of None \<Rightarrow> 0 :: nat | Some n \<Rightarrow> n)) exports"
  have "fold max_turn ?es ([], 0) \<in> set ?es" by (rule max_turn_some) (use assms in simp)
  then obtain base x where m: "(base, x) \<in> set exports" "fold max_turn ?es ([], 0) = (base, case counts base of None \<Rightarrow> 0 | Some n \<Rightarrow> n)" by auto
  have "\<forall>e \<in> set ?es. snd e \<le> snd (fold max_turn ?es ([], 0))" using max_turn_fold [of "([], 0)" ?es] by blast
  then show ?thesis using m by (intro exI [of _ x]) (auto simp: FindMaxRefCountBase_def)
qed

definition export_choice :: "string \<Rightarrow> ledger \<Rightarrow> NodeId \<Rightarrow> debt_obj \<Rightarrow> bool" where
  \<comment> \<open>a node holds a share of the name from the base node that is not being destroyed\<close>
  "export_choice name l base x \<longleftrightarrow> (\<exists>(i, nm) \<in> set (nodeMap (l (Export SHM))). map_of nm name = Some x \<and> \<not> export_dying x \<and> first_export x = Some base)"

lemma collect_exports:
  "map_of (CollectExportObjsByName name l) base = Some x \<Longrightarrow> export_choice name l base x"
  "export_choice name l base x \<Longrightarrow> map_of (CollectExportObjsByName name l) base \<noteq> None"
  "distinct (map fst (CollectExportObjsByName name l))"
proof -
  let ?f = "\<lambda>(i :: NodeId, nm) m. case NodeGet name nm of None \<Rightarrow> m
    | Some x \<Rightarrow> if export_dying x then m else case first_export x of None \<Rightarrow> m | Some base \<Rightarrow> AList.update base x m"
  let ?P = "\<lambda>nodes base x. \<exists>(i :: NodeId, nm) \<in> set nodes. map_of nm name = Some x \<and> \<not> export_dying x \<and> first_export x = Some base"
  have all: "(map_of (fold ?f nodes m) base = Some x \<longrightarrow> map_of m base = Some x \<or> ?P nodes base x) \<and>
      (?P nodes base x \<or> map_of m base \<noteq> None \<longrightarrow> map_of (fold ?f nodes m) base \<noteq> None) \<and>
      (distinct (map fst m) \<longrightarrow> distinct (map fst (fold ?f nodes m)))" for nodes m base x
  proof (induction nodes arbitrary: m)
    case Nil then show ?case by simp
  next
    case (Cons e nodes)
    obtain i nm where e: "e = (i, nm)" by (cases e)
    show ?case using Cons.IH [of "?f e m"]
      by (auto simp: e NodeGet_def update_conv' distinct_update split: option.splits if_splits)
  qed
  show "map_of (CollectExportObjsByName name l) base = Some x \<Longrightarrow> export_choice name l base x"
    using all [of "nodeMap (l (Export SHM))" "[]" base x] by (auto simp: CollectExportObjsByName_def export_choice_def)
  show "export_choice name l base x \<Longrightarrow> map_of (CollectExportObjsByName name l) base \<noteq> None"
    using all [of "nodeMap (l (Export SHM))" "[]" base x] by (auto simp: CollectExportObjsByName_def export_choice_def)
  show "distinct (map fst (CollectExportObjsByName name l))"
    using all [of "nodeMap (l (Export SHM))" "[]"] by (simp add: CollectExportObjsByName_def)
qed

text \<open>
  C15: Of the shares of a name, the one to use is exported and not being destroyed, comes from a base node with the most live
  imports, and is answered with exactly the live imports from there; there is none only when no node exports the name.
\<close>
theorem most_used_share:
  assumes "GetMaxRefCountExportObj name l = (r, imports)"
  shows "(r = None \<longleftrightarrow> (\<nexists>base y. export_choice name l base y)) \<and>
    (\<forall>x. r = Some x \<longrightarrow> (\<exists>base. export_choice name l base x \<and> imports = live_refs name l base \<and>
      (\<forall>base' y. export_choice name l base' y \<longrightarrow> length (live_refs name l base') \<le> length (live_refs name l base))))"
proof (cases "CollectExportObjsByName name l")
  case Nil
  then have "\<not> export_choice name l base y" for base y using collect_exports(2) [of name l base y] by auto
  then show ?thesis using assms by (simp add: GetMaxRefCountExportObj_def Nil)
next
  case (Cons e es)
  let ?E = "CollectExportObjsByName name l" and ?c = "CollectImportObjsAndRefCount name l"
  let ?b = "FindMaxRefCountBase ?E (fst ?c)"
  have ne: "?E \<noteq> []" by (simp add: Cons)
  obtain x where x: "(?b, x) \<in> set ?E" and max: "\<forall>(base, y) \<in> set ?E. length (live_refs name l base) \<le> length (live_refs name l ?b)"
    using find_max [OF ne, of "fst ?c"] by (auto simp: collect_imports)
  have mx: "map_of ?E ?b = Some x" using x collect_exports(3) by (rule map_of_is_SomeI [rotated])
  have r: "r = Some x" "imports = live_refs name l ?b"
    using assms ne mx collect_imports(2) [of name l ?b] by (auto simp: GetMaxRefCountExportObj_def case_prod_unfold Let_def)
  have "length (live_refs name l base) \<le> length (live_refs name l ?b)" if "export_choice name l base y" for base y
    using collect_exports(2) [OF that] max by (force dest: map_of_SomeD)
  then show ?thesis using r collect_exports(1) [OF mx] by blast
qed

theorem most_used_share_witness:
  "\<exists>base. export_choice ''m'' (ct_ledger (demo_shares [(''1'', demo_share ''1'' False)])) base (demo_share ''1'' False)"
proof -
  let ?l = "ct_ledger (demo_shares [(''1'', demo_share ''1'' False)])"
  have "GetMaxRefCountExportObj ''m'' ?l = (Some (demo_share ''1'' False), [])"
    by (simp add: GetMaxRefCountExportObj_def CollectExportObjsByName_def CollectImportObjsAndRefCount_def FindMaxRefCountBase_def max_turn_def
        demo_shares_def NodeGet_def type_debt_map_new_def)
  from most_used_share [OF this] show ?thesis by blast
qed

end
