(* ===== verification/ReplayLaws.thy ===== *)
theory ReplayLaws
  imports ReconcileProps ImplSafety
begin

text \<open>
  What a reconciliation tells the scheduler: a list of memory events, in order. What the scheduler makes of them is the
  subject of the theories of the scheduler.
\<close>

section \<open>Events of the scheduler\<close>

definition replay :: "env \<Rightarrow> mem_obj list \<Rightarrow> scheduler_impl \<Rightarrow> scheduler_impl" where
  \<comment> \<open>the scheduler after it has handled the events\<close>
  "replay e xs im = fold (\<lambda>x im. snd (snd (MemoryObjChangeHandler e x im))) xs im"

lemma replay_simps [simp]:
  "replay e [] im = im" "replay e (x # xs) im = replay e xs (snd (snd (MemoryObjChangeHandler e x im)))"
  "replay e (xs @ ys) im = replay e ys (replay e xs im)"
  by (simp_all add: replay_def)

primrec all_fit :: "env \<Rightarrow> mem_obj list \<Rightarrow> scheduler_impl \<Rightarrow> bool" where
  \<comment> \<open>after each event no counter needs more than 64 bits\<close>
  "all_fit e [] im = True"
| "all_fit e (x # xs) im = (ledger_fits (im_account (replay e [x] im)) \<and> all_fit e xs (replay e [x] im))"

lemma replay_run: "all_fit e xs im \<Longrightarrow> impl_step\<^sup>*\<^sup>* im (replay e xs im)"
proof (induction xs arbitrary: im)
  case Nil then show ?case by simp
next
  case (Cons x xs)
  have "impl_step im (replay e [x] im)"
    using Cons.prems by (cases "MemoryObjChangeHandler e x im") (auto intro: mem_event)
  moreover have "impl_step\<^sup>*\<^sup>* (replay e [x] im) (replay e xs (replay e [x] im))" using Cons by simp
  ultimately show ?case by (simp add: converse_rtranclp_into_rtranclp)
qed

section \<open>What the steps tell\<close>

definition tells :: "env \<Rightarrow> (mem_obj \<Rightarrow> bool) \<Rightarrow> mem_obj set \<Rightarrow> controller \<Rightarrow> controller \<Rightarrow> bool" where
  \<comment> \<open>the scheduler is told only what the predicate allows, and at least what is in the set\<close>
  "tells e P R s s' \<longleftrightarrow> (\<exists>xs. ct_scheduler s' = replay e xs (ct_scheduler s) \<and> (\<forall>x \<in> set xs. P x) \<and> R \<subseteq> set xs)"

lemma tells_same: "ct_scheduler s' = ct_scheduler s \<Longrightarrow> tells e P {} s s'"
  unfolding tells_def by (intro exI [of _ "[]"]) simp

lemma tells_refl [simp]: "tells e P {} s s"
  by (simp add: tells_same)

lemma tells_less: "tells e P R s s' \<Longrightarrow> R' \<subseteq> R \<Longrightarrow> tells e P R' s s'"
  unfolding tells_def by blast

lemma tells_none: "tells e P R s s' \<Longrightarrow> tells e P {} s s'"
  by (erule tells_less) simp

lemma tells_both_of: "tells e P R s s' \<Longrightarrow> tells e P R' s' s'' \<Longrightarrow> tells e P (R \<union> R') s s''"
  unfolding tells_def by (elim exE) (rule_tac x = "xs @ xsa" in exI, auto)

lemma tells_trans: "tells e P {} s s' \<Longrightarrow> tells e P R s' s'' \<Longrightarrow> tells e P R s s''"
  using tells_both_of [of e P "{}"] by simp

lemma tells_loop: "(\<And>x s. x \<in> set xs \<Longrightarrow> tells e P (R x) s (f x s)) \<Longrightarrow> tells e P (\<Union>x \<in> set xs. R x) s (fold f xs s)"
  by (induction xs arbitrary: s) (auto intro: tells_both_of)

lemma tells_fold: "(\<And>x s. x \<in> set xs \<Longrightarrow> tells e P {} s (f x s)) \<Longrightarrow> tells e P {} s (fold f xs s)"
  using tells_loop [of xs e P "\<lambda>x. {}" f s] by simp

lemma quiet_ops [simp]:
  "ct_scheduler (on_type t f s) = ct_scheduler s"
  "ct_scheduler (ExportUpdateState k x st s) = ct_scheduler s" "ct_scheduler (EraseExport k x s) = ct_scheduler s"
  "ct_scheduler (ImportUpdateState k x st s) = ct_scheduler s" "ct_scheduler (EraseImport k x s) = ct_scheduler s"
  "ct_scheduler (DeleteExport k x s) = ct_scheduler s"
  by (simp_all add: on_type_def ExportUpdateState_def EraseExport_def ImportUpdateState_def EraseImport_def DeleteExport_def split: option.split)

lemma tells_tell: "P (mem_obj.truncate x) \<Longrightarrow> ct_scheduler s' = ct_scheduler s \<Longrightarrow> tells e P {mem_obj.truncate x} s (tell_scheduler e x s')"
  unfolding tells_def by (intro exI [of _ "[mem_obj.truncate x]"]) (simp add: tell_scheduler_def)

lemma tells_Add:
  assumes "P (mem_obj.truncate x)"
  shows "tells e P {mem_obj.truncate x} s (AddExport k e x s)" "tells e P {mem_obj.truncate x} s (AddImport k e x s)"
  unfolding AddExport_def AddImport_def using assms by (auto intro!: tells_tell)

lemmas tells_AddExport = tells_none [OF tells_Add(1)]
lemmas tells_AddImport = tells_none [OF tells_Add(2)]

section \<open>What a reconciliation tells\<close>

definition recorded :: "NodeMemDebtInfo \<Rightarrow> NodeMemDebtInfo \<Rightarrow> mem_obj \<Rightarrow> bool" where
  \<comment> \<open>an object of one of the two ledgers, whatever its state\<close>
  "recorded m a x \<longleftrightarrow> (\<exists>t. \<exists>y \<in> set (objs_of m t) \<union> set (objs_of a t).
     req_name (mo_req x) = obj_name y \<and> mo_algoResult x = mo_algoResult y)"

definition reported_state :: "surroundings \<Rightarrow> NodeMemDebtInfo \<Rightarrow> UbseMemState \<Rightarrow> bool" where
  \<comment> \<open>the agent has an object in that state, in its ledger or when it is asked for one\<close>
  "reported_state w a st \<longleftrightarrow> (\<exists>t. \<exists>y \<in> set (objs_of a t). mo_state y = st) \<or>
     (\<exists>t name i j y. su_query w t name i j = (0, Some y) \<and> mo_state y = st)"

definition reconciling :: "surroundings \<Rightarrow> NodeMemDebtInfo \<Rightarrow> NodeMemDebtInfo \<Rightarrow> mem_obj \<Rightarrow> bool" where
  "reconciling w m a x \<longleftrightarrow> recorded m a x \<and>
     (mo_state x = UBSE_MEM_EXPORT_DESTROYED \<or> mo_state x = UBSE_MEM_IMPORT_DESTROYED \<or> reported_state w a (mo_state x))"

lemma relabel_fields:
  "obj_name (relabel x) = obj_name x" "mo_algoResult (relabel x) = mo_algoResult x" "mo_state (relabel x) = mo_state x"
  by (simp_all add: relabel_def split: mem_req.split)

lemma recordedI:
  "y \<in> set (objs_of m t) \<union> set (objs_of a t) \<Longrightarrow> obj_name x = obj_name y \<Longrightarrow> mo_algoResult x = mo_algoResult y \<Longrightarrow>
     recorded m a (mem_obj.truncate x)"
  by (force simp: recorded_def mem_obj.defs)

lemma told_simps: "reconciling w m a (mem_obj.truncate x) \<longleftrightarrow> recorded m a (mem_obj.truncate x) \<and>
    (mo_state x = UBSE_MEM_EXPORT_DESTROYED \<or> mo_state x = UBSE_MEM_IMPORT_DESTROYED \<or> reported_state w a (mo_state x))"
  by (simp add: reconciling_def mem_obj.defs)

text \<open>What the scheduler must be told: what is removed, so that it is released, and which imports are adopted.\<close>

definition removed_exports :: "debt_obj list \<Rightarrow> debt_obj set" where
  "removed_exports xs = {x\<lparr>mo_state := UBSE_MEM_EXPORT_DESTROYED\<rparr> | x. x \<in> set xs \<and> mo_state x \<noteq> UBSE_MEM_EXPORT_DESTROYED}"

definition removed_imports :: "debt_obj list \<Rightarrow> debt_obj set" where
  "removed_imports xs = {x\<lparr>mo_state := UBSE_MEM_IMPORT_DESTROYED\<rparr> | x. x \<in> set xs \<and> \<not> import_gone x}"

definition must_tell :: "BorrowedType \<Rightarrow> NodeMemDebtInfo \<Rightarrow> NodeMemDebtInfo \<Rightarrow> mem_obj set" where
  "must_tell k m a = mem_obj.truncate ` (removed_exports (only_master m a (Export k)) \<union> removed_imports (only_master m a (Import k)) \<union>
     {y. \<exists>x \<in> set (only_agent m a (Import k)). adopted k x = Some y})"

lemma gone_told: "x \<in> set (objs_of m t) \<Longrightarrow> st = UBSE_MEM_EXPORT_DESTROYED \<or> st = UBSE_MEM_IMPORT_DESTROYED \<Longrightarrow>
    reconciling w m a (mem_obj.truncate (x\<lparr>mo_state := st\<rparr>))"
  unfolding told_simps by (auto intro: recordedI)

lemma agent_told:
  assumes "x \<in> set (objs_of a t)"
  shows "reconciling w m a (mem_obj.truncate x)" "reconciling w m a (mem_obj.truncate (relabel x))"
  using assms recordedI [of x m t a x] recordedI [of x m t a "relabel x"]
  by (auto simp: told_simps relabel_fields reported_state_def)

lemma asked_told:
  assumes "x \<in> set (objs_of m t)" and "su_query w u name i j = (0, Some y)"
  shows "reconciling w m a (mem_obj.truncate (set_status x y))"
proof -
  have "reported_state w a (mo_state y)" using assms(2) unfolding reported_state_def by blast
  then show ?thesis using assms(1) recordedI [of x m t a "set_status x y"] by (simp add: told_simps set_status_def)
qed

lemma tells_diff:
  assumes "set xs \<subseteq> set (objs_of m t)"
  shows "tells (su_scheduler w) (reconciling w m a) (mem_obj.truncate ` removed_exports xs) s (MasterDiffExportHandler k w xs s)"
    and "tells (su_scheduler w) (reconciling w m a) (mem_obj.truncate ` removed_imports xs) s (MasterDiffImportHandler k w xs s)"
proof -
  let ?T = "tells (su_scheduler w) (reconciling w m a)"
  let ?e = "\<lambda>x :: debt_obj. x\<lparr>mo_state := UBSE_MEM_EXPORT_DESTROYED\<rparr>" and ?i = "\<lambda>x :: debt_obj. x\<lparr>mo_state := UBSE_MEM_IMPORT_DESTROYED\<rparr>"
  have "?T (\<Union>x \<in> set xs. if mo_state x = UBSE_MEM_EXPORT_DESTROYED then {} else {mem_obj.truncate (?e x)}) s (MasterDiffExportHandler k w xs s)"
    unfolding MasterDiffExportHandler_def by (rule tells_loop) (use assms in \<open>auto intro!: tells_Add gone_told\<close>)
  then show "?T (mem_obj.truncate ` removed_exports xs) s (MasterDiffExportHandler k w xs s)"
    by (rule tells_less) (auto simp: removed_exports_def)
  have "?T (\<Union>x \<in> set xs. if import_gone x then {} else {mem_obj.truncate (?i x)}) s (MasterDiffImportHandler k w xs s)"
    unfolding MasterDiffImportHandler_def by (rule tells_loop) (use assms in \<open>auto intro!: tells_Add gone_told\<close>)
  then show "?T (mem_obj.truncate ` removed_imports xs) s (MasterDiffImportHandler k w xs s)"
    by (rule tells_less) (auto simp: removed_imports_def)
qed

lemma quiet_checks [simp]:
  "ct_scheduler (HandleLocalImport k x i dm s) = ct_scheduler s"
  "ct_scheduler (HandleRemoteImport k w x i dm infos s) = ct_scheduler s"
  "ct_scheduler (HandleAgentDiffExportWithRemoteImportNode k w x i infos s) = ct_scheduler s"
  by (auto simp: HandleLocalImport_def HandleRemoteImport_def HandleAgentDiffExportWithRemoteImportNode_def split: option.split prod.split)

lemma tells_both: "tells e P {} s (BothStep k w xs infos s)"
  unfolding BothStep_def BothExportHandler_def
  by (auto intro!: tells_same tells_fold simp: both_turn_def split: option.split)

lemma tells_agent_loop:
  "set xs \<subseteq> set (objs_of a t) \<Longrightarrow> tells (su_scheduler w) (reconciling w m a) {} s (agent_loop k w dm infos xs s)"
proof (induction xs arbitrary: s)
  case Nil then show ?case by (simp add: tells_same)
next
  case (Cons x xs)
  let ?T = "tells (su_scheduler w) (reconciling w m a) {}"
  have add: "?T s (AddExport k (su_scheduler w) x s)" using Cons.prems by (auto intro: tells_AddExport agent_told)
  have rest: "?T s (agent_loop k w dm infos xs s')" if "ct_scheduler s' = ct_scheduler (AddExport k (su_scheduler w) x s)" for s'
    using tells_trans [OF add tells_trans [OF tells_same [OF that]]] Cons by simp
  show ?case using Cons.IH Cons.prems rest tells_trans [OF add tells_same]
    by (auto simp: Let_def split: option.split)
qed

lemma tells_agent_steps:
  assumes "set xs \<subseteq> set (objs_of a t)"
  shows "tells (su_scheduler w) (reconciling w m a) {} s (AgentExportStep k w xs infos s)"
    and "tells (su_scheduler w) (reconciling w m a) (mem_obj.truncate ` {y. \<exists>x \<in> set xs. adopted k x = Some y}) s (AgentImportStep k w xs s)"
proof -
  let ?T = "tells (su_scheduler w) (reconciling w m a)"
  have told: "reconciling w m a (mem_obj.truncate x)" "reconciling w m a (mem_obj.truncate (relabel x))" if "x \<in> set xs" for x
    using that assms by (auto intro!: agent_told)
  show "?T {} s (AgentExportStep k w xs infos s)"
    using tells_agent_loop [OF assms, of w m s k] unfolding AgentExportStep_def AgentDiffExportHandler_def AgentDiffShareExportHandler_def
    by (auto intro!: tells_fold tells_AddExport told)
  have turn: "?T (mem_obj.truncate ` set_option (adopted k x)) s (adopt_turn k w x s)" if "x \<in> set xs" for x s
    using told [OF that] by (auto simp: adopt_turn_def adopted_def intro: tells_Add split: if_splits)
  have "?T (\<Union>x \<in> set xs. mem_obj.truncate ` set_option (adopted k x)) s (AgentImportStep k w xs s)"
    unfolding AgentImportStep_turns by (rule tells_loop) (rule turn)
  then show "?T (mem_obj.truncate ` {y. \<exists>x \<in> set xs. adopted k x = Some y}) s (AgentImportStep k w xs s)"
    by (rule tells_less) auto
qed

lemma quiet_excess: "ct_scheduler (snd (IsImportRunningObjExcess k w i x s)) = ct_scheduler s"
  by (simp add: IsImportRunningObjExcess_def IsImportRunningLastExportSuccess_def split: option.split)

lemma named_found: "named_obj r = Some y \<Longrightarrow> r = Some y"
  by (auto simp: named_obj_def split: option.splits if_splits)

lemma tells_running_turns:
  assumes "x \<in> set (objs_of m t)"
  shows "tells (su_scheduler w) (reconciling w m a) {} s (running_export_turn k w i x s)"
    and "tells (su_scheduler w) (reconciling w m a) {} s (running_import_turn k w i x s)"
proof -
  let ?T = "tells (su_scheduler w) (reconciling w m a) {}"
  have gone: "?T s (AddExport k (su_scheduler w) (x\<lparr>mo_state := UBSE_MEM_EXPORT_DESTROYED\<rparr>) s)"
    "?T s (AddImport k (su_scheduler w) (x\<lparr>mo_state := UBSE_MEM_IMPORT_DESTROYED\<rparr>) s)" for s
    using assms by (auto intro!: tells_AddExport tells_AddImport gone_told)
  have asked: "?T s (AddExport k (su_scheduler w) (set_status x y) s)" "?T s (AddImport k (su_scheduler w) (set_status x y) s)"
    if "fst (su_query w u n j l) = 0" "snd (su_query w u n j l) = Some y" for k s u n j l y
    using asked_told [OF assms, of w u n j l y a] that by (auto simp: prod_eq_iff intro!: tells_AddExport tells_AddImport)
  define s1 where "s1 = snd (IsImportRunningObjExcess k w i x s)"
  have ex: "?T s s1" by (simp add: tells_same quiet_excess s1_def)
  then have ex2: "?T s (AddImport k (su_scheduler w) (x\<lparr>mo_state := UBSE_MEM_IMPORT_DESTROYED\<rparr>) s1)"
    using gone(2) by (rule tells_trans)
  show "?T s (running_export_turn k w i x s)"
    unfolding running_export_turn_def case_prod_unfold
    using gone(1) [of s] by (simp split: option.split) (auto dest!: named_found intro: asked)
  show "?T s (running_import_turn k w i x s)"
    unfolding running_import_turn_def case_prod_unfold s1_def [symmetric]
    using gone(2) [of s] ex ex2 by (simp split: option.split) (auto dest!: named_found intro: asked)
qed

lemma tells_running:
  "set xs \<subseteq> set (objs_of m t) \<Longrightarrow> tells (su_scheduler w) (reconciling w m a) {} s (MasterRunningExportHandler k w i xs s)"
  "set xs \<subseteq> set (objs_of m t) \<Longrightarrow> tells (su_scheduler w) (reconciling w m a) {} s (MasterRunningImportHandler k w i xs s)"
  unfolding MasterRunningExportHandler_def MasterRunningImportHandler_def
  by (rule tells_fold; auto intro: tells_running_turns)+

lemma tells_BorrowLedger: "tells (su_scheduler w) (reconciling w m a) (must_tell k m a) s (BorrowLedger k w i m a infos s)"
proof -
  have sub: "set (only_master m a t) \<subseteq> set (objs_of m t)" "set (only_agent m a t) \<subseteq> set (objs_of a t)"
    "set (running_objs m t) \<subseteq> set (objs_of m t)" for t
    by (auto simp: only_master_def only_agent_def settled_def running_objs_def)
  show ?thesis unfolding BorrowLedger_steps must_tell_def image_Un Un_assoc
    by (rule tells_both_of [OF tells_diff(1) [OF sub(1)] tells_both_of [OF tells_diff(2) [OF sub(1)] tells_trans [OF tells_both
        tells_trans [OF tells_agent_steps(1) [OF sub(2)] tells_both_of [OF tells_agent_steps(2) [OF sub(2)]
        tells_trans [OF tells_running(1) [OF sub(3)] tells_running(2) [OF sub(3)]], simplified Un_empty_right]]]]])
qed

lemma tells_reconcile_all: "tells (su_scheduler w) (reconciling w m a) (\<Union>k. must_tell k m a) s (reconcile_all w i m a infos s)"
proof -
  have "tells (su_scheduler w) (reconciling w m a) (must_tell FD m a \<union> (must_tell NUMA m a \<union> (must_tell ADDR m a \<union> must_tell SHM m a)))
      s (reconcile_all w i m a infos s)"
    unfolding reconcile_all_def
    by (rule tells_both_of [OF tells_BorrowLedger tells_both_of [OF tells_BorrowLedger tells_both_of [OF tells_BorrowLedger tells_BorrowLedger]]])
  moreover have "(\<Union>k. must_tell k m a) \<subseteq> must_tell FD m a \<union> (must_tell NUMA m a \<union> (must_tell ADDR m a \<union> must_tell SHM m a))"
  proof
    fix x assume "x \<in> (\<Union>k. must_tell k m a)"
    then obtain k where "x \<in> must_tell k m a" by blast
    then show "x \<in> must_tell FD m a \<union> (must_tell NUMA m a \<union> (must_tell ADDR m a \<union> must_tell SHM m a))" by (cases k) auto
  qed
  ultimately show ?thesis by (rule tells_less)
qed

definition reconciles :: "surroundings \<Rightarrow> UbseNodeInfo \<Rightarrow> u32 \<Rightarrow> bool" where
  \<comment> \<open>the leader handles a node in reconciliation, and the ledgers could be collected\<close>
  "reconciles w node ret \<longleftrightarrow> uo_clusterState node = UBSE_NODE_SMOOTHING \<and> su_leader w At_handler \<and> ret = 0"

lemma LedgerHandler_tells:
  assumes "CollectAllLedger w (GetMasterCtxLedger (uo_nodeId node) (ct_ledger s)) (uo_nodeId node) s = (ret, infos)"
    and "m = GetMasterCtxLedger (uo_nodeId node) (ct_ledger s)" and "a = fst (info_at infos (uo_nodeId node))"
  shows "tells (su_scheduler w) (reconciling w m a) (if reconciles w node ret then \<Union>k. must_tell k m a else {}) s (snd (LedgerHandler w node s))"
proof -
  let ?i = "uo_nodeId node"
  have "ct_scheduler (snd (LedgerHandler w node s)) =
      ct_scheduler (if reconciles w node ret then reconcile_all w ?i m a (snd (info_at infos ?i)) s else s)"
    using assms by (auto simp: LedgerHandler_def CheckNodeIsMaster_def Let_def case_prod_unfold of_scheduler.notify of_scheduler.single
        of_scheduler.single_export reconcile_all_def BorrowLedger_def reconciles_def)
  then show ?thesis using tells_reconcile_all [of w m a s ?i] by (auto simp: tells_def intro: exI [of _ "[]"])
qed

section \<open>The books of the scheduler\<close>

definition books_exact :: "scheduler_impl \<Rightarrow> bool" where
  \<comment> \<open>the cache is well formed, and what is booked on NUMA nodes and sockets is what the accounts say\<close>
  "books_exact im \<longleftrightarrow> cache_ok (im_nodeInfo im) \<and>
    (\<forall>i j u. GetNumaInfo (im_nodeInfo im) i j = Some u \<longrightarrow>
      unat (memLent u) = total_lent (im_account im) (i, j) \<and> unat (memShared u) = total_shared (im_account im) (i, j)) \<and>
    (\<forall>i sid s. GetSocketInfo (im_nodeInfo im) i sid = Some s \<longrightarrow> unat (sk_lentCount s) = total_count (im_account im) (i, sid))"

lemma run_books: "impl_step\<^sup>*\<^sup>* SchedulerImpl_new im \<Longrightarrow> books_exact im"
  using ledger_ok_reads [of "im_nodeInfo im" "im_account im"] impl_ok_run [of im] by (auto simp: books_exact_def impl_ok_def)

lemma idle_event:
  assumes "mo_state x \<noteq> UBSE_MEM_SCHEDULING" and "ar_exportNumaInfos (mo_algoResult x) = []"
  shows "snd (snd (MemoryObjChangeHandler e x im)) = im"
  using assms by (simp add: MemoryObjChangeHandler_def UpdateSchedulerAccount_def)

lemma idle_fit:
  assumes "ledger_fits (im_account im)"
    and "\<And>x. x \<in> set xs \<Longrightarrow> mo_state x \<noteq> UBSE_MEM_SCHEDULING \<and> ar_exportNumaInfos (mo_algoResult x) = []"
  shows "all_fit e xs im"
  using assms by (induction xs) (auto simp: idle_event)

end
