(* ===== verification/Spec2Isabelle.thy ===== *)
theory Spec2Isabelle
  imports NamedLenders ElectionHandlers ElectionProps MemSerial AgentProps OrphanProps ShmProps ReplayLaws
begin

text \<open>
  The engine pools the memory of a cluster: a node that needs memory borrows it from another. This development models the
  parts that decide and keep the books, and what carries their messages (paths are under \<open>src/src/\<close>).

  \<^bold>\<open>How the parts work together.\<close> The nodes elect a master (\<open>framework/ha\<close>). On the master the memory controller keeps the
  ledger of all memory objects (\<open>controllers/mem/mem_controller/debt\<close>); every change of an object is told to the memory scheduler
  (\<open>controllers/mem/mem_scheduler\<close>), which books it on its picture of the nodes and, for a new request, chooses the node, socket
  and NUMA nodes that lend. When a node comes back, the master collects the ledgers concerned and reconciles its own with them
  (\<open>ubse_mem_controller_ledger.cpp\<close>): objects are dropped, adopted or destroyed, and the scheduler is told. The messages between nodes
  are written and read by the serialiser (\<open>framework/serde\<close>, \<open>framework/misc\<close>).

  \<^bold>\<open>Shared ground.\<close> Prelude has the machine types and return codes, the \<open>std::map\<close> and \<open>std::sort\<close> interfaces (locales \<open>std_map\<close>,
  \<open>std_sort\<close>) and list lemmas; MathUtil the checked arithmetic of \<open>ubse_math_util.h\<close>; StrUtil and ParseUtil the string functions of
  \<open>ubse_str_util.cpp\<close> with the standard library's number grammar; FloatModel the rounded
  arithmetic of \<open>double\<close> (locale \<open>rounding\<close>).

  \<^bold>\<open>The scheduler.\<close>
  MemTypes: the requests, objects and node reports (\<open>ubse_mmi_def.h\<close>, \<open>ubse_node_controller.h\<close>).
  SchedulerCache: NUMA nodes, sockets and nodes with what is booked on them (\<open>scheduler_cache/\<close>); the records \<open>numa_info\<close>,
  \<open>socket_info\<close> and \<open>node_info\<close> are the classes.
  AccountInfo, AccountManager: the state machine of one account and the accounts by identifier.
  NodeManager: configuration, node reports, links, look-ups. SchedRequest: how a request chooses its filters, scorers and weights.
  Filters, Scores: the eighteen filters and nine scorers, the chain and the ranking.
  SchedulerImpl: the public operations; \<open>lock_\<close> makes each one step.
  Laws: Ledger (locale \<open>item_counter\<close>; the books equal the sums over the accounts along every history), FilterLaws (locale
  \<open>sound_filter\<close>; what each filter removes, and that the chain is exact), ScoreLaws (locales \<open>total_scorer\<close>, \<open>unit_scorer\<close>; ranking and
  bounds), ImplLaws (what a granted or refused request means), ImplSafety (the reachable schedulers; no NUMA node is lent
  beyond its water line), NamedLenders (requests that name their lenders).

  \<^bold>\<open>The ledger and its reconciliation.\<close>
  DebtLedger: the template of \<open>ubse_mem_debt_ledger.h\<close> over any element type, and its refinement of a flat map (locale \<open>store\<close>).
  DebtObjects: the objects, the ledger of all eight types, its snapshots, and the operations \<open>Add...\<close>, \<open>Delete...\<close>, \<open>Erase...\<close>,
  \<open>...UpdateState\<close> of \<open>api/\<close>. The record \<open>controller\<close> is the ledger, the scheduler, the messages sent so far and the nodes whose
  ledger is initialised. The code repeats each function for every kind of borrowing; the body is one definition with the kind as
  argument, and \<open>AddFdImport\<close>, \<open>AddNumaImport\<close> and so on are its instances.
  LedgerFilter: \<open>ubse_mem_controller_ledger_filter.cpp\<close>. Collect: collecting ledgers, debts of which only the import is left, decoder
  states, states of remote NUMA nodes. Reconcile: the handlers and \<open>LedgerHandler\<close>. ShmClean: removal of unused shares, and the share
  to use among several of one name.
  Laws: ReconcileLaws and SnapshotLaws (frames, steps; locale \<open>unsent\<close>), ReconcileProps (the imports after a
  reconciliation), OrphanProps (what may be destroyed), ShmProps, AgentProps, ReplayLaws and the end of this theory (what the
  scheduler is told, and that its books survive).

  \<^bold>\<open>The election.\<close>
  ElectionDef: data and settings. ElectionNodeMgr: the node's identity and the nodes it may elect with. ElectionRoles,
  ElectionFollowers, ElectionMaster: the four roles, their timers and packet handlers, and the role manager. ElectionMgr: dispatch, and the
  steps of one node as an inductive relation. ElectionHandlers: the registry of role-change handlers.
  Laws: ElectionLaws (reachable states) and ElectionProps (votes, time-outs, merging of two masters, peers that come and go).

  \<^bold>\<open>Messages.\<close>
  SerialUtil: the serialiser and the deserialiser over explicit buffers. SerialLaws, SerialCodec (locale \<open>codec\<close>), SerialMessage: what is
  written and how it is read. AutoSerial, AutoSerialLaws, SerialLive: the templates of \<open>ubse_auto_serial_util.hpp\<close> as functions over a
  description of the C++ type. ElectionSerial: the packets of the election. MemSerial: the 62 registered types of the memory
  controller and the message with an object's state. SerialProps: memory safety, round trips, type safety.

  \<^bold>\<open>Conventions.\<close> A \<open>std::map\<close> is a list ordered by key. An \<open>unordered_map\<close> that is only looked up is a partial function; one that is
  also walked over is the list of its entries in the order it iterates, a new key at the end, and no property depends on that place. Machine
  integers keep their width and wrap. A \<open>double\<close> is a rational, each operation the exact one followed by rounding (no fused
  operations). Failures are values: the code's return codes, \<open>option\<close> for a missing answer, and \<open>None\<close> for undefined behaviour of the
  serialiser. What the code asks of other modules and of the platform is a parameter: the record \<open>env\<close> of the scheduler, the records
  \<open>surroundings\<close> of the election (the clock, \<open>election_world\<close>, the peers) and of the memory controller (leadership, node states, peers,
  links, hardware), configuration values, and the result of allocation in the serialiser. Questions whose answer may change while
  a handler runs carry the moment at which they are asked.

  \<^bold>\<open>Atomicity.\<close> An operation under a lock is one step. In the election, where the code releases the role mutex to send, a timer tick is
  two steps and anything may happen between them; the replies to the heartbeats of one round come in without other steps
  between them. A reconciliation runs as one step, with the ledger read again where the code reads it again; where other threads
  matter most (changing decoders, the five minutes before shares are removed) what they do meanwhile is an
  arbitrary function \<open>between\<close>. The task that notifies states of remote NUMA nodes runs at once.

  \<^bold>\<open>Bounds.\<close> Every loop is a structural recursion, a fold, or a function with a termination proof, except \<open>StrSplit\<close>, whose loop may not
  end, and the growing of a serialiser's buffer, which are \<open>partial_function\<close>s with \<open>None\<close> for not returning: the first is shown to
  return exactly for non-empty separators, the second always. The code's own limits are the numbers of the code: twenty attempts to
  collect a ledger (\<open>MAX_RETRIES\<close>), ten to invalidate a decoder. \<open>ledger_fits\<close> and \<open>books_fit\<close> say that no counter needs more than 64
  bits; the counters of the code wrap beyond that.

  \<^bold>\<open>What is not modelled.\<close> Logging; threads, timers and the transport; the asynchronous handlers of borrow and return requests and the
  agent's calls of the memory driver; fault handling; the communication, configuration, storage, plugin and security frameworks; the
  node, NPU and URMA controllers; the command line, SDK and add-ons. They are input and output, glue, or separate products.
  Failing allocation is modelled in the serialiser only.
\<close>

section \<open>The ledger and the scheduler\<close>

text \<open>
  C11: A reconciliation reaches the scheduler only as a list of memory events, each about an object of the master's or the
  agent's ledger with the allocation recorded there, either destroyed or in a state that the agent has reported; so memory is
  never allocated unless an agent reports an object that is being scheduled. Nothing is forgotten: every settled object that only
  the master has is released, and every import that is adopted is booked. If no counter outgrows 64 bits, the scheduler makes a
  run of its steps, and its books remain those of the accounts.
\<close>
theorem reconciliation_replayed:
  assumes "i = uo_nodeId node" and "m = GetMasterCtxLedger i (ct_ledger s)"
    and "CollectAllLedger w m i s = (ret, infos)" and "a = fst (info_at infos i)"
  shows "\<exists>xs. ct_scheduler (snd (LedgerHandler w node s)) = replay (su_scheduler w) xs (ct_scheduler s) \<and>
    (\<forall>x \<in> set xs. recorded m a x \<and>
      (mo_state x = UBSE_MEM_EXPORT_DESTROYED \<or> mo_state x = UBSE_MEM_IMPORT_DESTROYED \<or> reported_state w a (mo_state x))) \<and>
    (reconciles w node ret \<longrightarrow> (\<Union>k. must_tell k m a) \<subseteq> set xs) \<and>
    (impl_step\<^sup>*\<^sup>* SchedulerImpl_new (ct_scheduler s) \<and> all_fit (su_scheduler w) xs (ct_scheduler s) \<longrightarrow>
      impl_step\<^sup>*\<^sup>* (ct_scheduler s) (ct_scheduler (snd (LedgerHandler w node s))) \<and>
      books_exact (ct_scheduler (snd (LedgerHandler w node s))))"
proof -
  obtain xs where xs: "ct_scheduler (snd (LedgerHandler w node s)) = replay (su_scheduler w) xs (ct_scheduler s)"
    "\<forall>x \<in> set xs. reconciling w m a x" "(if reconciles w node ret then \<Union>k. must_tell k m a else {}) \<subseteq> set xs"
    using LedgerHandler_tells [of w node s ret infos m a] assms unfolding tells_def by blast
  show ?thesis
    using xs replay_run [of "su_scheduler w" xs "ct_scheduler s"]
      run_books [OF rtranclp_trans, of "ct_scheduler s" "replay (su_scheduler w) xs (ct_scheduler s)"]
    by (intro exI [of _ xs]) (auto simp: reconciling_def split: if_splits)
qed

lemma demo_import_fields [simp]:
  "obj_name (demo_import n i st) = n" "mo_state (demo_import n i st) = st" "mo_algoResult (demo_import n i st) = algo_result_init"
  "(demo_import n i st)\<lparr>mo_state := st'\<rparr> = demo_import n i st'"
  by (simp_all add: demo_import_def)

text \<open>The node that lost one import and gained another: neither has an allocation, so the scheduler stays as it is.\<close>

theorem reconciliation_replayed_witness:
  "\<exists>xs. mem_obj.truncate (demo_import ''a'' ''2'' UBSE_MEM_IMPORT_DESTROYED) \<in> set xs \<and>
     mem_obj.truncate (demo_import ''b'' ''2'' UBSE_MEM_IMPORT_SUCCESS) \<in> set xs \<and>
     ct_scheduler (snd (LedgerHandler (demo_world (demo_info (Import FD) [demo_import ''b'' ''2'' UBSE_MEM_IMPORT_SUCCESS]))
       (demo_node_at ''2'' UBSE_NODE_SMOOTHING) demo_master)) = replay plain_env xs SchedulerImpl_new \<and>
     replay plain_env xs SchedulerImpl_new = SchedulerImpl_new \<and> books_exact SchedulerImpl_new"
proof -
  let ?a = "demo_info (Import FD) [demo_import ''b'' ''2'' UBSE_MEM_IMPORT_SUCCESS]"
  let ?w = "demo_world ?a" and ?m = "GetMasterCtxLedger ''2'' (ct_ledger demo_master)" and ?n = "demo_node_at ''2'' UBSE_NODE_SMOOTHING"
  have w: "su_leader ?w At_target" "CollectLedge ?w At_target ''2'' = (0, ?a)" "fst (su_linkUpNodes ?w) = 0" "''2'' \<noteq> su_current ?w"
    by (simp_all add: demo_world_def CollectLedge_def)
  obtain infos where c: "CollectAllLedger ?w ?m ''2'' demo_master = (0, infos)" and i: "map_of infos ''2'' = Some ?a"
    using collect_all_target [OF demo_nodes(1) w(4,1,2,3)] by blast
  have a: "?a = fst (info_at infos ''2'')" by (simp add: info_at_def i)
  have n: "''2'' = uo_nodeId ?n" by (simp add: demo_node_at_def)
  have s: "ct_scheduler demo_master = SchedulerImpl_new" by (simp add: demo_master_def)
  obtain xs where xs: "ct_scheduler (snd (LedgerHandler ?w ?n demo_master)) = replay (su_scheduler ?w) xs SchedulerImpl_new"
    "\<forall>x \<in> set xs. recorded ?m ?a x \<and>
      (mo_state x = UBSE_MEM_EXPORT_DESTROYED \<or> mo_state x = UBSE_MEM_IMPORT_DESTROYED \<or> reported_state ?w ?a (mo_state x))"
    "(\<Union>k. must_tell k ?m ?a) \<subseteq> set xs"
    "all_fit (su_scheduler ?w) xs SchedulerImpl_new \<longrightarrow> books_exact (ct_scheduler (snd (LedgerHandler ?w ?n demo_master)))"
    using reconciliation_replayed [OF n refl c a] unfolding s by (auto simp: reconciles_def demo_world_def demo_node_at_def)
  have m: "objs_of ?m t = (if t = Import FD then [demo_import ''a'' ''2'' UBSE_MEM_IMPORT_SUCCESS] else [])" for t
    unfolding master_ledger [OF demo_nodes(2)] by (simp add: GetNodeMemDebtInfo_def FindNodeMap_def objs_of_def demo_master_def
        demo_info_def type_debt_map_new_def)
  have b: "objs_of ?a t = (if t = Import FD then [demo_import ''b'' ''2'' UBSE_MEM_IMPORT_SUCCESS] else [])" for t
    by (simp add: objs_of_def demo_info_def no_debt_def)
  have only: "only_master ?m ?a (Import FD) = [demo_import ''a'' ''2'' UBSE_MEM_IMPORT_SUCCESS]"
    "only_agent ?m ?a (Import FD) = [demo_import ''b'' ''2'' UBSE_MEM_IMPORT_SUCCESS]"
    by (simp_all add: only_master_def only_agent_def settled_def running_objs_def m b find_diff_def obj_names_def is_running_def
        running_import_def)
  have quiet: "mo_state x \<noteq> UBSE_MEM_SCHEDULING \<and> ar_exportNumaInfos (mo_algoResult x) = []" if "x \<in> set xs" for x
    using xs(2) that by (auto simp: recorded_def reported_state_def m b algo_result_init_def demo_world_def split: if_splits)
  then have "replay (su_scheduler ?w) xs im = im" for im by (induction xs) (auto simp: idle_event)
  moreover have "all_fit (su_scheduler ?w) xs SchedulerImpl_new"
    using quiet by (intro idle_fit) (simp_all add: SchedulerImpl_new_def ledger_fits_def total_defs SchedulerAccountManager_new_def)
  moreover have "{mem_obj.truncate (demo_import ''a'' ''2'' UBSE_MEM_IMPORT_DESTROYED),
      mem_obj.truncate (demo_import ''b'' ''2'' UBSE_MEM_IMPORT_SUCCESS)} \<subseteq> must_tell FD ?m ?a"
    by (auto simp: must_tell_def only removed_imports_def adopted_def import_gone_def intro!: imageI)
  ultimately show ?thesis using xs(1,3,4)
    by (intro exI [of _ xs]) (auto simp: demo_world_def)
qed

end
